(* ===== verification/Rustium_Prelude.thy ===== *)
theory Rustium_Prelude
  imports
    Main
    "HOL-Library.Word"
    "HOL-Library.Char_ord"
    "HOL-Library.List_Lexorder"
    "HOL-Library.Product_Lexorder"
    "HOL-Library.Sublist"
begin

text \<open>
  What every component of the model shares: the machine integers, the error type of
  \<^verbatim>\<open>crates/rustium-core/src/error.rs\<close> with the result type and the combinators that stand for
  Rust's \<^verbatim>\<open>?\<close> and \<^verbatim>\<open>collect::<Result<Vec<_>>>()\<close>, and the three map types of the code
  (\<^verbatim>\<open>IndexMap\<close>, \<^verbatim>\<open>BTreeMap\<close>, \<^verbatim>\<open>HashMap\<close>) as association lists whose order is the iteration
  order, with one locale for the laws the components use of them.
\<close>

unbundle bit_operations_syntax

named_theorems result_simps \<open>unfolding of the result combinators\<close>

section \<open>Machine integers\<close>

type_synonym u8 = "8 word"
type_synonym u16 = "16 word"
type_synonym u32 = "32 word"
type_synonym u64 = "64 word"

text \<open>
  A signed integer is the word of its two's complement, read with \<^term>\<open>sint\<close>; a
  floating-point number is the word of its IEEE 754 bits (the code never computes with one).
\<close>

type_synonym i32 = "32 word"
type_synonym i64 = "64 word"
type_synonym f64 = "64 word"

definition u64_max :: u64 where
  "u64_max = 0xFFFFFFFFFFFFFFFF"

text \<open>Rust's \<^verbatim>\<open>saturating_add\<close> and \<^verbatim>\<open>saturating_mul\<close> on an unsigned word.\<close>

definition sat_add :: "'n::len word \<Rightarrow> 'n word \<Rightarrow> 'n word" where
  "sat_add a b = (if unat a + unat b < 2 ^ LENGTH('n) then a + b else - 1)"

definition sat_mul :: "'n::len word \<Rightarrow> 'n word \<Rightarrow> 'n word" where
  "sat_mul a b = (if unat a * unat b < 2 ^ LENGTH('n) then a * b else - 1)"

lemma unat_all_ones: "unat (- 1 :: 'n::len word) = 2 ^ LENGTH('n) - 1"
  by (simp add: unsigned_minus_1_eq_mask mask_eq_exp_minus_1)

lemma unat_sat_add:
  fixes a b :: "'n::len word"
  shows "unat (sat_add a b) = min (unat a + unat b) (2 ^ LENGTH('n) - 1)"
proof (cases "unat a + unat b < 2 ^ LENGTH('n)")
  case True
  then show ?thesis by (auto simp: sat_add_def unat_word_ariths min_def)
next
  case False
  then show ?thesis by (auto simp: sat_add_def unat_all_ones min_def)
qed

lemma sat_add_mono: "a \<le> sat_add a b" for a b :: "'n::len word"
proof -
  have "unat a \<le> 2 ^ LENGTH('n) - 1"
    using unsigned_less [of a, where ?'a = nat] by linarith
  then show ?thesis by (simp add: word_le_nat_alt unat_sat_add)
qed

section \<open>Errors and results\<close>

datatype rust_error =
    Configuration string
  | Source string
  | RetryableSource string
  | Encoding string
  | Sink string
  | RetryableSink string
  | State string
  | Invariant string
  | Cancelled
  | Json string
  | Io string

type_synonym 'a result = "rust_error + 'a"

abbreviation Ok :: "'a \<Rightarrow> 'a result" where
  "Ok \<equiv> Inr"

abbreviation Err :: "rust_error \<Rightarrow> 'a result" where
  "Err \<equiv> Inl"

definition is_ok :: "'a result \<Rightarrow> bool" where
  "is_ok r = (case r of Inl _ \<Rightarrow> False | Inr _ \<Rightarrow> True)"

lemma is_ok_simps [simp]: "is_ok (Ok x)" "\<not> is_ok (Err e)"
  by (simp_all add: is_ok_def)

text \<open>The operator \<^verbatim>\<open>?\<close>: the first error is returned at once.\<close>

definition rbind :: "'a result \<Rightarrow> ('a \<Rightarrow> 'b result) \<Rightarrow> 'b result" where
  "rbind r f = (case r of Inl e \<Rightarrow> Inl e | Inr x \<Rightarrow> f x)"

lemma rbind_simps [simp]: "rbind (Ok x) f = f x" "rbind (Err e) f = Err e"
  by (simp_all add: rbind_def)

lemma rbind_Ok_iff: "rbind r f = Ok y \<longleftrightarrow> (\<exists>x. r = Ok x \<and> f x = Ok y)"
  by (cases r) auto

lemma rbind_Err_iff: "rbind r f = Err e \<longleftrightarrow> r = Err e \<or> (\<exists>x. r = Ok x \<and> f x = Err e)"
  by (cases r) auto

lemma rbind_cong [fundef_cong]:
  "r = r' \<Longrightarrow> (\<And>x. r' = Ok x \<Longrightarrow> f x = f' x) \<Longrightarrow> rbind r f = rbind r' f'"
  by (cases r') auto

definition ok_or :: "rust_error \<Rightarrow> 'a option \<Rightarrow> 'a result" where
  "ok_or e o' = (case o' of None \<Rightarrow> Err e | Some x \<Rightarrow> Ok x)"

lemma ok_or_simps [simp]: "ok_or e None = Err e" "ok_or e (Some x) = Ok x"
  by (simp_all add: ok_or_def)

lemma ok_or_Ok_iff [simp]: "ok_or e o' = Ok x \<longleftrightarrow> o' = Some x"
  by (cases o') auto

text \<open>
  A fallible operation on a state that stays as it is when an error is returned: the same
  combinators with the state passed on.
\<close>

type_synonym ('s, 'a) stateful = "'s \<Rightarrow> 'a result \<times> 's"

definition sreturn :: "'a \<Rightarrow> ('s, 'a) stateful" where
  "sreturn x s = (Ok x, s)"

definition slift :: "'a result \<Rightarrow> ('s, 'a) stateful" where
  "slift r s = (r, s)"

definition sbind :: "('s, 'a) stateful \<Rightarrow> ('a \<Rightarrow> ('s, 'b) stateful) \<Rightarrow> ('s, 'b) stateful" where
  "sbind m f s = (case m s of (Inl e, t) \<Rightarrow> (Inl e, t) | (Inr x, t) \<Rightarrow> f x t)"

lemma sreturn_apply [simp]: "sreturn x s = (Ok x, s)"
  by (simp add: sreturn_def)

lemma slift_apply [simp]: "slift r s = (r, s)"
  by (simp add: slift_def)

lemma sbind_simps [simp]:
  "m s = (Ok x, t) \<Longrightarrow> sbind m f s = f x t"
  "m s = (Err e, t) \<Longrightarrow> sbind m f s = (Err e, t)"
  by (simp_all add: sbind_def)

lemma sbind_slift [simp]:
  "sbind (slift (Ok x)) f = f x" "sbind (slift (Err e)) f = slift (Err e)"
  by (simp_all add: sbind_def fun_eq_iff)

lemma sbind_Ok_iff: "sbind m f s = (Ok y, u) \<longleftrightarrow> (\<exists>x t. m s = (Ok x, t) \<and> f x t = (Ok y, u))"
  by (auto simp: sbind_def split: prod.splits sum.splits)

text \<open>A loop over a list in which every step may fail and changes the state.\<close>

fun scollect :: "('a \<Rightarrow> ('s, 'b) stateful) \<Rightarrow> 'a list \<Rightarrow> ('s, 'b list) stateful" where
  "scollect f [] = sreturn []"
| "scollect f (x # xs) = sbind (f x) (\<lambda>y. sbind (scollect f xs) (\<lambda>ys. sreturn (y # ys)))"

definition sfor :: "'a list \<Rightarrow> ('a \<Rightarrow> ('s, unit) stateful) \<Rightarrow> ('s, unit) stateful" where
  "sfor xs f = sbind (scollect f xs) (\<lambda>_. sreturn ())"

lemma sfor_simps [simp]:
  "sfor [] f = sreturn ()"
  "sfor (x # xs) f = sbind (f x) (\<lambda>_. sfor xs f)"
  by (auto simp: sfor_def sbind_def sreturn_def fun_eq_iff split: prod.splits sum.splits)

text \<open>\<^verbatim>\<open>iter().map(f).collect::<Result<Vec<_>>>()\<close>.\<close>

fun collect_results :: "('a \<Rightarrow> 'b result) \<Rightarrow> 'a list \<Rightarrow> 'b list result" where
  "collect_results f [] = Ok []"
| "collect_results f (x # xs) =
     rbind (f x) (\<lambda>y. rbind (collect_results f xs) (\<lambda>ys. Ok (y # ys)))"

lemma collect_results_Ok_iff:
  "collect_results f xs = Ok ys \<longleftrightarrow> list_all2 (\<lambda>x y. f x = Ok y) xs ys"
  by (induction xs arbitrary: ys) (auto simp: rbind_Ok_iff list_all2_Cons1)

lemma collect_results_total:
  "(\<And>x. x \<in> set xs \<Longrightarrow> f x = Ok (g x)) \<Longrightarrow> collect_results f xs = Ok (map g xs)"
  by (induction xs) auto

lemma collect_results_length: "collect_results f xs = Ok ys \<Longrightarrow> length ys = length xs"
  by (auto simp: collect_results_Ok_iff dest: list_all2_lengthD)

text \<open>\<^verbatim>\<open>collect::<Option<Vec<_>>>()\<close>.\<close>

fun collect_options :: "('a \<Rightarrow> 'b option) \<Rightarrow> 'a list \<Rightarrow> 'b list option" where
  "collect_options f [] = Some []"
| "collect_options f (x # xs) =
     (case f x of None \<Rightarrow> None
      | Some y \<Rightarrow> (case collect_options f xs of None \<Rightarrow> None | Some ys \<Rightarrow> Some (y # ys)))"

lemma collect_options_Some_iff:
  "collect_options f xs = Some ys \<longleftrightarrow> list_all2 (\<lambda>x y. f x = Some y) xs ys"
proof (induction xs arbitrary: ys)
  case Nil
  then show ?case by auto
next
  case (Cons x xs)
  show ?case
    by (auto simp: list_all2_Cons1 Cons.IH [symmetric] split: option.splits)
qed

lemma collect_options_map:
  "collect_options f xs = Some ys \<longleftrightarrow> map f xs = map Some ys"
proof -
  have "list_all2 (\<lambda>x y. f x = Some y) xs ys \<longleftrightarrow> map f xs = map Some ys"
    by (induction xs arbitrary: ys) (auto simp: list_all2_Cons1 Cons_eq_map_conv)
  then show ?thesis by (simp add: collect_options_Some_iff)
qed

text \<open>A separator that occurs in neither prefix splits a list in one way.\<close>

lemma separated_inject:
  "z \<notin> set a \<Longrightarrow> z \<notin> set a' \<Longrightarrow> a @ z # x = a' @ z # x' \<longleftrightarrow> a = a' \<and> x = x'"
proof (induction a arbitrary: a')
  case Nil
  then show ?case by (cases a') auto
next
  case (Cons b a)
  then show ?case by (cases a') auto
qed

section \<open>Maps as association lists\<close>

text \<open>
  \<^verbatim>\<open>IndexMap::insert\<close> replaces the value of a present key in place and appends a new key;
  \<^verbatim>\<open>shift_remove\<close> deletes an entry and keeps the order of the others. A \<^verbatim>\<open>HashMap\<close> is the same list
  read up to order: a function of the code that iterates one sorts the result, or takes the order of
  iteration as a parameter here.
\<close>

fun im_insert :: "'k \<Rightarrow> 'v \<Rightarrow> ('k \<times> 'v) list \<Rightarrow> ('k \<times> 'v) list" where
  "im_insert k v [] = [(k, v)]"
| "im_insert k v ((k', v') # m) =
     (if k = k' then (k, v) # m else (k', v') # im_insert k v m)"

fun im_remove :: "'k \<Rightarrow> ('k \<times> 'v) list \<Rightarrow> ('k \<times> 'v) list" where
  "im_remove k [] = []"
| "im_remove k ((k', v') # m) = (if k = k' then m else (k', v') # im_remove k m)"

definition im_inv :: "('k \<times> 'v) list \<Rightarrow> bool" where
  "im_inv m = distinct (map fst m)"

text \<open>\<^verbatim>\<open>BTreeMap\<close>: the entries in the order of their keys.\<close>

fun bt_insert :: "'k::linorder \<Rightarrow> 'v \<Rightarrow> ('k \<times> 'v) list \<Rightarrow> ('k \<times> 'v) list" where
  "bt_insert k v [] = [(k, v)]"
| "bt_insert k v ((k', v') # m) =
     (if k < k' then (k, v) # (k', v') # m
      else if k = k' then (k, v) # m else (k', v') # bt_insert k v m)"

definition bt_inv :: "('k::linorder \<times> 'v) list \<Rightarrow> bool" where
  "bt_inv m = (sorted (map fst m) \<and> distinct (map fst m))"

lemma set_im_insert_keys [simp]: "fst ` set (im_insert k v m) = insert k (fst ` set m)"
  by (induction k v m rule: im_insert.induct) auto

lemma set_bt_insert_keys [simp]: "fst ` set (bt_insert k v m) = insert k (fst ` set m)"
  by (induction k v m rule: bt_insert.induct) auto

lemma map_of_im_insert [simp]: "map_of (im_insert k v m) = (map_of m)(k \<mapsto> v)"
  by (induction k v m rule: im_insert.induct) auto

lemma map_of_bt_insert: "bt_inv m \<Longrightarrow> map_of (bt_insert k v m) = (map_of m)(k \<mapsto> v)"
  by (induction k v m rule: bt_insert.induct) (auto simp: bt_inv_def fun_upd_twist)

lemma im_inv_insert [intro]: "im_inv m \<Longrightarrow> im_inv (im_insert k v m)"
  by (induction k v m rule: im_insert.induct) (auto simp: im_inv_def)

lemma bt_inv_insert [intro]: "bt_inv m \<Longrightarrow> bt_inv (bt_insert k v m)"
  by (induction k v m rule: bt_insert.induct) (auto simp: bt_inv_def)

lemma set_im_remove_subset: "set (im_remove k m) \<subseteq> set m"
  by (induction k m rule: im_remove.induct) auto

lemma im_inv_remove [intro]: "im_inv m \<Longrightarrow> im_inv (im_remove k m)"
proof (induction k m rule: im_remove.induct)
  case (1 k)
  then show ?case by (simp add: im_inv_def)
next
  case (2 k k' v' m)
  then show ?case
    using set_im_remove_subset [of k m] by (auto simp: im_inv_def)
qed

lemma map_of_im_remove: "im_inv m \<Longrightarrow> map_of (im_remove k m) = (map_of m)(k := None)"
proof (induction m)
  case Nil
  then show ?case by auto
next
  case (Cons a m)
  obtain k' v where a: "a = (k', v)" by (cases a)
  show ?case
  proof (cases "k = k'")
    case True
    with Cons.prems a have "k \<notin> fst ` set m" by (auto simp: im_inv_def)
    then have "map_of m k = None" by (simp add: map_of_eq_None_iff)
    with True a show ?thesis by (auto simp: fun_eq_iff)
  next
    case False
    with Cons a show ?thesis by (auto simp: im_inv_def fun_eq_iff)
  qed
qed

lemma im_remove_absent: "k \<notin> fst ` set m \<Longrightarrow> im_remove k m = m"
  by (induction k m rule: im_remove.induct) auto

text \<open>The laws of a map type that the components rely on.\<close>

locale keyed_map =
  fixes ins :: "'k \<Rightarrow> 'v \<Rightarrow> ('k \<times> 'v) list \<Rightarrow> ('k \<times> 'v) list"
    and inv :: "('k \<times> 'v) list \<Rightarrow> bool"
  assumes inv_empty: "inv []"
    and inv_insert: "inv m \<Longrightarrow> inv (ins k v m)"
    and lookup_insert: "inv m \<Longrightarrow> map_of (ins k v m) = (map_of m)(k \<mapsto> v)"
    and inv_distinct: "inv m \<Longrightarrow> distinct (map fst m)"
begin

text \<open>\<^verbatim>\<open>collect()\<close> into the map: a later entry of the same key wins.\<close>

lemma inv_fold_insert: "inv m \<Longrightarrow> inv (fold (\<lambda>(k, v). ins k v) kvs m)"
  by (induction kvs arbitrary: m) (auto simp: inv_insert)

lemma lookup_fold_insert:
  "inv m \<Longrightarrow> map_of (fold (\<lambda>(k, v). ins k v) kvs m) = map_of m ++ map_of (rev kvs)"
  by (induction kvs arbitrary: m)
     (auto simp: inv_insert lookup_insert map_of_append map_add_assoc [symmetric])

lemma lookup_fold_distinct:
  assumes "distinct (map fst kvs)"
  shows "map_of (fold (\<lambda>(k, v). ins k v) kvs []) = map_of kvs"
proof -
  have "map_of (rev kvs) = map_of kvs"
    using assms by (intro map_of_inject_set [THEN iffD2]) (auto simp: rev_map [symmetric])
  then show ?thesis by (simp add: lookup_fold_insert inv_empty)
qed

end

interpretation index_map: keyed_map im_insert im_inv
  by unfold_locales (auto, auto simp: im_inv_def)

interpretation btree_map: keyed_map bt_insert bt_inv
  by unfold_locales (auto simp: map_of_bt_insert, auto simp: bt_inv_def)

end
