(* ===== verification/Rust_Text.thy ===== *)
theory Rust_Text
  imports Rustium_Prelude
begin

text \<open>
  The part of Rust's standard library on text that the code uses. A Rust \<^verbatim>\<open>String\<close> is its UTF-8
  bytes, an Isabelle \<^typ>\<open>string\<close>; an operation on \<^verbatim>\<open>chars()\<close> works on the list of the
  encoded characters (\<open>utf8_chunks\<close>). Decimal printing and parsing follow \<^verbatim>\<open>to_string\<close> and
  \<^verbatim>\<open>str::parse\<close>.
\<close>

section \<open>Bytes and characters\<close>

definition bytes_of :: "string \<Rightarrow> u8 list" where
  "bytes_of s = map (\<lambda>c. of_char c) s"

lemma of_char_u8_inject: "(of_char c :: u8) = of_char d \<longleftrightarrow> c = d"
proof
  assume eq: "(of_char c :: u8) = of_char d"
  have conv: "of_nat (of_char x) = (of_char x :: u8)" for x :: char
    by (rule of_nat_of_char)
  have small: "(of_char x :: nat) < 256" for x :: char
    by simp
  have "unat (of_nat (of_char x) :: u8) = (of_char x :: nat)" for x :: char
    using small [of x] by (simp add: unsigned_of_nat take_bit_nat_eq_self)
  then have "(of_char c :: nat) = of_char d"
    using eq conv by metis
  then show "c = d" by simp
qed simp

lemma inj_of_char_u8: "inj (of_char :: char \<Rightarrow> u8)"
  by (rule injI) (simp only: of_char_u8_inject)

lemma bytes_of_inject [simp]: "bytes_of s = bytes_of t \<longleftrightarrow> s = t"
  unfolding bytes_of_def by (rule inj_map_eq_map [OF inj_of_char_u8])

lemma bytes_of_Nil [simp]: "bytes_of s = [] \<longleftrightarrow> s = []"
  by (simp add: bytes_of_def)

lemma zero_in_bytes_of: "0 \<in> set (bytes_of s) \<longleftrightarrow> CHR 0x00 \<in> set s"
proof -
  have zero: "(of_char (CHR 0x00) :: u8) = 0" by (simp add: of_char_def)
  have "of_char c = (0 :: u8) \<longleftrightarrow> c = CHR 0x00" for c
    using of_char_u8_inject [of c "CHR 0x00"] zero by simp
  then show ?thesis
    unfolding bytes_of_def by (auto simp: image_iff)
qed

fun be_bytes :: "nat \<Rightarrow> nat \<Rightarrow> u8 list" where
  "be_bytes 0 n = []"
| "be_bytes (Suc k) n = be_bytes k (n div 256) @ [of_nat (n mod 256)]"

lemma length_be_bytes [simp]: "length (be_bytes k n) = k"
  by (induction k arbitrary: n) auto

lemma be_bytes_inject:
  "m < 256 ^ k \<Longrightarrow> n < 256 ^ k \<Longrightarrow> be_bytes k m = be_bytes k n \<longleftrightarrow> m = n"
proof (induction k arbitrary: m n)
  case 0
  then show ?case by simp
next
  case (Suc k)
  have "m div 256 < 256 ^ k" "n div 256 < 256 ^ k"
    using Suc.prems by (simp_all add: less_mult_imp_div_less mult.commute)
  then have "be_bytes k (m div 256) = be_bytes k (n div 256) \<longleftrightarrow> m div 256 = n div 256"
    by (rule Suc.IH)
  moreover have "(of_nat (m mod 256) :: u8) = of_nat (n mod 256) \<longleftrightarrow> m mod 256 = n mod 256"
    by (simp add: word_of_nat_eq_iff take_bit_eq_mod)
  ultimately show ?case
    by (simp, metis mod_mult_div_eq)
qed

text \<open>
  A continuation byte is \<open>10xxxxxx\<close>; the bytes of one character are a leading byte and the
  continuation bytes after it.
\<close>

definition utf8_cont :: "char \<Rightarrow> bool" where
  "utf8_cont c = (128 \<le> (of_char c :: nat) \<and> (of_char c :: nat) < 192)"

function utf8_chunks :: "string \<Rightarrow> string list" where
  "utf8_chunks [] = []"
| "utf8_chunks (c # s) = (c # takeWhile utf8_cont s) # utf8_chunks (dropWhile utf8_cont s)"
  by pat_completeness auto
termination
  by (relation "measure length") (auto intro: le_imp_less_Suc length_dropWhile_le)

lemma concat_utf8_chunks [simp]: "concat (utf8_chunks s) = s"
  by (induction s rule: utf8_chunks.induct) auto

lemma utf8_chunks_ascii:
  "(\<And>c. c \<in> set s \<Longrightarrow> (of_char c :: nat) < 128) \<Longrightarrow> utf8_chunks s = map (\<lambda>c. [c]) s"
proof (induction s)
  case Nil
  then show ?case by simp
next
  case (Cons c s)
  have "takeWhile utf8_cont s = [] \<and> dropWhile utf8_cont s = s"
    using Cons.prems by (cases s) (auto simp: utf8_cont_def not_le)
  with Cons show ?case by simp
qed

text \<open>\<^verbatim>\<open>std::str::from_utf8\<close>: the well-formed sequences of the Unicode standard.\<close>

function utf8_valid :: "string \<Rightarrow> bool" where
  "utf8_valid [] = True"
| "utf8_valid (c # s) =
     (let n = (of_char c :: nat);
          within = (\<lambda>lo hi d. lo \<le> (of_char d :: nat) \<and> (of_char d :: nat) \<le> hi)
      in if n < 0x80 then utf8_valid s
         else if 0xC2 \<le> n \<and> n \<le> 0xDF then s \<noteq> [] \<and> utf8_cont (hd s) \<and> utf8_valid (drop 1 s)
         else if 0xE0 \<le> n \<and> n \<le> 0xEF
         then 2 \<le> length s
              \<and> within (if n = 0xE0 then 0xA0 else 0x80) (if n = 0xED then 0x9F else 0xBF) (s ! 0)
              \<and> utf8_cont (s ! 1) \<and> utf8_valid (drop 2 s)
         else if 0xF0 \<le> n \<and> n \<le> 0xF4
         then 3 \<le> length s
              \<and> within (if n = 0xF0 then 0x90 else 0x80) (if n = 0xF4 then 0x8F else 0xBF) (s ! 0)
              \<and> utf8_cont (s ! 1) \<and> utf8_cont (s ! 2) \<and> utf8_valid (drop 3 s)
         else False)"
  by pat_completeness auto
termination
  by (relation "measure length") auto

text \<open>\<^verbatim>\<open>s.chars().take(n).collect()\<close>.\<close>

definition take_chars :: "nat \<Rightarrow> string \<Rightarrow> string" where
  "take_chars n s = concat (take n (utf8_chunks s))"

lemma prefix_take_chars: "prefix (take_chars n s) s"
  unfolding take_chars_def
  by (metis append_take_drop_id concat_append concat_utf8_chunks prefixI)

text \<open>The scalar value of one encoded character.\<close>

fun utf8_scalar :: "nat list \<Rightarrow> nat" where
  "utf8_scalar [a] = a"
| "utf8_scalar [a, b] = (a mod 32) * 64 + b mod 64"
| "utf8_scalar [a, b, c] = (a mod 16) * 4096 + (b mod 64) * 64 + c mod 64"
| "utf8_scalar [a, b, c, d] =
     (a mod 8) * 262144 + (b mod 64) * 4096 + (c mod 64) * 64 + d mod 64"
| "utf8_scalar _ = 0xFFFD"

definition scalars :: "string \<Rightarrow> nat list" where
  "scalars s = map (\<lambda>chunk. utf8_scalar (map (\<lambda>c. of_char c) chunk)) (utf8_chunks s)"

text \<open>\<^verbatim>\<open>encode_utf16\<close>: one unit below \<open>0x10000\<close>, a surrogate pair above.\<close>

definition utf16_units :: "nat \<Rightarrow> nat list" where
  "utf16_units n =
     (if n < 0x10000 then [n]
      else [0xD800 + (n - 0x10000) div 0x400, 0xDC00 + (n - 0x10000) mod 0x400])"

definition encode_utf16 :: "string \<Rightarrow> nat list" where
  "encode_utf16 s = concat (map utf16_units (scalars s))"

section \<open>Trimming, splitting, case\<close>

text \<open>\<^verbatim>\<open>char::is_whitespace\<close>: the Unicode property \<open>White_Space\<close>.\<close>

definition is_whitespace :: "nat \<Rightarrow> bool" where
  "is_whitespace n =
     (9 \<le> n \<and> n \<le> 13 \<or> n = 0x20 \<or> n = 0x85 \<or> n = 0xA0 \<or> n = 0x1680 \<or> 0x2000 \<le> n \<and> n \<le> 0x200A
      \<or> n = 0x2028 \<or> n = 0x2029 \<or> n = 0x202F \<or> n = 0x205F \<or> n = 0x3000)"

definition ws_chunk :: "string \<Rightarrow> bool" where
  "ws_chunk chunk = is_whitespace (utf8_scalar (map (\<lambda>c. of_char c) chunk))"

definition trim_start :: "string \<Rightarrow> string" where
  "trim_start s = concat (dropWhile ws_chunk (utf8_chunks s))"

definition trim :: "string \<Rightarrow> string" where
  "trim s = concat (rev (dropWhile ws_chunk (rev (dropWhile ws_chunk (utf8_chunks s)))))"

definition trim_matches :: "char \<Rightarrow> string \<Rightarrow> string" where
  "trim_matches c s = rev (dropWhile ((=) c) (rev (dropWhile ((=) c) s)))"

definition trim_end_matches :: "char \<Rightarrow> string \<Rightarrow> string" where
  "trim_end_matches c s = rev (dropWhile ((=) c) (rev s))"

text \<open>\<^verbatim>\<open>str::split(char)\<close>: always at least one piece.\<close>

fun split_on :: "('a \<Rightarrow> bool) \<Rightarrow> 'a list \<Rightarrow> 'a list list" where
  "split_on p [] = [[]]"
| "split_on p (c # s) =
     (if p c then [] # split_on p s
      else (case split_on p s of [] \<Rightarrow> [[c]] | w # ws \<Rightarrow> (c # w) # ws))"

lemma split_on_neq_Nil [simp]: "split_on p s \<noteq> []"
  by (induction s) (auto split: list.splits)

text \<open>\<^verbatim>\<open>split_whitespace\<close> and \<^verbatim>\<open>trim_end\<close>.\<close>

definition split_whitespace :: "string \<Rightarrow> string list" where
  "split_whitespace s = map concat (filter (\<lambda>w. w \<noteq> []) (split_on ws_chunk (utf8_chunks s)))"

definition trim_end :: "string \<Rightarrow> string" where
  "trim_end s = concat (rev (dropWhile ws_chunk (rev (utf8_chunks s))))"

fun split_once :: "char \<Rightarrow> string \<Rightarrow> (string \<times> string) option" where
  "split_once x [] = None"
| "split_once x (c # s) =
     (if c = x then Some ([], s) else map_option (\<lambda>(a, b). (c # a, b)) (split_once x s))"

lemma split_once_Some_iff:
  "split_once x s = Some (a, b) \<longleftrightarrow> s = a @ x # b \<and> x \<notin> set a"
  by (induction s arbitrary: a b) (auto simp: Cons_eq_append_conv)

lemma split_once_None_iff: "split_once x s = None \<longleftrightarrow> x \<notin> set s"
  by (induction s) auto

lemma split_once_append: "x \<notin> set a \<Longrightarrow> split_once x (a @ x # b) = Some (a, b)"
  by (simp add: split_once_Some_iff)

definition strip_suffix :: "string \<Rightarrow> string \<Rightarrow> string option" where
  "strip_suffix suf s =
     (if suffix suf s then Some (take (length s - length suf) s) else None)"

definition strip_prefix :: "string \<Rightarrow> string \<Rightarrow> string option" where
  "strip_prefix pre s = (if prefix pre s then Some (drop (length pre) s) else None)"

lemma strip_suffix_append [simp]: "strip_suffix suf (s @ suf) = Some s"
  by (simp add: strip_suffix_def suffix_def)

fun contains_text :: "string \<Rightarrow> string \<Rightarrow> bool" where
  "contains_text pat [] = (pat = [])"
| "contains_text pat (c # s) = (prefix pat (c # s) \<or> contains_text pat s)"

definition ascii_lower :: "char \<Rightarrow> char" where
  "ascii_lower c =
     (let n = of_char c :: nat in if 65 \<le> n \<and> n \<le> 90 then char_of (n + 32) else c)"

definition ascii_upper :: "char \<Rightarrow> char" where
  "ascii_upper c =
     (let n = of_char c :: nat in if 97 \<le> n \<and> n \<le> 122 then char_of (n - 32) else c)"

definition to_ascii_lowercase :: "string \<Rightarrow> string" where
  "to_ascii_lowercase s = map ascii_lower s"

definition to_ascii_uppercase :: "string \<Rightarrow> string" where
  "to_ascii_uppercase s = map ascii_upper s"

definition eq_ignore_ascii_case :: "string \<Rightarrow> string \<Rightarrow> bool" where
  "eq_ignore_ascii_case s t = (to_ascii_lowercase s = to_ascii_lowercase t)"

fun join_with :: "string \<Rightarrow> string list \<Rightarrow> string" where
  "join_with sep [] = []"
| "join_with sep [s] = s"
| "join_with sep (s # t # ts) = s @ sep @ join_with sep (t # ts)"

definition replace_char :: "char \<Rightarrow> string \<Rightarrow> string \<Rightarrow> string" where
  "replace_char c new s = concat (map (\<lambda>d. if d = c then new else [d]) s)"

definition squote :: "string \<Rightarrow> string" where
  "squote s = [CHR 0x27] @ s @ [CHR 0x27]"

definition lines_text :: "string list \<Rightarrow> string" where
  "lines_text = join_with [CHR 0x0A]"

section \<open>Numbers as text\<close>

definition digit_char :: "nat \<Rightarrow> char" where
  "digit_char n = char_of (48 + n)"

definition digit_val :: "char \<Rightarrow> nat option" where
  "digit_val c =
     (let n = of_char c :: nat in if 48 \<le> n \<and> n \<le> 57 then Some (n - 48) else None)"

fun show_nat :: "nat \<Rightarrow> string" where
  "show_nat n =
     (if n < 10 then [digit_char n] else show_nat (n div 10) @ [digit_char (n mod 10)])"

declare show_nat.simps [simp del]

definition show_int :: "int \<Rightarrow> string" where
  "show_int i = (if i < 0 then ''-'' @ show_nat (nat (- i)) else show_nat (nat i))"

abbreviation show_word :: "'n::len word \<Rightarrow> string" where
  "show_word w \<equiv> show_nat (unat w)"

definition digits_val :: "nat \<Rightarrow> string \<Rightarrow> nat option" where
  "digits_val acc s =
     fold (\<lambda>c acc. case (acc, digit_val c) of (Some a, Some d) \<Rightarrow> Some (10 * a + d) | _ \<Rightarrow> None)
       s (Some acc)"

text \<open>
  \<^verbatim>\<open>str::parse\<close> for an unsigned integer type: an optional \<^verbatim>\<open>+\<close>, at least one digit, no overflow;
  for a signed one also \<^verbatim>\<open>-\<close>.
\<close>

definition parse_unsigned :: "nat \<Rightarrow> string \<Rightarrow> nat option" where
  "parse_unsigned bits s =
     (let body = (if s \<noteq> [] \<and> hd s = CHR ''+'' then tl s else s)
      in if body = [] then None
         else (case digits_val 0 body of
                 None \<Rightarrow> None
               | Some n \<Rightarrow> if n < 2 ^ bits then Some n else None))"

definition parse_signed :: "nat \<Rightarrow> string \<Rightarrow> int option" where
  "parse_signed bits s =
     (let neg = (s \<noteq> [] \<and> hd s = CHR ''-'');
         body = (if neg \<or> s \<noteq> [] \<and> hd s = CHR ''+'' then tl s else s)
      in if body = [] then None
         else (case digits_val 0 body of
                 None \<Rightarrow> None
               | Some n \<Rightarrow>
                   (let i = (if neg then - int n else int n)
                    in if - (2 ^ (bits - 1)) \<le> i \<and> i < 2 ^ (bits - 1) then Some i else None)))"

text \<open>The message of the \<^verbatim>\<open>ParseIntError\<close>: the first step of the loop that fails decides.\<close>

definition unsigned_error :: "nat \<Rightarrow> string \<Rightarrow> string" where
  "unsigned_error bits s =
     (let body = (if s \<noteq> [] \<and> hd s = CHR ''+'' then tl s else s)
      in if s = [] then ''cannot parse integer from empty string''
         else (case digits_val 0 (takeWhile (\<lambda>c. digit_val c \<noteq> None) body) of
                 None \<Rightarrow> ''invalid digit found in string''
               | Some n \<Rightarrow>
                   if 2 ^ bits \<le> n then ''number too large to fit in target type''
                   else ''invalid digit found in string''))"

definition signed_error :: "nat \<Rightarrow> string \<Rightarrow> string" where
  "signed_error bits s =
     (let neg = (s \<noteq> [] \<and> hd s = CHR ''-'');
         body = (if neg \<or> s \<noteq> [] \<and> hd s = CHR ''+'' then tl s else s)
      in if s = [] then ''cannot parse integer from empty string''
         else (case digits_val 0 (takeWhile (\<lambda>c. digit_val c \<noteq> None) body) of
                 None \<Rightarrow> ''invalid digit found in string''
               | Some n \<Rightarrow>
                   if neg \<and> 2 ^ (bits - 1) < n then ''number too small to fit in target type''
                   else if \<not> neg \<and> 2 ^ (bits - 1) \<le> n then ''number too large to fit in target type''
                   else ''invalid digit found in string''))"

lemma digit_val_digit_char [simp]: "n < 10 \<Longrightarrow> digit_val (digit_char n) = Some n"
  by (simp add: digit_val_def digit_char_def Let_def)

lemma digits_val_append: 
  "digits_val a (s @ [c]) = 
     (case (digits_val a s, digit_val c) of (Some n, Some d) \<Rightarrow> Some (10 * n + d) | _ \<Rightarrow> None)"
  by (simp add: digits_val_def)

lemma show_nat_neq_Nil [simp]: "show_nat n \<noteq> []"
  by (subst show_nat.simps) simp

lemma digits_val_show_nat [simp]: "digits_val 0 (show_nat n) = Some n"
proof (induction n rule: show_nat.induct)
  case (1 n)
  show ?case
  proof (cases "n < 10")
    case True
    then show ?thesis
      by (subst show_nat.simps) (simp add: digits_val_def)
  next
    case False
    with 1 show ?thesis
      by (subst show_nat.simps) (simp add: digits_val_append)
  qed
qed

lemma show_nat_digits: "c \<in> set (show_nat n) \<Longrightarrow> digit_val c \<noteq> None"
proof (induction n rule: show_nat.induct)
  case (1 n)
  then show ?case
    by (subst (asm) (2) show_nat.simps) (auto split: if_splits)
qed

lemma show_nat_inject [simp]: "show_nat m = show_nat n \<longleftrightarrow> m = n"
  by (metis digits_val_show_nat option.inject)

lemma parse_unsigned_show_nat:
  assumes "n < 2 ^ bits"
  shows "parse_unsigned bits (show_nat n) = Some n"
proof -
  obtain c s where cs: "show_nat n = c # s" by (cases "show_nat n") auto
  then have "digit_val c \<noteq> None" using show_nat_digits [of c n] by simp
  then have "c \<noteq> CHR ''+''" by (auto simp: digit_val_def)
  then have "hd (show_nat n) \<noteq> CHR ''+''" using cs by simp
  with assms show ?thesis by (simp add: parse_unsigned_def Let_def)
qed

text \<open>\<^verbatim>\<open>format!("{byte:02x}")\<close>, and zero-padded decimals.\<close>

definition hex_digit :: "nat \<Rightarrow> char" where
  "hex_digit n = (if n < 10 then char_of (48 + n) else char_of (87 + n))"

definition hex2 :: "u8 \<Rightarrow> string" where
  "hex2 b = [hex_digit (unat b div 16), hex_digit (unat b mod 16)]"

lemma of_char_hex_digit:
  "n < 16 \<Longrightarrow> (of_char (hex_digit n) :: nat) = (if n < 10 then 48 + n else 87 + n)"
  by (simp add: hex_digit_def)

lemma hex_digit_inject:
  assumes "m < 16" "n < 16"
  shows "hex_digit m = hex_digit n \<longleftrightarrow> m = n"
proof
  assume "hex_digit m = hex_digit n"
  then have "(of_char (hex_digit m) :: nat) = of_char (hex_digit n)" by (rule arg_cong)
  then have "(if m < 10 then 48 + m else 87 + m) = (if n < 10 then 48 + n else 87 + n)"
    by (simp only: of_char_hex_digit assms)
  then show "m = n" by (simp split: if_splits)
qed simp

lemma hex2_inject: "hex2 a = hex2 b \<longleftrightarrow> a = b"
proof
  have small: "unat x < 256" for x :: u8
    using unsigned_less [of x, where ?'a = nat] by simp
  assume "hex2 a = hex2 b"
  then have "unat a div 16 = unat b div 16" "unat a mod 16 = unat b mod 16"
    using small [of a] small [of b] by (auto simp: hex2_def hex_digit_inject)
  then have "unat a = unat b" by (metis div_mult_mod_eq)
  then show "a = b" by (simp add: word_unat_eq_iff)
qed simp

definition pad_zero :: "nat \<Rightarrow> string \<Rightarrow> string" where
  "pad_zero n s = replicate (n - length s) CHR ''0'' @ s"

definition show_hex :: "nat \<Rightarrow> string" where
  "show_hex n = (if n < 16 then [hex_digit n] else [hex_digit (n div 16), hex_digit (n mod 16)])"

text \<open>
  The \<^verbatim>\<open>regex\<close> crate is a parameter: \<open>build ci p\<close> is the matcher of the pattern \<open>p\<close>, if it
  compiles, \<open>ci\<close> for case-insensitive.
\<close>

type_synonym regex_engine = "bool \<Rightarrow> string \<Rightarrow> (string \<Rightarrow> bool) option"

text \<open>The pattern that the code gives it: a match of the whole text.\<close>

definition anchored :: "string \<Rightarrow> string" where
  "anchored p = ''^(?:'' @ p @ '')$''"

text \<open>\<^verbatim>\<open>{:?}\<close> of a string; characters beyond ASCII are left as they are.\<close>

definition escape_char :: "char \<Rightarrow> string" where
  "escape_char c =
     (if c = CHR 0x22 then [CHR 0x5C, CHR 0x22]
      else if c = CHR 0x5C then [CHR 0x5C, CHR 0x5C]
      else if c = CHR 0x0A then [CHR 0x5C, CHR ''n'']
      else if c = CHR 0x0D then [CHR 0x5C, CHR ''r'']
      else if c = CHR 0x09 then [CHR 0x5C, CHR ''t'']
      else if c = CHR 0x00 then [CHR 0x5C, CHR ''0'']
      else if (of_char c :: nat) < 32 \<or> (of_char c :: nat) = 127
      then [CHR 0x5C, CHR ''u'', CHR 0x7B] @ show_hex (of_char c) @ [CHR 0x7D]
      else [c])"

definition debug_str :: "string \<Rightarrow> string" where
  "debug_str s = [CHR 0x22] @ concat (map escape_char s) @ [CHR 0x22]"

lemma strip_suffix_length: "strip_suffix suf s = Some r \<Longrightarrow> length r + length suf = length s"
  by (auto simp: strip_suffix_def suffix_def split: if_splits)

lemma length_trim: "length (trim s) \<le> length s"
proof -
  have concat_drop: "length (concat (dropWhile P xs)) \<le> length (concat xs)" for P and xs :: "string list"
    by (induction xs) auto
  have concat_rev: "length (concat (rev xs)) = length (concat xs)" for xs :: "string list"
    by (induction xs) auto
  show ?thesis
    unfolding trim_def
    using concat_drop [of ws_chunk "utf8_chunks s"]
      concat_drop [of ws_chunk "rev (dropWhile ws_chunk (utf8_chunks s))"]
    by (simp add: concat_rev)
qed

end
