(* ===== verification/Core_Event.thy ===== *)
theory Core_Event
  imports Rust_Text
begin

text \<open>
  The data model of \<^verbatim>\<open>crates/rustium-core/src/event.rs\<close>: values and rows, the six source
  positions with the order that the runtime and the connectors use, event identities, change
  events, source records and encoded events.

  \<^verbatim>\<open>serde_json::Value\<close> is a datatype: its objects keep the insertion order (the lock file builds
  \<^verbatim>\<open>serde_json\<close> with \<^verbatim>\<open>indexmap\<close>), its equality ignores it. SHA-256, the hexadecimal printer of the
  \<^verbatim>\<open>hex\<close> crate and the JSON printer are parameters.
\<close>

section \<open>JSON values\<close>

datatype json_number =
    PosInt u64
  | NegInt i64
  | Float f64

datatype json =
    JNull
  | JBool bool
  | JNumber json_number
  | JString string
  | JArray "json list"
  | JObject "(string \<times> json) list"

text \<open>IEEE 754 double precision: finiteness, not-a-number and equality on the bits.\<close>

definition f64_finite :: "f64 \<Rightarrow> bool" where
  "f64_finite w = (drop_bit 52 w AND 0x7FF \<noteq> 0x7FF)"

definition f64_nan :: "f64 \<Rightarrow> bool" where
  "f64_nan w = (\<not> f64_finite w \<and> w AND 0xFFFFFFFFFFFFF \<noteq> 0)"

definition f64_zero :: "f64 \<Rightarrow> bool" where
  "f64_zero w = (w AND 0x7FFFFFFFFFFFFFFF = 0)"

definition f64_eq :: "f64 \<Rightarrow> f64 \<Rightarrow> bool" where
  "f64_eq a b = (\<not> f64_nan a \<and> \<not> f64_nan b \<and> (a = b \<or> f64_zero a \<and> f64_zero b))"

fun number_eq :: "json_number \<Rightarrow> json_number \<Rightarrow> bool" where
  "number_eq (Float a) (Float b) = f64_eq a b"
| "number_eq a b = (a = b)"

text \<open>Equality of JSON values: objects are compared as maps.\<close>

function json_eq :: "json \<Rightarrow> json \<Rightarrow> bool" where
  "json_eq (JNumber a) y = (case y of JNumber b \<Rightarrow> number_eq a b | _ \<Rightarrow> False)"
| "json_eq (JArray xs) y =
     (case y of
        JArray ys \<Rightarrow> length xs = length ys \<and> list_all (\<lambda>(a, b). json_eq a b) (zip xs ys)
      | _ \<Rightarrow> False)"
| "json_eq (JObject m) y =
     (case y of
        JObject n \<Rightarrow>
          length m = length n
          \<and> list_all (\<lambda>(k, v). case map_of n k of None \<Rightarrow> False | Some w \<Rightarrow> json_eq v w) m
      | _ \<Rightarrow> False)"
| "json_eq JNull y = (y = JNull)"
| "json_eq (JBool b) y = (y = JBool b)"
| "json_eq (JString s) y = (y = JString s)"
  by pat_completeness auto
termination
proof (relation "measure (\<lambda>(x, y). size x)", goal_cases)
  case (2 xs y ys p a b)
  then have "a \<in> set xs" by (auto dest: set_zip_leftD)
  then show ?case by (auto intro!: size_list_estimation' le_imp_less_Suc)
next
  case (3 m y n p k v w)
  then have "(k, v) \<in> set m" by simp
  then have "size v \<le> size_list (size_prod (\<lambda>x. 0) size) m"
    by (intro size_list_estimation' [where x = "(k, v)"]) auto
  then show ?case by simp
qed simp

lemma number_eq_trans: "number_eq a b \<Longrightarrow> number_eq b c \<Longrightarrow> number_eq a c"
  by (cases a; cases b; cases c) (auto simp: f64_eq_def)

lemma json_eq_trans: "json_eq a b \<Longrightarrow> json_eq b c \<Longrightarrow> json_eq a c"
proof (induction a b arbitrary: c rule: json_eq.induct)
  case (1 a y)
  then show ?case by (auto split: json.splits dest: number_eq_trans)
next
  case (2 xs y)
  then obtain ys where y: "y = JArray ys" by (cases y) auto
  with 2 obtain zs where c: "c = JArray zs" by (cases c) auto
  have "json_eq (xs ! i) (zs ! i)" if "i < length xs" for i
  proof -
    have "(xs ! i, ys ! i) \<in> set (zip xs ys)" "(ys ! i, zs ! i) \<in> set (zip ys zs)"
      using that y c "2.prems" by (auto simp: set_zip)
    with "2.IH" [OF y this(1) refl] y c "2.prems" show ?thesis by (fastforce simp: list_all_iff)
  qed
  with y c "2.prems" show ?case by (auto simp: list_all_iff set_zip)
next
  case (3 m y)
  then obtain n where y: "y = JObject n" by (cases y) auto
  with 3 obtain p where c: "c = JObject p" by (cases c) auto
  have "case map_of p k of None \<Rightarrow> False | Some w \<Rightarrow> json_eq v w" if "(k, v) \<in> set m" for k v
  proof -
    from that "3.prems"(1) y obtain w where w: "map_of n k = Some w" "json_eq v w"
      by (auto simp: list_all_iff split: option.splits)
    from w(1) have "(k, w) \<in> set n" by (rule map_of_SomeD)
    with "3.prems"(2) y c obtain x where x: "map_of p k = Some x" "json_eq w x"
      by (auto simp: list_all_iff split: option.splits)
    with "3.IH" [OF y that _ w(1) w(2) x(2)] show ?thesis by simp
  qed
  with y c "3.prems" show ?case by (auto simp: list_all_iff)
qed auto

text \<open>A value as it exists at run time: no duplicate key, no number that is not a number.\<close>

fun json_wf :: "json \<Rightarrow> bool" where
  "json_wf (JNumber (Float f)) = f64_finite f"
| "json_wf (JArray xs) = list_all json_wf xs"
| "json_wf (JObject m) = (im_inv m \<and> list_all (\<lambda>(k, v). json_wf v) m)"
| "json_wf _ = True"

lemma json_eq_refl: "json_wf a \<Longrightarrow> json_eq a a"
proof (induction a rule: json_wf.induct)
  case (2 xs)
  then show ?case by (auto simp: list_all_iff set_zip)
next
  case (3 m)
  have "map_of m k = Some v \<and> json_eq v v" if "(k, v) \<in> set m" for k v
    using 3 that by (auto simp: list_all_iff im_inv_def)
  then show ?case by (fastforce simp: list_all_iff)
qed (auto simp: f64_eq_def f64_nan_def)

section \<open>Values and rows\<close>

datatype data_value =
    DvNull
  | DvBoolean bool
  | DvInt32 i32
  | DvInt64 i64
  | DvUInt64 u64
  | DvFloat64 f64
  | DvDecimal string
  | DvString string
  | DvBytes "u8 list"
  | DvDate string
  | DvTime string
  | DvTimestamp string
  | DvUuid string
  | DvJson json
  | DvArray "data_value list"
  | DvMap "(string \<times> data_value) list"
  | DvUnavailable

type_synonym row = "(string \<times> data_value) list"

text \<open>
  \<^verbatim>\<open>Value::from\<close> of an integer: non-negative numbers are kept unsigned.
  \<^verbatim>\<open>Number::from_f64\<close> refuses infinities and not-a-number.
\<close>

definition json_int :: "int \<Rightarrow> json" where
  "json_int i = (if i < 0 then JNumber (NegInt (word_of_int i)) else JNumber (PosInt (word_of_int i)))"

abbreviation json_uint :: "'n::len word \<Rightarrow> json" where
  "json_uint w \<equiv> json_int (uint w)"

definition number_from_f64 :: "f64 \<Rightarrow> json_number option" where
  "number_from_f64 w = (if f64_finite w then Some (Float w) else None)"

fun to_json :: "(u8 list \<Rightarrow> string) \<Rightarrow> string \<Rightarrow> data_value \<Rightarrow> json" where
  "to_json hex unavailable DvNull = JNull"
| "to_json hex unavailable (DvBoolean b) = JBool b"
| "to_json hex unavailable (DvInt32 i) = json_int (sint i)"
| "to_json hex unavailable (DvInt64 i) = json_int (sint i)"
| "to_json hex unavailable (DvUInt64 u) = json_uint u"
| "to_json hex unavailable (DvFloat64 f) =
     (case number_from_f64 f of None \<Rightarrow> JNull | Some n \<Rightarrow> JNumber n)"
| "to_json hex unavailable (DvDecimal s) = JString s"
| "to_json hex unavailable (DvString s) = JString s"
| "to_json hex unavailable (DvDate s) = JString s"
| "to_json hex unavailable (DvTime s) = JString s"
| "to_json hex unavailable (DvTimestamp s) = JString s"
| "to_json hex unavailable (DvBytes bs) = JString (hex bs)"
| "to_json hex unavailable (DvUuid u) = JString u"
| "to_json hex unavailable (DvJson j) = j"
| "to_json hex unavailable (DvArray vs) = JArray (map (to_json hex unavailable) vs)"
| "to_json hex unavailable (DvMap m) =
     JObject (map (\<lambda>(k, v). (k, to_json hex unavailable v)) m)"
| "to_json hex unavailable DvUnavailable = JString unavailable"

text \<open>A value whose maps are \<^verbatim>\<open>BTreeMap\<close>s and whose embedded documents are well formed.\<close>

fun value_wf :: "data_value \<Rightarrow> bool" where
  "value_wf (DvJson j) = json_wf j"
| "value_wf (DvArray vs) = list_all value_wf vs"
| "value_wf (DvMap m) = (bt_inv m \<and> list_all (\<lambda>(k, v). value_wf v) m)"
| "value_wf _ = True"

lemma to_json_wf: "value_wf v \<Longrightarrow> json_wf (to_json hex u v)"
proof (induction v rule: value_wf.induct)
  case (2 vs)
  then show ?case by (auto simp: list_all_iff)
next
  case (3 m)
  then show ?case by (fastforce simp: list_all_iff im_inv_def bt_inv_def comp_def case_prod_beta)
qed (auto simp: json_int_def number_from_f64_def)

section \<open>Source positions\<close>

record connector_identity =
  identity_name :: string
  identity_generation :: string

record postgres_position =
  pg_lsn :: u64
  pg_commit_lsn :: "u64 option"
  pg_transaction_id :: "u32 option"
  pg_xmin :: "u32 option"
  pg_event_serial :: u64
  pg_snapshot :: bool

record mysql_position =
  my_binlog_filename :: string
  my_binlog_position :: u64
  my_gtid_set :: "string option"
  my_server_id :: u32
  my_event_serial :: u64
  my_snapshot :: bool

record sqlserver_position =
  ms_database :: string
  ms_commit_lsn :: string
  ms_change_lsn :: string
  ms_event_serial :: u64
  ms_snapshot :: bool

record oracle_position =
  ora_scn :: u64
  ora_commit_scn :: "u64 option"
  ora_transaction_id :: "string option"
  ora_rs_id :: "string option"
  ora_ssn :: "u64 option"
  ora_event_serial :: u64
  ora_snapshot :: bool

record mongodb_position =
  mg_resume_token :: "string option"
  mg_cluster_time_seconds :: "u32 option"
  mg_cluster_time_increment :: "u32 option"
  mg_event_serial :: u64
  mg_snapshot :: bool

record debezium_position =
  dz_connector :: string
  dz_source :: "(string \<times> json) list"
  dz_record_id :: string
  dz_event_serial :: u64
  dz_snapshot :: bool

datatype source_position =
    Postgres postgres_position
  | MySql mysql_position
  | SqlServer sqlserver_position
  | Oracle oracle_position
  | MongoDb mongodb_position
  | Debezium debezium_position

text \<open>\<^verbatim>\<open>u8::from(!self.snapshot)\<close>.\<close>

abbreviation streaming_rank :: "bool \<Rightarrow> u8" where
  "streaming_rank snapshot \<equiv> (if snapshot then 0 else 1)"

definition postgres_sort_key :: "postgres_position \<Rightarrow> u64 \<times> u8 \<times> u64" where
  "postgres_sort_key p = (pg_lsn p, streaming_rank (pg_snapshot p), pg_event_serial p)"

definition mysql_sort_key :: "mysql_position \<Rightarrow> string \<times> u64 \<times> u8 \<times> u64" where
  "mysql_sort_key p =
     (my_binlog_filename p, my_binlog_position p, streaming_rank (my_snapshot p),
      my_event_serial p)"

definition sqlserver_sort_key :: "sqlserver_position \<Rightarrow> string \<times> string \<times> string \<times> u8 \<times> u64" where
  "sqlserver_sort_key p =
     (ms_database p, ms_commit_lsn p, ms_change_lsn p, streaming_rank (ms_snapshot p),
      ms_event_serial p)"

definition oracle_sort_key :: "oracle_position \<Rightarrow> u64 \<times> u8 \<times> u64" where
  "oracle_sort_key p =
     ((case ora_commit_scn p of Some scn \<Rightarrow> scn | None \<Rightarrow> ora_scn p),
      streaming_rank (ora_snapshot p), ora_event_serial p)"

definition mongodb_sort_key :: "mongodb_position \<Rightarrow> u32 \<times> u32 \<times> u8 \<times> u64" where
  "mongodb_sort_key p =
     ((case mg_cluster_time_seconds p of Some s \<Rightarrow> s | None \<Rightarrow> 0),
      (case mg_cluster_time_increment p of Some i \<Rightarrow> i | None \<Rightarrow> 0),
      streaming_rank (mg_snapshot p), mg_event_serial p)"

definition debezium_sort_key :: "debezium_position \<Rightarrow> u8 \<times> u64" where
  "debezium_sort_key p = (streaming_rank (dz_snapshot p), dz_event_serial p)"

lemmas sort_key_defs =
  postgres_sort_key_def mysql_sort_key_def sqlserver_sort_key_def oracle_sort_key_def
  mongodb_sort_key_def debezium_sort_key_def

fun is_after :: "source_position \<Rightarrow> source_position \<Rightarrow> bool" where
  "is_after (Postgres l) (Postgres r) = (postgres_sort_key l > postgres_sort_key r)"
| "is_after (MySql l) (MySql r) = (mysql_sort_key l > mysql_sort_key r)"
| "is_after (SqlServer l) (SqlServer r) = (sqlserver_sort_key l > sqlserver_sort_key r)"
| "is_after (Oracle l) (Oracle r) = (oracle_sort_key l > oracle_sort_key r)"
| "is_after (MongoDb l) (MongoDb r) = (mongodb_sort_key l > mongodb_sort_key r)"
| "is_after (Debezium l) (Debezium r) =
     (dz_connector l = dz_connector r \<and> debezium_sort_key l > debezium_sort_key r)"
| "is_after _ _ = False"

text \<open>
  The derived equality: field by field; the source metadata of a Debezium position are a
  \<^verbatim>\<open>BTreeMap\<close> of JSON values.
\<close>

definition source_map_eq :: "(string \<times> json) list \<Rightarrow> (string \<times> json) list \<Rightarrow> bool" where
  "source_map_eq m n = list_all2 (\<lambda>(k, v) (l, w). k = l \<and> json_eq v w) m n"

fun position_eq :: "source_position \<Rightarrow> source_position \<Rightarrow> bool" where
  "position_eq (Debezium l) (Debezium r) =
     (dz_connector l = dz_connector r \<and> source_map_eq (dz_source l) (dz_source r)
      \<and> dz_record_id l = dz_record_id r \<and> dz_event_serial l = dz_event_serial r
      \<and> dz_snapshot l = dz_snapshot r)"
| "position_eq l r = (l = r)"

definition is_at_or_before :: "source_position \<Rightarrow> source_position \<Rightarrow> bool" where
  "is_at_or_before p other = (position_eq p other \<or> is_after other p)"

definition position_wf :: "source_position \<Rightarrow> bool" where
  "position_wf p =
     (case p of
        Debezium d \<Rightarrow> bt_inv (dz_source d) \<and> list_all (\<lambda>(k, v). json_wf v) (dz_source d)
      | _ \<Rightarrow> True)"

text \<open>
  What the runtime, the connectors and the bridge rely on: a strict order, an equality that the
  order does not tell apart, and nothing more.
\<close>

locale position_order =
  fixes after :: "'p \<Rightarrow> 'p \<Rightarrow> bool"
    and same :: "'p \<Rightarrow> 'p \<Rightarrow> bool"
  assumes after_irrefl: "\<not> after p p"
    and after_trans: "after p q \<Longrightarrow> after q r \<Longrightarrow> after p r"
    and same_trans: "same p q \<Longrightarrow> same q r \<Longrightarrow> same p r"
    and same_after: "same p q \<Longrightarrow> after p r = after q r"
    and same_before: "same p q \<Longrightarrow> after r p = after r q"
begin

lemma after_asym: "after p q \<Longrightarrow> \<not> after q p"
  using after_irrefl after_trans by blast

lemma upto_trans:
  "same p q \<or> after q p \<Longrightarrow> same q r \<or> after r q \<Longrightarrow> same p r \<or> after r p"
  using after_trans same_trans same_after same_before by blast

lemma upto_not_after: "same p q \<or> after q p \<Longrightarrow> \<not> after p q"
  using after_asym after_irrefl same_after by blast

lemma after_upto_trans: "after r q \<Longrightarrow> same p q \<or> after q p \<Longrightarrow> after r p"
  using after_trans same_before by blast

lemma successively_sorted:
  "successively (\<lambda>p q. same p q \<or> after q p) ps \<Longrightarrow> sorted_wrt (\<lambda>p q. same p q \<or> after q p) ps"
  by (subst (asm) successively_iff_sorted_wrt_strong) (erule (1) upto_trans, assumption)

end

lemma sort_key_of_same:
  assumes "position_eq p q"
  shows "is_after p r = is_after q r" "is_after r p = is_after r q"
  using assms
  by (cases p; cases q; cases r; simp add: debezium_sort_key_def)+

lemma source_map_eq_trans:
  assumes "source_map_eq a b" "source_map_eq b c"
  shows "source_map_eq a c"
  using assms unfolding source_map_eq_def
  by (rule list_all2_trans [rotated 1]) (auto dest: json_eq_trans)

interpretation positions: position_order is_after position_eq
proof
  show "\<not> is_after p p" for p by (cases p) auto
  show "is_after p q \<Longrightarrow> is_after q r \<Longrightarrow> is_after p r" for p q r
    by (cases p; cases q; simp; cases r; simp; metis order.strict_trans)
  show "position_eq p q \<Longrightarrow> position_eq q r \<Longrightarrow> position_eq p r" for p q r
    by (cases p; cases q; simp; cases r; simp) (metis source_map_eq_trans)
  show "position_eq p q \<Longrightarrow> is_after p r = is_after q r" for p q r
    by (rule sort_key_of_same)
  show "position_eq p q \<Longrightarrow> is_after r p = is_after r q" for p q r
    by (rule sort_key_of_same)
qed

lemma source_map_eq_refl:
  "list_all (\<lambda>(k, v). json_wf v) m \<Longrightarrow> source_map_eq m m"
  unfolding source_map_eq_def by (induction m) (auto intro: json_eq_refl)

lemma position_eq_refl [simp]: "position_wf p \<Longrightarrow> position_eq p p"
  by (cases p) (auto simp: position_wf_def source_map_eq_refl)

lemma is_at_or_before_refl [simp]: "position_wf p \<Longrightarrow> is_at_or_before p p"
  by (simp add: is_at_or_before_def)

lemmas is_at_or_before_trans = positions.upto_trans [folded is_at_or_before_def]
lemmas is_at_or_before_not_after = positions.upto_not_after [folded is_at_or_before_def]

section \<open>Events, records and encoded events\<close>

datatype operation = Read | Create | Update | Delete | Truncate | Message

type_synonym event_id = string

text \<open>\<^verbatim>\<open>EventId::deterministic\<close>: the bytes given to the hash, in the order of the updates.\<close>

definition event_id_input :: "string \<Rightarrow> string \<Rightarrow> u8 list \<Rightarrow> string \<Rightarrow> u64 \<Rightarrow> u8 list" where
  "event_id_input connector_name part position coll ordinal =
     bytes_of connector_name @ [0] @ bytes_of part @ [0] @ position @ [0]
     @ bytes_of coll @ be_bytes 8 (unat ordinal)"

definition deterministic ::
  "(u8 list \<Rightarrow> u8 list) \<Rightarrow> (u8 list \<Rightarrow> string) \<Rightarrow> (source_position \<Rightarrow> u8 list) \<Rightarrow>
   string \<Rightarrow> string \<Rightarrow> source_position \<Rightarrow> string \<Rightarrow> u64 \<Rightarrow> event_id" where
  "deterministic sha256 hex to_vec connector_name part position coll ordinal =
     hex (sha256 (event_id_input connector_name part (to_vec position) coll ordinal))"

definition derived ::
  "(u8 list \<Rightarrow> u8 list) \<Rightarrow> (u8 list \<Rightarrow> string) \<Rightarrow> event_id \<Rightarrow> string \<Rightarrow> event_id" where
  "derived sha256 hex event_id discriminator =
     hex (sha256 (bytes_of event_id @ [0] @ bytes_of discriminator))"

record source_metadata =
  sm_connector :: string
  sm_connector_name :: string
  sm_database :: string
  sm_schema :: "string option"
  sm_table :: "string option"
  sm_snapshot :: bool
  sm_version :: string
  sm_attributes :: "(string \<times> json) list"

definition source_collection :: "source_metadata \<Rightarrow> string" where
  "source_collection m =
     (case (sm_schema m, sm_table m) of
        (Some schema, Some table) \<Rightarrow> sm_database m @ ''.'' @ schema @ ''.'' @ table
      | _ \<Rightarrow> sm_database m)"

record transaction_metadata =
  tx_id :: string
  tx_total_order :: "u64 option"
  tx_collection_order :: "u64 option"

record field_schema =
  fs_name :: string
  fs_type_name :: string
  fs_optional :: bool
  fs_primary_key :: bool

record event_schema =
  es_name :: string
  es_version :: u32
  es_fields :: "field_schema list"

text \<open>An instant is its distance in nanoseconds from the Unix epoch.\<close>

type_synonym instant = int

record change_event =
  ev_id :: event_id
  ev_source :: source_metadata
  ev_position :: source_position
  ev_transaction :: "transaction_metadata option"
  ev_operation :: operation
  ev_before :: "row option"
  ev_after :: "row option"
  ev_schema :: event_schema
  ev_source_time :: "instant option"
  ev_observed_time :: instant

datatype record_boundary = DataBoundary | TransactionCommit | SnapshotComplete | Heartbeat

record state_envelope =
  env_format :: string
  env_version :: u32
  env_payload :: json

definition state_envelope_new :: "string \<Rightarrow> u32 \<Rightarrow> json \<Rightarrow> state_envelope" where
  "state_envelope_new fmt version payload =
     \<lparr>env_format = fmt, env_version = version, env_payload = payload\<rparr>"

text \<open>
  A signal acknowledgement is a shared cell; a record carries its address (\<^verbatim>\<open>Arc\<close>), the cells
  themselves are in the theory of the signal channel.
\<close>

type_synonym ack_ref = nat

record source_record =
  sr_event :: "change_event option"
  sr_position :: source_position
  sr_boundary :: record_boundary
  sr_connector_state :: "state_envelope option"
  sr_signal_acks :: "ack_ref list"

definition record_data :: "change_event \<Rightarrow> source_record" where
  "record_data event =
     \<lparr>sr_event = Some event, sr_position = ev_position event, sr_boundary = DataBoundary,
      sr_connector_state = None, sr_signal_acks = []\<rparr>"

definition with_connector_state :: "source_record \<Rightarrow> state_envelope \<Rightarrow> source_record" where
  "with_connector_state r s = r\<lparr>sr_connector_state := Some s\<rparr>"

datatype wire_schema_type = WireAvro | WireJson | WireProtobuf

record wire_schema =
  ws_subject :: string
  ws_schema_type :: wire_schema_type
  ws_definition :: string

record encoded_event =
  enc_id :: event_id
  enc_destination :: string
  enc_key :: "u8 list option"
  enc_key_schema :: "wire_schema option"
  enc_payload :: "u8 list option"
  enc_payload_schema :: "wire_schema option"
  enc_headers :: "(string \<times> string) list"

record delivery_batch =
  db_events :: "encoded_event list"
  db_highest_position :: source_position

lemma event_id_input_inject:
  assumes "0 \<notin> set (bytes_of n)" "0 \<notin> set (bytes_of n')"
    and "0 \<notin> set (bytes_of q)" "0 \<notin> set (bytes_of q')"
    and "0 \<notin> set p" "0 \<notin> set p'"
  shows "event_id_input n q p c i = event_id_input n' q' p' c' i'
    \<longleftrightarrow> n = n' \<and> q = q' \<and> p = p' \<and> c = c' \<and> i = i'"
proof
  assume eq: "event_id_input n q p c i = event_id_input n' q' p' c' i'"
  then have "n = n'" "q = q'" "p = p'"
    and tail: "bytes_of c @ be_bytes 8 (unat i) = bytes_of c' @ be_bytes 8 (unat i')"
    using assms unfolding event_id_input_def by (simp_all add: separated_inject)
  have bound: "unat x < 256 ^ 8" for x :: u64
    using unsigned_less [of x, where ?'a = nat] by simp
  from tail have "c = c'" "be_bytes 8 (unat i) = be_bytes 8 (unat i')" by auto
  moreover from this(2) have "i = i'"
    using be_bytes_inject [OF bound bound] by (simp add: word_unat_eq_iff)
  ultimately show "n = n' \<and> q = q' \<and> p = p' \<and> c = c' \<and> i = i'"
    using \<open>n = n'\<close> \<open>q = q'\<close> \<open>p = p'\<close> by simp
qed simp

section \<open>Properties\<close>


definition sample_postgres :: "u64 \<Rightarrow> u64 \<Rightarrow> bool \<Rightarrow> source_position" where
  "sample_postgres lsn serial snap =
     Postgres \<lparr>pg_lsn = lsn, pg_commit_lsn = Some lsn, pg_transaction_id = None, pg_xmin = None,
               pg_event_serial = serial, pg_snapshot = snap\<rparr>"


text \<open>
  Two events get the same deterministic identity only when they agree on connector, partition,
  position, collection and ordinal, or when the hash itself collides. Names hold no NUL byte and
  the JSON printer of positions is injective and escapes NUL.
\<close>

theorem deterministic_id_collision:
  assumes names: "CHR 0x00 \<notin> set n \<union> set n' \<union> set q \<union> set q'"
    and to_vec: "to_vec p = to_vec p' \<longrightarrow> p = p'" "0 \<notin> set (to_vec p) \<union> set (to_vec p')"
    and same: "deterministic sha256 hex to_vec n q p c i = deterministic sha256 hex to_vec n' q' p' c' i'"
  shows "(n = n' \<and> q = q' \<and> p = p' \<and> c = c' \<and> i = i')
    \<or> (\<exists>x y. x \<noteq> y \<and> hex (sha256 x) = hex (sha256 y)
         \<and> x = event_id_input n q (to_vec p) c i \<and> y = event_id_input n' q' (to_vec p') c' i')"
proof (cases "event_id_input n q (to_vec p) c i = event_id_input n' q' (to_vec p') c' i'")
  case True
  then show ?thesis
    using names to_vec by (simp add: event_id_input_inject zero_in_bytes_of)
next
  case False
  with same show ?thesis by (auto simp: deterministic_def)
qed

theorem deterministic_id_collision_witness:
  "\<exists>x y :: u8 list. x \<noteq> y
     \<and> x = event_id_input ''orders'' ''wal'' [1] ''shop.public.orders'' 0
     \<and> y = event_id_input ''orders'' ''wal'' [2] ''shop.public.orders'' 0"
proof -
  define to_vec :: "source_position \<Rightarrow> u8 list" where
    "to_vec p = (if p = sample_postgres 5 9 True then [1] else [2])" for p
  have "sample_postgres 5 9 True \<noteq> sample_postgres 7 2 False"
    by (simp add: sample_postgres_def)
  then show ?thesis
    using deterministic_id_collision [of "''orders''" "''orders''" "''wal''" "''wal''" to_vec
        "sample_postgres 5 9 True" "sample_postgres 7 2 False" "\<lambda>_. []" "\<lambda>_. ''00''"
        "''shop.public.orders''" 0 "''shop.public.orders''" 0]
    by (auto simp: to_vec_def deterministic_def)
qed

end
