(* ===== verification/Serde_Json.thy ===== *)
theory Serde_Json
  imports Core_Event "HOL-Library.Monad_Syntax"
begin

text \<open>
  What \<^verbatim>\<open>serde\<close>'s derived serialisers do with the fields of a struct, on JSON values: required,
  optional, defaulted and skipped fields, integers with their range checks, lists and sorted maps,
  each reader with the lemma that it reads back what its writer wrote.
\<close>

named_theorems codec_simps \<open>reading back the fields of an encoded object\<close>

section \<open>Reading and writing fields\<close>

definition get_uint :: "json \<Rightarrow> 'n::len word option" where
  "get_uint j =
     (case j of
        JNumber (PosInt w) \<Rightarrow> if unat w < 2 ^ LENGTH('n) then Some (ucast w) else None
      | _ \<Rightarrow> None)"

definition get_bool :: "json \<Rightarrow> bool option" where
  "get_bool j = (case j of JBool b \<Rightarrow> Some b | _ \<Rightarrow> None)"

definition get_string :: "json \<Rightarrow> string option" where
  "get_string j = (case j of JString s \<Rightarrow> Some s | _ \<Rightarrow> None)"

text \<open>An \<^verbatim>\<open>Option\<close> field: absent and \<^verbatim>\<open>null\<close> are both \<^verbatim>\<open>None\<close>.\<close>

definition field :: "(json \<Rightarrow> 'a option) \<Rightarrow> string \<Rightarrow> (string \<times> json) list \<Rightarrow> 'a option" where
  "field get k m = Option.bind (map_of m k) get"

definition opt_field ::
  "(json \<Rightarrow> 'a option) \<Rightarrow> string \<Rightarrow> (string \<times> json) list \<Rightarrow> 'a option option" where
  "opt_field get k m =
     (case map_of m k of
        None \<Rightarrow> Some None
      | Some JNull \<Rightarrow> Some None
      | Some j \<Rightarrow> map_option Some (get j))"

definition put_opt :: "('a \<Rightarrow> json) \<Rightarrow> 'a option \<Rightarrow> json" where
  "put_opt put x = (case x of None \<Rightarrow> JNull | Some y \<Rightarrow> put y)"

definition skip_none :: "string \<Rightarrow> ('a \<Rightarrow> json) \<Rightarrow> 'a option \<Rightarrow> (string \<times> json) list" where
  "skip_none k put x = (case x of None \<Rightarrow> [] | Some y \<Rightarrow> [(k, put y)])"

lemma get_uint_json_uint [codec_simps]:
  assumes "LENGTH('n) \<le> 64"
  shows "get_uint (json_uint (w :: 'n::len word)) = Some w"
proof -
  have bound: "unat w < 2 ^ LENGTH('n)"
    using unsigned_less [of w, where ?'a = nat] .
  also have "(2::nat) ^ LENGTH('n) \<le> 2 ^ 64" using assms by (intro power_increasing) auto
  finally have "unat w < 2 ^ 64" .
  then have conv: "(word_of_int (uint w) :: u64) = ucast w" "unat (ucast w :: u64) = unat w"
    by (simp, simp add: unsigned_ucast_eq take_bit_nat_eq_self)
  moreover have "(ucast (ucast w :: u64) :: 'n word) = w"
    using assms by (simp add: ucast_up_ucast_id is_up)
  ultimately show ?thesis using bound by (simp add: get_uint_def json_int_def)
qed

lemma get_bool_JBool [codec_simps]: "get_bool (JBool b) = Some b"
  by (simp add: get_bool_def)

lemma get_string_JString [codec_simps]: "get_string (JString s) = Some s"
  by (simp add: get_string_def)

lemma field_simps [codec_simps]:
  "field get k ((k, j) # m) = get j"
  "k \<noteq> l \<Longrightarrow> field get k ((l, j) # m) = field get k m"
  by (simp_all add: field_def)

lemma field_skip_none [codec_simps]:
  "k \<noteq> l \<Longrightarrow> field get k (skip_none l put x @ m) = field get k m"
  by (cases x) (simp_all add: field_def skip_none_def)

lemma opt_field_simps [codec_simps]:
  "k \<noteq> l \<Longrightarrow> opt_field get k ((l, j) # m) = opt_field get k m"
  "opt_field get k [] = Some None"
  by (simp_all add: opt_field_def)

lemma opt_field_put [codec_simps]:
  assumes "\<And>y. put y \<noteq> JNull" "\<And>y. x = Some y \<Longrightarrow> get (put y) = Some y"
  shows "opt_field get k ((k, put_opt put x) # m) = Some x"
proof (cases x)
  case None
  then show ?thesis by (simp add: opt_field_def put_opt_def)
next
  case (Some y)
  then show ?thesis
    using assms by (cases "put y") (auto simp: opt_field_def put_opt_def)
qed

lemma opt_field_skip_none [codec_simps]:
  assumes "\<And>y. put y \<noteq> JNull" "\<And>y. x = Some y \<Longrightarrow> get (put y) = Some y"
    and "k \<notin> fst ` set m"
  shows "opt_field get k (skip_none k put x @ m) = Some x"
proof (cases x)
  case None
  then have "map_of m k = None" using assms(3) by (simp add: map_of_eq_None_iff)
  with None show ?thesis by (simp add: opt_field_def skip_none_def)
next
  case (Some y)
  then show ?thesis
    using assms(1,2) by (cases "put y") (auto simp: opt_field_def skip_none_def)
qed

lemma opt_field_skip_none_cases [codec_simps]:
  "k \<notin> fst ` set m \<Longrightarrow> opt_field get k (skip_none k put None @ m) = Some None"
  "put y \<noteq> JNull \<Longrightarrow> get (put y) = Some y \<Longrightarrow>
   opt_field get k (skip_none k put (Some y) @ m) = Some (Some y)"
proof -
  show "opt_field get k (skip_none k put None @ m) = Some None" if "k \<notin> fst ` set m"
    using that map_of_eq_None_iff [of m k] by (simp add: opt_field_def skip_none_def)
  show "opt_field get k (skip_none k put (Some y) @ m) = Some (Some y)"
    if "put y \<noteq> JNull" "get (put y) = Some y"
    using that by (cases "put y") (simp_all add: opt_field_def skip_none_def)
qed

lemma opt_field_other_skip_none [codec_simps]:
  "k \<noteq> l \<Longrightarrow> opt_field get k (skip_none l put x @ m) = opt_field get k m"
  by (cases x) (simp_all add: opt_field_def skip_none_def)

lemma notin_skip_none [codec_simps]: "k \<noteq> l \<Longrightarrow> k \<notin> fst ` set (skip_none l put x)"
  by (cases x) (simp_all add: skip_none_def)

lemma json_int_neq_JNull [simp]: "json_int i \<noteq> JNull"
  by (simp add: json_int_def)

lemma get_uint_json_int:
  assumes "0 \<le> i" "i < 2 ^ LENGTH('n)" "LENGTH('n) \<le> 64"
  shows "get_uint (json_int i) = Some (word_of_int i :: 'n::len word)"
proof -
  have "uint (word_of_int i :: 'n word) = i"
    using assms by (simp add: uint_word_of_int)
  then show ?thesis
    using get_uint_json_uint [of "word_of_int i :: 'n word"] assms(3) by metis
qed

section \<open>Signed integers, lists and maps\<close>

definition get_sint :: "json \<Rightarrow> 'n::len word option" where
  "get_sint j =
     (case j of
        JNumber (PosInt w) \<Rightarrow>
          if uint w < 2 ^ (LENGTH('n) - 1) then Some (word_of_int (uint w)) else None
      | JNumber (NegInt w) \<Rightarrow>
          if - (2 ^ (LENGTH('n) - 1)) \<le> sint w then Some (word_of_int (sint w)) else None
      | _ \<Rightarrow> None)"

definition get_usize :: "json \<Rightarrow> nat option" where
  "get_usize j = map_option unat (get_uint j :: u64 option)"

abbreviation json_usize :: "nat \<Rightarrow> json" where
  "json_usize n \<equiv> json_int (int n)"

definition get_list :: "(json \<Rightarrow> 'a option) \<Rightarrow> json \<Rightarrow> 'a list option" where
  "get_list get j = (case j of JArray js \<Rightarrow> collect_options get js | _ \<Rightarrow> None)"

definition put_list :: "('a \<Rightarrow> json) \<Rightarrow> 'a list \<Rightarrow> json" where
  "put_list put xs = JArray (map put xs)"

text \<open>A \<^verbatim>\<open>BTreeMap\<close> is read entry by entry.\<close>

definition get_btree :: "(json \<Rightarrow> 'a option) \<Rightarrow> json \<Rightarrow> (string \<times> 'a) list option" where
  "get_btree get j =
     (case j of
        JObject m \<Rightarrow>
          map_option (\<lambda>kvs. fold (\<lambda>(k, v). bt_insert k v) kvs [])
            (collect_options (\<lambda>(k, v). map_option (Pair k) (get v)) m)
      | _ \<Rightarrow> None)"

definition put_btree :: "('a \<Rightarrow> json) \<Rightarrow> (string \<times> 'a) list \<Rightarrow> json" where
  "put_btree put m = JObject (map (\<lambda>(k, v). (k, put v)) m)"

text \<open>\<^verbatim>\<open>#[serde(default)]\<close>, and \<^verbatim>\<open>skip_serializing_if\<close> for empty collections and \<^verbatim>\<open>false\<close>.\<close>

definition default_field ::
  "'a \<Rightarrow> (json \<Rightarrow> 'a option) \<Rightarrow> string \<Rightarrow> (string \<times> json) list \<Rightarrow> 'a option" where
  "default_field d get k m = (case map_of m k of None \<Rightarrow> Some d | Some j \<Rightarrow> get j)"

definition skip_if :: "bool \<Rightarrow> string \<Rightarrow> json \<Rightarrow> (string \<times> json) list" where
  "skip_if b k j = (if b then [] else [(k, j)])"

lemma bt_insert_append: "\<forall>k'\<in>fst ` set m. k' < k \<Longrightarrow> bt_insert k v m = m @ [(k, v)]"
  by (induction k v m rule: bt_insert.induct) auto

lemma fold_bt_insert_sorted: "bt_inv m \<Longrightarrow> fold (\<lambda>(k, v). bt_insert k v) m [] = m"
proof (induction m rule: rev_induct)
  case Nil
  then show ?case by simp
next
  case (snoc kv m)
  obtain k v where kv: "kv = (k, v)" by (cases kv)
  have "bt_inv m" "\<forall>k'\<in>fst ` set m. k' < k"
    using snoc.prems kv by (auto simp: bt_inv_def sorted_append order.strict_iff_order)
  with snoc.IH kv show ?case by (simp add: bt_insert_append)
qed

lemma get_sint_json_int [codec_simps]:
  assumes "LENGTH('n) \<le> 64"
  shows "get_sint (json_int (sint (w :: 'n::len word))) = Some w"
proof -
  have range: "- (2 ^ (LENGTH('n) - 1)) \<le> sint w" "sint w < 2 ^ (LENGTH('n) - 1)"
    using sint_ge [of w] sint_lt [of w] by simp_all
  have "(2::int) ^ (LENGTH('n) - 1) \<le> 2 ^ 63" using assms by (intro power_increasing) auto
  then have wide: "- (2 ^ 63) \<le> sint w" "sint w < 2 ^ 63" using range by linarith+
  show ?thesis
  proof (cases "sint w < 0")
    case True
    have "sint (word_of_int (sint w) :: i64) = sint w"
      using wide by (simp only: signed_of_int) (simp add: signed_take_bit_int_eq_self)
    with True range show ?thesis by (simp add: get_sint_def json_int_def)
  next
    case False
    have "uint (word_of_int (sint w) :: u64) = sint w"
      using wide False by (simp only: uint_word_of_int) (simp add: mod_pos_pos_trivial)
    with False range have "get_sint (JNumber (PosInt (word_of_int (sint w)))) = Some w"
      unfolding get_sint_def by (simp only: json.case json_number.case if_True) simp
    with False show ?thesis by (simp add: json_int_def)
  qed
qed

lemma get_usize_json_usize [codec_simps]: "n < 2 ^ 64 \<Longrightarrow> get_usize (json_usize n) = Some n"
  by (simp add: get_usize_def get_uint_json_int unsigned_of_nat take_bit_nat_eq_self)

lemma get_list_put [codec_simps]:
  "(\<And>x. x \<in> set xs \<Longrightarrow> get (put x) = Some x) \<Longrightarrow> get_list get (put_list put xs) = Some xs"
  by (induction xs) (auto simp: get_list_def put_list_def)

lemma get_btree_put [codec_simps]:
  assumes "bt_inv m" "\<And>v. v \<in> snd ` set m \<Longrightarrow> get (put v) = Some v"
  shows "get_btree get (put_btree put m) = Some m"
proof -
  have "collect_options (\<lambda>(k, v). map_option (Pair k) (get v)) (map (\<lambda>(k, v). (k, put v)) m) = Some m"
    using assms(2) by (induction m) auto
  with fold_bt_insert_sorted [OF assms(1)] show ?thesis by (simp add: get_btree_def put_btree_def)
qed

lemma put_list_neq_JNull [simp]: "put_list put xs \<noteq> JNull"
  by (simp add: put_list_def)

lemma default_field_simps [codec_simps]:
  "default_field d get k ((k, j) # m) = get j"
  "k \<noteq> l \<Longrightarrow> default_field d get k ((l, j) # m) = default_field d get k m"
  "default_field d get k [] = Some d"
  by (simp_all add: default_field_def)

lemma skip_if_simps [codec_simps]:
  "k \<noteq> l \<Longrightarrow> field get k (skip_if b l j @ m) = field get k m"
  "k \<noteq> l \<Longrightarrow> opt_field get k (skip_if b l j @ m) = opt_field get k m"
  "k \<noteq> l \<Longrightarrow> default_field d get k (skip_if b l j @ m) = default_field d get k m"
  "k \<noteq> l \<Longrightarrow> default_field d get k (skip_if b l j) = Some d"
  "k \<noteq> l \<Longrightarrow> default_field d get k (skip_none l put x @ m) = default_field d get k m"
  "k \<noteq> l \<Longrightarrow> opt_field get k (skip_if b l j) = Some None"
  by (simp_all add: skip_if_def skip_none_def field_def opt_field_def default_field_def split: option.split)

text \<open>A skipped empty collection, and a skipped \<^verbatim>\<open>false\<close>.\<close>

lemma default_field_skip_empty [codec_simps]:
  assumes "get (put xs) = Some xs" "k \<notin> fst ` set m"
  shows "default_field [] get k (skip_if (xs = []) k (put xs) @ m) = Some xs"
  using assms map_of_eq_None_iff [of m k] by (auto simp: default_field_def skip_if_def)

lemma default_field_skip_empty_end [codec_simps]:
  "get (put xs) = Some xs \<Longrightarrow> default_field [] get k (skip_if (xs = []) k (put xs)) = Some xs"
  by (auto simp: default_field_def skip_if_def)

lemma default_field_skip_false [codec_simps]:
  "default_field False get_bool k (skip_if (\<not> b) k (JBool b)) = Some b"
  by (simp add: default_field_def skip_if_def get_bool_def)

lemma notin_skip_if [codec_simps]: "k \<noteq> l \<Longrightarrow> k \<notin> fst ` set (skip_if b l j)"
  by (simp add: skip_if_def)

declare image_Un [codec_simps]

section \<open>Reading documents\<close>

definition json_get :: "string \<Rightarrow> json \<Rightarrow> json option" where
  "json_get k j = (case j of JObject m \<Rightarrow> map_of m k | _ \<Rightarrow> None)"

definition as_object :: "json \<Rightarrow> (string \<times> json) list option" where
  "as_object j = (case j of JObject m \<Rightarrow> Some m | _ \<Rightarrow> None)"

definition as_str :: "json \<Rightarrow> string option" where
  "as_str j = (case j of JString s \<Rightarrow> Some s | _ \<Rightarrow> None)"

definition unique_fields :: "string list \<Rightarrow> (string \<times> json) list \<Rightarrow> bool" where
  "unique_fields ks m = distinct (filter (\<lambda>k. k \<in> set ks) (map fst m))"

end
