(* ===== verification/Core_Signal.thy ===== *)
theory Core_Signal
  imports Serde_Json
begin

text \<open>
  The signal channel of \<^verbatim>\<open>crates/rustium-core/src/signal.rs\<close>: validated signals in a bounded queue,
  each with an optional acknowledgement, a shared cell that is used at most once. The senders, the
  receiver and the holders of acknowledgements interleave; \<open>signal_step\<close> is the step relation.
\<close>

record signal_record =
  sg_id :: string
  sg_type :: string
  sg_data :: json

definition empty_data :: json where
  "empty_data = JObject []"

definition signal_record_new :: "string \<Rightarrow> string \<Rightarrow> json \<Rightarrow> signal_record" where
  "signal_record_new i t d = \<lparr>sg_id = i, sg_type = t, sg_data = d\<rparr>"

text \<open>A record in a line of a signal file; a duplicate field is refused.\<close>

definition signal_record_from_json :: "json \<Rightarrow> signal_record option" where
  "signal_record_from_json j =
     (case j of
        JObject m \<Rightarrow>
          if \<not> unique_fields [''id'', ''type'', ''data''] m then None
          else do {
            i \<leftarrow> field get_string ''id'' m;
            t \<leftarrow> field get_string ''type'' m;
            d \<leftarrow> default_field empty_data Some ''data'' m;
            Some (signal_record_new i t d)
          }
      | _ \<Rightarrow> None)"

text \<open>The lines of a signal file.\<close>

definition signal_lines :: "string \<Rightarrow> string list" where
  "signal_lines contents =
     filter (\<lambda>l. l \<noteq> []) (map trim (split_on ((=) (CHR 0x0A)) contents))"

definition signal_validate :: "signal_record \<Rightarrow> unit result" where
  "signal_validate s =
     (if trim (sg_id s) = [] \<or> trim (sg_type s) = []
      then Err (Configuration ''signal requires non-empty id and type'')
      else Ok ())"

text \<open>
  The cell behind \<^verbatim>\<open>Arc<Mutex<Option<oneshot::Sender>>>\<close>: the sender is still there, was used, or
  went away with the last copy of the \<^verbatim>\<open>Arc\<close>.
\<close>

datatype ack_cell = Armed | Acknowledged | Dropped

type_synonym ack_cells = "ack_cell list"

definition acknowledge :: "ack_ref \<Rightarrow> ack_cells \<Rightarrow> ack_cells" where
  "acknowledge r cells =
     (if r < length cells \<and> cells ! r = Armed then cells[r := Acknowledged] else cells)"

definition drop_ack :: "ack_ref \<Rightarrow> ack_cells \<Rightarrow> ack_cells" where
  "drop_ack r cells =
     (if r < length cells \<and> cells ! r = Armed then cells[r := Dropped] else cells)"

record signal_delivery =
  sd_record :: signal_record
  sd_acknowledgement :: "ack_ref option"

record signal_channel =
  ch_capacity :: nat
  ch_open :: bool
  ch_queue :: "signal_delivery list"
  ch_cells :: ack_cells

definition signal_channel_new :: "nat \<Rightarrow> signal_channel" where
  "signal_channel_new capacity =
     \<lparr>ch_capacity = max capacity 1, ch_open = True, ch_queue = [], ch_cells = []\<rparr>"

text \<open>
  \<^verbatim>\<open>mpsc::Sender::send\<close>: fails when the receiver is gone, waits (\<open>None\<close>) while the queue is full.
\<close>

definition channel_send :: "signal_delivery \<Rightarrow> signal_channel \<Rightarrow> signal_channel result option" where
  "channel_send m ch =
     (if \<not> ch_open ch then Some (Err Cancelled)
      else if length (ch_queue ch) < ch_capacity ch
      then Some (Ok (ch\<lparr>ch_queue := ch_queue ch @ [m]\<rparr>))
      else None)"

definition send :: "signal_record \<Rightarrow> signal_channel \<Rightarrow> signal_channel result option" where
  "send s ch =
     (case signal_validate s of
        Err e \<Rightarrow> Some (Err e)
      | Ok _ \<Rightarrow> channel_send \<lparr>sd_record = s, sd_acknowledgement = None\<rparr> ch)"

text \<open>
  \<open>send_and_wait\<close> in two parts: handing the signal over with a new cell, and waiting for the cell.
\<close>

definition send_with_ack ::
  "signal_record \<Rightarrow> signal_channel \<Rightarrow> (ack_ref \<times> signal_channel) result option" where
  "send_with_ack s ch =
     (case signal_validate s of
        Err e \<Rightarrow> Some (Err e)
      | Ok _ \<Rightarrow>
          (let r = length (ch_cells ch) in
           case channel_send \<lparr>sd_record = s, sd_acknowledgement = Some r\<rparr>
                  (ch\<lparr>ch_cells := ch_cells ch @ [Armed]\<rparr>) of
             None \<Rightarrow> None
           | Some (Err e) \<Rightarrow> Some (Err e)
           | Some (Ok ch') \<Rightarrow> Some (Ok (r, ch'))))"

definition await_ack :: "ack_ref \<Rightarrow> signal_channel \<Rightarrow> unit result option" where
  "await_ack r ch =
     (case ch_cells ch ! r of
        Armed \<Rightarrow> None
      | Acknowledged \<Rightarrow> Some (Ok ())
      | Dropped \<Rightarrow> Some (Err Cancelled))"

definition receive :: "signal_channel \<Rightarrow> (signal_delivery \<times> signal_channel) option" where
  "receive ch =
     (case ch_queue ch of [] \<Rightarrow> None | m # ms \<Rightarrow> Some (m, ch\<lparr>ch_queue := ms\<rparr>))"

definition delivery_acknowledge :: "signal_delivery \<Rightarrow> ack_cells \<Rightarrow> ack_cells" where
  "delivery_acknowledge m cells =
     (case sd_acknowledgement m of None \<Rightarrow> cells | Some r \<Rightarrow> acknowledge r cells)"

text \<open>
  One step of anyone: a plain send, a send with acknowledgement, a receive, an acknowledgement or a
  drop by whoever took the delivery out of the queue, and the receiver going away.
\<close>

inductive signal_step :: "signal_channel \<Rightarrow> signal_channel \<Rightarrow> bool" where
  Send: "send s ch = Some (Ok ch') \<Longrightarrow> signal_step ch ch'"
| SendWait: "send_with_ack s ch = Some (Ok (r, ch')) \<Longrightarrow> signal_step ch ch'"
| Receive: "receive ch = Some (m, ch') \<Longrightarrow> signal_step ch ch'"
| Ack: "r \<notin> set (List.map_filter sd_acknowledgement (ch_queue ch)) \<Longrightarrow>
    signal_step ch (ch\<lparr>ch_cells := acknowledge r (ch_cells ch)\<rparr>)"
| Drop: "r \<notin> set (List.map_filter sd_acknowledgement (ch_queue ch)) \<Longrightarrow>
    signal_step ch (ch\<lparr>ch_cells := drop_ack r (ch_cells ch)\<rparr>)"
| Close: "signal_step ch (ch\<lparr>ch_open := False\<rparr>)"

inductive_cases signal_stepE: "signal_step ch ch'"

inductive signal_reachable :: "nat \<Rightarrow> signal_channel \<Rightarrow> bool" for capacity where
  Init: "signal_reachable capacity (signal_channel_new capacity)"
| Step: "signal_reachable capacity ch \<Longrightarrow> signal_step ch ch' \<Longrightarrow> signal_reachable capacity ch'"

definition queued_acks :: "signal_channel \<Rightarrow> ack_ref list" where
  "queued_acks ch = List.map_filter sd_acknowledgement (ch_queue ch)"

text \<open>
  The invariant: the queue is bounded, every queued signal passed validation, and every queued
  acknowledgement has a cell of its own that nobody has used.
\<close>

definition signal_inv :: "signal_channel \<Rightarrow> bool" where
  "signal_inv ch =
     (1 \<le> ch_capacity ch \<and> length (ch_queue ch) \<le> ch_capacity ch
      \<and> list_all (\<lambda>m. signal_validate (sd_record m) = Ok ()) (ch_queue ch)
      \<and> distinct (queued_acks ch)
      \<and> list_all (\<lambda>r. r < length (ch_cells ch) \<and> ch_cells ch ! r = Armed) (queued_acks ch))"

lemma channel_send_Ok:
  "channel_send m ch = Some (Ok ch') \<Longrightarrow>
    ch' = ch\<lparr>ch_queue := ch_queue ch @ [m]\<rparr> \<and> length (ch_queue ch) < ch_capacity ch"
  by (auto simp: channel_send_def split: if_splits)

lemma queued_acks_append:
  "queued_acks (ch\<lparr>ch_queue := q @ [m]\<rparr>)
   = queued_acks (ch\<lparr>ch_queue := q\<rparr>)
     @ (case sd_acknowledgement m of None \<Rightarrow> [] | Some r \<Rightarrow> [r])"
  by (simp add: queued_acks_def List.map_filter_def split: option.splits)

lemma signal_inv_init: "signal_inv (signal_channel_new capacity)"
  by (simp add: signal_inv_def signal_channel_new_def queued_acks_def List.map_filter_def)

lemma send_inv:
  assumes "send s ch = Some (Ok ch')" "signal_inv ch"
  shows "signal_inv ch'"
proof -
  obtain u where valid: "signal_validate s = Ok u"
    using assms(1) by (auto simp: send_def split: sum.splits)
  then have "ch' = ch\<lparr>ch_queue := ch_queue ch @ [\<lparr>sd_record = s, sd_acknowledgement = None\<rparr>]\<rparr>"
    "length (ch_queue ch) < ch_capacity ch"
    using assms(1) channel_send_Ok [of _ ch ch'] by (auto simp: send_def)
  then show ?thesis
    using assms(2) valid by (auto simp: signal_inv_def queued_acks_append)
qed

lemma send_with_ack_Ok:
  assumes "send_with_ack s ch = Some (Ok (r, ch'))"
  shows "signal_validate s = Ok () \<and> r = length (ch_cells ch) \<and> length (ch_queue ch) < ch_capacity ch
    \<and> ch' = ch\<lparr>ch_queue := ch_queue ch @ [\<lparr>sd_record = s, sd_acknowledgement = Some r\<rparr>],
              ch_cells := ch_cells ch @ [Armed]\<rparr>"
proof -
  obtain u where valid: "signal_validate s = Ok u"
    using assms by (auto simp: send_with_ack_def split: sum.splits)
  then obtain ch1 where "channel_send \<lparr>sd_record = s, sd_acknowledgement = Some (length (ch_cells ch))\<rparr>
      (ch\<lparr>ch_cells := ch_cells ch @ [Armed]\<rparr>) = Some (Ok ch1)" "ch' = ch1" "r = length (ch_cells ch)"
    using assms by (auto simp: send_with_ack_def Let_def split: option.splits sum.splits)
  then show ?thesis using valid by (auto dest!: channel_send_Ok)
qed

lemma send_with_ack_inv:
  assumes "send_with_ack s ch = Some (Ok (r, ch'))" "signal_inv ch"
  shows "signal_inv ch'"
proof -
  note ok = send_with_ack_Ok [OF assms(1)]
  have "queued_acks ch' = queued_acks ch @ [r]"
    using ok by (simp add: queued_acks_def List.map_filter_def)
  then show ?thesis
    using ok assms(2) by (fastforce simp: signal_inv_def list_all_iff nth_append)
qed

lemma receive_inv:
  assumes "receive ch = Some (m, ch')" "signal_inv ch"
  shows "signal_inv ch'"
proof -
  obtain ms where q: "ch_queue ch = m # ms" and ch': "ch' = ch\<lparr>ch_queue := ms\<rparr>"
    using assms(1) by (auto simp: receive_def split: list.splits)
  have "queued_acks ch = (case sd_acknowledgement m of None \<Rightarrow> [] | Some r \<Rightarrow> [r]) @ queued_acks ch'"
    using q ch' by (simp add: queued_acks_def List.map_filter_simps split: option.splits)
  then show ?thesis
    using assms(2) q ch' by (auto simp: signal_inv_def)
qed

lemma resolve_inv:
  assumes "signal_inv ch" "r \<notin> set (queued_acks ch)"
  shows "signal_inv (ch\<lparr>ch_cells := (ch_cells ch)[r := c]\<rparr>)"
proof -
  have "queued_acks (ch\<lparr>ch_cells := (ch_cells ch)[r := c]\<rparr>) = queued_acks ch"
    by (simp add: queued_acks_def)
  moreover have "(ch_cells ch)[r := c] ! q = ch_cells ch ! q" if "q \<in> set (queued_acks ch)" for q
    using that assms(2) by (metis nth_list_update_neq)
  ultimately show ?thesis
    using assms by (auto simp: signal_inv_def list_all_iff)
qed

lemma signal_step_inv: "signal_step ch ch' \<Longrightarrow> signal_inv ch \<Longrightarrow> signal_inv ch'"
proof (induction rule: signal_step.induct)
  case (Send s ch ch')
  then show ?case by (rule send_inv)
next
  case (SendWait s ch r ch')
  then show ?case by (rule send_with_ack_inv)
next
  case (Receive ch m ch')
  then show ?case by (rule receive_inv)
next
  case (Ack r ch)
  then show ?case
    using resolve_inv [of ch r Acknowledged] by (simp add: acknowledge_def queued_acks_def)
next
  case (Drop r ch)
  then show ?case
    using resolve_inv [of ch r Dropped] by (simp add: drop_ack_def queued_acks_def)
next
  case (Close ch)
  then show ?case by (simp add: signal_inv_def queued_acks_def)
qed

lemma signal_reachable_inv: "signal_reachable capacity ch \<Longrightarrow> signal_inv ch"
  by (induction rule: signal_reachable.induct) (auto intro: signal_inv_init signal_step_inv)

text \<open>A resolved cell keeps its value: the waiter gets one answer.\<close>

lemma signal_step_cells:
  assumes "signal_step ch ch'" "r < length (ch_cells ch)" "ch_cells ch ! r \<noteq> Armed"
  shows "r < length (ch_cells ch') \<and> ch_cells ch' ! r = ch_cells ch ! r"
proof (rule signal_stepE [OF assms(1)], goal_cases)
  case (1 s)
  then show ?case
    using assms(2) by (auto simp: send_def split: sum.splits dest!: channel_send_Ok)
next
  case (2 s q)
  then show ?case using assms(2) by (auto dest!: send_with_ack_Ok simp: nth_append)
next
  case (3 m)
  then show ?case using assms(2) by (auto simp: receive_def split: list.splits)
qed (use assms in \<open>auto simp: acknowledge_def drop_ack_def nth_list_update\<close>)

lemma signal_step_capacity: "signal_step ch ch' \<Longrightarrow> ch_capacity ch' = ch_capacity ch"
  by (induction rule: signal_step.induct)
     (auto simp: send_def receive_def split: sum.splits list.splits
       dest!: channel_send_Ok send_with_ack_Ok)

lemma signal_reachable_capacity:
  "signal_reachable capacity ch \<Longrightarrow> ch_capacity ch = max capacity 1"
  by (induction rule: signal_reachable.induct) (auto simp: signal_channel_new_def signal_step_capacity)

text \<open>The answer of \<^verbatim>\<open>send_and_wait\<close> is final.\<close>

lemma await_ack_final:
  assumes "signal_step ch ch'" "r < length (ch_cells ch)" "await_ack r ch = Some a"
  shows "await_ack r ch' = Some a"
proof -
  have "ch_cells ch ! r \<noteq> Armed" using assms(3) by (auto simp: await_ack_def)
  then have "ch_cells ch' ! r = ch_cells ch ! r" using signal_step_cells assms(1,2) by blast
  with assms(3) show ?thesis by (simp add: await_ack_def)
qed

section \<open>Properties\<close>



end
