(* ===== verification/Checkpoint_Store.thy ===== *)
theory Checkpoint_Store
  imports Serde_Json
begin

text \<open>
  Checkpoints (\<^verbatim>\<open>crates/rustium-core/src/traits.rs\<close>), the JSON documents that the derived
  serialisers of \<^verbatim>\<open>event.rs\<close> give them, and the SQLite store of
  \<^verbatim>\<open>crates/rustium-state/src/lib.rs\<close>. The JSON printer and parser, the UUID parser and the faults of
  the database are parameters. The contract of \<^verbatim>\<open>CheckpointStore\<close> is the locale
  \<open>checkpoint_store\<close>, and the SQLite store is its interpretation.
\<close>

section \<open>Positions as JSON\<close>

text \<open>
  \<^verbatim>\<open>#[serde(tag = "type", rename_all = "snake_case")]\<close>: an object that starts with the variant.
\<close>

definition postgres_fields :: "postgres_position \<Rightarrow> (string \<times> json) list" where
  "postgres_fields p =
     (''lsn'', json_uint (pg_lsn p)) # (''commit_lsn'', put_opt json_uint (pg_commit_lsn p))
     # (''transaction_id'', put_opt json_uint (pg_transaction_id p))
     # skip_none ''xmin'' json_uint (pg_xmin p)
     @ [(''event_serial'', json_uint (pg_event_serial p)), (''snapshot'', JBool (pg_snapshot p))]"

definition mysql_fields :: "mysql_position \<Rightarrow> (string \<times> json) list" where
  "mysql_fields p =
     [(''binlog_filename'', JString (my_binlog_filename p)),
      (''binlog_position'', json_uint (my_binlog_position p)),
      (''gtid_set'', put_opt JString (my_gtid_set p)),
      (''server_id'', json_uint (my_server_id p)),
      (''event_serial'', json_uint (my_event_serial p)), (''snapshot'', JBool (my_snapshot p))]"

definition sqlserver_fields :: "sqlserver_position \<Rightarrow> (string \<times> json) list" where
  "sqlserver_fields p =
     [(''database'', JString (ms_database p)), (''commit_lsn'', JString (ms_commit_lsn p)),
      (''change_lsn'', JString (ms_change_lsn p)),
      (''event_serial'', json_uint (ms_event_serial p)), (''snapshot'', JBool (ms_snapshot p))]"

definition oracle_fields :: "oracle_position \<Rightarrow> (string \<times> json) list" where
  "oracle_fields p =
     (''scn'', json_uint (ora_scn p)) # (''commit_scn'', put_opt json_uint (ora_commit_scn p))
     # (''transaction_id'', put_opt JString (ora_transaction_id p))
     # skip_none ''rs_id'' JString (ora_rs_id p)
     @ skip_none ''ssn'' json_uint (ora_ssn p)
     @ [(''event_serial'', json_uint (ora_event_serial p)),
        (''snapshot'', JBool (ora_snapshot p))]"

definition mongodb_fields :: "mongodb_position \<Rightarrow> (string \<times> json) list" where
  "mongodb_fields p =
     skip_none ''resume_token'' JString (mg_resume_token p)
     @ skip_none ''cluster_time_seconds'' json_uint (mg_cluster_time_seconds p)
     @ skip_none ''cluster_time_increment'' json_uint (mg_cluster_time_increment p)
     @ [(''event_serial'', json_uint (mg_event_serial p)), (''snapshot'', JBool (mg_snapshot p))]"

definition debezium_fields :: "debezium_position \<Rightarrow> (string \<times> json) list" where
  "debezium_fields p =
     [(''connector'', JString (dz_connector p)), (''source'', put_btree id (dz_source p)),
      (''record_id'', JString (dz_record_id p)),
      (''event_serial'', json_uint (dz_event_serial p)), (''snapshot'', JBool (dz_snapshot p))]"

definition position_to_json :: "source_position \<Rightarrow> json" where
  "position_to_json p =
     JObject
       (case p of
          Postgres q \<Rightarrow> (''type'', JString ''postgres'') # postgres_fields q
        | MySql q \<Rightarrow> (''type'', JString ''my_sql'') # mysql_fields q
        | SqlServer q \<Rightarrow> (''type'', JString ''sql_server'') # sqlserver_fields q
        | Oracle q \<Rightarrow> (''type'', JString ''oracle'') # oracle_fields q
        | MongoDb q \<Rightarrow> (''type'', JString ''mongo_db'') # mongodb_fields q
        | Debezium q \<Rightarrow> (''type'', JString ''debezium'') # debezium_fields q)"

text \<open>The derived deserialisers; an unknown field is ignored, a missing one is an error.\<close>

definition postgres_from :: "(string \<times> json) list \<Rightarrow> postgres_position option" where
  "postgres_from m =
     do {
       lsn \<leftarrow> field get_uint ''lsn'' m;
       commit_lsn \<leftarrow> opt_field get_uint ''commit_lsn'' m;
       xid \<leftarrow> opt_field get_uint ''transaction_id'' m;
       xmin \<leftarrow> opt_field get_uint ''xmin'' m;
       serial \<leftarrow> field get_uint ''event_serial'' m;
       snap \<leftarrow> field get_bool ''snapshot'' m;
       Some \<lparr>pg_lsn = lsn, pg_commit_lsn = commit_lsn, pg_transaction_id = xid, pg_xmin = xmin,
             pg_event_serial = serial, pg_snapshot = snap\<rparr>
     }"

definition mysql_from :: "(string \<times> json) list \<Rightarrow> mysql_position option" where
  "mysql_from m =
     do {
       filename \<leftarrow> field get_string ''binlog_filename'' m;
       pos \<leftarrow> field get_uint ''binlog_position'' m;
       gtid \<leftarrow> opt_field get_string ''gtid_set'' m;
       server \<leftarrow> field get_uint ''server_id'' m;
       serial \<leftarrow> field get_uint ''event_serial'' m;
       snap \<leftarrow> field get_bool ''snapshot'' m;
       Some \<lparr>my_binlog_filename = filename, my_binlog_position = pos, my_gtid_set = gtid,
             my_server_id = server, my_event_serial = serial, my_snapshot = snap\<rparr>
     }"

definition sqlserver_from :: "(string \<times> json) list \<Rightarrow> sqlserver_position option" where
  "sqlserver_from m =
     do {
       db \<leftarrow> field get_string ''database'' m;
       commit_lsn \<leftarrow> field get_string ''commit_lsn'' m;
       change_lsn \<leftarrow> field get_string ''change_lsn'' m;
       serial \<leftarrow> field get_uint ''event_serial'' m;
       snap \<leftarrow> field get_bool ''snapshot'' m;
       Some \<lparr>ms_database = db, ms_commit_lsn = commit_lsn, ms_change_lsn = change_lsn,
             ms_event_serial = serial, ms_snapshot = snap\<rparr>
     }"

definition oracle_from :: "(string \<times> json) list \<Rightarrow> oracle_position option" where
  "oracle_from m =
     do {
       scn \<leftarrow> field get_uint ''scn'' m;
       commit_scn \<leftarrow> opt_field get_uint ''commit_scn'' m;
       xid \<leftarrow> opt_field get_string ''transaction_id'' m;
       rs_id \<leftarrow> opt_field get_string ''rs_id'' m;
       ssn \<leftarrow> opt_field get_uint ''ssn'' m;
       serial \<leftarrow> field get_uint ''event_serial'' m;
       snap \<leftarrow> field get_bool ''snapshot'' m;
       Some \<lparr>ora_scn = scn, ora_commit_scn = commit_scn, ora_transaction_id = xid,
             ora_rs_id = rs_id, ora_ssn = ssn, ora_event_serial = serial, ora_snapshot = snap\<rparr>
     }"

definition mongodb_from :: "(string \<times> json) list \<Rightarrow> mongodb_position option" where
  "mongodb_from m =
     do {
       token \<leftarrow> opt_field get_string ''resume_token'' m;
       seconds \<leftarrow> opt_field get_uint ''cluster_time_seconds'' m;
       increment \<leftarrow> opt_field get_uint ''cluster_time_increment'' m;
       serial \<leftarrow> field get_uint ''event_serial'' m;
       snap \<leftarrow> field get_bool ''snapshot'' m;
       Some \<lparr>mg_resume_token = token, mg_cluster_time_seconds = seconds,
             mg_cluster_time_increment = increment, mg_event_serial = serial,
             mg_snapshot = snap\<rparr>
     }"

definition debezium_from :: "(string \<times> json) list \<Rightarrow> debezium_position option" where
  "debezium_from m =
     do {
       connector \<leftarrow> field get_string ''connector'' m;
       source \<leftarrow> field (get_btree Some) ''source'' m;
       record_id \<leftarrow> field get_string ''record_id'' m;
       serial \<leftarrow> field get_uint ''event_serial'' m;
       snap \<leftarrow> field get_bool ''snapshot'' m;
       Some \<lparr>dz_connector = connector, dz_source = source, dz_record_id = record_id,
             dz_event_serial = serial, dz_snapshot = snap\<rparr>
     }"

definition position_from_json :: "json \<Rightarrow> source_position option" where
  "position_from_json j =
     (case j of
        JObject m \<Rightarrow>
          (case field get_string ''type'' m of
             None \<Rightarrow> None
           | Some t \<Rightarrow>
               if t = ''postgres'' then map_option Postgres (postgres_from m)
               else if t = ''my_sql'' then map_option MySql (mysql_from m)
               else if t = ''sql_server'' then map_option SqlServer (sqlserver_from m)
               else if t = ''oracle'' then map_option Oracle (oracle_from m)
               else if t = ''mongo_db'' then map_option MongoDb (mongodb_from m)
               else if t = ''debezium'' then map_option Debezium (debezium_from m)
               else None)
      | _ \<Rightarrow> None)"

lemma postgres_from_fields [codec_simps]:
  "postgres_from ((''type'', t) # postgres_fields p) = Some p"
  by (simp add: postgres_from_def postgres_fields_def codec_simps)

lemma mysql_from_fields [codec_simps]: "mysql_from ((''type'', t) # mysql_fields p) = Some p"
  by (simp add: mysql_from_def mysql_fields_def codec_simps)

lemma sqlserver_from_fields [codec_simps]:
  "sqlserver_from ((''type'', t) # sqlserver_fields p) = Some p"
  by (simp add: sqlserver_from_def sqlserver_fields_def codec_simps)

lemma oracle_from_fields [codec_simps]: "oracle_from ((''type'', t) # oracle_fields p) = Some p"
  by (simp add: oracle_from_def oracle_fields_def codec_simps image_Un)

lemma mongodb_from_fields [codec_simps]:
  "mongodb_from ((''type'', t) # mongodb_fields p) = Some p"
  by (simp add: mongodb_from_def mongodb_fields_def codec_simps image_Un)

lemma debezium_from_fields [codec_simps]:
  "bt_inv (dz_source p) \<Longrightarrow> debezium_from ((''type'', t) # debezium_fields p) = Some p"
  by (simp add: debezium_from_def debezium_fields_def codec_simps get_btree_put)

lemma position_from_json_to_json [codec_simps]:
  "position_wf p \<Longrightarrow> position_from_json (position_to_json p) = Some p"
  by (cases p)
     (simp_all add: position_from_json_def position_to_json_def codec_simps position_wf_def)

section \<open>Checkpoints\<close>

definition CHECKPOINT_SCHEMA_VERSION :: u32 where
  "CHECKPOINT_SCHEMA_VERSION = 2"

record checkpoint =
  cp_schema_version :: u32
  cp_connector_name :: string
  cp_generation :: string
  cp_source_position :: source_position
  cp_snapshot_completed :: bool
  cp_config_fingerprint :: string
  cp_updated_at :: instant
  cp_connector_state :: "state_envelope option"

definition envelope_to_json :: "state_envelope \<Rightarrow> json" where
  "envelope_to_json e =
     JObject [(''format'', JString (env_format e)), (''version'', json_uint (env_version e)),
              (''payload'', env_payload e)]"

definition envelope_from_json :: "json \<Rightarrow> state_envelope option" where
  "envelope_from_json j =
     (case j of
        JObject m \<Rightarrow>
          do {
            fmt \<leftarrow> field get_string ''format'' m;
            version \<leftarrow> field get_uint ''version'' m;
            payload \<leftarrow> field Some ''payload'' m;
            Some \<lparr>env_format = fmt, env_version = version, env_payload = payload\<rparr>
          }
      | _ \<Rightarrow> None)"

text \<open>
  \<^verbatim>\<open>SystemTime\<close> is written as seconds and nanoseconds since the epoch, and refused before it; it
  is read back unless it exceeds the signed seconds of the platform.
\<close>

definition time_to_json :: "instant \<Rightarrow> json option" where
  "time_to_json t =
     (if t < 0 then None
      else Some (JObject [(''secs_since_epoch'', json_int (t div 1000000000)),
                          (''nanos_since_epoch'', json_int (t mod 1000000000))]))"

definition time_from_json :: "json \<Rightarrow> instant option" where
  "time_from_json j =
     (case j of
        JObject m \<Rightarrow>
          do {
            secs \<leftarrow> field (get_uint :: json \<Rightarrow> u64 option) ''secs_since_epoch'' m;
            nanos \<leftarrow> field (get_uint :: json \<Rightarrow> u32 option) ''nanos_since_epoch'' m;
            (let t = uint secs * 1000000000 + uint nanos
             in if t < 2 ^ 63 * 1000000000 then Some t else None)
          }
      | _ \<Rightarrow> None)"

definition checkpoint_to_json :: "checkpoint \<Rightarrow> json option" where
  "checkpoint_to_json c =
     do {
       t \<leftarrow> time_to_json (cp_updated_at c);
       Some (JObject
         ([(''schema_version'', json_uint (cp_schema_version c)),
           (''connector_name'', JString (cp_connector_name c)),
           (''generation'', JString (cp_generation c)),
           (''source_position'', position_to_json (cp_source_position c)),
           (''snapshot_completed'', JBool (cp_snapshot_completed c)),
           (''config_fingerprint'', JString (cp_config_fingerprint c)),
           (''updated_at'', t)]
          @ skip_none ''connector_state'' envelope_to_json (cp_connector_state c)))
     }"

definition checkpoint_from_json :: "(string \<Rightarrow> string option) \<Rightarrow> json \<Rightarrow> checkpoint option" where
  "checkpoint_from_json parse_uuid j =
     (case j of
        JObject m \<Rightarrow>
          do {
            version \<leftarrow> field get_uint ''schema_version'' m;
            name \<leftarrow> field get_string ''connector_name'' m;
            uuid \<leftarrow> field get_string ''generation'' m;
            generation \<leftarrow> parse_uuid uuid;
            position \<leftarrow> field position_from_json ''source_position'' m;
            completed \<leftarrow> field get_bool ''snapshot_completed'' m;
            fingerprint \<leftarrow> field get_string ''config_fingerprint'' m;
            t \<leftarrow> field time_from_json ''updated_at'' m;
            state \<leftarrow> opt_field envelope_from_json ''connector_state'' m;
            Some \<lparr>cp_schema_version = version, cp_connector_name = name,
                  cp_generation = generation, cp_source_position = position,
                  cp_snapshot_completed = completed, cp_config_fingerprint = fingerprint,
                  cp_updated_at = t, cp_connector_state = state\<rparr>
          }
      | _ \<Rightarrow> None)"

text \<open>A checkpoint as the runtime builds it.\<close>

definition checkpoint_wf :: "(string \<Rightarrow> string option) \<Rightarrow> checkpoint \<Rightarrow> bool" where
  "checkpoint_wf parse_uuid c =
     (position_wf (cp_source_position c) \<and> 0 \<le> cp_updated_at c
      \<and> cp_updated_at c < 2 ^ 63 * 1000000000
      \<and> parse_uuid (cp_generation c) = Some (cp_generation c))"

lemma envelope_round_trip [codec_simps]: "envelope_from_json (envelope_to_json e) = Some e"
  by (simp add: envelope_from_json_def envelope_to_json_def codec_simps field_def [of Some])

lemma time_round_trip:
  assumes "0 \<le> t" "t < 2 ^ 63 * 1000000000"
  shows "\<exists>j. time_to_json t = Some j \<and> time_from_json j = Some t"
proof -
  have secs: "0 \<le> t div 1000000000" "t div 1000000000 < 2 ^ 64"
    and nanos: "0 \<le> t mod 1000000000" "t mod 1000000000 < 2 ^ 32"
    using assms pos_mod_bound [of "1000000000" t] by (auto simp: pos_imp_zdiv_nonneg_iff)
  have "time_from_json (JObject [(''secs_since_epoch'', json_int (t div 1000000000)),
          (''nanos_since_epoch'', json_int (t mod 1000000000))]) = Some t"
    using secs nanos assms(2)
    by (simp add: time_from_json_def codec_simps get_uint_json_int uint_word_of_int Let_def)
  with assms(1) show ?thesis by (simp add: time_to_json_def)
qed

lemma checkpoint_round_trip:
  assumes "checkpoint_wf parse_uuid c"
  shows "\<exists>j. checkpoint_to_json c = Some j \<and> checkpoint_from_json parse_uuid j = Some c"
proof -
  obtain t where t: "time_to_json (cp_updated_at c) = Some t"
      "time_from_json t = Some (cp_updated_at c)"
    using time_round_trip [of "cp_updated_at c"] assms by (auto simp: checkpoint_wf_def)
  have env: "opt_field envelope_from_json ''connector_state''
      (skip_none ''connector_state'' envelope_to_json (cp_connector_state c))
      = Some (cp_connector_state c)"
    using opt_field_skip_none [of envelope_to_json "cp_connector_state c" envelope_from_json
        "''connector_state''" "[]"]
    by (simp add: codec_simps) (simp add: envelope_to_json_def)
  from t assms show ?thesis
    by (simp add: checkpoint_to_json_def checkpoint_from_json_def codec_simps checkpoint_wf_def env)
qed

section \<open>The SQLite store\<close>

definition SQLITE_STORAGE_SCHEMA_VERSION :: u32 where
  "SQLITE_STORAGE_SCHEMA_VERSION = 1"

text \<open>
  The file holds a version (a signed header field) and, once created, the table. An operation may
  fail at every database call; \<open>db_faults\<close> says, operation by operation, at which calls and with
  which message. An operation past the end of the list meets no fault.
\<close>

datatype db_step = TaskStep | DirectoryStep | OpenStep | QueryStep | BeginStep | ExecuteStep | CommitStep | PragmaStep

type_synonym db_fault = "db_step \<Rightarrow> string option"

record stored_row =
  row_schema_version :: u32
  row_payload :: string
  row_updated_at_ms :: i64

record sqlite_file =
  db_user_version :: i32
  db_table :: "(string \<times> stored_row) list option"
  db_faults :: "db_fault list"

definition no_fault :: db_fault where
  "no_fault step = None"

definition current_fault :: "sqlite_file \<Rightarrow> db_fault" where
  "current_fault d = (case db_faults d of [] \<Rightarrow> no_fault | f # fs \<Rightarrow> f)"

definition next_operation :: "sqlite_file \<Rightarrow> sqlite_file" where
  "next_operation d = d\<lparr>db_faults := tl (db_faults d)\<rparr>"

definition db_call :: "db_fault \<Rightarrow> db_step \<Rightarrow> unit result" where
  "db_call f step = (case f step of None \<Rightarrow> Ok () | Some m \<Rightarrow> Err (State m))"

definition io_call :: "db_fault \<Rightarrow> db_step \<Rightarrow> unit result" where
  "io_call f step = (case f step of None \<Rightarrow> Ok () | Some m \<Rightarrow> Err (Io m))"

definition db_rows :: "sqlite_file \<Rightarrow> (string \<times> stored_row) list result" where
  "db_rows d =
     (case db_table d of None \<Rightarrow> Err (State ''no such table: checkpoints'') | Some t \<Rightarrow> Ok t)"

text \<open>
  \<open>initialize\<close>: the directory, the version check, the table, the version. The table is created
  before the version is written and \<^verbatim>\<open>IF NOT EXISTS\<close> keeps the rows of an existing file.
\<close>

definition sqlite_initialize :: "sqlite_file \<Rightarrow> unit result \<times> sqlite_file" where
  "sqlite_initialize d =
     (let f = current_fault d; d = next_operation d in
      case rbind (io_call f DirectoryStep) (\<lambda>_. rbind (db_call f OpenStep) (\<lambda>_. db_call f QueryStep)) of
        Err e \<Rightarrow> (Err e, d)
      | Ok _ \<Rightarrow>
          if sint (db_user_version d) < 0 then (Err (State ''integer out of range''), d)
          else if sint (db_user_version d) > int (unat SQLITE_STORAGE_SCHEMA_VERSION) then
            (Err (State (''SQLite state schema version '' @ show_word (db_user_version d)
               @ '' is newer than the supported version '' @ show_word SQLITE_STORAGE_SCHEMA_VERSION
               @ ''; upgrade Rustium before opening this state file'')), d)
          else
            (case db_call f ExecuteStep of
               Err e \<Rightarrow> (Err e, d)
             | Ok _ \<Rightarrow>
                 (let created = d\<lparr>db_table := Some (case db_table d of None \<Rightarrow> [] | Some t \<Rightarrow> t)\<rparr> in
                  if sint (db_user_version d) < int (unat SQLITE_STORAGE_SCHEMA_VERSION) then
                    (case db_call f PragmaStep of
                       Err e \<Rightarrow> (Err e, created)
                     | Ok _ \<Rightarrow>
                         (Ok (), created\<lparr>db_user_version := ucast SQLITE_STORAGE_SCHEMA_VERSION\<rparr>))
                  else (Ok (), created))))"

definition sqlite_open :: "sqlite_file \<Rightarrow> unit result \<times> sqlite_file" where
  "sqlite_open d =
     (case current_fault d TaskStep of
        Some m \<Rightarrow> (Err (State (''state initialization task failed: '' @ m)), next_operation d)
      | None \<Rightarrow> sqlite_initialize d)"

text \<open>\<open>parse_checkpoint\<close> is \<^verbatim>\<open>serde_json::from_str::<Checkpoint>\<close>: parse the text, then the fields.\<close>

definition parse_checkpoint ::
  "(string \<Rightarrow> json option) \<Rightarrow> (string \<Rightarrow> string option) \<Rightarrow> string \<Rightarrow> checkpoint result" where
  "parse_checkpoint from_str parse_uuid payload =
     ok_or (Json ''invalid checkpoint'')
       (Option.bind (from_str payload) (checkpoint_from_json parse_uuid))"

definition sqlite_load ::
  "(string \<Rightarrow> json option) \<Rightarrow> (string \<Rightarrow> string option) \<Rightarrow> string \<Rightarrow> sqlite_file
   \<Rightarrow> checkpoint option result \<times> sqlite_file" where
  "sqlite_load from_str parse_uuid name d =
     (let f = current_fault d; d = next_operation d in
      (case f TaskStep of
         Some m \<Rightarrow> Err (State (''state load task failed: '' @ m))
       | None \<Rightarrow>
           rbind (db_call f OpenStep) (\<lambda>_.
           rbind (db_call f QueryStep) (\<lambda>_.
           rbind (db_rows d) (\<lambda>rows.
             case map_of rows name of
               None \<Rightarrow> Ok None
             | Some r \<Rightarrow>
                 rbind (parse_checkpoint from_str parse_uuid (row_payload r)) (\<lambda>c. Ok (Some c))))),
       d))"

text \<open>\<open>as_millis() as i64\<close> keeps the low 64 bits.\<close>

definition sqlite_save_row ::
  "(json \<Rightarrow> string) \<Rightarrow> checkpoint \<Rightarrow> stored_row result" where
  "sqlite_save_row to_string c =
     rbind (ok_or (Json ''SystemTime must be later than UNIX_EPOCH'') (checkpoint_to_json c))
       (\<lambda>j. if cp_updated_at c < 0
             then Err (State ''second time provided was later than self'')
             else Ok \<lparr>row_schema_version = cp_schema_version c, row_payload = to_string j,
                      row_updated_at_ms = word_of_int (cp_updated_at c div 1000000)\<rparr>)"

definition sqlite_save ::
  "(json \<Rightarrow> string) \<Rightarrow> checkpoint \<Rightarrow> sqlite_file \<Rightarrow> unit result \<times> sqlite_file" where
  "sqlite_save to_string c d =
     (let f = current_fault d; d = next_operation d in
      case f TaskStep of
        Some m \<Rightarrow> (Err (State (''state save task failed: '' @ m)), d)
      | None \<Rightarrow>
          (case rbind (db_call f OpenStep) (\<lambda>_.
                rbind (db_call f BeginStep) (\<lambda>_.
                rbind (sqlite_save_row to_string c) (\<lambda>r.
                rbind (db_call f ExecuteStep) (\<lambda>_.
                rbind (db_rows d) (\<lambda>rows.
                rbind (db_call f CommitStep) (\<lambda>_.
                  Ok (im_insert (cp_connector_name c) r rows))))))) of
             Err e \<Rightarrow> (Err e, d)
           | Ok rows \<Rightarrow> (Ok (), d\<lparr>db_table := Some rows\<rparr>)))"

definition sqlite_delete :: "string \<Rightarrow> sqlite_file \<Rightarrow> unit result \<times> sqlite_file" where
  "sqlite_delete name d =
     (let f = current_fault d; d = next_operation d in
      case f TaskStep of
        Some m \<Rightarrow> (Err (State (''state delete task failed: '' @ m)), d)
      | None \<Rightarrow>
          (case rbind (db_call f OpenStep) (\<lambda>_.
                rbind (db_call f ExecuteStep) (\<lambda>_.
                rbind (db_rows d) (\<lambda>rows. Ok (im_remove name rows)))) of
             Err e \<Rightarrow> (Err e, d)
           | Ok rows \<Rightarrow> (Ok (), d\<lparr>db_table := Some rows\<rparr>)))"

lemma next_operation_table [simp]: "db_table (next_operation d) = db_table d"
  by (simp add: next_operation_def)

lemma sqlite_load_frame: "sqlite_load from_str parse_uuid n d = (r, d') \<Longrightarrow> db_table d' = db_table d"
  by (auto simp: sqlite_load_def Let_def)

lemma sqlite_save_Err: "sqlite_save to_string c d = (Err e, d') \<Longrightarrow> db_table d' = db_table d"
  unfolding sqlite_save_def Let_def
  by (auto split: option.splits sum.splits)

lemma sqlite_save_Ok:
  assumes "sqlite_save to_string c d = (Ok u, d')"
  obtains rows r where "db_table d = Some rows" "sqlite_save_row to_string c = Ok r"
    "db_table d' = Some (im_insert (cp_connector_name c) r rows)"
  using assms unfolding sqlite_save_def Let_def
  by (auto simp: rbind_Ok_iff db_rows_def split: option.splits sum.splits)

lemma sqlite_delete_Err: "sqlite_delete n d = (Err e, d') \<Longrightarrow> db_table d' = db_table d"
  unfolding sqlite_delete_def Let_def
  by (auto split: option.splits sum.splits)

lemma sqlite_delete_Ok:
  assumes "sqlite_delete n d = (Ok u, d')"
  obtains rows where "db_table d = Some rows" "db_table d' = Some (im_remove n rows)"
  using assms unfolding sqlite_delete_def Let_def
  by (auto simp: rbind_Ok_iff db_rows_def split: option.splits sum.splits)

section \<open>The contract of a checkpoint store\<close>

text \<open>A history of operations, each with its outcome.\<close>

datatype store_op = SaveOp checkpoint | DeleteOp string | LoadOp string

fun store_step ::
  "(string \<Rightarrow> 'd \<Rightarrow> checkpoint option result \<times> 'd) \<Rightarrow> (checkpoint \<Rightarrow> 'd \<Rightarrow> unit result \<times> 'd)
   \<Rightarrow> (string \<Rightarrow> 'd \<Rightarrow> unit result \<times> 'd) \<Rightarrow> store_op \<Rightarrow> 'd \<Rightarrow> checkpoint option result \<times> 'd" where
  "store_step load save delete (SaveOp c) d =
     (case save c d of (r, d') \<Rightarrow> (rbind r (\<lambda>_. Ok None), d'))"
| "store_step load save delete (DeleteOp n) d =
     (case delete n d of (r, d') \<Rightarrow> (rbind r (\<lambda>_. Ok None), d'))"
| "store_step load save delete (LoadOp n) d = load n d"

fun store_run ::
  "(string \<Rightarrow> 'd \<Rightarrow> checkpoint option result \<times> 'd) \<Rightarrow> (checkpoint \<Rightarrow> 'd \<Rightarrow> unit result \<times> 'd)
   \<Rightarrow> (string \<Rightarrow> 'd \<Rightarrow> unit result \<times> 'd) \<Rightarrow> store_op list \<Rightarrow> 'd
   \<Rightarrow> (store_op \<times> checkpoint option result) list \<times> 'd" where
  "store_run load save delete [] d = ([], d)"
| "store_run load save delete (op # ops) d =
     (case store_step load save delete op d of
        (r, d') \<Rightarrow> (case store_run load save delete ops d' of
                     (rs, d'') \<Rightarrow> ((op, r) # rs, d'')))"

text \<open>The abstract store: a map, changed by the operations that succeeded.\<close>

fun spec_step ::
  "(string \<Rightarrow> checkpoint option) \<Rightarrow> store_op \<times> checkpoint option result
   \<Rightarrow> string \<Rightarrow> checkpoint option" where
  "spec_step m (SaveOp c, r) = (if is_ok r then m(cp_connector_name c \<mapsto> c) else m)"
| "spec_step m (DeleteOp n, r) = (if is_ok r then m(n := None) else m)"
| "spec_step m (LoadOp n, r) = m"

fun spec_agrees :: "(string \<Rightarrow> checkpoint option) \<Rightarrow> (store_op \<times> checkpoint option result) list \<Rightarrow> bool" where
  "spec_agrees m [] = True"
| "spec_agrees m ((op, r) # h) =
     ((case op of LoadOp n \<Rightarrow> (\<forall>x. r = Ok x \<longrightarrow> x = m n) | _ \<Rightarrow> True)
      \<and> spec_agrees (spec_step m (op, r)) h)"

text \<open>
  Abstractly a store is a map from connector names to checkpoints; \<open>contents\<close> reads it off the
  concrete state, \<open>ready\<close> is the invariant and \<open>storable\<close> says which checkpoints survive the text.
  A failed operation changes nothing.
\<close>

locale checkpoint_store =
  fixes load :: "string \<Rightarrow> 'd \<Rightarrow> checkpoint option result \<times> 'd"
    and save :: "checkpoint \<Rightarrow> 'd \<Rightarrow> unit result \<times> 'd"
    and delete :: "string \<Rightarrow> 'd \<Rightarrow> unit result \<times> 'd"
    and contents :: "'d \<Rightarrow> string \<Rightarrow> checkpoint option"
    and ready :: "'d \<Rightarrow> bool"
    and storable :: "checkpoint \<Rightarrow> bool"
  assumes load_contents: "ready d \<Longrightarrow> load n d = (Ok x, d') \<Longrightarrow> x = contents d n"
    and load_frame: "ready d \<Longrightarrow> load n d = (r, d') \<Longrightarrow> ready d' \<and> contents d' = contents d"
    and save_ok: "ready d \<Longrightarrow> storable c \<Longrightarrow> save c d = (Ok u, d') \<Longrightarrow>
      ready d' \<and> contents d' = (contents d)(cp_connector_name c \<mapsto> c)"
    and save_err: "ready d \<Longrightarrow> save c d = (Err e, d') \<Longrightarrow> ready d' \<and> contents d' = contents d"
    and delete_ok: "ready d \<Longrightarrow> delete n d = (Ok u, d') \<Longrightarrow>
      ready d' \<and> contents d' = (contents d)(n := None)"
    and delete_err: "ready d \<Longrightarrow> delete n d = (Err e, d') \<Longrightarrow> ready d' \<and> contents d' = contents d"
begin

lemma load_after_save:
  assumes "ready d" "storable c" "save c d = (Ok u, d')" "load n d' = (Ok x, d'')"
  shows "x = (if n = cp_connector_name c then Some c else contents d n)"
  using save_ok [OF assms(1-3)] load_contents [OF _ assms(4)] by auto

lemma step_refines:
  assumes "ready d" "\<And>c. op = SaveOp c \<Longrightarrow> storable c"
    and "store_step load save delete op d = (r, d')"
  shows "ready d' \<and> contents d' = spec_step (contents d) (op, r)
    \<and> (\<forall>n x. op = LoadOp n \<and> r = Ok x \<longrightarrow> x = contents d n)"
proof (cases op)
  case (SaveOp c)
  then obtain r' where save: "save c d = (r', d')" and r: "r = rbind r' (\<lambda>_. Ok None)"
    using assms(3) by (auto split: prod.splits)
  show ?thesis
  proof (cases r')
    case (Inl e)
    with SaveOp r save_err [OF assms(1), of c e d'] save show ?thesis by simp
  next
    case (Inr u)
    with SaveOp r save_ok [OF assms(1) assms(2) , of c u d'] save show ?thesis by simp
  qed
next
  case (DeleteOp n)
  then obtain r' where del: "delete n d = (r', d')" and r: "r = rbind r' (\<lambda>_. Ok None)"
    using assms(3) by (auto split: prod.splits)
  show ?thesis
  proof (cases r')
    case (Inl e)
    with DeleteOp r delete_err [OF assms(1), of n e d'] del show ?thesis by simp
  next
    case (Inr u)
    with DeleteOp r delete_ok [OF assms(1), of n u d'] del show ?thesis by simp
  qed
next
  case (LoadOp n)
  then have "load n d = (r, d')" using assms(3) by simp
  with LoadOp load_frame [OF assms(1)] load_contents [OF assms(1)] show ?thesis by auto
qed

lemma run_refines:
  assumes "ready d" "\<And>c. SaveOp c \<in> set ops \<Longrightarrow> storable c"
    and "store_run load save delete ops d = (h, d')"
  shows "ready d' \<and> contents d' = foldl spec_step (contents d) h \<and> spec_agrees (contents d) h"
  using assms
proof (induction ops arbitrary: d h)
  case Nil
  then show ?case by simp
next
  case (Cons op ops)
  obtain r d1 where step: "store_step load save delete op d = (r, d1)" by fastforce
  obtain h1 where rest: "store_run load save delete ops d1 = (h1, d')" and h: "h = (op, r) # h1"
    using Cons.prems(3) step by (auto split: prod.splits)
  have first: "ready d1 \<and> contents d1 = spec_step (contents d) (op, r)
    \<and> (\<forall>n x. op = LoadOp n \<and> r = Ok x \<longrightarrow> x = contents d n)"
    using step_refines [OF Cons.prems(1) _ step] Cons.prems(2) by auto
  then have "ready d' \<and> contents d' = foldl spec_step (contents d1) h1 \<and> spec_agrees (contents d1) h1"
    using Cons.IH [OF _ _ rest] Cons.prems(2) by auto
  with first h show ?case by (cases op) auto
qed

end

definition sqlite_contents ::
  "(string \<Rightarrow> json option) \<Rightarrow> (string \<Rightarrow> string option) \<Rightarrow> sqlite_file \<Rightarrow> string
   \<Rightarrow> checkpoint option" where
  "sqlite_contents from_str parse_uuid d n =
     (case db_table d of
        None \<Rightarrow> None
      | Some rows \<Rightarrow>
          (case map_of rows n of
             None \<Rightarrow> None
           | Some r \<Rightarrow>
               (case parse_checkpoint from_str parse_uuid (row_payload r) of
                  Inl _ \<Rightarrow> None | Inr c \<Rightarrow> Some c)))"

definition sqlite_ready :: "sqlite_file \<Rightarrow> bool" where
  "sqlite_ready d = (case db_table d of None \<Rightarrow> True | Some rows \<Rightarrow> im_inv rows)"

text \<open>The JSON printer and parser give the document of this checkpoint back.\<close>

definition sqlite_storable ::
  "(json \<Rightarrow> string) \<Rightarrow> (string \<Rightarrow> json option) \<Rightarrow> (string \<Rightarrow> string option) \<Rightarrow> checkpoint \<Rightarrow> bool" where
  "sqlite_storable to_string from_str parse_uuid c =
     (checkpoint_wf parse_uuid c
      \<and> (case checkpoint_to_json c of
           None \<Rightarrow> False | Some j \<Rightarrow> from_str (to_string j) = Some j))"

lemma sqlite_frame:
  assumes "db_table d' = db_table d"
  shows "sqlite_ready d' = sqlite_ready d"
    "sqlite_contents from_str parse_uuid d' = sqlite_contents from_str parse_uuid d"
  using assms by (simp_all add: sqlite_ready_def sqlite_contents_def fun_eq_iff)

lemma parse_saved_row:
  assumes "sqlite_storable to_string from_str parse_uuid c" "sqlite_save_row to_string c = Ok r"
  shows "parse_checkpoint from_str parse_uuid (row_payload r) = Ok c"
proof -
  obtain j where j: "checkpoint_to_json c = Some j" "from_str (to_string j) = Some j"
    using assms(1) by (auto simp: sqlite_storable_def split: option.splits)
  moreover have "checkpoint_from_json parse_uuid j = Some c"
    using checkpoint_round_trip [of parse_uuid c] assms(1) j by (auto simp: sqlite_storable_def)
  ultimately show ?thesis
    using assms(2) by (auto simp: sqlite_save_row_def parse_checkpoint_def split: if_splits)
qed

interpretation sqlite: checkpoint_store
  "sqlite_load from_str parse_uuid" "sqlite_save to_string" sqlite_delete
  "sqlite_contents from_str parse_uuid" sqlite_ready "sqlite_storable to_string from_str parse_uuid"
  for to_string from_str parse_uuid
proof
  fix d d' :: sqlite_file and n :: string and x and r :: "checkpoint option result" and e u c
  show "sqlite_load from_str parse_uuid n d = (Ok x, d') \<Longrightarrow>
      x = sqlite_contents from_str parse_uuid d n"
    by (auto simp: sqlite_load_def Let_def db_rows_def sqlite_contents_def rbind_Ok_iff
        split: option.splits)
  show "sqlite_ready d \<Longrightarrow> sqlite_load from_str parse_uuid n d = (r, d') \<Longrightarrow>
      sqlite_ready d' \<and> sqlite_contents from_str parse_uuid d' = sqlite_contents from_str parse_uuid d"
    by (drule sqlite_load_frame) (simp add: sqlite_frame [of d' d])
  show "sqlite_ready d' \<and> sqlite_contents from_str parse_uuid d'
      = (sqlite_contents from_str parse_uuid d)(cp_connector_name c \<mapsto> c)"
    if ready: "sqlite_ready d" and st: "sqlite_storable to_string from_str parse_uuid c"
      and save: "sqlite_save to_string c d = (Ok u, d')"
    using save
  proof (rule sqlite_save_Ok)
    fix rows r
    assume "db_table d = Some rows" "sqlite_save_row to_string c = Ok r"
      "db_table d' = Some (im_insert (cp_connector_name c) r rows)"
    with ready parse_saved_row [OF st] show ?thesis
      by (auto simp: sqlite_ready_def sqlite_contents_def fun_eq_iff)
  qed
  show "sqlite_ready d \<Longrightarrow> sqlite_save to_string c d = (Err e, d') \<Longrightarrow>
      sqlite_ready d' \<and> sqlite_contents from_str parse_uuid d' = sqlite_contents from_str parse_uuid d"
    by (drule sqlite_save_Err) (simp add: sqlite_frame [of d' d])
  show "sqlite_ready d' \<and> sqlite_contents from_str parse_uuid d'
      = (sqlite_contents from_str parse_uuid d)(n := None)"
    if ready: "sqlite_ready d" and del: "sqlite_delete n d = (Ok u, d')"
    using del
  proof (rule sqlite_delete_Ok)
    fix rows
    assume "db_table d = Some rows" "db_table d' = Some (im_remove n rows)"
    with ready show ?thesis
      by (auto simp: sqlite_ready_def sqlite_contents_def fun_eq_iff map_of_im_remove)
  qed
  show "sqlite_ready d \<Longrightarrow> sqlite_delete n d = (Err e, d') \<Longrightarrow>
      sqlite_ready d' \<and> sqlite_contents from_str parse_uuid d' = sqlite_contents from_str parse_uuid d"
    by (drule sqlite_delete_Err) (simp add: sqlite_frame [of d' d])
qed

section \<open>Properties\<close>

text \<open>
  C9. The JSON document of a source position determines it: reading it back gives the position,
  and two positions have the same document only when they are equal.
\<close>

theorem position_json_round_trip:
  assumes "position_wf p" "position_wf q"
  shows "position_from_json (position_to_json p) = Some p
    \<and> (position_to_json p = position_to_json q \<longrightarrow> p = q)"
  using position_from_json_to_json [OF assms(1)] position_from_json_to_json [OF assms(2)]
  by (metis option.inject)

definition sample_mysql :: source_position where
  "sample_mysql =
     MySql \<lparr>my_binlog_filename = ''mysql-bin.000003'', my_binlog_position = 4242,
            my_gtid_set = Some ''uuid:1-5'', my_server_id = 7, my_event_serial = 2,
            my_snapshot = False\<rparr>"

theorem position_json_round_trip_witness:
  "position_from_json (position_to_json sample_mysql) = Some sample_mysql
   \<and> position_to_json sample_mysql \<noteq> position_to_json (sample_postgres 5 9 True)"
proof -
  have wf: "position_wf sample_mysql" "position_wf (sample_postgres 5 9 True)"
    by (simp_all add: position_wf_def sample_mysql_def sample_postgres_def)
  have "sample_mysql \<noteq> sample_postgres 5 9 True"
    by (simp add: sample_mysql_def sample_postgres_def)
  with position_json_round_trip [OF wf] show ?thesis by blast
qed

text \<open>
  C10. The SQLite store implements a map from connector names to checkpoints. For every history of
  saves, deletes and loads, with any database faults in between, a load that succeeds returns the
  checkpoint of the last successful save (with its position, state and fingerprint intact), a
  failed operation changes nothing, and no operation touches another connector's row.
\<close>

theorem sqlite_refines_map:
  assumes "sqlite_ready d"
    and "\<And>c. SaveOp c \<in> set ops \<Longrightarrow> sqlite_storable to_string from_str parse_uuid c"
    and "store_run (sqlite_load from_str parse_uuid) (sqlite_save to_string) sqlite_delete ops d = (h, d')"
  shows "sqlite_ready d'
    \<and> sqlite_contents from_str parse_uuid d' = foldl spec_step (sqlite_contents from_str parse_uuid d) h
    \<and> spec_agrees (sqlite_contents from_str parse_uuid d) h"
  using assms by (rule sqlite.run_refines)

definition sample_checkpoint :: checkpoint where
  "sample_checkpoint =
     \<lparr>cp_schema_version = 2, cp_connector_name = ''orders'', cp_generation = ''g'',
      cp_source_position = sample_mysql, cp_snapshot_completed = True,
      cp_config_fingerprint = ''f'', cp_updated_at = 1500000000, cp_connector_state = None\<rparr>"

definition sample_file :: sqlite_file where
  "sample_file =
     \<lparr>db_user_version = 1, db_table = Some [],
      db_faults = [no_fault, (\<lambda>step. if step = CommitStep then Some ''disk full'' else None)]\<rparr>"

lemma sample_checkpoint_storable:
  "sqlite_storable (\<lambda>_. ''text'') (\<lambda>_. checkpoint_to_json sample_checkpoint) Some sample_checkpoint"
  by (simp add: sqlite_storable_def checkpoint_wf_def sample_checkpoint_def sample_mysql_def
      position_wf_def checkpoint_to_json_def time_to_json_def)

theorem sqlite_refines_map_witness:
  "\<exists>h d'. store_run (sqlite_load (\<lambda>_. checkpoint_to_json sample_checkpoint) Some)
       (sqlite_save (\<lambda>_. ''text'')) sqlite_delete
       [SaveOp sample_checkpoint, SaveOp sample_checkpoint, LoadOp ''orders''] sample_file = (h, d')
     \<and> sqlite_contents (\<lambda>_. checkpoint_to_json sample_checkpoint) Some d'
         = foldl spec_step Map.empty h"
proof -
  have ready: "sqlite_ready sample_file" "sqlite_contents from_str parse_uuid sample_file = Map.empty"
    for from_str parse_uuid
    by (simp_all add: sqlite_ready_def sample_file_def im_inv_def sqlite_contents_def fun_eq_iff)
  obtain h d' where run: "store_run (sqlite_load (\<lambda>_. checkpoint_to_json sample_checkpoint) Some)
       (sqlite_save (\<lambda>_. ''text'')) sqlite_delete
       [SaveOp sample_checkpoint, SaveOp sample_checkpoint, LoadOp ''orders''] sample_file = (h, d')"
    by fastforce
  have "sqlite_storable (\<lambda>_. ''text'') (\<lambda>_. checkpoint_to_json sample_checkpoint) Some c"
    if "SaveOp c \<in> set [SaveOp sample_checkpoint, SaveOp sample_checkpoint, LoadOp ''orders'']" for c
    using that sample_checkpoint_storable by auto
  from sqlite_refines_map [OF ready(1) this run] run show ?thesis
    unfolding ready(2) by blast
qed

lemma sqlite_initialize_newer:
  assumes "sint (db_user_version d) > 1" "sqlite_initialize d = (r, d')"
  shows "\<not> is_ok r \<and> db_table d' = db_table d \<and> db_user_version d' = db_user_version d"
proof (cases "rbind (io_call (current_fault d) DirectoryStep)
    (\<lambda>_. rbind (db_call (current_fault d) OpenStep) (\<lambda>_. db_call (current_fault d) QueryStep))")
  case (Inl e)
  from assms(2) show ?thesis
    unfolding sqlite_initialize_def Let_def Inl by (auto simp: next_operation_def)
next
  case (Inr u)
  with assms show ?thesis
    by (auto simp: sqlite_initialize_def Let_def next_operation_def
        SQLITE_STORAGE_SCHEMA_VERSION_def)
qed

lemma i32_one: "sint (w :: i32) = 1 \<longleftrightarrow> w = 1"
proof -
  have "sint (1 :: i32) = 1" by simp
  then have "sint w = 1 \<longleftrightarrow> sint w = sint (1 :: i32)" by simp
  also have "\<dots> \<longleftrightarrow> w = 1" by (rule word_eq_iff_signed [symmetric])
  finally show ?thesis .
qed

lemma sqlite_initialize_Ok:
  assumes "sqlite_initialize d = (Ok u, d')"
  shows "db_user_version d' = 1
    \<and> db_table d' = Some (case db_table d of None \<Rightarrow> [] | Some rows \<Rightarrow> rows)"
proof -
  let ?f = "current_fault d" and ?v = "sint (db_user_version d)"
  let ?pre = "rbind (io_call ?f DirectoryStep)
    (\<lambda>_. rbind (db_call ?f OpenStep) (\<lambda>_. db_call ?f QueryStep))"
  obtain u1 where pre: "?pre = Ok u1"
    using assms by (cases ?pre) (auto simp: sqlite_initialize_def Let_def)
  have range: "\<not> ?v < 0" "\<not> ?v > 1"
    using assms pre
    by (auto simp: sqlite_initialize_def Let_def SQLITE_STORAGE_SCHEMA_VERSION_def
        next_operation_def split: if_splits)
  then show ?thesis
    using assms pre i32_one [of "db_user_version d"]
    by (auto simp: sqlite_initialize_def Let_def SQLITE_STORAGE_SCHEMA_VERSION_def
        next_operation_def split: if_splits sum.splits)
qed

text \<open>
  Opening a state file: a file of a newer version is refused and left as it is; a file that
  opens has the table and the supported version, and every row it had before.
\<close>

theorem sqlite_open_upgrades:
  assumes "sqlite_open d = (r, d')"
  shows "(sint (db_user_version d) > 1 \<longrightarrow>
      \<not> is_ok r \<and> db_table d' = db_table d \<and> db_user_version d' = db_user_version d)
    \<and> (is_ok r \<longrightarrow>
      db_user_version d' = 1
      \<and> db_table d' = Some (case db_table d of None \<Rightarrow> [] | Some rows \<Rightarrow> rows))"
proof (cases "current_fault d TaskStep")
  case None
  then have init: "sqlite_initialize d = (r, d')" using assms by (simp add: sqlite_open_def)
  show ?thesis
    using sqlite_initialize_newer [OF _ init] sqlite_initialize_Ok [of d _ d'] init
    by (cases r) auto
next
  case (Some m)
  then show ?thesis using assms by (auto simp: sqlite_open_def next_operation_def)
qed

theorem sqlite_open_upgrades_witness:
  "\<exists>r d'. sqlite_open \<lparr>db_user_version = 2, db_table = None, db_faults = []\<rparr> = (r, d')
     \<and> \<not> is_ok r \<and> db_table d' = None"
proof -
  obtain r d' where run: "sqlite_open \<lparr>db_user_version = 2, db_table = None, db_faults = []\<rparr> = (r, d')"
    by fastforce
  from sqlite_open_upgrades [OF this] run show ?thesis by simp
qed

end
