(* ===== verification/Core_Runtime.thy ===== *)
theory Core_Runtime
  imports Core_Signal Checkpoint_Store
begin

text \<open>
  The connector runtime of \<^verbatim>\<open>crates/rustium-core/src/runtime.rs\<close>: the pending batch, the delivery of
  a batch (write, checkpoint, acknowledge), the retry loop around the sink, the select loop over
  ticks, records and cancellation, start-up and shutdown.

  The source, the encoder, the sink and the store are parameters (a record of functions on their
  own states); the clock, the outcome of waiting against cancellation and whether the source still
  listens for acknowledgements are functions of a step counter. Every call that leaves the runtime
  is recorded in a trace.
\<close>

section \<open>Configuration, status and errors\<close>

text \<open>The \<^verbatim>\<open>Display\<close> of an error.\<close>

fun error_to_string :: "rust_error \<Rightarrow> string" where
  "error_to_string (Configuration m) = ''configuration error: '' @ m"
| "error_to_string (Source m) = ''source error: '' @ m"
| "error_to_string (RetryableSource m) = ''retryable source error: '' @ m"
| "error_to_string (Encoding m) = ''encoding error: '' @ m"
| "error_to_string (Sink m) = ''sink error: '' @ m"
| "error_to_string (RetryableSink m) = ''retryable sink error: '' @ m"
| "error_to_string (State m) = ''state error: '' @ m"
| "error_to_string (Invariant m) = ''runtime invariant violated: '' @ m"
| "error_to_string Cancelled = ''connector cancelled''"
| "error_to_string (Json m) = m"
| "error_to_string (Io m) = m"

text \<open>Durations in nanoseconds; the largest has \<open>2 ^ 64 - 1\<close> seconds.\<close>

type_synonym duration = nat

definition duration_max :: duration where
  "duration_max = (2 ^ 64 - 1) * 1000000000 + 999999999"

definition duration_mul :: "duration \<Rightarrow> nat \<Rightarrow> duration" where
  "duration_mul d k = min (d * k) duration_max"

record runtime_config =
  rc_channel_capacity :: nat
  rc_max_batch_size :: nat
  rc_flush_interval :: duration
  rc_shutdown_timeout :: duration
  rc_errors_max_retries :: i32
  rc_retry_delay_initial :: duration
  rc_retry_delay_max :: duration
  rc_config_fingerprint :: string

record retry_policy =
  rp_max_retries :: i32
  rp_initial_delay :: duration
  rp_max_delay :: duration

definition retry_policy_default :: retry_policy where
  "retry_policy_default =
     \<lparr>rp_max_retries = 10, rp_initial_delay = 300 * 1000000, rp_max_delay = 10 * 1000000000\<rparr>"

definition retry_policy_of :: "runtime_config \<Rightarrow> retry_policy" where
  "retry_policy_of c =
     \<lparr>rp_max_retries = rc_errors_max_retries c, rp_initial_delay = rc_retry_delay_initial c,
      rp_max_delay = rc_retry_delay_max c\<rparr>"

definition runtime_config_default :: runtime_config where
  "runtime_config_default =
     \<lparr>rc_channel_capacity = 2048, rc_max_batch_size = 512, rc_flush_interval = 100 * 1000000,
      rc_shutdown_timeout = 30 * 1000000000, rc_errors_max_retries = 10,
      rc_retry_delay_initial = 300 * 1000000, rc_retry_delay_max = 10 * 1000000000,
      rc_config_fingerprint = []\<rparr>"

datatype connector_state =
  Created | Starting | Snapshotting | Streaming | Paused | Failed | Stopping | Stopped

record status_snapshot =
  st_connector_name :: string
  st_state :: connector_state
  st_state_since :: instant
  st_state_reason :: "string option"
  st_last_position :: "source_position option"
  st_last_checkpoint_at :: "instant option"
  st_last_source_event_at :: "instant option"
  st_last_event_observed_at :: "instant option"
  st_source_lag_millis :: "u64 option"
  st_delivered_events :: u64
  st_failed_events :: u64
  st_sink_retry_attempts :: u64
  st_queue_depth :: nat

definition status_new :: "string \<Rightarrow> instant \<Rightarrow> status_snapshot" where
  "status_new name now =
     \<lparr>st_connector_name = name, st_state = Created, st_state_since = now, st_state_reason = None,
      st_last_position = None, st_last_checkpoint_at = None, st_last_source_event_at = None,
      st_last_event_observed_at = None, st_source_lag_millis = None, st_delivered_events = 0,
      st_failed_events = 0, st_sink_retry_attempts = 0, st_queue_depth = 0\<rparr>"

text \<open>\<^verbatim>\<open>num_milliseconds\<close> truncates towards zero; a negative lag is zero.\<close>

definition event_lag_millis :: "instant \<Rightarrow> instant \<Rightarrow> u64" where
  "event_lag_millis source_time observed_time =
     (let ms = max 0 ((observed_time - source_time) div 1000000)
      in if ms < 2 ^ 64 then word_of_int ms else u64_max)"

definition status_snapshot_at :: "instant \<Rightarrow> status_snapshot \<Rightarrow> status_snapshot" where
  "status_snapshot_at now s =
     s\<lparr>st_source_lag_millis :=
          map_option (\<lambda>t. event_lag_millis t now) (st_last_source_event_at s)\<rparr>"

definition status_transition ::
  "instant \<Rightarrow> connector_state \<Rightarrow> string option \<Rightarrow> status_snapshot \<Rightarrow> status_snapshot" where
  "status_transition now state reason s =
     s\<lparr>st_state := state, st_state_since := now, st_state_reason := reason\<rparr>"

record event_timing =
  et_source_time :: "instant option"
  et_observed_time :: instant

definition status_checkpointed ::
  "instant \<Rightarrow> source_position \<Rightarrow> nat \<Rightarrow> event_timing option \<Rightarrow> status_snapshot \<Rightarrow> status_snapshot" where
  "status_checkpointed now position delivered timing s =
     (let s = s\<lparr>st_last_position := Some position, st_last_checkpoint_at := Some now,
                st_delivered_events := st_delivered_events s + of_nat delivered\<rparr>
      in case timing of
           None \<Rightarrow> s
         | Some t \<Rightarrow>
             s\<lparr>st_last_source_event_at := et_source_time t,
               st_last_event_observed_at := Some (et_observed_time t),
               st_source_lag_millis :=
                 map_option (\<lambda>u. event_lag_millis u now) (et_source_time t)\<rparr>)"

section \<open>State and environment\<close>

record pending_batch =
  pb_encoded :: "encoded_event list"
  pb_highest_position :: "source_position option"
  pb_latest_event_timing :: "event_timing option"
  pb_signal_acks :: "ack_ref list"

definition pending_new :: pending_batch where
  "pending_new =
     \<lparr>pb_encoded = [], pb_highest_position = None, pb_latest_event_timing = None,
      pb_signal_acks = []\<rparr>"

record retry_state =
  rs_attempts :: u64
  rs_delay :: duration

definition retry_new :: "duration \<Rightarrow> retry_state" where
  "retry_new initial = \<lparr>rs_attempts = 0, rs_delay = initial\<rparr>"

text \<open>The calls that leave the runtime, with their outcomes.\<close>

datatype effect =
    SourceValidated "unit result"
  | SinkValidated "unit result"
  | SinkWritten delivery_batch "unit result"
  | SinkFlushed "unit result"
  | SinkShutdown "unit result"
  | CheckpointSaved checkpoint "unit result"
  | SourceStarted "checkpoint option"
  | SourceAcked source_position
  | SignalAcked ack_ref
  | Slept duration

record ('k, 'd) runtime_env =
  re_identity :: connector_identity
  re_config :: runtime_config
  re_encode_batch :: "change_event \<Rightarrow> encoded_event list result"
  re_source_validate :: "unit result"
  re_sink_validate :: "'k \<Rightarrow> unit result \<times> 'k"
  re_sink_write :: "delivery_batch \<Rightarrow> 'k \<Rightarrow> unit result \<times> 'k"
  re_sink_flush :: "'k \<Rightarrow> unit result \<times> 'k"
  re_sink_shutdown :: "'k \<Rightarrow> unit result \<times> 'k"
  re_store_load :: "string \<Rightarrow> 'd \<Rightarrow> checkpoint option result \<times> 'd"
  re_store_save :: "checkpoint \<Rightarrow> 'd \<Rightarrow> unit result \<times> 'd"
  re_now :: "nat \<Rightarrow> instant"
  re_cancelled_in_sleep :: "nat \<Rightarrow> bool"
  re_is_cancelled :: "nat \<Rightarrow> bool"
  re_ack_listens :: "nat \<Rightarrow> bool"
  re_debug_position :: "source_position \<Rightarrow> string"

record ('k, 'd) runtime_state =
  rt_step :: nat
  rt_status :: status_snapshot
  rt_sink :: 'k
  rt_store :: 'd
  rt_pending :: pending_batch
  rt_snapshot_completed :: bool
  rt_connector_state :: "state_envelope option"
  rt_acked :: "source_position option"
  rt_cells :: ack_cells
  rt_trace :: "effect list"

text \<open>The clock moves with every reading.\<close>

definition tick :: "('k, 'd) runtime_state \<Rightarrow> ('k, 'd) runtime_state" where
  "tick s = s\<lparr>rt_step := Suc (rt_step s)\<rparr>"

definition emit :: "effect \<Rightarrow> ('k, 'd) runtime_state \<Rightarrow> ('k, 'd) runtime_state" where
  "emit e s = s\<lparr>rt_trace := rt_trace s @ [e]\<rparr>"

definition transition ::
  "('k, 'd) runtime_env \<Rightarrow> connector_state \<Rightarrow> string option
   \<Rightarrow> ('k, 'd) runtime_state \<Rightarrow> ('k, 'd) runtime_state" where
  "transition env state reason s =
     tick (s\<lparr>rt_status := status_transition (re_now env (rt_step s)) state reason (rt_status s)\<rparr>)"

text \<open>
  The default methods of the traits \<^verbatim>\<open>EventEncoder\<close> and \<^verbatim>\<open>Sink\<close>.
\<close>

definition encode_batch_default ::
  "(change_event \<Rightarrow> encoded_event result) \<Rightarrow> change_event \<Rightarrow> encoded_event list result" where
  "encode_batch_default encode event = rbind (encode event) (\<lambda>e. Ok [e])"

definition shutdown_default :: "('k \<Rightarrow> unit result \<times> 'k) \<Rightarrow> 'k \<Rightarrow> unit result \<times> 'k" where
  "shutdown_default flush = flush"

section \<open>Retrying the sink\<close>

text \<open>
  \<open>wait_for_sink_retry\<close>: \<open>Ok False\<close> when the attempts are used up, \<open>Err Cancelled\<close> when the wait is
  cancelled, else \<open>Ok True\<close> with the delay doubled up to its maximum.
\<close>

definition wait_for_sink_retry ::
  "('k, 'd) runtime_env \<Rightarrow> retry_state \<Rightarrow> ('k, 'd) runtime_state
   \<Rightarrow> (bool result \<times> retry_state) \<times> ('k, 'd) runtime_state" where
  "wait_for_sink_retry env retry s =
     (let max_retries = rc_errors_max_retries (re_config env) in
      if 0 \<le> sint max_retries \<and> sint max_retries \<le> int (unat (rs_attempts retry))
      then ((Ok False, retry), s)
      else
        let retry = retry\<lparr>rs_attempts := rs_attempts retry + 1\<rparr>;
            s = s\<lparr>rt_status := (rt_status s)
                    \<lparr>st_sink_retry_attempts := st_sink_retry_attempts (rt_status s) + 1\<rparr>\<rparr>;
            cancelled = re_cancelled_in_sleep env (rt_step s);
            s = tick s
        in if cancelled then ((Err Cancelled, retry), s)
           else ((Ok True,
                  retry\<lparr>rs_delay := min (duration_mul (rs_delay retry) 2)
                                      (rc_retry_delay_max (re_config env))\<rparr>),
                 emit (Slept (rs_delay retry)) s))"

text \<open>
  The loop around a sink operation. With a negative \<open>errors_max_retries\<close> it may never end; then it
  has no value.
\<close>

definition retryable_sink :: "unit result \<Rightarrow> rust_error option" where
  "retryable_sink r = (case r of Err (RetryableSink m) \<Rightarrow> Some (RetryableSink m) | _ \<Rightarrow> None)"

partial_function (option) sink_with_retry ::
  "('k, 'd) runtime_env \<Rightarrow> (('k, 'd) runtime_state \<Rightarrow> unit result \<times> ('k, 'd) runtime_state)
   \<Rightarrow> retry_state \<Rightarrow> ('k, 'd) runtime_state \<Rightarrow> (unit result \<times> ('k, 'd) runtime_state) option" where
  "sink_with_retry env operation retry s =
     (case operation s of
        (r, s') \<Rightarrow>
          (case retryable_sink r of
             None \<Rightarrow> Some (r, s')
           | Some e \<Rightarrow>
               (case wait_for_sink_retry env retry s' of
                  ((waited, retry'), s'') \<Rightarrow>
                    (case waited of
                       Err e' \<Rightarrow> Some (Err e', s'')
                     | Ok again \<Rightarrow>
                         if again then sink_with_retry env operation retry' s''
                         else Some (Err e, s'')))))"

definition sink_call ::
  "('k \<Rightarrow> unit result \<times> 'k) \<Rightarrow> (unit result \<Rightarrow> effect) \<Rightarrow> ('k, 'd) runtime_state
   \<Rightarrow> unit result \<times> ('k, 'd) runtime_state" where
  "sink_call f eff s =
     (case f (rt_sink s) of (r, k) \<Rightarrow> (r, emit (eff r) (s\<lparr>rt_sink := k\<rparr>)))"

definition validate_sink_with_retry ::
  "('k, 'd) runtime_env \<Rightarrow> ('k, 'd) runtime_state
   \<Rightarrow> (unit result \<times> ('k, 'd) runtime_state) option" where
  "validate_sink_with_retry env =
     sink_with_retry env (sink_call (re_sink_validate env) SinkValidated)
       (retry_new (rc_retry_delay_initial (re_config env)))"

definition write_sink_with_retry ::
  "('k, 'd) runtime_env \<Rightarrow> delivery_batch \<Rightarrow> ('k, 'd) runtime_state
   \<Rightarrow> (unit result \<times> ('k, 'd) runtime_state) option" where
  "write_sink_with_retry env batch =
     sink_with_retry env (sink_call (re_sink_write env batch) (SinkWritten batch))
       (retry_new (rc_retry_delay_initial (re_config env)))"

definition flush_sink_with_retry ::
  "('k, 'd) runtime_env \<Rightarrow> ('k, 'd) runtime_state
   \<Rightarrow> (unit result \<times> ('k, 'd) runtime_state) option" where
  "flush_sink_with_retry env =
     sink_with_retry env (sink_call (re_sink_flush env) SinkFlushed)
       (retry_new (rc_retry_delay_initial (re_config env)))"

section \<open>Delivering a batch\<close>

definition acknowledge_all ::
  "ack_ref list \<Rightarrow> ('k, 'd) runtime_state \<Rightarrow> ('k, 'd) runtime_state" where
  "acknowledge_all refs s =
     fold (\<lambda>r s. emit (SignalAcked r) (s\<lparr>rt_cells := acknowledge r (rt_cells s)\<rparr>)) refs s"

text \<open>
  \<open>flush_batch\<close>: nothing without a position; write the events, if any; save the checkpoint; tell the
  source; acknowledge the signals; update the status. The position leaves the pending batch first
  and the events when they are written, so an error drops them.
\<close>

definition checkpoint_of ::
  "('k, 'd) runtime_env \<Rightarrow> source_position \<Rightarrow> ('k, 'd) runtime_state \<Rightarrow> checkpoint" where
  "checkpoint_of env position s =
     \<lparr>cp_schema_version = CHECKPOINT_SCHEMA_VERSION,
      cp_connector_name = identity_name (re_identity env),
      cp_generation = identity_generation (re_identity env),
      cp_source_position = position,
      cp_snapshot_completed = rt_snapshot_completed s,
      cp_config_fingerprint = rc_config_fingerprint (re_config env),
      cp_updated_at = re_now env (rt_step s),
      cp_connector_state = rt_connector_state s\<rparr>"

definition finish_batch ::
  "('k, 'd) runtime_env \<Rightarrow> source_position \<Rightarrow> nat \<Rightarrow> ('k, 'd) runtime_state
   \<Rightarrow> unit result \<times> ('k, 'd) runtime_state" where
  "finish_batch env position delivered s =
     (let c = checkpoint_of env position s; s = tick s in
      case re_store_save env c (rt_store s) of
        (r, d) \<Rightarrow>
          (let s = emit (CheckpointSaved c r) (s\<lparr>rt_store := d\<rparr>) in
           case r of
             Err e \<Rightarrow> (Err e, s)
           | Ok _ \<Rightarrow>
               if \<not> re_ack_listens env (rt_step s)
               then (Err (Source ''source acknowledgement channel closed''), s)
               else
                 let s = emit (SourceAcked position) (s\<lparr>rt_acked := Some position\<rparr>);
                     s = acknowledge_all (pb_signal_acks (rt_pending s)) s;
                     timing = pb_latest_event_timing (rt_pending s);
                     s = s\<lparr>rt_pending := (rt_pending s)
                             \<lparr>pb_signal_acks := [], pb_latest_event_timing := None\<rparr>,
                           rt_status := status_checkpointed (re_now env (rt_step s)) position
                             delivered timing (rt_status s)\<rparr>
                 in (Ok (), tick s)))"

definition flush_batch ::
  "('k, 'd) runtime_env \<Rightarrow> ('k, 'd) runtime_state
   \<Rightarrow> (unit result \<times> ('k, 'd) runtime_state) option" where
  "flush_batch env s =
     (case pb_highest_position (rt_pending s) of
        None \<Rightarrow> Some (Ok (), s)
      | Some position \<Rightarrow>
          let encoded = pb_encoded (rt_pending s);
              delivered = length encoded;
              s = s\<lparr>rt_pending := (rt_pending s)\<lparr>pb_highest_position := None\<rparr>\<rparr>
          in if encoded = [] then Some (finish_batch env position delivered s)
             else
               let batch = \<lparr>db_events = encoded, db_highest_position = position\<rparr>;
                   s = s\<lparr>rt_pending := (rt_pending s)\<lparr>pb_encoded := []\<rparr>\<rparr>
               in (case write_sink_with_retry env batch s of
                     None \<Rightarrow> None
                   | Some (Err e, s) \<Rightarrow>
                       if e = Cancelled then Some (Err e, s)
                       else Some (Err e, s\<lparr>rt_status := (rt_status s)
                              \<lparr>st_failed_events := st_failed_events (rt_status s)
                                  + of_nat delivered\<rparr>\<rparr>)
                   | Some (Ok _, s) \<Rightarrow> Some (finish_batch env position delivered s)))"

section \<open>Consuming a record\<close>

definition incremental_snapshot :: "change_event \<Rightarrow> bool" where
  "incremental_snapshot event =
     (map_of (sm_attributes (ev_source event)) ''rustium.snapshot.kind''
      = Some (JString ''incremental''))"

definition moves_backwards :: "source_record \<Rightarrow> pending_batch \<Rightarrow> bool" where
  "moves_backwards r pending =
     (case pb_highest_position pending of
        None \<Rightarrow> False
      | Some previous \<Rightarrow>
          \<not> is_after (sr_position r) previous \<and> \<not> position_eq (sr_position r) previous)"

text \<open>The event part of \<open>consume_record\<close>: the snapshotting status, the encoder, the timing.\<close>

definition encode_event ::
  "('k, 'd) runtime_env \<Rightarrow> change_event \<Rightarrow> ('k, 'd) runtime_state
   \<Rightarrow> unit result \<times> ('k, 'd) runtime_state" where
  "encode_event env event s =
     (let s = (if sm_snapshot (ev_source event) \<and> \<not> incremental_snapshot event
                  \<and> st_state (rt_status s) \<noteq> Snapshotting
               then transition env Snapshotting None s else s)
      in case re_encode_batch env event of
           Err e \<Rightarrow>
             (Err e, s\<lparr>rt_status := (rt_status s)
                         \<lparr>st_failed_events := st_failed_events (rt_status s) + 1\<rparr>\<rparr>)
         | Ok encoded \<Rightarrow>
             (Ok (), s\<lparr>rt_pending := (rt_pending s)
                         \<lparr>pb_encoded := pb_encoded (rt_pending s) @ encoded,
                          pb_latest_event_timing :=
                            Some \<lparr>et_source_time = ev_source_time event,
                                  et_observed_time = ev_observed_time event\<rparr>\<rparr>\<rparr>))"

text \<open>The rest of the record: its position, state and signals join the pending batch.\<close>

definition accept_record ::
  "source_record \<Rightarrow> ('k, 'd) runtime_state \<Rightarrow> ('k, 'd) runtime_state" where
  "accept_record r s =
     s\<lparr>rt_pending := (rt_pending s)
          \<lparr>pb_highest_position := Some (sr_position r),
           pb_signal_acks := pb_signal_acks (rt_pending s) @ sr_signal_acks r\<rparr>,
       rt_connector_state :=
          (case sr_connector_state r of None \<Rightarrow> rt_connector_state s | Some st \<Rightarrow> Some st)\<rparr>"

definition at_boundary ::
  "('k, 'd) runtime_env \<Rightarrow> record_boundary \<Rightarrow> ('k, 'd) runtime_state
   \<Rightarrow> (unit result \<times> ('k, 'd) runtime_state) option" where
  "at_boundary env boundary s =
     (case boundary of
        SnapshotComplete \<Rightarrow>
          flush_batch env (transition env Streaming None (s\<lparr>rt_snapshot_completed := True\<rparr>))
      | TransactionCommit \<Rightarrow> flush_batch env s
      | DataBoundary \<Rightarrow>
          if rc_max_batch_size (re_config env) \<le> length (pb_encoded (rt_pending s))
          then flush_batch env s else Some (Ok (), s)
      | Heartbeat \<Rightarrow>
          if pb_encoded (rt_pending s) = [] then flush_batch env s else Some (Ok (), s))"

definition consume_record ::
  "('k, 'd) runtime_env \<Rightarrow> source_record \<Rightarrow> ('k, 'd) runtime_state
   \<Rightarrow> (unit result \<times> ('k, 'd) runtime_state) option" where
  "consume_record env r s =
     (if moves_backwards r (rt_pending s)
      then Some (Err (Invariant (''source position moved backwards: ''
             @ (case pb_highest_position (rt_pending s) of
                  None \<Rightarrow> [] | Some p \<Rightarrow> re_debug_position env p)
             @ '' -> '' @ re_debug_position env (sr_position r))), s)
      else
        case (case sr_event r of None \<Rightarrow> (Ok (), s) | Some event \<Rightarrow> encode_event env event s) of
          (Err e, s) \<Rightarrow> Some (Err e, s)
        | (Ok _, s) \<Rightarrow> at_boundary env (sr_boundary r) (accept_record r s))"

section \<open>The pipeline\<close>

text \<open>
  What the \<^verbatim>\<open>select!\<close> of the loop can see: the cancellation, a tick of the flush interval, a record
  (or an error) from the source with the number of records still queued behind it, and the source
  closing the channel.
\<close>

datatype runtime_event =
    CancelRequested
  | FlushTick
  | Received "source_record result" nat
  | ChannelClosed

datatype ('k, 'd) loop_outcome =
    Waiting "('k, 'd) runtime_state"
  | Broken "('k, 'd) runtime_state"
  | Returned rust_error "('k, 'd) runtime_state"

text \<open>One turn of the loop; \<open>Waiting\<close> means that it goes on.\<close>

definition loop_turn ::
  "('k, 'd) runtime_env \<Rightarrow> runtime_event \<Rightarrow> ('k, 'd) runtime_state
   \<Rightarrow> ('k, 'd) loop_outcome option" where
  "loop_turn env event s =
     (let continue = map_option (\<lambda>(r, s). case r of Err e \<Rightarrow> Returned e s | Ok _ \<Rightarrow> Waiting s)
      in case event of
           CancelRequested \<Rightarrow> Some (Broken s)
         | ChannelClosed \<Rightarrow> Some (Broken s)
         | FlushTick \<Rightarrow> continue (flush_batch env s)
         | Received (Err e) depth \<Rightarrow> Some (Returned e s)
         | Received (Ok r) depth \<Rightarrow>
             continue (consume_record env r
               (s\<lparr>rt_status := (rt_status s)\<lparr>st_queue_depth := depth\<rparr>\<rparr>)))"

fun run_loop ::
  "('k, 'd) runtime_env \<Rightarrow> runtime_event list \<Rightarrow> ('k, 'd) runtime_state
   \<Rightarrow> ('k, 'd) loop_outcome option" where
  "run_loop env [] s = Some (Waiting s)"
| "run_loop env (e # es) s =
     (case loop_turn env e s of
        Some (Waiting s') \<Rightarrow> run_loop env es s'
      | outcome \<Rightarrow> outcome)"

text \<open>The loop, then a last delivery and a flush of the sink; an error skips what follows it.\<close>

definition pipeline ::
  "('k, 'd) runtime_env \<Rightarrow> runtime_event list \<Rightarrow> ('k, 'd) runtime_state
   \<Rightarrow> ('k, 'd) loop_outcome option" where
  "pipeline env es s =
     (case run_loop env es (transition env Streaming None (s\<lparr>rt_pending := pending_new\<rparr>)) of
        Some (Broken s) \<Rightarrow>
          (case flush_batch env s of
             None \<Rightarrow> None
           | Some (Err e, s) \<Rightarrow> Some (Returned e s)
           | Some (Ok _, s) \<Rightarrow>
               (case flush_sink_with_retry env s of
                  None \<Rightarrow> None
                | Some (Err e, s) \<Rightarrow> Some (Returned e s)
                | Some (Ok _, s) \<Rightarrow> Some (Broken s)))
      | outcome \<Rightarrow> outcome)"

section \<open>Start-up and shutdown\<close>

text \<open>How the source task ends once it is cancelled, against the shutdown timeout.\<close>

datatype source_end =
    SourceReturned "unit result"
  | SourcePanicked string
  | SourceTimedOut

definition source_result :: "source_end \<Rightarrow> unit result" where
  "source_result e =
     (case e of
        SourceReturned (Ok _) \<Rightarrow> Ok ()
      | SourceReturned (Err err) \<Rightarrow> if err = Cancelled then Ok () else Err err
      | SourcePanicked m \<Rightarrow> Err (Source (''source task failed: '' @ m))
      | SourceTimedOut \<Rightarrow> Err (Source ''source shutdown timed out''))"

text \<open>
  The part of \<open>run_inner\<close> before the source starts: validation of both ends and the checkpoint.
\<close>

definition start_up ::
  "('k, 'd) runtime_env \<Rightarrow> ('k, 'd) runtime_state
   \<Rightarrow> (checkpoint option result \<times> ('k, 'd) runtime_state) option" where
  "start_up env s =
     (let s = transition env Starting None s;
          s = emit (SourceValidated (re_source_validate env)) s
      in case re_source_validate env of
           Err e \<Rightarrow> Some (Err e, s)
         | Ok _ \<Rightarrow>
             (case validate_sink_with_retry env s of
                None \<Rightarrow> None
              | Some (Err e, s) \<Rightarrow> Some (Err e, s)
              | Some (Ok _, s) \<Rightarrow>
                  (case re_store_load env (identity_name (re_identity env)) (rt_store s) of
                     (r, d) \<Rightarrow>
                       (let s = s\<lparr>rt_store := d\<rparr> in
                        case r of
                          Err e \<Rightarrow> Some (Err e, s)
                        | Ok None \<Rightarrow> Some (Ok None, s)
                        | Ok (Some c) \<Rightarrow>
                            if cp_config_fingerprint c \<noteq> rc_config_fingerprint (re_config env)
                            then Some (Err (Configuration
                              ''persisted checkpoint does not match the active configuration''), s)
                            else Some (Ok (Some c), s)))))"

definition start_source ::
  "checkpoint option \<Rightarrow> ('k, 'd) runtime_state \<Rightarrow> ('k, 'd) runtime_state" where
  "start_source initial s =
     emit (SourceStarted initial)
       (s\<lparr>rt_acked := map_option cp_source_position initial,
          rt_snapshot_completed := (case initial of None \<Rightarrow> False | Some c \<Rightarrow> cp_snapshot_completed c),
          rt_connector_state := (case initial of None \<Rightarrow> None | Some c \<Rightarrow> cp_connector_state c)\<rparr>)"

definition shut_down ::
  "('k, 'd) runtime_env \<Rightarrow> source_end \<Rightarrow> unit result \<Rightarrow> ('k, 'd) runtime_state
   \<Rightarrow> unit result \<times> ('k, 'd) runtime_state" where
  "shut_down env ending piped s =
     (let piped = (if piped = Err Cancelled \<and> re_is_cancelled env (rt_step s) then Ok () else piped);
          s = (if is_ok piped then transition env Stopping None s else s)
      in case sink_call (re_sink_shutdown env) SinkShutdown s of
           (down, s) \<Rightarrow>
             (case rbind piped (\<lambda>_. rbind (source_result ending) (\<lambda>_. down)) of
                Err e \<Rightarrow> (Err e, s)
              | Ok _ \<Rightarrow> (Ok (), transition env Stopped None s)))"

definition run_inner ::
  "('k, 'd) runtime_env \<Rightarrow> runtime_event list \<Rightarrow> source_end \<Rightarrow> ('k, 'd) runtime_state
   \<Rightarrow> ('k, 'd) loop_outcome option" where
  "run_inner env es ending s =
     (case start_up env s of
        None \<Rightarrow> None
      | Some (Err e, s) \<Rightarrow> Some (Returned e s)
      | Some (Ok initial, s) \<Rightarrow>
          (let ended = (\<lambda>piped s. case shut_down env ending piped s of
                          (Err e, s) \<Rightarrow> Returned e s | (Ok _, s) \<Rightarrow> Broken s)
           in case pipeline env es (start_source initial s) of
                None \<Rightarrow> None
              | Some (Waiting s) \<Rightarrow> Some (Waiting s)
              | Some (Broken s) \<Rightarrow> Some (ended (Ok ()) s)
              | Some (Returned e s) \<Rightarrow> Some (ended (Err e) s)))"

text \<open>\<open>run\<close>: \<open>Broken\<close> is the return with \<^verbatim>\<open>Ok(())\<close>, \<open>Waiting\<close> a loop still running.\<close>

definition run ::
  "('k, 'd) runtime_env \<Rightarrow> runtime_event list \<Rightarrow> source_end \<Rightarrow> ('k, 'd) runtime_state
   \<Rightarrow> ('k, 'd) loop_outcome option" where
  "run env es ending s =
     (case run_inner env es ending s of
        Some (Returned e s) \<Rightarrow>
          if e = Cancelled then Some (Returned e s)
          else Some (Returned e (transition env Failed (Some (error_to_string e)) s))
      | outcome \<Rightarrow> outcome)"

definition runtime_new ::
  "('k, 'd) runtime_env \<Rightarrow> 'k \<Rightarrow> 'd \<Rightarrow> ack_cells \<Rightarrow> status_snapshot
   \<Rightarrow> ('k, 'd) runtime_state" where
  "runtime_new env k d cells status =
     \<lparr>rt_step = 0, rt_status = status, rt_sink = k, rt_store = d, rt_pending = pending_new,
      rt_snapshot_completed = False, rt_connector_state = None, rt_acked = None,
      rt_cells = cells, rt_trace = []\<rparr>"

end
