(* ===== verification/Runtime_Delivery.thy ===== *)
theory Runtime_Delivery
  imports Core_Runtime
begin

text \<open>
  The delivery guarantee of the runtime. The accepted records split at every moment into those
  delivered and those pending; what has been written, checkpointed and acknowledged is exactly the
  first part. Errors only shorten what has been acknowledged.
\<close>

named_theorems trace_simps \<open>projections of the trace\<close>

section \<open>Reading the trace\<close>

fun written :: "effect \<Rightarrow> encoded_event list" where
  "written (SinkWritten b r) = (if is_ok r then db_events b else [])"
| "written _ = []"

definition delivered :: "effect list \<Rightarrow> encoded_event list" where
  "delivered t = concat (map written t)"

fun saved :: "effect \<Rightarrow> checkpoint option" where
  "saved (CheckpointSaved c r) = (if is_ok r then Some c else None)"
| "saved _ = None"

definition saves :: "effect list \<Rightarrow> checkpoint list" where
  "saves t = List.map_filter saved t"

fun signal_of :: "effect \<Rightarrow> ack_ref option" where
  "signal_of (SignalAcked r) = Some r"
| "signal_of _ = None"

definition signal_acks :: "effect list \<Rightarrow> ack_ref list" where
  "signal_acks t = List.map_filter signal_of t"

text \<open>Every acknowledged position was saved in the step before.\<close>

fun acks_follow_saves :: "effect option \<Rightarrow> effect list \<Rightarrow> bool" where
  "acks_follow_saves prev [] = True"
| "acks_follow_saves prev (e # t) =
     ((case e of
         SourceAcked p \<Rightarrow>
           (case Option.bind prev saved of None \<Rightarrow> False | Some c \<Rightarrow> cp_source_position c = p)
       | _ \<Rightarrow> True)
      \<and> acks_follow_saves (Some e) t)"

fun quiet :: "effect \<Rightarrow> bool" where
  "quiet (SinkWritten b r) = (\<not> is_ok r)"
| "quiet (CheckpointSaved c r) = (\<not> is_ok r)"
| "quiet (SourceAcked p) = False"
| "quiet (SignalAcked r) = False"
| "quiet (SourceStarted c) = False"
| "quiet _ = True"

lemma map_filter_append [trace_simps]:
  "List.map_filter f (xs @ ys) = List.map_filter f xs @ List.map_filter f ys"
  by (simp add: List.map_filter_def)

lemma delivered_append [trace_simps]: "delivered (t @ u) = delivered t @ delivered u"
  by (simp add: delivered_def)

lemma saves_append [trace_simps]: "saves (t @ u) = saves t @ saves u"
  by (simp add: saves_def map_filter_append)

lemma signal_acks_append [trace_simps]: "signal_acks (t @ u) = signal_acks t @ signal_acks u"
  by (simp add: signal_acks_def map_filter_append)

lemma trace_Cons [trace_simps]:
  "delivered (e # t) = written e @ delivered t" "delivered [] = []"
  "saves (e # t) = (case saved e of None \<Rightarrow> saves t | Some c \<Rightarrow> c # saves t)" "saves [] = []"
  "signal_acks (e # t) = (case signal_of e of None \<Rightarrow> signal_acks t | Some r \<Rightarrow> r # signal_acks t)"
  "signal_acks [] = []"
  by (simp_all add: delivered_def saves_def signal_acks_def List.map_filter_def split: option.splits)

lemma quiet_projections:
  assumes "quiet e"
  shows "written e = []" "saved e = None" "signal_of e = None"
  using assms by (cases e; simp)+

lemma quiet_trace [trace_simps]:
  assumes "list_all quiet t"
  shows "delivered t = []" "saves t = []" "signal_acks t = []"
  using assms
  by (induction t)
     (auto simp: delivered_def saves_def signal_acks_def List.map_filter_simps quiet_projections)

lemma acks_append [trace_simps]:
  "acks_follow_saves p (t @ u) \<longleftrightarrow>
     acks_follow_saves p t \<and> acks_follow_saves (if t = [] then p else Some (last t)) u"
  by (induction t arbitrary: p) auto

lemma quiet_acks [trace_simps]: "list_all quiet t \<Longrightarrow> acks_follow_saves p t"
proof (induction t arbitrary: p)
  case Nil
  then show ?case by simp
next
  case (Cons e t)
  then show ?case by (cases e) auto
qed

section \<open>The retry loop\<close>

text \<open>The parts of the state that only the delivery itself changes.\<close>

definition same_core :: "('k, 'd) runtime_state \<Rightarrow> ('k, 'd) runtime_state \<Rightarrow> bool" where
  "same_core s s' =
     (rt_store s' = rt_store s \<and> rt_pending s' = rt_pending s
      \<and> rt_snapshot_completed s' = rt_snapshot_completed s
      \<and> rt_connector_state s' = rt_connector_state s \<and> rt_acked s' = rt_acked s
      \<and> rt_cells s' = rt_cells s)"

definition quiet_after :: "('k, 'd) runtime_state \<Rightarrow> ('k, 'd) runtime_state \<Rightarrow> bool" where
  "quiet_after s s' =
     (same_core s s' \<and> (\<exists>es. rt_trace s' = rt_trace s @ es \<and> list_all quiet es))"

lemma quiet_after_refl [simp]: "quiet_after s s"
  by (simp add: quiet_after_def same_core_def)

lemma quiet_after_trans: "quiet_after s s' \<Longrightarrow> quiet_after s' s'' \<Longrightarrow> quiet_after s s''"
  by (auto simp: quiet_after_def same_core_def)

lemma quiet_after_emit: "quiet e \<Longrightarrow> quiet_after s s' \<Longrightarrow> quiet_after s (emit e s')"
  by (auto simp: quiet_after_def same_core_def emit_def)

lemma quiet_after_status [simp]:
  "quiet_after s (s'\<lparr>rt_status := x\<rparr>) = quiet_after s s'"
  "quiet_after s (s'\<lparr>rt_step := n\<rparr>) = quiet_after s s'"
  "quiet_after s (s'\<lparr>rt_sink := k\<rparr>) = quiet_after s s'"
  "quiet_after s (tick s') = quiet_after s s'"
  "quiet_after s (transition env st m s') = quiet_after s s'"
  by (simp_all add: quiet_after_def same_core_def tick_def transition_def)

lemma wait_quiet:
  "wait_for_sink_retry env retry s = (x, s') \<Longrightarrow> quiet_after s s'"
  by (auto simp: wait_for_sink_retry_def Let_def quiet_after_emit split: if_splits)

lemma retryable_sink_cases:
  "retryable_sink r = Some e \<Longrightarrow> r = Err e"
  by (auto simp: retryable_sink_def split: sum.splits rust_error.splits)

lemma retryable_sink_Ok [simp]: "retryable_sink (Ok u) = None"
  by (simp add: retryable_sink_def)

lemma sink_with_retry_rule:
  assumes "sink_with_retry env operation retry s = Some y"
    and "\<And>t e t'. operation t = (Err e, t') \<Longrightarrow> quiet_after t t'"
  shows "\<exists>t. quiet_after s t
    \<and> (if is_ok (fst y) then operation t = y else t = snd y)"
  using assms
proof (induction rule: sink_with_retry.raw_induct [rotated 1, consumes 1, case_names 1])
  case (1 loop env operation retry s y)
  note IH = 1(1) and body = 1(2) and quiet = 1(3)
  obtain r s1 where op: "operation s = (r, s1)" by fastforce
  show ?case
  proof (cases "retryable_sink r")
    case None
    with body op have y: "y = (r, s1)" by simp
    show ?thesis
    proof (cases r)
      case (Inl e)
      with quiet op y show ?thesis by auto
    next
      case (Inr u)
      with op y show ?thesis by (intro exI [of _ s]) simp
    qed
  next
    case (Some e)
    then have "r = Err e" by (rule retryable_sink_cases)
    with op quiet have q1: "quiet_after s s1" by blast
    obtain w retry' s2 where wait: "wait_for_sink_retry env retry s1 = ((w, retry'), s2)"
      by (metis surj_pair)
    have q2: "quiet_after s s2" using q1 wait_quiet [OF wait] quiet_after_trans by blast
    consider (err) e' where "w = Err e'" "y = (Err e', s2)"
      | (stop) "w = Ok False" "y = (Err e, s2)"
      | (again) "w = Ok True" "loop env operation retry' s2 = Some y"
      using body op Some wait by (auto split: sum.splits if_splits)
    then show ?thesis
    proof cases
      case again
      with IH [of env operation retry' s2 y] quiet q2 quiet_after_trans show ?thesis by meson
    qed (use q2 in auto)
  qed
qed

lemma sink_call_Err:
  assumes "sink_call f eff t = (Err e, t')" "\<And>e. quiet (eff (Err e))"
  shows "quiet_after t t'"
  using assms by (auto simp: sink_call_def quiet_after_emit split: prod.splits)

lemma sink_call_Ok:
  assumes "sink_call f eff t = (Ok u, t')"
  shows "same_core t t' \<and> rt_trace t' = rt_trace t @ [eff (Ok u)]"
  using assms by (auto simp: sink_call_def emit_def same_core_def split: prod.splits)

text \<open>A write that returns has added exactly the batch, or nothing when it failed.\<close>

lemma write_sink_outcome:
  assumes "write_sink_with_retry env batch s = Some (r, s')"
  shows "same_core s s'
    \<and> (\<exists>es. rt_trace s' = rt_trace s @ es \<and> list_all quiet (if is_ok r then butlast es else es)
         \<and> (is_ok r \<longrightarrow> es \<noteq> [] \<and> last es = SinkWritten batch (Ok ())))"
proof -
  have "\<exists>t. quiet_after s t \<and>
      (if is_ok (fst (r, s')) then sink_call (re_sink_write env batch) (SinkWritten batch) t = (r, s')
       else t = snd (r, s'))"
    using assms unfolding write_sink_with_retry_def
    by (rule sink_with_retry_rule) (erule sink_call_Err, simp)
  then obtain t where t: "quiet_after s t"
    "if is_ok r then sink_call (re_sink_write env batch) (SinkWritten batch) t = (r, s') else t = s'"
    by auto
  show ?thesis
  proof (cases r)
    case (Inl e)
    with t show ?thesis by (auto simp: quiet_after_def)
  next
    case (Inr u)
    with t sink_call_Ok [of "re_sink_write env batch" "SinkWritten batch" t u s']
    show ?thesis by (auto simp: quiet_after_def same_core_def)
  qed
qed

lemma quiet_sink_call:
  assumes "sink_with_retry env (sink_call f eff) retry s = Some (r, s')" "\<And>x. quiet (eff x)"
  shows "quiet_after s s'"
proof -
  have "\<exists>t. quiet_after s t \<and> (if is_ok r then sink_call f eff t = (r, s') else t = s')"
    using sink_with_retry_rule [OF assms(1)] sink_call_Err [of f eff] assms(2)
    by (metis fst_conv snd_conv)
  then obtain t where t: "quiet_after s t" "if is_ok r then sink_call f eff t = (r, s') else t = s'"
    by blast
  have "quiet_after t s'" if "sink_call f eff t = (r, s')"
    using that assms(2) by (auto simp: sink_call_def quiet_after_emit split: prod.splits)
  with t show ?thesis using quiet_after_trans by (cases "is_ok r") auto
qed

lemma flush_sink_quiet: "flush_sink_with_retry env s = Some (r, s') \<Longrightarrow> quiet_after s s'"
  unfolding flush_sink_with_retry_def by (erule quiet_sink_call) simp

lemma validate_sink_quiet: "validate_sink_with_retry env s = Some (r, s') \<Longrightarrow> quiet_after s s'"
  unfolding validate_sink_with_retry_def by (erule quiet_sink_call) simp

section \<open>What the records amount to\<close>

definition encoded_of :: "('k, 'd) runtime_env \<Rightarrow> source_record \<Rightarrow> encoded_event list" where
  "encoded_of env r =
     (case sr_event r of
        None \<Rightarrow> []
      | Some e \<Rightarrow> (case re_encode_batch env e of Err _ \<Rightarrow> [] | Ok xs \<Rightarrow> xs))"

definition encoded_all :: "('k, 'd) runtime_env \<Rightarrow> source_record list \<Rightarrow> encoded_event list" where
  "encoded_all env rs = concat (map (encoded_of env) rs)"

definition signals_of :: "source_record list \<Rightarrow> ack_ref list" where
  "signals_of rs = concat (map sr_signal_acks rs)"

definition last_state ::
  "state_envelope option \<Rightarrow> source_record list \<Rightarrow> state_envelope option" where
  "last_state st rs =
     fold (\<lambda>r st. case sr_connector_state r of None \<Rightarrow> st | Some x \<Rightarrow> Some x) rs st"

definition snapshot_done :: "bool \<Rightarrow> source_record list \<Rightarrow> bool" where
  "snapshot_done b rs = (b \<or> list_ex (\<lambda>r. sr_boundary r = SnapshotComplete) rs)"

definition last_position ::
  "source_position option \<Rightarrow> source_record list \<Rightarrow> source_position option" where
  "last_position p rs = (if rs = [] then p else Some (sr_position (last rs)))"

lemma records_append [simp]:
  "encoded_all env (rs @ qs) = encoded_all env rs @ encoded_all env qs"
  "signals_of (rs @ qs) = signals_of rs @ signals_of qs"
  "last_state st (rs @ qs) = last_state (last_state st rs) qs"
  "snapshot_done b (rs @ qs) = snapshot_done (snapshot_done b rs) qs"
  "last_position p (rs @ qs) = last_position (last_position p rs) qs"
  by (simp_all add: encoded_all_def signals_of_def last_state_def snapshot_done_def
      last_position_def)

lemma records_Nil [simp]:
  "encoded_all env [] = []" "signals_of [] = []" "last_state st [] = st"
  "snapshot_done b [] = b" "last_position p [] = p"
  by (simp_all add: encoded_all_def signals_of_def last_state_def snapshot_done_def
      last_position_def)

lemma records_one:
  "encoded_all env [r] = encoded_of env r" "signals_of [r] = sr_signal_acks r"
  "last_state st [r] = (case sr_connector_state r of None \<Rightarrow> st | Some x \<Rightarrow> Some x)"
  "snapshot_done b [r] = (b \<or> sr_boundary r = SnapshotComplete)"
  "last_position p [r] = Some (sr_position r)"
  by (simp_all add: encoded_all_def signals_of_def last_state_def snapshot_done_def
      last_position_def)

text \<open>The checkpoint that stands for exactly these records.\<close>

definition covers ::
  "('k, 'd) runtime_env \<Rightarrow> ('k, 'd) runtime_state \<Rightarrow> source_record list \<Rightarrow> checkpoint \<Rightarrow> bool" where
  "covers env s0 rs c =
     (rs \<noteq> [] \<and> cp_source_position c = sr_position (last rs)
      \<and> cp_connector_state c = last_state (rt_connector_state s0) rs
      \<and> cp_snapshot_completed c = snapshot_done (rt_snapshot_completed s0) rs
      \<and> cp_connector_name c = identity_name (re_identity env)
      \<and> cp_config_fingerprint c = rc_config_fingerprint (re_config env))"

definition last_save_covers ::
  "('k, 'd) runtime_env \<Rightarrow> ('k, 'd) runtime_state \<Rightarrow> source_record list
   \<Rightarrow> ('k, 'd) runtime_state \<Rightarrow> bool" where
  "last_save_covers env s0 rs s =
     (if rs = [] then saves (rt_trace s) = saves (rt_trace s0)
      else saves (rt_trace s) \<noteq> [] \<and> covers env s0 rs (last (saves (rt_trace s))))"

text \<open>Between turns: delivered and pending records partition the accepted ones.\<close>

definition partitioned ::
  "('k, 'd) runtime_env \<Rightarrow> ('k, 'd) runtime_state \<Rightarrow> source_record list \<Rightarrow> source_record list
   \<Rightarrow> ('k, 'd) runtime_state \<Rightarrow> bool" where
  "partitioned env s0 done rest s =
     (delivered (rt_trace s) = delivered (rt_trace s0) @ encoded_all env done
      \<and> signal_acks (rt_trace s) = signal_acks (rt_trace s0) @ signals_of done
      \<and> rt_acked s = last_position (rt_acked s0) done
      \<and> last_save_covers env s0 done s
      \<and> pb_encoded (rt_pending s) = encoded_all env rest
      \<and> pb_signal_acks (rt_pending s) = signals_of rest
      \<and> pb_highest_position (rt_pending s) = last_position None rest
      \<and> rt_connector_state s = last_state (rt_connector_state s0) (done @ rest)
      \<and> rt_snapshot_completed s = snapshot_done (rt_snapshot_completed s0) (done @ rest)
      \<and> acks_follow_saves None (rt_trace s))"

text \<open>
  Always: what is acknowledged is a prefix of what is checkpointed, and that a prefix of what is
  written, and that a prefix of what was accepted.
\<close>

definition safe_delivery ::
  "('k, 'd) runtime_env \<Rightarrow> ('k, 'd) runtime_state \<Rightarrow> source_record list
   \<Rightarrow> ('k, 'd) runtime_state \<Rightarrow> bool" where
  "safe_delivery env s0 rs s =
     (\<exists>acked checkpointed.
        prefix acked checkpointed \<and> prefix checkpointed rs
        \<and> rt_acked s = last_position (rt_acked s0) acked
        \<and> signal_acks (rt_trace s) = signal_acks (rt_trace s0) @ signals_of acked
        \<and> last_save_covers env s0 checkpointed s
        \<and> prefix (delivered (rt_trace s0) @ encoded_all env checkpointed) (delivered (rt_trace s))
        \<and> prefix (delivered (rt_trace s)) (delivered (rt_trace s0) @ encoded_all env rs)
        \<and> acks_follow_saves None (rt_trace s))"

lemma safe_delivery_cong:
  assumes "rt_trace s' = rt_trace s" "rt_acked s' = rt_acked s"
  shows "safe_delivery env s0 rs s' = safe_delivery env s0 rs s"
  unfolding safe_delivery_def last_save_covers_def assms ..

lemma partitioned_safe:
  "partitioned env s0 done rest s \<Longrightarrow> safe_delivery env s0 (done @ rest) s"
  unfolding partitioned_def safe_delivery_def
  by (intro exI [of _ "done"]) auto

lemma quiet_after_projections:
  assumes "quiet_after s s'"
  shows "delivered (rt_trace s') = delivered (rt_trace s)"
    "saves (rt_trace s') = saves (rt_trace s)"
    "signal_acks (rt_trace s') = signal_acks (rt_trace s)"
    "acks_follow_saves None (rt_trace s) \<Longrightarrow> acks_follow_saves None (rt_trace s')"
    "rt_acked s' = rt_acked s" "rt_pending s' = rt_pending s" "rt_store s' = rt_store s"
    "rt_connector_state s' = rt_connector_state s"
    "rt_snapshot_completed s' = rt_snapshot_completed s"
  using assms by (auto simp: quiet_after_def same_core_def trace_simps)

lemma partitioned_quiet:
  assumes "partitioned env s0 done rest s" "quiet_after s s'"
  shows "partitioned env s0 done rest s'"
  using assms(1) quiet_after_projections(4) [OF assms(2)]
  by (simp add: partitioned_def last_save_covers_def quiet_after_projections [OF assms(2)])

lemma safe_delivery_quiet:
  assumes "safe_delivery env s0 rs s" "quiet_after s s'"
  shows "safe_delivery env s0 rs s'"
  using assms(1) quiet_after_projections(4) [OF assms(2)]
  unfolding safe_delivery_def last_save_covers_def quiet_after_projections(1-3,5) [OF assms(2)]
  by blast

lemma safe_delivery_mono:
  assumes "safe_delivery env s0 rs s"
  shows "safe_delivery env s0 (rs @ qs) s"
proof -
  obtain acked checkpointed where
    "prefix acked checkpointed" "prefix checkpointed rs"
    "rt_acked s = last_position (rt_acked s0) acked"
    "signal_acks (rt_trace s) = signal_acks (rt_trace s0) @ signals_of acked"
    "last_save_covers env s0 checkpointed s"
    "prefix (delivered (rt_trace s0) @ encoded_all env checkpointed) (delivered (rt_trace s))"
    "prefix (delivered (rt_trace s)) (delivered (rt_trace s0) @ encoded_all env rs)"
    "acks_follow_saves None (rt_trace s)"
    using assms unfolding safe_delivery_def by blast
  moreover have "prefix checkpointed (rs @ qs)"
    "prefix (delivered (rt_trace s)) (delivered (rt_trace s0) @ encoded_all env (rs @ qs))"
    using calculation prefix_prefix [of "delivered (rt_trace s)"
        "delivered (rt_trace s0) @ encoded_all env rs" "encoded_all env qs"]
    by (simp_all add: prefix_prefix)
  ultimately show ?thesis unfolding safe_delivery_def by blast
qed

section \<open>One delivery\<close>

lemma acknowledge_all_effect:
  "acknowledge_all refs s =
     s\<lparr>rt_cells := fold acknowledge refs (rt_cells s), rt_trace := rt_trace s @ map SignalAcked refs\<rparr>"
proof (induction refs arbitrary: s)
  case Nil
  then show ?case by (simp add: acknowledge_all_def)
next
  case (Cons r refs)
  have "acknowledge_all (r # refs) s =
      acknowledge_all refs (emit (SignalAcked r) (s\<lparr>rt_cells := acknowledge r (rt_cells s)\<rparr>))"
    by (simp add: acknowledge_all_def)
  with Cons.IH show ?case by (simp add: emit_def)
qed

lemma signal_trace [trace_simps]:
  "delivered (map SignalAcked refs) = []" "saves (map SignalAcked refs) = []"
  "signal_acks (map SignalAcked refs) = refs" "acks_follow_saves p (map SignalAcked refs)"
  by (induction refs arbitrary: p)
     (simp_all add: delivered_def saves_def signal_acks_def List.map_filter_simps)

lemma finish_batch_outcome:
  assumes "finish_batch env position n s = (r, s')"
    and written: "delivered (rt_trace s) = delivered (rt_trace s0) @ encoded_all env (done @ rest)"
    and before: "signal_acks (rt_trace s) = signal_acks (rt_trace s0) @ signals_of done"
      "rt_acked s = last_position (rt_acked s0) done" "last_save_covers env s0 done s"
      "acks_follow_saves None (rt_trace s)"
    and pend: "pb_encoded (rt_pending s) = []" "pb_signal_acks (rt_pending s) = signals_of rest"
      "pb_highest_position (rt_pending s) = None"
    and pos: "rest \<noteq> []" "position = sr_position (last rest)"
    and st: "rt_connector_state s = last_state (rt_connector_state s0) (done @ rest)"
      "rt_snapshot_completed s = snapshot_done (rt_snapshot_completed s0) (done @ rest)"
  shows "if is_ok r then partitioned env s0 (done @ rest) [] s'
    else safe_delivery env s0 (done @ rest) s'"
proof -
  define c where "c = checkpoint_of env position s"
  have covers: "covers env s0 (done @ rest) c"
    using pos st by (simp add: covers_def c_def checkpoint_of_def)
  obtain sr d where save: "re_store_save env c (rt_store s) = (sr, d)" by fastforce
  note finish = assms(1) [unfolded finish_batch_def Let_def, folded c_def]
  consider (save_err) e where "sr = Err e" "r = Err e"
      "rt_trace s' = rt_trace s @ [CheckpointSaved c (Err e)]" "rt_acked s' = rt_acked s"
    | (closed) u m where "sr = Ok u" "r = Err m"
      "rt_trace s' = rt_trace s @ [CheckpointSaved c (Ok u)]" "rt_acked s' = rt_acked s"
    | (all) u where "sr = Ok u" "r = Ok ()" "rt_acked s' = Some position"
      "rt_trace s' = rt_trace s @ [CheckpointSaved c (Ok u), SourceAcked position]
          @ map SignalAcked (signals_of rest)"
      "pb_signal_acks (rt_pending s') = []" "pb_encoded (rt_pending s') = []"
      "pb_highest_position (rt_pending s') = None"
      "rt_connector_state s' = rt_connector_state s"
      "rt_snapshot_completed s' = rt_snapshot_completed s"
  proof (cases sr)
    case (Inl e)
    with finish save show thesis
      by (intro that(1)) (auto simp: tick_def emit_def)
  next
    case (Inr u)
    show thesis
    proof (cases "re_ack_listens env (Suc (rt_step s))")
      case True
      with Inr finish save pend show thesis
        by (intro that(3)) (auto simp: tick_def emit_def acknowledge_all_effect)
    next
      case False
      with Inr finish save show thesis
        by (intro that(2)) (auto simp: tick_def emit_def)
    qed
  qed
  then show ?thesis
  proof cases
    case save_err
    have "safe_delivery env s0 (done @ rest) s'"
      unfolding safe_delivery_def
      using save_err before written by (intro exI [of _ "done"])
        (auto simp: trace_simps last_save_covers_def)
    with save_err show ?thesis by simp
  next
    case closed
    have "safe_delivery env s0 (done @ rest) s'"
      unfolding safe_delivery_def
      using closed before written covers pos
      by (intro exI [of _ "done"] exI [of _ "done @ rest"])
        (auto simp: trace_simps last_save_covers_def)
    with closed show ?thesis by simp
  next
    case all
    have "partitioned env s0 (done @ rest) [] s'"
      unfolding partitioned_def
      using all before written covers pos st
      by (auto simp: trace_simps last_save_covers_def last_position_def covers_def)
    with all show ?thesis by simp
  qed
qed

lemma flush_batch_outcome:
  assumes inv: "partitioned env s0 done rest s" and flush: "flush_batch env s = Some (r, s')"
  shows "if is_ok r then partitioned env s0 (done @ rest) [] s'
    else safe_delivery env s0 (done @ rest) s'"
proof (cases "rest = []")
  case True
  with inv flush show ?thesis by (auto simp: flush_batch_def partitioned_def)
next
  case False
  let ?pos = "sr_position (last rest)"
  have high: "pb_highest_position (rt_pending s) = Some ?pos"
    using inv False by (simp add: partitioned_def last_position_def)
  note inv' = inv [unfolded partitioned_def]
  define s1 where "s1 = s\<lparr>rt_pending := (rt_pending s)\<lparr>pb_highest_position := None\<rparr>\<rparr>"
  show ?thesis
  proof (cases "pb_encoded (rt_pending s) = []")
    case True
    with flush high have "finish_batch env ?pos 0 s1 = (r, s')"
      by (simp add: flush_batch_def Let_def s1_def)
    then show ?thesis
      by (rule finish_batch_outcome) (use True False inv' in \<open>simp_all add: s1_def last_save_covers_def\<close>)
  next
    case nonempty: False
    define s2 where "s2 = s\<lparr>rt_pending := (rt_pending s)\<lparr>pb_highest_position := None, pb_encoded := []\<rparr>\<rparr>"
    define batch where "batch = \<lparr>db_events = pb_encoded (rt_pending s), db_highest_position = ?pos\<rparr>"
    obtain w s3 where sent: "write_sink_with_retry env batch s2 = Some (w, s3)"
      using flush high nonempty
      by (auto simp: flush_batch_def Let_def batch_def s2_def split: option.splits)
    note out = write_sink_outcome [OF sent]
    then obtain es where es: "rt_trace s3 = rt_trace s @ es" "same_core s2 s3"
      "list_all quiet (if is_ok w then butlast es else es)"
      "is_ok w \<longrightarrow> es \<noteq> [] \<and> last es = SinkWritten batch (Ok ())"
      by (auto simp: s2_def)
    show ?thesis
    proof (cases w)
      case (Inl e)
      then have "quiet_after s2 s3" using es by (auto simp: quiet_after_def s2_def)
      moreover have "safe_delivery env s0 (done @ rest) s2"
        using partitioned_safe [OF inv] by (subst safe_delivery_cong [of s2 s]) (simp_all add: s2_def)
      ultimately have "safe_delivery env s0 (done @ rest) s3" using safe_delivery_quiet by blast
      moreover have "r = Err e \<and> quiet_after s3 s'"
        using flush high nonempty sent Inl
        by (auto simp: flush_batch_def Let_def batch_def s2_def split: if_splits)
      ultimately show ?thesis using safe_delivery_quiet by auto
    next
      case (Inr u)
      then obtain qs where qs: "es = qs @ [SinkWritten batch (Ok ())]" "list_all quiet qs"
        using es by (metis append_butlast_last_id is_ok_simps(1))
      have "finish_batch env ?pos (length (pb_encoded (rt_pending s))) s3 = (r, s')"
        using flush high nonempty sent Inr
        by (simp add: flush_batch_def Let_def batch_def s2_def)
      then show ?thesis
        by (rule finish_batch_outcome)
           (use False inv' es(1,2) qs in \<open>simp_all add: s2_def same_core_def last_save_covers_def
              trace_simps batch_def\<close>)
    qed
  qed
qed

section \<open>The loop\<close>

lemma encode_event_outcome:
  assumes "encode_event env e s = (x, s')"
  shows "if is_ok x
    then \<exists>xs t. re_encode_batch env e = Ok xs \<and> quiet_after s t
      \<and> rt_trace s' = rt_trace t \<and> rt_acked s' = rt_acked t
      \<and> rt_connector_state s' = rt_connector_state t
      \<and> pb_encoded (rt_pending s') = pb_encoded (rt_pending s) @ xs
      \<and> pb_signal_acks (rt_pending s') = pb_signal_acks (rt_pending s)
    else quiet_after s s'"
proof -
  define t where "t = (if sm_snapshot (ev_source e) \<and> \<not> incremental_snapshot e
      \<and> st_state (rt_status s) \<noteq> Snapshotting then transition env Snapshotting None s else s)"
  have t: "quiet_after s t" by (simp add: t_def)
  then have "rt_pending t = rt_pending s" by (simp add: quiet_after_def same_core_def)
  with t assms show ?thesis
    unfolding encode_event_def Let_def t_def [symmetric]
    by (auto split: sum.splits)
qed

text \<open>The state after a record has joined the pending ones, before its boundary is acted upon.\<close>

lemma accept_record_outcome:
  assumes inv: "partitioned env s0 done rest s"
    and encoded: "(case sr_event r of None \<Rightarrow> (Ok (), s) | Some e \<Rightarrow> encode_event env e s) = (Ok u, t)"
  shows "partitioned env s0 done (rest @ [r])
    ((accept_record r t)\<lparr>rt_snapshot_completed :=
        rt_snapshot_completed s \<or> sr_boundary r = SnapshotComplete\<rparr>)"
proof -
  have fields: "delivered (rt_trace t) = delivered (rt_trace s)" "saves (rt_trace t) = saves (rt_trace s)"
    "signal_acks (rt_trace t) = signal_acks (rt_trace s)"
    "acks_follow_saves None (rt_trace s) \<Longrightarrow> acks_follow_saves None (rt_trace t)"
    "rt_acked t = rt_acked s" "rt_connector_state t = rt_connector_state s"
    "pb_encoded (rt_pending t) = pb_encoded (rt_pending s) @ encoded_of env r"
    "pb_signal_acks (rt_pending t) = pb_signal_acks (rt_pending s)"
  proof -
    have *: "\<exists>t1. quiet_after s t1 \<and> rt_trace t = rt_trace t1 \<and> rt_acked t = rt_acked t1
        \<and> rt_connector_state t = rt_connector_state t1
        \<and> pb_encoded (rt_pending t) = pb_encoded (rt_pending s) @ encoded_of env r
        \<and> pb_signal_acks (rt_pending t) = pb_signal_acks (rt_pending s)"
    proof (cases "sr_event r")
      case None
      with encoded show ?thesis by (intro exI [of _ s]) (simp add: encoded_of_def)
    next
      case (Some e)
      then have "encode_event env e s = (Ok u, t)" using encoded by simp
      then show ?thesis
        using encode_event_outcome [of env e s "Ok u" t] Some by (auto simp: encoded_of_def)
    qed
    then obtain t1 where t1: "quiet_after s t1" "rt_trace t = rt_trace t1" "rt_acked t = rt_acked t1"
      "rt_connector_state t = rt_connector_state t1"
      "pb_encoded (rt_pending t) = pb_encoded (rt_pending s) @ encoded_of env r"
      "pb_signal_acks (rt_pending t) = pb_signal_acks (rt_pending s)" by blast
    note p = quiet_after_projections [OF t1(1)]
    show "delivered (rt_trace t) = delivered (rt_trace s)" "saves (rt_trace t) = saves (rt_trace s)"
      "signal_acks (rt_trace t) = signal_acks (rt_trace s)"
      "acks_follow_saves None (rt_trace s) \<Longrightarrow> acks_follow_saves None (rt_trace t)"
      "rt_acked t = rt_acked s" "rt_connector_state t = rt_connector_state s"
      "pb_encoded (rt_pending t) = pb_encoded (rt_pending s) @ encoded_of env r"
      "pb_signal_acks (rt_pending t) = pb_signal_acks (rt_pending s)"
      using t1 p by simp_all
  qed
  have "acks_follow_saves None (rt_trace t)" using fields(4) inv by (simp add: partitioned_def)
  with inv show ?thesis
    unfolding partitioned_def last_save_covers_def
    by (simp add: accept_record_def fields(1-3,5-8) records_one split: option.split)
qed

lemma safe_delivery_partitioned_extra:
  "partitioned env s0 done rest s \<Longrightarrow> safe_delivery env s0 (done @ rest @ extra) s"
  using safe_delivery_mono [OF partitioned_safe] by (metis append_assoc)

lemma partitioned_snapshot_flag:
  "partitioned env s0 done rest (s\<lparr>rt_snapshot_completed := rt_snapshot_completed s\<rparr>)
   = partitioned env s0 done rest s"
  by (simp add: partitioned_def last_save_covers_def)

lemma flush_if_outcome:
  assumes "partitioned env s0 done rest s"
    and "(if b then flush_batch env s else Some (Ok (), s)) = Some (x, s')"
  shows "if is_ok x
    then \<exists>done' rest'. done' @ rest' = done @ rest \<and> partitioned env s0 done' rest' s'
    else safe_delivery env s0 (done @ rest) s'"
proof (cases b)
  case True
  with assms flush_batch_outcome [OF assms(1), of x s'] show ?thesis
    by (cases "is_ok x") force+
next
  case False
  with assms show ?thesis by auto
qed

lemma at_boundary_outcome:
  assumes "partitioned env s0 done rest
      (s\<lparr>rt_snapshot_completed := rt_snapshot_completed s \<or> boundary = SnapshotComplete\<rparr>)"
    and "at_boundary env boundary s = Some (x, s')"
  shows "if is_ok x
    then \<exists>done' rest'. done' @ rest' = done @ rest \<and> partitioned env s0 done' rest' s'
    else safe_delivery env s0 (done @ rest) s'"
proof (cases "boundary = SnapshotComplete")
  case True
  then have "partitioned env s0 done rest
      (transition env Streaming None (s\<lparr>rt_snapshot_completed := True\<rparr>))"
    using assms(1) by (auto intro: partitioned_quiet)
  then show ?thesis
    by (rule flush_if_outcome [where b = True]) (use True assms(2) in \<open>simp add: at_boundary_def\<close>)
next
  case False
  then have inv: "partitioned env s0 done rest s"
    using assms(1) by (simp add: partitioned_snapshot_flag)
  show ?thesis
    using False assms(2) flush_if_outcome [OF inv, of True x s']
      flush_if_outcome [OF inv, of "rc_max_batch_size (re_config env) \<le> length (pb_encoded (rt_pending s))" x s']
      flush_if_outcome [OF inv, of "pb_encoded (rt_pending s) = []" x s']
    by (cases boundary) (simp_all add: at_boundary_def)
qed

lemma consume_record_outcome:
  assumes inv: "partitioned env s0 done rest s"
    and consume: "consume_record env r s = Some (x, s')"
  shows "if is_ok x
    then \<exists>done' rest'. done' @ rest' = done @ rest @ [r] \<and> partitioned env s0 done' rest' s'
    else safe_delivery env s0 (done @ rest @ [r]) s'"
proof (cases "moves_backwards r (rt_pending s)")
  case True
  with consume safe_delivery_partitioned_extra [OF inv, of "[r]"] show ?thesis
    by (auto simp: consume_record_def)
next
  case False
  obtain y t where enc: "(case sr_event r of None \<Rightarrow> (Ok (), s) | Some e \<Rightarrow> encode_event env e s) = (y, t)"
    by fastforce
  have rest: "(case y of Err e \<Rightarrow> Some (Err e, t)
      | Ok _ \<Rightarrow> at_boundary env (sr_boundary r) (accept_record r t)) = Some (x, s')"
    using consume False enc by (simp add: consume_record_def)
  show ?thesis
  proof (cases y)
    case (Inl e)
    then obtain ev where "sr_event r = Some ev" "encode_event env ev s = (Err e, t)"
      using enc by (cases "sr_event r") auto
    then have "quiet_after s t" using encode_event_outcome [of env ev s "Err e" t] by simp
    then have "safe_delivery env s0 (done @ rest @ [r]) t"
      using safe_delivery_quiet safe_delivery_partitioned_extra [OF inv] by blast
    with Inl rest show ?thesis by auto
  next
    case (Inr u)
    have "rt_snapshot_completed t = rt_snapshot_completed s"
    proof (cases "sr_event r")
      case None
      with enc Inr show ?thesis by simp
    next
      case (Some e)
      with enc Inr show ?thesis
        by (auto simp: encode_event_def transition_def tick_def Let_def split: sum.splits if_splits)
    qed
    then have "partitioned env s0 done (rest @ [r])
        ((accept_record r t)\<lparr>rt_snapshot_completed :=
           rt_snapshot_completed (accept_record r t) \<or> sr_boundary r = SnapshotComplete\<rparr>)"
      using accept_record_outcome [OF inv, of r u t] enc Inr by (simp add: accept_record_def)
    then show ?thesis
      using at_boundary_outcome [of env s0 "done" "rest @ [r]" "accept_record r t" "sr_boundary r" x s']
        rest Inr by simp
  qed
qed

text \<open>The records the loop has taken before it ended.\<close>

fun seen :: "runtime_event list \<Rightarrow> source_record list" where
  "seen [] = []"
| "seen (CancelRequested # es) = []"
| "seen (ChannelClosed # es) = []"
| "seen (FlushTick # es) = seen es"
| "seen (Received (Ok r) depth # es) = r # seen es"
| "seen (Received (Err e) depth # es) = []"

fun outcome_state :: "('k, 'd) loop_outcome \<Rightarrow> ('k, 'd) runtime_state" where
  "outcome_state (Waiting s) = s"
| "outcome_state (Broken s) = s"
| "outcome_state (Returned e s) = s"

definition loop_invariant ::
  "('k, 'd) runtime_env \<Rightarrow> ('k, 'd) runtime_state \<Rightarrow> source_record list
   \<Rightarrow> ('k, 'd) loop_outcome \<Rightarrow> bool" where
  "loop_invariant env s0 rs out =
     (case out of
        Returned e s \<Rightarrow> safe_delivery env s0 rs s
      | _ \<Rightarrow> (\<exists>done rest. done @ rest = rs \<and> partitioned env s0 done rest (outcome_state out)))"

lemma partitioned_depth:
  "partitioned env s0 done rest (s\<lparr>rt_status := x\<rparr>) = partitioned env s0 done rest s"
  by (simp add: partitioned_def last_save_covers_def)

lemma run_loop_outcome:
  assumes "partitioned env s0 done rest s" "run_loop env es s = Some out"
  shows "loop_invariant env s0 (done @ rest @ seen es) out"
  using assms
proof (induction es arbitrary: "done" rest s)
  case Nil
  then have "out = Waiting s" by simp
  with Nil show ?case
    unfolding loop_invariant_def by simp blast
next
  case (Cons e es)
  note inv = Cons.prems(1) and loop = Cons.prems(2)
  consider (stop) "e = CancelRequested \<or> e = ChannelClosed" | (tick) "e = FlushTick"
    | (err) err depth where "e = Received (Err err) depth"
    | (rcv) r depth where "e = Received (Ok r) depth"
    by (cases e rule: runtime_event.exhaust) (auto, metis sum.exhaust)
  then show ?case
  proof cases
    case stop
    with inv loop show ?thesis by (auto simp: loop_turn_def loop_invariant_def; blast)
  next
    case tick
    obtain x s1 where flush: "flush_batch env s = Some (x, s1)"
      using tick loop by (auto simp: loop_turn_def split: option.splits)
    show ?thesis
    proof (cases x)
      case (Inl err)
      with flush_batch_outcome [OF inv flush] safe_delivery_mono [of env s0 "done @ rest" s1 "seen es"]
      show ?thesis using tick loop flush by (auto simp: loop_turn_def loop_invariant_def)
    next
      case (Inr u)
      then have "partitioned env s0 (done @ rest) [] s1"
        using flush_batch_outcome [OF inv flush] by simp
      from Cons.IH [OF this] show ?thesis using tick loop flush Inr by (simp add: loop_turn_def)
    qed
  next
    case err
    with partitioned_safe [OF inv] loop show ?thesis
      by (auto simp: loop_turn_def loop_invariant_def)
  next
    case rcv
    let ?s = "s\<lparr>rt_status := (rt_status s)\<lparr>st_queue_depth := depth\<rparr>\<rparr>"
    have inv': "partitioned env s0 done rest ?s" using inv by (simp add: partitioned_depth)
    obtain x s1 where consume: "consume_record env r ?s = Some (x, s1)"
      using rcv loop by (auto simp: loop_turn_def split: option.splits)
    show ?thesis
    proof (cases x)
      case (Inl err)
      with consume_record_outcome [OF inv' consume]
        safe_delivery_mono [of env s0 "done @ rest @ [r]" s1 "seen es"]
      show ?thesis using rcv loop consume by (auto simp: loop_turn_def loop_invariant_def)
    next
      case (Inr u)
      then obtain done' rest' where *: "done' @ rest' = done @ rest @ [r]"
        "partitioned env s0 done' rest' s1"
        using consume_record_outcome [OF inv' consume] by auto
      have "done' @ rest' @ seen es = done @ rest @ r # seen es" using *(1) by (metis append.assoc append_Cons append_Nil)
      with Cons.IH [OF *(2)] show ?thesis using rcv loop consume Inr by (simp add: loop_turn_def)
    qed
  qed
qed

lemma pipeline_start:
  assumes "delivered (rt_trace s) = []" "saves (rt_trace s) = []" "signal_acks (rt_trace s) = []"
    "acks_follow_saves None (rt_trace s)"
  shows "partitioned env s [] [] (transition env Streaming None (s\<lparr>rt_pending := pending_new\<rparr>))"
  using assms
  by (simp add: partitioned_def transition_def tick_def pending_new_def last_save_covers_def)

text \<open>The pipeline: when it ends well, everything that was seen has been delivered.\<close>

lemma pipeline_outcome:
  assumes start: "delivered (rt_trace s) = []" "saves (rt_trace s) = []"
      "signal_acks (rt_trace s) = []" "acks_follow_saves None (rt_trace s)"
    and run: "pipeline env es s = Some out"
  shows "case out of
      Waiting s' \<Rightarrow> (\<exists>done rest. done @ rest = seen es \<and> partitioned env s done rest s')
    | Broken s' \<Rightarrow> partitioned env s (seen es) [] s'
    | Returned e s' \<Rightarrow> safe_delivery env s (seen es) s'"
proof -
  obtain out1 where loop: "run_loop env es (transition env Streaming None (s\<lparr>rt_pending := pending_new\<rparr>)) = Some out1"
    using run by (auto simp: pipeline_def split: option.splits)
  have inv: "loop_invariant env s (seen es) out1"
    using run_loop_outcome [OF pipeline_start [OF start] loop] by simp
  show ?thesis
  proof (cases out1)
    case (Broken s1)
    then obtain "done" rest where part: "done @ rest = seen es" "partitioned env s done rest s1"
      using inv by (auto simp: loop_invariant_def)
    obtain x s2 where flush: "flush_batch env s1 = Some (x, s2)"
      using run loop Broken by (auto simp: pipeline_def split: option.splits)
    show ?thesis
    proof (cases x)
      case (Inl e)
      with flush_batch_outcome [OF part(2) flush] part(1) run loop Broken flush show ?thesis
        by (auto simp: pipeline_def)
    next
      case (Inr u)
      then have part2: "partitioned env s (seen es) [] s2"
        using flush_batch_outcome [OF part(2) flush] part(1) by simp
      obtain y s3 where sink: "flush_sink_with_retry env s2 = Some (y, s3)"
        using run loop Broken flush Inr by (auto simp: pipeline_def split: option.splits)
      have "partitioned env s (seen es) [] s3"
        using partitioned_quiet [OF part2 flush_sink_quiet [OF sink]] .
      then show ?thesis
        using run loop Broken flush Inr sink partitioned_safe [of env s "seen es" "[]" s3]
        by (cases y) (auto simp: pipeline_def)
    qed
  next
    case (Waiting s1)
    then have "out = Waiting s1" using run loop by (simp add: pipeline_def)
    with inv Waiting show ?thesis by (simp add: loop_invariant_def)
  next
    case (Returned e s1)
    then have "out = Returned e s1" using run loop by (simp add: pipeline_def)
    with inv Returned show ?thesis by (simp add: loop_invariant_def)
  qed
qed

end
