(* ===== verification/Runtime_Lifecycle.thy ===== *)
theory Runtime_Lifecycle
  imports Runtime_Delivery
begin

text \<open>
  The whole life of a connector over the loop of \<open>Runtime_Delivery\<close>: start-up and shutdown leave the
  delivery guarantee alone, the run returns when retries are bounded, the status tells how it ended,
  and with a store that keeps its contract the next run starts from what this one delivered.
\<close>

section \<open>Start-up and shutdown\<close>

lemma quiet_after_trace:
  "quiet_after s s' \<Longrightarrow> \<exists>es. rt_trace s' = rt_trace s @ es \<and> list_all quiet es"
  by (simp add: quiet_after_def)

lemma start_up_trace:
  assumes "start_up env s = Some (r, s')"
  shows "\<exists>es. rt_trace s' = rt_trace s @ es \<and> list_all quiet es"
proof -
  define s1 where "s1 = emit (SourceValidated (re_source_validate env)) (transition env Starting None s)"
  have s1: "quiet_after s s1" by (simp add: s1_def quiet_after_emit)
  show ?thesis
  proof (cases "re_source_validate env")
    case (Inl e)
    with assms s1 show ?thesis
      by (auto simp: start_up_def Let_def s1_def dest: quiet_after_trace)
  next
    case (Inr u)
    then obtain v s2 where val: "validate_sink_with_retry env s1 = Some (v, s2)"
      using assms by (auto simp: start_up_def Let_def s1_def split: option.splits)
    have s2: "quiet_after s s2" using quiet_after_trans [OF s1 validate_sink_quiet [OF val]] .
    show ?thesis
    proof (cases v)
      case (Inl e)
      with assms Inr val s2 show ?thesis
        by (auto simp: start_up_def Let_def s1_def dest: quiet_after_trace)
    next
      case ok: (Inr w)
      obtain c d where load: "re_store_load env (identity_name (re_identity env)) (rt_store s2) = (c, d)"
        by fastforce
      have "rt_trace s' = rt_trace s2"
        using assms Inr val ok load
        by (auto simp: start_up_def Let_def s1_def split: sum.splits option.splits if_splits)
      with s2 quiet_after_trace show ?thesis by simp
    qed
  qed
qed

lemma shut_down_quiet:
  assumes "shut_down env ending piped s = (r, s')"
  shows "quiet_after s s'"
proof -
  define p where "p = (if piped = Err Cancelled \<and> re_is_cancelled env (rt_step s) then Ok () else piped)"
  define s1 where "s1 = (if is_ok p then transition env Stopping None s else s)"
  obtain down s2 where down: "sink_call (re_sink_shutdown env) SinkShutdown s1 = (down, s2)" by fastforce
  have s2: "quiet_after s s2"
    using down by (auto simp: s1_def sink_call_def quiet_after_emit split: prod.splits if_splits)
  have "(case rbind p (\<lambda>_. rbind (source_result ending) (\<lambda>_. down)) of
      Err e \<Rightarrow> (Err e, s2) | Ok _ \<Rightarrow> (Ok (), transition env Stopped None s2)) = (r, s')"
    using assms down by (simp add: shut_down_def Let_def p_def s1_def)
  with s2 show ?thesis by (auto split: sum.splits)
qed

section \<open>The delivery guarantee of a run\<close>

lemma safe_delivery_fresh:
  assumes "safe_delivery env s0 rs s" "delivered (rt_trace s0) = []" "saves (rt_trace s0) = []"
    "signal_acks (rt_trace s0) = []"
  shows "\<exists>acked checkpointed.
    prefix acked checkpointed \<and> prefix checkpointed rs
    \<and> prefix (encoded_all env checkpointed) (delivered (rt_trace s))
    \<and> prefix (delivered (rt_trace s)) (encoded_all env rs)
    \<and> (acked \<noteq> [] \<longrightarrow> rt_acked s = Some (sr_position (last acked)))
    \<and> (if checkpointed = [] then saves (rt_trace s) = []
       else saves (rt_trace s) \<noteq> []
         \<and> cp_source_position (last (saves (rt_trace s))) = sr_position (last checkpointed)
         \<and> cp_connector_name (last (saves (rt_trace s))) = identity_name (re_identity env)
         \<and> cp_config_fingerprint (last (saves (rt_trace s))) = rc_config_fingerprint (re_config env))
    \<and> signal_acks (rt_trace s) = signals_of acked
    \<and> acks_follow_saves None (rt_trace s)"
proof -
  obtain acked checkpointed where *:
    "prefix acked checkpointed" "prefix checkpointed rs"
    "rt_acked s = last_position (rt_acked s0) acked"
    "signal_acks (rt_trace s) = signals_of acked"
    "last_save_covers env s0 checkpointed s"
    "prefix (encoded_all env checkpointed) (delivered (rt_trace s))"
    "prefix (delivered (rt_trace s)) (encoded_all env rs)"
    "acks_follow_saves None (rt_trace s)"
    using assms unfolding safe_delivery_def by auto
  show ?thesis
    by (rule exI [of _ acked], rule exI [of _ checkpointed])
       (use * assms(3) in \<open>auto simp: last_position_def last_save_covers_def covers_def\<close>)
qed

lemma run_cases:
  assumes "run env es ending s = Some out"
  obtains
    (startup) e s1 where "start_up env s = Some (Err e, s1)" "quiet_after s1 (outcome_state out)"
  | (waiting) initial s1 s2 where "start_up env s = Some (Ok initial, s1)"
      "pipeline env es (start_source initial s1) = Some (Waiting s2)" "out = Waiting s2"
  | (ended) initial s1 piped where "start_up env s = Some (Ok initial, s1)"
      "pipeline env es (start_source initial s1) = Some piped" "\<And>s2. piped \<noteq> Waiting s2"
      "quiet_after (outcome_state piped) (outcome_state out)"
proof -
  obtain inner where inner: "run_inner env es ending s = Some inner"
    using assms by (auto simp: run_def split: option.splits)
  have last: "quiet_after (outcome_state inner) (outcome_state out)" "(\<exists>t. inner = Waiting t) \<Longrightarrow> out = inner"
    using assms inner by (auto simp: run_def split: loop_outcome.splits if_splits)
  obtain r s1 where start: "start_up env s = Some (r, s1)"
    using inner by (auto simp: run_inner_def split: option.splits)
  show thesis
  proof (cases r)
    case (Inl e)
    then have "inner = Returned e s1" using inner start by (simp add: run_inner_def)
    with last Inl start startup show thesis by auto
  next
    case (Inr initial)
    obtain piped where piped: "pipeline env es (start_source initial s1) = Some piped"
      using inner start Inr by (auto simp: run_inner_def split: option.splits)
    have ended_case: thesis if "\<And>t. piped \<noteq> Waiting t"
      "quiet_after (outcome_state piped) (outcome_state inner)"
      using ended [of initial s1 piped] start Inr piped that quiet_after_trans last(1) by blast
    show thesis
    proof (cases piped)
      case (Waiting s2)
      then have "inner = Waiting s2" using inner start Inr piped by (simp add: run_inner_def Let_def)
      with last waiting start Inr piped Waiting show thesis by auto
    next
      case (Broken s2)
      obtain d s3 where down: "shut_down env ending (Ok ()) s2 = (d, s3)" by fastforce
      have "outcome_state inner = s3"
        using inner start Inr piped Broken down
        by (auto simp: run_inner_def Let_def split: sum.splits)
      with shut_down_quiet [OF down] Broken ended_case show thesis by auto
    next
      case (Returned e s2)
      obtain d s3 where down: "shut_down env ending (Err e) s2 = (d, s3)" by fastforce
      have "outcome_state inner = s3"
        using inner start Inr piped Returned down
        by (auto simp: run_inner_def Let_def split: sum.splits)
      with shut_down_quiet [OF down] Returned ended_case show thesis by auto
    qed
  qed
qed

lemma start_source_fresh:
  assumes "start_up env s = Some (r, s1)" "rt_trace s = []"
  shows "delivered (rt_trace (start_source initial s1)) = []"
    "saves (rt_trace (start_source initial s1)) = []"
    "signal_acks (rt_trace (start_source initial s1)) = []"
    "acks_follow_saves None (rt_trace (start_source initial s1))"
  using start_up_trace [OF assms(1)] assms(2)
  by (auto simp: start_source_def emit_def trace_simps)

text \<open>The state in which the source is started, or the run stopped before.\<close>

lemma run_safe:
  assumes run: "run env es ending s = Some out" and fresh: "rt_trace s = []"
  shows "\<exists>s0. delivered (rt_trace s0) = [] \<and> saves (rt_trace s0) = [] \<and> signal_acks (rt_trace s0) = []
    \<and> safe_delivery env s0 (seen es) (outcome_state out)"
  using run
proof (cases rule: run_cases)
  case (startup e s1)
  have "delivered (rt_trace s1) = [] \<and> saves (rt_trace s1) = [] \<and> signal_acks (rt_trace s1) = []
      \<and> acks_follow_saves None (rt_trace s1)"
    using start_up_trace [OF startup(1)] fresh by (auto simp: trace_simps)
  moreover from this have "safe_delivery env s1 (seen es) s1"
    unfolding safe_delivery_def by (intro exI [of _ "[]"]) (simp add: last_save_covers_def)
  ultimately show ?thesis using safe_delivery_quiet [OF _ startup(2)] by blast
next
  case (waiting initial s1 s2)
  note f = start_source_fresh [OF waiting(1) fresh, of initial]
  have "safe_delivery env (start_source initial s1) (seen es) s2"
    using pipeline_outcome [OF f waiting(2)] partitioned_safe by fastforce
  with f waiting(3) show ?thesis by auto
next
  case (ended initial s1 piped)
  note f = start_source_fresh [OF ended(1) fresh, of initial]
  have "safe_delivery env (start_source initial s1) (seen es) (outcome_state piped)"
    using pipeline_outcome [OF f ended(2)] ended(3) partitioned_safe
    by (cases piped) fastforce+
  with f safe_delivery_quiet [OF _ ended(4)] show ?thesis by blast
qed

section \<open>Bounded retries\<close>

definition sleeps :: "effect list \<Rightarrow> duration list" where
  "sleeps t = List.map_filter (\<lambda>e. case e of Slept d \<Rightarrow> Some d | _ \<Rightarrow> None) t"

lemma sleeps_simps [trace_simps]:
  "sleeps [] = []" "sleeps (Slept d # t) = d # sleeps t" "sleeps (t @ u) = sleeps t @ sleeps u"
  by (simp_all add: sleeps_def List.map_filter_simps List.map_filter_def)

text \<open>Doubling delays up to the maximum.\<close>

fun backoff :: "nat \<Rightarrow> duration \<Rightarrow> duration \<Rightarrow> duration list" where
  "backoff 0 d m = []"
| "backoff (Suc n) d m = d # backoff n (min (duration_mul d 2) m) m"

definition retries_left :: "('k, 'd) runtime_env \<Rightarrow> retry_state \<Rightarrow> nat" where
  "retries_left env retry =
     nat (sint (rc_errors_max_retries (re_config env))) - unat (rs_attempts retry)"

lemma i32_small: "nat (sint (w :: i32)) < 2 ^ 31"
  using sint_lt [of w] by (cases "0 \<le> sint w") auto

text \<open>One wait, read off the number of retries left.\<close>

lemma wait_for_sink_retry_cases:
  assumes "0 \<le> sint (rc_errors_max_retries (re_config env))"
    and "wait_for_sink_retry env retry s = ((w, retry'), s')"
  shows "(retries_left env retry = 0 \<and> w = Ok False \<and> s' = s)
    \<or> (0 < retries_left env retry \<and> w = Err Cancelled \<and> rt_trace s' = rt_trace s)
    \<or> (retries_left env retry = Suc (retries_left env retry') \<and> w = Ok True
       \<and> rt_trace s' = rt_trace s @ [Slept (rs_delay retry)]
       \<and> rs_delay retry' = min (duration_mul (rs_delay retry) 2) (rc_retry_delay_max (re_config env)))"
proof (cases "retries_left env retry = 0")
  case True
  then have "sint (rc_errors_max_retries (re_config env)) \<le> int (unat (rs_attempts retry))"
    by (simp only: retries_left_def diff_is_0_eq nat_le_iff)
  with True assms show ?thesis by (simp add: wait_for_sink_retry_def Let_def)
next
  case False
  let ?max = "sint (rc_errors_max_retries (re_config env))"
  have less: "unat (rs_attempts retry) < nat ?max" using False by (simp add: retries_left_def)
  then have "unat (rs_attempts retry) + 1 < 2 ^ LENGTH(64)"
    using i32_small [of "rc_errors_max_retries (re_config env)"] by simp
  then have next_attempt: "unat (rs_attempts retry + 1) = Suc (unat (rs_attempts retry))"
    by (simp add: unat_word_ariths)
  have "\<not> ?max \<le> int (unat (rs_attempts retry))" using less by linarith
  with less next_attempt assms False show ?thesis
    by (auto simp: wait_for_sink_retry_def Let_def tick_def emit_def retries_left_def split: if_splits)
qed

lemma sink_with_retry_bounded:
  assumes max: "0 \<le> sint (rc_errors_max_retries (re_config env))"
    and no_sleep: "\<And>x. sleeps [eff x] = []"
  shows "\<exists>r s' n es. sink_with_retry env (sink_call f eff) retry s = Some (r, s')
    \<and> n \<le> retries_left env retry \<and> rt_trace s' = rt_trace s @ es \<and> length es = 2 * n + 1
    \<and> sleeps es = backoff n (rs_delay retry) (rc_retry_delay_max (re_config env))
    \<and> (\<forall>m. r = Err (RetryableSink m) \<longrightarrow> n = retries_left env retry)"
proof (induction "retries_left env retry" arbitrary: retry s)
  case (0 retry s)
  obtain r s1 where op: "sink_call f eff s = (r, s1)" by fastforce
  have trace: "rt_trace s1 = rt_trace s @ [eff r]"
    using op by (auto simp: sink_call_def emit_def split: prod.splits)
  obtain w retry' s2 where wait: "wait_for_sink_retry env retry s1 = ((w, retry'), s2)"
    by (metis surj_pair)
  then have "w = Ok False" "s2 = s1" using wait_for_sink_retry_cases [OF max wait] 0 by auto
  then have "\<exists>r'. sink_with_retry env (sink_call f eff) retry s = Some (r', s1)"
    using op wait by (subst sink_with_retry.simps) (auto split: option.split)
  then obtain r' where "sink_with_retry env (sink_call f eff) retry s = Some (r', s1)" by blast
  then show ?case
    using trace no_sleep [of r] 0 by (intro exI [of _ r'] exI [of _ s1] exI [of _ 0] exI [of _ "[eff r]"]) simp
next
  case (Suc k retry s)
  obtain r s1 where op: "sink_call f eff s = (r, s1)" by fastforce
  have trace: "rt_trace s1 = rt_trace s @ [eff r]"
    using op by (auto simp: sink_call_def emit_def split: prod.splits)
  show ?case
  proof (cases "retryable_sink r")
    case None
    then have "sink_with_retry env (sink_call f eff) retry s = Some (r, s1)"
      using op by (subst sink_with_retry.simps) simp
    moreover have "\<forall>m. r \<noteq> Err (RetryableSink m)" using None by (auto simp: retryable_sink_def)
    ultimately show ?thesis
      using trace no_sleep [of r]
      by (intro exI [of _ r] exI [of _ s1] exI [of _ 0] exI [of _ "[eff r]"]) simp
  next
    case (Some e)
    obtain w retry' s2 where wait: "wait_for_sink_retry env retry s1 = ((w, retry'), s2)"
      by (metis surj_pair)
    note cases = wait_for_sink_retry_cases [OF max wait]
    show ?thesis
    proof (cases "w = Ok True")
      case False
      then have "w = Err Cancelled" "rt_trace s2 = rt_trace s1" using cases Suc(2) by auto
      then have "sink_with_retry env (sink_call f eff) retry s = Some (Err Cancelled, s2)"
        using op wait Some by (subst sink_with_retry.simps) simp
      then show ?thesis
        using trace no_sleep [of r] \<open>rt_trace s2 = rt_trace s1\<close>
        by (intro exI [of _ "Err Cancelled"] exI [of _ s2] exI [of _ 0] exI [of _ "[eff r]"]) simp
    next
      case True
      then have step: "k = retries_left env retry'"
        "rt_trace s2 = rt_trace s1 @ [Slept (rs_delay retry)]"
        "rs_delay retry' = min (duration_mul (rs_delay retry) 2) (rc_retry_delay_max (re_config env))"
        using cases Suc(2) by auto
      from Suc.hyps(1) [OF step(1), of s2] obtain r' s' n es where
        IH: "sink_with_retry env (sink_call f eff) retry' s2 = Some (r', s')"
        "n \<le> retries_left env retry'" "rt_trace s' = rt_trace s2 @ es" "length es = 2 * n + 1"
        "sleeps es = backoff n (rs_delay retry') (rc_retry_delay_max (re_config env))"
        "\<forall>m. r' = Err (RetryableSink m) \<longrightarrow> n = retries_left env retry'" by blast
      have "sink_with_retry env (sink_call f eff) retry s = Some (r', s')"
        using op wait Some True IH(1) by (subst sink_with_retry.simps) simp
      moreover have "sleeps (eff r # Slept (rs_delay retry) # es)
          = backoff (Suc n) (rs_delay retry) (rc_retry_delay_max (re_config env))"
        using no_sleep [of r] IH(5) step(3) sleeps_simps(3) [of "[eff r]" "Slept (rs_delay retry) # es"]
        by (simp add: sleeps_simps(2))
      ultimately show ?thesis
        using IH trace step Suc(2)
        by (intro exI [of _ r'] exI [of _ s'] exI [of _ "Suc n"]
            exI [of _ "eff r # Slept (rs_delay retry) # es"]) auto
    qed
  qed
qed

lemma retry_calls_return:
  assumes "0 \<le> sint (rc_errors_max_retries (re_config env))"
  shows "\<exists>y. validate_sink_with_retry env s = Some y"
    "\<exists>y. write_sink_with_retry env batch s = Some y"
    "\<exists>y. flush_sink_with_retry env s = Some y"
  unfolding validate_sink_with_retry_def write_sink_with_retry_def flush_sink_with_retry_def
  using sink_with_retry_bounded [OF assms, of SinkValidated]
    sink_with_retry_bounded [OF assms, of "SinkWritten batch"]
    sink_with_retry_bounded [OF assms, of SinkFlushed]
  by (simp_all add: sleeps_def List.map_filter_simps) blast+

section \<open>The run returns\<close>

lemma flush_batch_returns:
  assumes "0 \<le> sint (rc_errors_max_retries (re_config env))"
  shows "flush_batch env s \<noteq> None"
proof (cases "pb_highest_position (rt_pending s)")
  case None
  then show ?thesis by (simp add: flush_batch_def)
next
  case (Some p)
  define batch where "batch = \<lparr>db_events = pb_encoded (rt_pending s), db_highest_position = p\<rparr>"
  define s2 where "s2 = s\<lparr>rt_pending := (rt_pending s)\<lparr>pb_highest_position := None, pb_encoded := []\<rparr>\<rparr>"
  obtain y where "write_sink_with_retry env batch s2 = Some y"
    using retry_calls_return(2) [OF assms] by blast
  with Some show ?thesis
    by (cases y) (auto simp: flush_batch_def Let_def batch_def s2_def split: sum.splits)
qed

lemma consume_record_returns:
  assumes "0 \<le> sint (rc_errors_max_retries (re_config env))"
  shows "consume_record env r s \<noteq> None"
  using flush_batch_returns [OF assms]
  by (auto simp: consume_record_def at_boundary_def split: prod.splits sum.splits record_boundary.splits)

lemma run_loop_returns:
  assumes "0 \<le> sint (rc_errors_max_retries (re_config env))"
  shows "run_loop env es s \<noteq> None"
proof (induction es arbitrary: s)
  case Nil
  then show ?case by simp
next
  case (Cons e es)
  have "loop_turn env e s \<noteq> None"
    using flush_batch_returns [OF assms, of s] consume_record_returns [OF assms]
    by (auto simp: loop_turn_def Let_def split: runtime_event.splits sum.splits)
  with Cons show ?case by (auto split: loop_outcome.splits)
qed

lemma run_loop_stops:
  assumes "CancelRequested \<in> set es \<or> ChannelClosed \<in> set es"
  shows "run_loop env es s \<noteq> Some (Waiting s')"
  using assms
proof (induction es arbitrary: s)
  case Nil
  then show ?case by simp
next
  case (Cons e es)
  show ?case
  proof (cases "e = CancelRequested \<or> e = ChannelClosed")
    case True
    then show ?thesis by (auto simp: loop_turn_def)
  next
    case False
    with Cons.prems have "CancelRequested \<in> set es \<or> ChannelClosed \<in> set es" by auto
    from Cons.IH [OF this] show ?thesis by (auto split: option.splits loop_outcome.splits)
  qed
qed

lemma start_up_returns:
  assumes "0 \<le> sint (rc_errors_max_retries (re_config env))"
  shows "start_up env s \<noteq> None"
proof -
  define s1 where "s1 = emit (SourceValidated (re_source_validate env)) (transition env Starting None s)"
  obtain y where "validate_sink_with_retry env s1 = Some y"
    using retry_calls_return(1) [OF assms] by blast
  then show ?thesis
    by (cases y) (auto simp: start_up_def Let_def s1_def split: sum.splits option.splits prod.splits)
qed

lemma pipeline_returns:
  assumes "0 \<le> sint (rc_errors_max_retries (re_config env))"
    and "CancelRequested \<in> set es \<or> ChannelClosed \<in> set es"
  shows "\<exists>out. pipeline env es s = Some out \<and> (\<forall>t. out \<noteq> Waiting t)"
proof -
  obtain out where loop: "run_loop env es (transition env Streaming None (s\<lparr>rt_pending := pending_new\<rparr>)) = Some out"
    using run_loop_returns [OF assms(1)] by blast
  then have no_wait: "out \<noteq> Waiting t" for t using run_loop_stops [OF assms(2)] by blast
  show ?thesis
  proof (cases out)
    case (Broken s1)
    obtain x s2 where flush: "flush_batch env s1 = Some (x, s2)"
      using flush_batch_returns [OF assms(1), of s1] by auto
    obtain z s3 where "flush_sink_with_retry env s2 = Some (z, s3)"
      using retry_calls_return(3) [OF assms(1), of s2] by auto
    with loop Broken flush show ?thesis
      by (cases x; cases z) (auto simp: pipeline_def)
  qed (use loop no_wait in \<open>auto simp: pipeline_def\<close>)
qed

section \<open>What survives in the store\<close>

text \<open>
  An invariant that looks at the store and at the saves only is kept by a whole run when the save
  itself keeps it.
\<close>

definition grows :: "('k, 'd) runtime_state \<Rightarrow> ('k, 'd) runtime_state \<Rightarrow> bool" where
  "grows s s' =
     (rt_store s' = rt_store s \<and> saves (rt_trace s') = saves (rt_trace s)
      \<and> set (rt_trace s) \<subseteq> set (rt_trace s'))"

lemma quiet_grows: "quiet_after s s' \<Longrightarrow> grows s s'"
  by (auto simp: grows_def quiet_after_def same_core_def trace_simps)

lemma grows_trans: "grows s s' \<Longrightarrow> grows s' s'' \<Longrightarrow> grows s s''"
  by (auto simp: grows_def)

definition save_stable ::
  "('k, 'd) runtime_env \<Rightarrow> (('k, 'd) runtime_state \<Rightarrow> bool) \<Rightarrow> bool" where
  "save_stable env P =
     ((\<forall>s s'. grows s s' \<longrightarrow> P s \<longrightarrow> P s')
      \<and> (\<forall>p n s r s'. finish_batch env p n s = (r, s') \<longrightarrow> P s \<longrightarrow> P s'))"

lemma save_stable_grows: "save_stable env P \<Longrightarrow> P s \<Longrightarrow> grows s s' \<Longrightarrow> P s'"
  by (auto simp: save_stable_def)

lemma flush_batch_stable:
  assumes stable: "save_stable env P" and "P s" and flush: "flush_batch env s = Some (r, s')"
  shows "P s'"
proof (cases "pb_highest_position (rt_pending s)")
  case None
  with assms show ?thesis by (simp add: flush_batch_def)
next
  case (Some p)
  define s1 where "s1 = s\<lparr>rt_pending := (rt_pending s)\<lparr>pb_highest_position := None\<rparr>\<rparr>"
  define s2 where "s2 = s\<lparr>rt_pending := (rt_pending s)\<lparr>pb_highest_position := None, pb_encoded := []\<rparr>\<rparr>"
  define batch where "batch = \<lparr>db_events = pb_encoded (rt_pending s), db_highest_position = p\<rparr>"
  have P12: "P s1" "P s2"
    using save_stable_grows [OF stable \<open>P s\<close>] by (simp_all add: grows_def s1_def s2_def)
  have fin: "finish_batch env q n t = (r, s') \<Longrightarrow> P t \<Longrightarrow> P s'" for q n t
    using stable by (auto simp: save_stable_def)
  show ?thesis
  proof (cases "pb_encoded (rt_pending s) = []")
    case True
    with flush Some have "finish_batch env p 0 s1 = (r, s')"
      by (simp add: flush_batch_def Let_def s1_def)
    with fin P12 show ?thesis by blast
  next
    case False
    obtain w s3 where sent: "write_sink_with_retry env batch s2 = Some (w, s3)"
      using flush Some False by (auto simp: flush_batch_def Let_def batch_def s2_def split: option.splits)
    then obtain qs where "same_core s2 s3" "rt_trace s3 = rt_trace s2 @ qs"
      "list_all quiet (if is_ok w then butlast qs else qs)"
      "is_ok w \<longrightarrow> qs \<noteq> [] \<and> last qs = SinkWritten batch (Ok ())"
      using write_sink_outcome [OF sent] by blast
    then have "saves qs = []" 
      by (cases "is_ok w"; cases qs rule: rev_cases) (auto simp: trace_simps quiet_projections)
    then have "P s3"
      using save_stable_grows [OF stable P12(2)] \<open>same_core s2 s3\<close> \<open>rt_trace s3 = rt_trace s2 @ qs\<close>
      by (auto simp: grows_def same_core_def trace_simps)
    moreover have "(\<exists>x. s' = s3\<lparr>rt_status := x\<rparr>) \<or> (\<exists>n. finish_batch env p n s3 = (r, s')) \<or> s' = s3"
      using flush Some False sent
      by (auto simp: flush_batch_def Let_def batch_def s2_def split: sum.splits if_splits)
    ultimately show ?thesis
      using fin save_stable_grows [OF stable] by (fastforce simp: grows_def)
  qed
qed

lemma consume_record_stable:
  assumes stable: "save_stable env P" and "P s" and consume: "consume_record env r s = Some (x, s')"
  shows "P s'"
proof (cases "moves_backwards r (rt_pending s)")
  case True
  with consume \<open>P s\<close> show ?thesis by (simp add: consume_record_def)
next
  case False
  obtain y t where enc: "(case sr_event r of None \<Rightarrow> (Ok (), s) | Some e \<Rightarrow> encode_event env e s) = (y, t)"
    by fastforce
  have "grows s t"
    using enc
    by (auto simp: encode_event_def Let_def grows_def transition_def tick_def
        split: option.splits sum.splits if_splits)
  then have "P t" using save_stable_grows [OF stable \<open>P s\<close>] by blast
  show ?thesis
  proof (cases y)
    case (Inl e)
    with consume False enc \<open>P t\<close> show ?thesis by (simp add: consume_record_def)
  next
    case (Inr u)
    have accepted: "at_boundary env (sr_boundary r) (accept_record r t) = Some (x, s')"
      using consume False enc Inr by (simp add: consume_record_def)
    have "P (accept_record r t)"
      "P (transition env Streaming None ((accept_record r t)\<lparr>rt_snapshot_completed := True\<rparr>))"
      using save_stable_grows [OF stable \<open>P t\<close>]
      by (simp_all add: grows_def accept_record_def transition_def tick_def)
    with accepted flush_batch_stable [OF stable] show ?thesis
      by (auto simp: at_boundary_def split: record_boundary.splits if_splits)
  qed
qed

lemma run_loop_stable:
  assumes stable: "save_stable env P"
  shows "P s \<Longrightarrow> run_loop env es s = Some out \<Longrightarrow> P (outcome_state out)"
proof (induction es arbitrary: s)
  case Nil
  then show ?case by auto
next
  case (Cons e es)
  have turn: "P (outcome_state out')" if t: "loop_turn env e s = Some out'" for out'
  proof -
    have Ps: "P (s\<lparr>rt_status := x\<rparr>)" for x
      using save_stable_grows [OF stable Cons.prems(1)] by (simp add: grows_def)
    show ?thesis
    proof (cases e)
      case FlushTick
      then obtain x s1 where flush: "flush_batch env s = Some (x, s1)"
        using t by (auto simp: loop_turn_def)
      with t FlushTick have "outcome_state out' = s1" by (cases x) (auto simp: loop_turn_def)
      with flush_batch_stable [OF stable Cons.prems(1) flush] show ?thesis by simp
    next
      case (Received rec depth)
      show ?thesis
      proof (cases rec)
        case (Inl err)
        with t Received Cons.prems(1) show ?thesis by (auto simp: loop_turn_def)
      next
        case (Inr r)
        let ?s = "s\<lparr>rt_status := (rt_status s)\<lparr>st_queue_depth := depth\<rparr>\<rparr>"
        obtain x s1 where consume: "consume_record env r ?s = Some (x, s1)"
          using t Received Inr by (auto simp: loop_turn_def)
        with t Received Inr have "outcome_state out' = s1" by (cases x) (auto simp: loop_turn_def)
        with consume_record_stable [OF stable Ps consume] show ?thesis by simp
      qed
    qed (use t Cons.prems(1) in \<open>auto simp: loop_turn_def\<close>)
  qed
  show ?case
  proof (cases "loop_turn env e s")
    case None
    with Cons.prems show ?thesis by simp
  next
    case (Some out')
    with turn Cons.IH Cons.prems(2) show ?thesis by (cases out') auto
  qed
qed

lemma pipeline_stable:
  assumes stable: "save_stable env P" and "P s" and run: "pipeline env es s = Some out"
  shows "P (outcome_state out)"
proof -
  obtain out1 where loop: "run_loop env es (transition env Streaming None (s\<lparr>rt_pending := pending_new\<rparr>)) = Some out1"
    using run by (auto simp: pipeline_def split: option.splits)
  have "P (transition env Streaming None (s\<lparr>rt_pending := pending_new\<rparr>))"
    using save_stable_grows [OF stable \<open>P s\<close>] by (simp add: grows_def transition_def tick_def)
  from run_loop_stable [OF stable this loop] have out1: "P (outcome_state out1)" .
  show ?thesis
  proof (cases out1)
    case (Broken s1)
    obtain x s2 where flush: "flush_batch env s1 = Some (x, s2)"
      using run loop Broken by (auto simp: pipeline_def split: option.splits)
    have s2: "P s2" using flush_batch_stable [OF stable _ flush] out1 Broken by simp
    show ?thesis
    proof (cases x)
      case (Inl e)
      with run loop Broken flush s2 show ?thesis by (auto simp: pipeline_def)
    next
      case (Inr u)
      obtain y s3 where sink: "flush_sink_with_retry env s2 = Some (y, s3)"
        using run loop Broken flush Inr by (auto simp: pipeline_def split: option.splits)
      have "P s3" using save_stable_grows [OF stable s2 quiet_grows [OF flush_sink_quiet [OF sink]]] .
      with run loop Broken flush Inr sink show ?thesis by (cases y) (auto simp: pipeline_def)
    qed
  qed (use out1 run loop in \<open>auto simp: pipeline_def\<close>)
qed

lemma runtime_new_simps [simp]:
  "rt_store (runtime_new env k d cells status) = d" "rt_trace (runtime_new env k d cells status) = []"
  by (simp_all add: runtime_new_def)

text \<open>The store after a run: the saves applied, in order, to what it held at the start.\<close>

context checkpoint_store
begin

definition tracks ::
  "(string \<Rightarrow> checkpoint option) \<Rightarrow> ('k, 'd) runtime_state \<Rightarrow> bool" where
  "tracks m0 s =
     ((\<forall>c r. CheckpointSaved c r \<in> set (rt_trace s) \<longrightarrow> storable c) \<longrightarrow>
        ready (rt_store s)
        \<and> contents (rt_store s) = foldl (\<lambda>m c. m(cp_connector_name c \<mapsto> c)) m0 (saves (rt_trace s)))"

lemma tracks_stable:
  fixes env :: "('k, 'd) runtime_env"
  assumes "re_store_save env = save"
  shows "save_stable env (tracks m0)"
  unfolding save_stable_def
proof (intro conjI allI impI)
  fix s s' :: "('k, 'd) runtime_state"
  assume "grows s s'" "tracks m0 s"
  then show "tracks m0 s'" by (fastforce simp: tracks_def grows_def)
next
  fix p n r and s s' :: "('k, 'd) runtime_state"
  assume fin: "finish_batch env p n s = (r, s')" and "tracks m0 s"
  define c where "c = checkpoint_of env p s"
  obtain sr d' where sv: "save c (rt_store s) = (sr, d')" by fastforce
  have store: "rt_store s' = d'"
    and saved_now: "\<exists>es. rt_trace s' = rt_trace s @ CheckpointSaved c sr # es \<and> saves es = []"
    using fin sv assms
    by (auto simp: finish_batch_def Let_def c_def tick_def emit_def acknowledge_all_effect trace_simps
        split: sum.splits if_splits)
  then obtain es where es: "rt_trace s' = rt_trace s @ CheckpointSaved c sr # es" "saves es = []"
    by blast
  show "tracks m0 s'"
    unfolding tracks_def
  proof (intro impI)
    assume all: "\<forall>c r. CheckpointSaved c r \<in> set (rt_trace s') \<longrightarrow> storable c"
    then have "storable c" "\<forall>c r. CheckpointSaved c r \<in> set (rt_trace s) \<longrightarrow> storable c"
      using es by auto
    then have "ready (rt_store s)"
      "contents (rt_store s) = foldl (\<lambda>m c. m(cp_connector_name c \<mapsto> c)) m0 (saves (rt_trace s))"
      using \<open>tracks m0 s\<close> by (simp_all add: tracks_def)
    with save_ok [of "rt_store s" c _ d'] save_err [of "rt_store s" c _ d'] sv \<open>storable c\<close> es store
    show "ready (rt_store s') \<and> contents (rt_store s')
        = foldl (\<lambda>m c. m(cp_connector_name c \<mapsto> c)) m0 (saves (rt_trace s'))"
      by (cases sr) (simp_all add: trace_simps)
  qed
qed

lemma start_up_loads:
  fixes env :: "('k, 'd) runtime_env"
  assumes load: "re_store_load env = load" and ready: "ready (rt_store s)"
    and start: "start_up env s = Some (r, s1)"
  shows "ready (rt_store s1) \<and> contents (rt_store s1) = contents (rt_store s)
    \<and> (\<forall>i. r = Ok i \<longrightarrow> i = contents (rt_store s) (identity_name (re_identity env)))"
proof -
  define s0 where "s0 = emit (SourceValidated (re_source_validate env)) (transition env Starting None s)"
  have s0: "rt_store s0 = rt_store s" by (simp add: s0_def emit_def transition_def tick_def)
  show ?thesis
  proof (cases "re_source_validate env")
    case (Inl e)
    with start s0 ready show ?thesis by (auto simp: start_up_def Let_def s0_def)
  next
    case (Inr u)
    then obtain v s2 where val: "validate_sink_with_retry env s0 = Some (v, s2)"
      using start by (auto simp: start_up_def Let_def s0_def split: option.splits)
    have s2: "rt_store s2 = rt_store s"
      using quiet_after_projections(7) [OF validate_sink_quiet [OF val]] s0 by simp
    show ?thesis
    proof (cases v)
      case (Inl e)
      with start Inr val s2 ready show ?thesis by (auto simp: start_up_def Let_def s0_def)
    next
      case ok: (Inr w)
      obtain c d where ld: "load (identity_name (re_identity env)) (rt_store s2) = (c, d)" by fastforce
      have res: "rt_store s1 = d" "\<forall>i. r = Ok i \<longrightarrow> c = Ok i"
        using start Inr val ok ld load
        by (auto simp: start_up_def Let_def s0_def split: sum.splits option.splits if_splits)
      have "ready d \<and> contents d = contents (rt_store s)"
        using load_frame [OF _ ld] ready s2 by simp
      moreover have "i = contents (rt_store s) (identity_name (re_identity env))" if "c = Ok i" for i
        using load_contents [of "rt_store s2" _ i d] ld that ready s2 by simp
      ultimately show ?thesis using res by simp
    qed
  qed
qed

lemma run_store:
  fixes env :: "('k, 'd) runtime_env"
  assumes env: "re_store_load env = load" "re_store_save env = save"
    and ready: "ready (rt_store s)" and fresh: "rt_trace s = []"
    and run: "run env es ending s = Some out"
    and storable: "\<forall>c r. CheckpointSaved c r \<in> set (rt_trace (outcome_state out)) \<longrightarrow> storable c"
  shows "ready (rt_store (outcome_state out))
    \<and> contents (rt_store (outcome_state out))
      = foldl (\<lambda>m c. m(cp_connector_name c \<mapsto> c)) (contents (rt_store s)) (saves (rt_trace (outcome_state out)))"
proof -
  note stable = tracks_stable [OF env(2)]
  have started: "tracks (contents (rt_store s)) s1" if "start_up env s = Some (r, s1)" for r s1
    using start_up_loads [OF env(1) ready that] start_up_trace [OF that] fresh
    by (auto simp: tracks_def trace_simps)
  have "tracks (contents (rt_store s)) (outcome_state out)"
    using run
  proof (cases rule: run_cases)
    case (startup e s1)
    then show ?thesis using started save_stable_grows [OF stable] quiet_grows by blast
  next
    case (waiting initial s1 s2)
    have "tracks (contents (rt_store s)) (start_source initial s1)"
      by (rule save_stable_grows [OF stable started [OF waiting(1)]])
        (auto simp: grows_def start_source_def emit_def trace_simps)
    then show ?thesis using pipeline_stable [OF stable _ waiting(2)] waiting(3) by simp
  next
    case (ended initial s1 piped)
    have "tracks (contents (rt_store s)) (start_source initial s1)"
      by (rule save_stable_grows [OF stable started [OF ended(1)]])
        (auto simp: grows_def start_source_def emit_def trace_simps)
    then have "tracks (contents (rt_store s)) (outcome_state piped)"
      using pipeline_stable [OF stable _ ended(2)] by simp
    then show ?thesis using save_stable_grows [OF stable _ quiet_grows [OF ended(4)]] by blast
  qed
  with storable show ?thesis by (simp add: tracks_def)
qed

text \<open>The next run starts from the last checkpoint of this one.\<close>

lemma restart:
  fixes env :: "('k, 'd) runtime_env" and env' :: "('k2, 'd) runtime_env"
  assumes env: "re_store_load env = load" "re_store_save env = save" "re_store_load env' = load"
    and ready: "ready d"
    and run: "run env es ending (runtime_new env k d cells status) = Some out"
    and storable: "\<forall>c r. CheckpointSaved c r \<in> set (rt_trace (outcome_state out)) \<longrightarrow> storable c"
    and name: "identity_name (re_identity env') = identity_name (re_identity env)"
    and again: "start_up env' (runtime_new env' k' (rt_store (outcome_state out)) cells' status')
      = Some (Ok initial, s')"
  shows "\<exists>checkpointed. prefix checkpointed (seen es)
    \<and> prefix (encoded_all env checkpointed) (delivered (rt_trace (outcome_state out)))
    \<and> (if checkpointed = [] then initial = contents d (identity_name (re_identity env))
       else \<exists>c st. initial = Some c \<and> cp_source_position c = sr_position (last checkpointed)
         \<and> cp_connector_state c = last_state st checkpointed)"
proof -
  let ?s = "outcome_state out" and ?n = "identity_name (re_identity env)"
  have store: "ready (rt_store ?s)" "contents (rt_store ?s)
      = foldl (\<lambda>m c. m(cp_connector_name c \<mapsto> c)) (contents d) (saves (rt_trace ?s))"
    using run_store [OF env(1,2) _ _ run storable] by (simp_all add: ready)
  have "initial = contents (rt_store ?s) ?n"
    using start_up_loads [OF env(3) _ again] store(1) name by simp
  then have initial: "initial = foldl (\<lambda>m c. m(cp_connector_name c \<mapsto> c)) (contents d) (saves (rt_trace ?s)) ?n"
    by (simp only: store(2))
  obtain s0 where fresh: "delivered (rt_trace s0) = []" "saves (rt_trace s0) = []"
    and safe: "safe_delivery env s0 (seen es) ?s"
    using run_safe [OF run] by auto
  then obtain acked checkpointed where *: "prefix checkpointed (seen es)"
    "last_save_covers env s0 checkpointed ?s"
    "prefix (encoded_all env checkpointed) (delivered (rt_trace ?s))"
    unfolding safe_delivery_def by auto
  show ?thesis
  proof (cases "checkpointed = []")
    case True
    with * initial fresh show ?thesis by (intro exI [of _ "[]"]) (simp add: last_save_covers_def)
  next
    case False
    then have cov: "saves (rt_trace ?s) \<noteq> []" "covers env s0 checkpointed (last (saves (rt_trace ?s)))"
      using * by (simp_all add: last_save_covers_def)
    then obtain cs c where "saves (rt_trace ?s) = cs @ [c]" by (metis append_butlast_last_id)
    with cov initial have "initial = Some c" "covers env s0 checkpointed c" by (simp_all add: covers_def)
    with * False show ?thesis
      by (intro exI [of _ checkpointed]) (auto simp: covers_def)
  qed
qed

end

section \<open>How a run ends\<close>

lemma shut_down_Ok:
  assumes "shut_down env ending piped s = (Ok u, s')"
  shows "st_state (rt_status s') = Stopped
    \<and> (piped = Ok () \<or> piped = Err Cancelled \<and> re_is_cancelled env (rt_step s))"
proof -
  define p where "p = (if piped = Err Cancelled \<and> re_is_cancelled env (rt_step s) then Ok () else piped)"
  define s1 where "s1 = (if is_ok p then transition env Stopping None s else s)"
  obtain down s2 where down: "sink_call (re_sink_shutdown env) SinkShutdown s1 = (down, s2)" by fastforce
  have ends: "(case rbind p (\<lambda>_. rbind (source_result ending) (\<lambda>_. down)) of
      Err e \<Rightarrow> (Err e, s2) | Ok _ \<Rightarrow> (Ok (), transition env Stopped None s2)) = (Ok u, s')"
    using assms down by (simp add: shut_down_def Let_def p_def s1_def)
  then obtain v where "p = Ok v" by (cases p) auto
  with ends show ?thesis
    by (auto simp: p_def transition_def tick_def status_transition_def split: sum.splits if_splits)
qed

lemma run_Broken:
  assumes "run env es ending s = Some (Broken s')"
  obtains (ok) initial s1 piped where "start_up env s = Some (Ok initial, s1)"
    "pipeline env es (start_source initial s1) = Some piped"
    "(\<exists>t. piped = Broken t) \<or> (\<exists>t n. piped = Returned Cancelled t \<and> re_is_cancelled env n)"
    "quiet_after (outcome_state piped) s'" "st_state (rt_status s') = Stopped"
proof -
  have inner: "run_inner env es ending s = Some (Broken s')"
    using assms by (auto simp: run_def split: option.splits loop_outcome.splits if_splits)
  then obtain initial s1 where start: "start_up env s = Some (Ok initial, s1)"
    by (auto simp: run_inner_def split: option.splits sum.splits)
  obtain piped where piped: "pipeline env es (start_source initial s1) = Some piped"
    using inner start by (auto simp: run_inner_def split: option.splits)
  have *: thesis if "shut_down env ending r t = (Ok u, s')" "outcome_state piped = t"
    "r = Ok () \<and> piped = Broken t \<or> (\<exists>e. r = Err e \<and> piped = Returned e t)" for r t u
    using that start piped shut_down_Ok [OF that(1)] shut_down_quiet [OF that(1)]
    by (intro ok [of initial s1 piped]) auto
  show thesis
  proof (cases piped)
    case (Waiting t)
    with inner start piped show thesis by (simp add: run_inner_def)
  next
    case (Broken t)
    obtain d u where down: "shut_down env ending (Ok ()) t = (d, u)" by fastforce
    with inner start piped Broken show thesis
      by (cases d) (auto simp: run_inner_def Let_def intro: *)
  next
    case (Returned e t)
    obtain d u where down: "shut_down env ending (Err e) t = (d, u)" by fastforce
    with inner start piped Returned show thesis
      by (cases d) (auto simp: run_inner_def Let_def intro: *)
  qed
qed

text \<open>A small environment: an in-memory sink that fails as often as told, SQLite as the store.\<close>

definition sample_event :: change_event where
  "sample_event =
     \<lparr>ev_id = ''e1'',
      ev_source = \<lparr>sm_connector = ''postgresql'', sm_connector_name = ''orders'', sm_database = ''shop'',
        sm_schema = Some ''public'', sm_table = Some ''orders'', sm_snapshot = False,
        sm_version = ''1'', sm_attributes = []\<rparr>,
      ev_position = sample_postgres 5 1 False, ev_transaction = None, ev_operation = Create,
      ev_before = None, ev_after = Some [(''id'', DvInt64 1)],
      ev_schema = \<lparr>es_name = ''orders'', es_version = 1, es_fields = []\<rparr>,
      ev_source_time = None, ev_observed_time = 0\<rparr>"

definition sample_encode :: "change_event \<Rightarrow> encoded_event list result" where
  "sample_encode e =
     Ok [\<lparr>enc_id = ev_id e, enc_destination = ''orders'', enc_key = None, enc_key_schema = None,
          enc_payload = Some [], enc_payload_schema = None, enc_headers = []\<rparr>]"

definition sample_record :: "u64 \<Rightarrow> record_boundary \<Rightarrow> source_record" where
  "sample_record lsn b =
     \<lparr>sr_event = Some sample_event, sr_position = sample_postgres lsn 1 False, sr_boundary = b,
      sr_connector_state = None, sr_signal_acks = []\<rparr>"

definition failing_sink :: "nat \<Rightarrow> unit result \<times> nat" where
  "failing_sink k = (if k = 0 then (Ok (), 0) else (Err (RetryableSink ''busy''), k - 1))"

definition sample_saved :: checkpoint where
  "sample_saved =
     \<lparr>cp_schema_version = 2, cp_connector_name = ''orders'', cp_generation = ''g'',
      cp_source_position = sample_postgres 5 1 False, cp_snapshot_completed = False,
      cp_config_fingerprint = [], cp_updated_at = 0, cp_connector_state = None\<rparr>"

definition sample_env :: "i32 \<Rightarrow> (nat, sqlite_file) runtime_env" where
  "sample_env retries =
     \<lparr>re_identity = \<lparr>identity_name = ''orders'', identity_generation = ''g''\<rparr>,
      re_config = runtime_config_default\<lparr>rc_errors_max_retries := retries\<rparr>,
      re_encode_batch = sample_encode, re_source_validate = Ok (),
      re_sink_validate = (\<lambda>k. (Ok (), k)), re_sink_write = (\<lambda>_. failing_sink),
      re_sink_flush = (\<lambda>k. (Ok (), k)), re_sink_shutdown = (\<lambda>k. (Ok (), k)),
      re_store_load = sqlite_load (\<lambda>_. checkpoint_to_json sample_saved) Some, re_store_save = sqlite_save (\<lambda>_. ''text''),
      re_now = (\<lambda>_. 0), re_cancelled_in_sleep = (\<lambda>_. False), re_is_cancelled = (\<lambda>_. False),
      re_ack_listens = (\<lambda>_. True), re_debug_position = (\<lambda>_. ''position'')\<rparr>"

definition sample_run ::
  "runtime_event list \<Rightarrow> (nat, sqlite_file) loop_outcome option" where
  "sample_run es =
     run (sample_env 3) es (SourceReturned (Ok ()))
       (runtime_new (sample_env 3) 1 (sample_file\<lparr>db_faults := []\<rparr>) [] (status_new ''orders'' 0))"

lemmas runtime_eval =
  sample_run_def sample_env_def run_def run_inner_def start_up_def pipeline_def loop_turn_def
  flush_batch_def finish_batch_def consume_record_def at_boundary_def accept_record_def
  encode_event_def moves_backwards_def start_source_def shut_down_def sink_call_def
  write_sink_with_retry_def validate_sink_with_retry_def flush_sink_with_retry_def
  wait_for_sink_retry_def retryable_sink_def transition_def tick_def emit_def checkpoint_of_def
  runtime_new_def pending_new_def retry_new_def failing_sink_def acknowledge_all_def
  status_transition_def status_checkpointed_def status_new_def runtime_config_default_def
  source_result_def sample_record_def sample_encode_def sample_event_def sample_postgres_def
  sink_with_retry.simps Let_def

lemmas store_eval =
  sample_file_def sqlite_load_def sqlite_save_def sqlite_save_row_def current_fault_def
  next_operation_def db_call_def no_fault_def db_rows_def checkpoint_to_json_def time_to_json_def
  CHECKPOINT_SCHEMA_VERSION_def

lemma sample_run_stops:
  "\<exists>s. sample_run [Received (Ok (sample_record 5 TransactionCommit)) 0, ChannelClosed] = Some (Broken s)
     \<and> (\<forall>c r. CheckpointSaved c r \<in> set (rt_trace s) \<longrightarrow> c = sample_saved)
     \<and> (\<exists>row. rt_store s = \<lparr>db_user_version = 1, db_table = Some [(''orders'', row)], db_faults = []\<rparr>)"
  by (simp add: runtime_eval store_eval sample_saved_def)

lemma sample_saved_storable:
  "sqlite_storable (\<lambda>_. ''text'') (\<lambda>_. checkpoint_to_json sample_saved) Some sample_saved"
  by (simp add: sqlite_storable_def checkpoint_wf_def sample_saved_def sample_postgres_def
      position_wf_def checkpoint_to_json_def time_to_json_def)

section \<open>Properties\<close>

text \<open>
  C1. At-least-once delivery. However the run goes (ticks, records, source errors, cancellation,
  sink failures and retries, store failures) and at whatever point it is looked at, the records
  acknowledged to the source are a prefix of the checkpointed ones, all events of the checkpointed
  ones have been written to the sink, in order and before the checkpoint, nothing else has been
  written, every acknowledged position was saved in the step before, the saved checkpoint stands at
  the last checkpointed record, and exactly the signals of acknowledged records are acknowledged.
\<close>

theorem at_least_once:
  assumes "run env es ending (runtime_new env k d cells status) = Some out"
  shows "\<exists>acked checkpointed.
    prefix acked checkpointed \<and> prefix checkpointed (seen es)
    \<and> prefix (encoded_all env checkpointed) (delivered (rt_trace (outcome_state out)))
    \<and> prefix (delivered (rt_trace (outcome_state out))) (encoded_all env (seen es))
    \<and> (acked \<noteq> [] \<longrightarrow> rt_acked (outcome_state out) = Some (sr_position (last acked)))
    \<and> (if checkpointed = [] then saves (rt_trace (outcome_state out)) = []
       else saves (rt_trace (outcome_state out)) \<noteq> []
         \<and> cp_source_position (last (saves (rt_trace (outcome_state out)))) = sr_position (last checkpointed)
         \<and> cp_connector_name (last (saves (rt_trace (outcome_state out)))) = identity_name (re_identity env)
         \<and> cp_config_fingerprint (last (saves (rt_trace (outcome_state out))))
             = rc_config_fingerprint (re_config env))
    \<and> signal_acks (rt_trace (outcome_state out)) = signals_of acked
    \<and> acks_follow_saves None (rt_trace (outcome_state out))"
proof -
  have "rt_trace (runtime_new env k d cells status) = []" by (simp add: runtime_new_def)
  then obtain s0 where "delivered (rt_trace s0) = []" "saves (rt_trace s0) = []"
    "signal_acks (rt_trace s0) = []" "safe_delivery env s0 (seen es) (outcome_state out)"
    using run_safe [OF assms] by blast
  then show ?thesis by (intro safe_delivery_fresh)
qed

theorem at_least_once_witness:
  "\<exists>out acked checkpointed.
    sample_run [Received (Ok (sample_record 5 TransactionCommit)) 0, CancelRequested] = Some out
    \<and> prefix acked checkpointed \<and> prefix checkpointed [sample_record 5 TransactionCommit]
    \<and> prefix (encoded_all (sample_env 3) checkpointed) (delivered (rt_trace (outcome_state out)))"
proof -
  have retries: "0 \<le> sint (rc_errors_max_retries (re_config (sample_env 3)))"
    by (simp add: sample_env_def)
  obtain out where out: "sample_run [Received (Ok (sample_record 5 TransactionCommit)) 0, CancelRequested] = Some out"
    using start_up_returns [OF retries] pipeline_returns [OF retries]
    by (simp add: sample_env_def) (fastforce simp: runtime_eval store_eval sample_saved_def)
  from at_least_once [OF this [unfolded sample_run_def]] out show ?thesis by auto
qed

text \<open>
  C3. A run that ends well without having been cancelled has delivered everything: all events of all
  records it took are written, the last position is acknowledged and saved, all signals are
  acknowledged, and the status is stopped.
\<close>

theorem clean_stop_delivers_all:
  assumes "run env es ending (runtime_new env k d cells status) = Some (Broken s)"
    and "\<And>n. \<not> re_is_cancelled env n"
  shows "delivered (rt_trace s) = encoded_all env (seen es)
    \<and> (seen es \<noteq> [] \<longrightarrow> rt_acked s = Some (sr_position (last (seen es)))
         \<and> saves (rt_trace s) \<noteq> []
         \<and> cp_source_position (last (saves (rt_trace s))) = sr_position (last (seen es)))
    \<and> signal_acks (rt_trace s) = signals_of (seen es)
    \<and> st_state (rt_status s) = Stopped"
  using assms(1)
proof (cases rule: run_Broken)
  case (ok initial s1 piped)
  then obtain t where piped: "piped = Broken t" using assms(2) by auto
  let ?s0 = "start_source initial s1"
  note fresh = start_source_fresh [OF ok(1), of initial, simplified]
  have "partitioned env ?s0 (seen es) [] t"
    using pipeline_outcome [OF fresh ok(2)] piped by simp
  then have "partitioned env ?s0 (seen es) [] s" using partitioned_quiet ok(4) piped by simp
  with fresh ok(5) show ?thesis
    by (auto simp: partitioned_def last_position_def last_save_covers_def covers_def)
qed

theorem clean_stop_delivers_all_witness:
  "\<exists>s. sample_run [Received (Ok (sample_record 5 TransactionCommit)) 0, ChannelClosed] = Some (Broken s)
    \<and> delivered (rt_trace s) = encoded_of (sample_env 3) (sample_record 5 TransactionCommit)
    \<and> rt_acked s = Some (sample_postgres 5 1 False) \<and> st_state (rt_status s) = Stopped"
proof -
  obtain s where s: "sample_run [Received (Ok (sample_record 5 TransactionCommit)) 0, ChannelClosed]
      = Some (Broken s)" using sample_run_stops by blast
  have "\<not> re_is_cancelled (sample_env 3) n" for n by (simp add: sample_env_def)
  from clean_stop_delivers_all [OF s [unfolded sample_run_def] this] s
  show ?thesis by (auto simp: records_one sample_record_def)
qed

text \<open>
  C4. With bounded retries a connector always comes to an end: once it is cancelled or its source
  closes the channel, the run returns, whatever the sink, the store and the encoder do.
\<close>

theorem run_returns:
  assumes "0 \<le> sint (rc_errors_max_retries (re_config env))"
    and "CancelRequested \<in> set es \<or> ChannelClosed \<in> set es"
  shows "\<exists>out. run env es ending s = Some out \<and> (\<forall>t. out \<noteq> Waiting t)"
proof -
  obtain r s1 where start: "start_up env s = Some (r, s1)"
    using start_up_returns [OF assms(1), of s] by auto
  obtain inner where inner: "run_inner env es ending s = Some inner" "\<forall>t. inner \<noteq> Waiting t"
  proof (cases r)
    case (Inl e)
    with start that show thesis by (auto simp: run_inner_def)
  next
    case (Inr initial)
    obtain piped where "pipeline env es (start_source initial s1) = Some piped" "\<forall>t. piped \<noteq> Waiting t"
      using pipeline_returns [OF assms] by blast
    with start Inr that show thesis
      by (cases piped) (auto simp: run_inner_def Let_def split: prod.splits sum.splits)
  qed
  then show ?thesis by (cases inner) (auto simp: run_def)
qed

theorem run_returns_witness:
  "\<exists>out. sample_run [Received (Err Cancelled) 0, CancelRequested] = Some out \<and> (\<forall>t. out \<noteq> Waiting t)"
  unfolding sample_run_def by (rule run_returns) (simp_all add: sample_env_def)

text \<open>
  C5. Delivery of a batch is tried at most \<open>errors_max_retries + 1\<close> times: it returns, the waits in
  between start at the initial delay and double up to the maximum, and the error of a busy sink is
  reported only when all retries are used up.
\<close>

theorem write_retry_bounded:
  assumes "0 \<le> sint (rc_errors_max_retries (re_config env))"
  shows "\<exists>r s' n es. write_sink_with_retry env batch s = Some (r, s')
    \<and> n \<le> nat (sint (rc_errors_max_retries (re_config env)))
    \<and> rt_trace s' = rt_trace s @ es \<and> length es = 2 * n + 1
    \<and> sleeps es = backoff n (rc_retry_delay_initial (re_config env)) (rc_retry_delay_max (re_config env))
    \<and> (\<forall>m. r = Err (RetryableSink m) \<longrightarrow> n = nat (sint (rc_errors_max_retries (re_config env))))"
proof -
  have "sleeps [SinkWritten batch x] = []" for x by (simp add: sleeps_def List.map_filter_simps)
  from sink_with_retry_bounded [OF assms this, where f = "re_sink_write env batch" and s = s
      and retry = "retry_new (rc_retry_delay_initial (re_config env))"]
  show ?thesis by (simp add: write_sink_with_retry_def retries_left_def retry_new_def)
qed

theorem write_retry_bounded_witness:
  "\<exists>r s' n es. write_sink_with_retry (sample_env 3) \<lparr>db_events = [], db_highest_position = sample_postgres 5 1 False\<rparr>
      (runtime_new (sample_env 3) 9 sample_file [] (status_new ''orders'' 0)) = Some (r, s')
    \<and> n \<le> 3 \<and> rt_trace s' = es \<and> length es = 2 * n + 1 \<and> sleeps es = backoff n 300000000 10000000000"
proof -
  have env: "sint (rc_errors_max_retries (re_config (sample_env 3))) = 3"
    "rc_retry_delay_initial (re_config (sample_env 3)) = 300000000"
    "rc_retry_delay_max (re_config (sample_env 3)) = 10000000000"
    by (simp_all add: sample_env_def runtime_config_default_def)
  then have nonneg: "0 \<le> sint (rc_errors_max_retries (re_config (sample_env 3)))" by simp
  show ?thesis
    using write_retry_bounded [OF nonneg, of "\<lparr>db_events = [], db_highest_position = sample_postgres 5 1 False\<rparr>"
        "runtime_new (sample_env 3) 9 sample_file [] (status_new ''orders'' 0)"]
    unfolding env by auto
qed

text \<open>
  The status says how the run ended: stopped after success, failed with the printed error as
  the reason after any error but a cancellation.
\<close>

theorem run_outcome_reported:
  assumes "run env es ending s = Some out"
  shows "case out of
      Waiting t \<Rightarrow> True
    | Broken t \<Rightarrow> st_state (rt_status t) = Stopped
    | Returned e t \<Rightarrow> e = Cancelled \<or>
        st_state (rt_status t) = Failed \<and> st_state_reason (rt_status t) = Some (error_to_string e)"
proof (cases out)
  case (Broken t)
  with assms run_Broken [of env es ending s t] show ?thesis by auto
next
  case (Returned e t)
  with assms show ?thesis
    by (auto simp: run_def transition_def tick_def status_transition_def
        split: option.splits loop_outcome.splits if_splits)
qed simp

theorem run_outcome_reported_witness:
  "\<exists>s. sample_run [Received (Ok (sample_record 5 TransactionCommit)) 0, ChannelClosed] = Some (Broken s)
    \<and> st_state (rt_status s) = Stopped"
proof -
  obtain s where s: "sample_run [Received (Ok (sample_record 5 TransactionCommit)) 0, ChannelClosed]
      = Some (Broken s)" using sample_run_stops by blast
  from run_outcome_reported [OF s [unfolded sample_run_def]] s show ?thesis by auto
qed

text \<open>
  A connector whose stored checkpoint belongs to another configuration is refused before its
  source starts: nothing is written or saved, and the run fails with a configuration error.
\<close>

theorem foreign_checkpoint_refused:
  assumes valid: "re_source_validate env = Ok u"
    and sink: "validate_sink_with_retry env
        (emit (SourceValidated (re_source_validate env)) (transition env Starting None s)) = Some (Ok v, s1)"
    and load: "re_store_load env (identity_name (re_identity env)) (rt_store s1) = (Ok (Some c), d)"
    and other: "cp_config_fingerprint c \<noteq> rc_config_fingerprint (re_config env)"
    and fresh: "rt_trace s = []"
  shows "\<exists>m t. run env es ending s = Some (Returned (Configuration m) t)
    \<and> st_state (rt_status t) = Failed
    \<and> delivered (rt_trace t) = [] \<and> saves (rt_trace t) = []
    \<and> (\<forall>i. SourceStarted i \<notin> set (rt_trace t))"
proof -
  let ?m = "''persisted checkpoint does not match the active configuration''"
  let ?t = "s1\<lparr>rt_store := d\<rparr>"
  have start: "start_up env s = Some (Err (Configuration ?m), ?t)"
    using valid sink load other by (simp add: start_up_def Let_def)
  then have run: "run env es ending s
      = Some (Returned (Configuration ?m) (transition env Failed (Some (error_to_string (Configuration ?m))) ?t))"
    by (simp add: run_def run_inner_def)
  obtain qs where "rt_trace ?t = qs" "list_all quiet qs"
    using start_up_trace [OF start] fresh by auto
  moreover from this have "SourceStarted i \<notin> set (rt_trace s1)" for i
    by (auto simp: list_all_iff)
  ultimately show ?thesis
    using run by (auto simp: transition_def tick_def status_transition_def trace_simps)
qed

theorem foreign_checkpoint_refused_witness:
  "\<exists>(env :: (nat, sqlite_file) runtime_env) s m t. run env [] SourceTimedOut s = Some (Returned (Configuration m) t)
    \<and> delivered (rt_trace t) = []"
proof -
  define env where "env = (sample_env 3)
      \<lparr>re_store_load := (\<lambda>_ d. (Ok (Some (sample_saved\<lparr>cp_config_fingerprint := ''old''\<rparr>)), d))\<rparr>"
  define s where "s = runtime_new env 0 sample_file [] (status_new ''orders'' 0)"
  have valid: "re_source_validate env = Ok ()" by (simp add: env_def sample_env_def)
  obtain s1 where sink: "validate_sink_with_retry env
      (emit (SourceValidated (re_source_validate env)) (transition env Starting None s)) = Some (Ok (), s1)"
    by (simp add: env_def s_def runtime_eval)
  have load: "re_store_load env (identity_name (re_identity env)) (rt_store s1)
      = (Ok (Some (sample_saved\<lparr>cp_config_fingerprint := ''old''\<rparr>)), rt_store s1)"
    by (simp add: env_def)
  have other: "cp_config_fingerprint (sample_saved\<lparr>cp_config_fingerprint := ''old''\<rparr>)
      \<noteq> rc_config_fingerprint (re_config env)"
    by (simp add: env_def sample_env_def runtime_config_default_def)
  have fresh: "rt_trace s = []" by (simp add: s_def)
  from foreign_checkpoint_refused [OF valid sink load other fresh, of "[]" SourceTimedOut]
  show ?thesis by blast
qed



text \<open>
  Within a batch positions never move backwards: a record that is neither after the last
  accepted one nor at it is an invariant error, and nothing changes.
\<close>

theorem backward_position_rejected:
  assumes "pb_highest_position (rt_pending s) = Some p"
    and "\<not> is_after (sr_position r) p" "\<not> position_eq (sr_position r) p"
  shows "\<exists>m. consume_record env r s = Some (Err (Invariant m), s)"
  using assms by (simp add: consume_record_def moves_backwards_def)

theorem backward_position_rejected_witness:
  "\<exists>m. consume_record (sample_env 3) (sample_record 5 DataBoundary)
      ((runtime_new (sample_env 3) 0 sample_file [] (status_new ''orders'' 0))
        \<lparr>rt_pending := pending_new\<lparr>pb_highest_position := Some (sample_postgres 7 1 False)\<rparr>\<rparr>)
    = Some (Err (Invariant m), (runtime_new (sample_env 3) 0 sample_file [] (status_new ''orders'' 0))
        \<lparr>rt_pending := pending_new\<lparr>pb_highest_position := Some (sample_postgres 7 1 False)\<rparr>\<rparr>)"
  by (rule backward_position_rejected [where p = "sample_postgres 7 1 False"])
     (simp_all add: sample_record_def sample_postgres_def postgres_sort_key_def)


end
