(* ===== verification/Connector_State.thy ===== *)
theory Connector_State
  imports Serde_Json
begin

text \<open>
  The connector states that travel inside checkpoints: the schema history and the progress of
  incremental snapshots of PostgreSQL (\<^verbatim>\<open>crates/rustium-postgresql/src/schema_history.rs\<close>), MySQL
  (\<^verbatim>\<open>crates/rustium-mysql/src/schema_history.rs\<close>) and SQL Server
  (\<^verbatim>\<open>crates/rustium-sqlserver/src/state.rs\<close>), their envelopes, and the locale \<open>state_codec\<close> with
  what the connectors rely on when they resume. A \<^verbatim>\<open>HashMap\<close> of tables is an association list whose
  order stands for its iteration order. The text of a JSON error and the UUID parser are parameters.
\<close>

section \<open>The contract of a connector state\<close>

locale state_codec =
  fixes encode :: "'s \<Rightarrow> state_envelope"
    and decode :: "state_envelope \<Rightarrow> 's result"
    and valid :: "'s \<Rightarrow> bool"
    and same :: "'s \<Rightarrow> 's \<Rightarrow> bool"
    and accepts :: "state_envelope \<Rightarrow> bool"
  assumes round_trip: "valid s \<Longrightarrow> \<exists>t. decode (encode s) = Ok t \<and> valid t \<and> same s t"
    and canonical: "valid s \<Longrightarrow> valid t \<Longrightarrow> same s t \<Longrightarrow> encode s = encode t"
    and same_common: "same s u \<Longrightarrow> same t u \<Longrightarrow> same s t"
    and stamped: "accepts (encode s)"
    and guarded: "\<not> accepts e \<Longrightarrow> \<exists>msg. decode e = Err (State msg)"
begin

lemma determines: "valid s \<Longrightarrow> valid t \<Longrightarrow> encode s = encode t \<longleftrightarrow> same s t"
  using round_trip [of s] round_trip [of t] canonical [of s t] same_common [of s _ t] by force

text \<open>What is read back is written again as the same envelope.\<close>

lemma stable:
  assumes "valid s"
  shows "\<exists>t. decode (encode s) = Ok t \<and> same s t \<and> encode t = encode s"
proof -
  from round_trip [OF assms] obtain t where "decode (encode s) = Ok t" "valid t" "same s t" by blast
  with canonical [of s t] assms show ?thesis by auto
qed

lemma decoded_accepted: "decode e = Ok s \<Longrightarrow> accepts e"
  using guarded [of e] by auto

end

section \<open>Table schemas\<close>

definition field_schema_to_json :: "field_schema \<Rightarrow> json" where
  "field_schema_to_json f =
     JObject [(''name'', JString (fs_name f)), (''type_name'', JString (fs_type_name f)),
              (''optional'', JBool (fs_optional f)), (''primary_key'', JBool (fs_primary_key f))]"

definition field_schema_from_json :: "json \<Rightarrow> field_schema option" where
  "field_schema_from_json j =
     (case j of
        JObject m \<Rightarrow>
          do {
            name \<leftarrow> field get_string ''name'' m;
            type_name \<leftarrow> field get_string ''type_name'' m;
            optional \<leftarrow> field get_bool ''optional'' m;
            primary_key \<leftarrow> field get_bool ''primary_key'' m;
            Some \<lparr>fs_name = name, fs_type_name = type_name, fs_optional = optional,
                  fs_primary_key = primary_key\<rparr>
          }
      | _ \<Rightarrow> None)"

definition event_schema_to_json :: "event_schema \<Rightarrow> json" where
  "event_schema_to_json s =
     JObject [(''name'', JString (es_name s)), (''version'', json_uint (es_version s)),
              (''fields'', put_list field_schema_to_json (es_fields s))]"

definition event_schema_from_json :: "json \<Rightarrow> event_schema option" where
  "event_schema_from_json j =
     (case j of
        JObject m \<Rightarrow>
          do {
            name \<leftarrow> field get_string ''name'' m;
            version \<leftarrow> field get_uint ''version'' m;
            fields \<leftarrow> field (get_list field_schema_from_json) ''fields'' m;
            Some \<lparr>es_name = name, es_version = version, es_fields = fields\<rparr>
          }
      | _ \<Rightarrow> None)"

lemma field_schema_round_trip [codec_simps]:
  "field_schema_from_json (field_schema_to_json f) = Some f"
  by (simp add: field_schema_from_json_def field_schema_to_json_def codec_simps)

lemma event_schema_round_trip [codec_simps]:
  "event_schema_from_json (event_schema_to_json s) = Some s"
  by (simp add: event_schema_from_json_def event_schema_to_json_def codec_simps)

type_synonym table_key = "string \<times> string"

text \<open>
  The decoders insert the tables of the document one by one and refuse a second one of the same key.
\<close>

fun insert_tables ::
  "string \<Rightarrow> ('t \<Rightarrow> table_key) \<Rightarrow> 't list \<Rightarrow> (table_key \<times> 't) list \<Rightarrow> (table_key \<times> 't) list result"
  where
  "insert_tables db key [] m = Ok m"
| "insert_tables db key (t # ts) m =
     (if key t \<in> fst ` set m
      then Err (State (db @ '' schema history contains duplicate table '' @ fst (key t) @ ''.''
                       @ snd (key t)))
      else insert_tables db key ts (im_insert (key t) t m))"

definition sorted_tables :: "('t \<Rightarrow> table_key) \<Rightarrow> (table_key \<times> 't) list \<Rightarrow> 't list" where
  "sorted_tables key m = sort_key key (map snd m)"

text \<open>A map of tables as the connectors keep it: every table under its own key.\<close>

definition tables_inv :: "('t \<Rightarrow> table_key) \<Rightarrow> (table_key \<times> 't) list \<Rightarrow> bool" where
  "tables_inv key m = (im_inv m \<and> list_all (\<lambda>(k, t). k = key t) m)"

lemma im_insert_new: "k \<notin> fst ` set m \<Longrightarrow> im_insert k v m = m @ [(k, v)]"
  by (induction k v m rule: im_insert.induct) auto

lemma insert_tables_distinct:
  "distinct (map key ts) \<Longrightarrow> key ` set ts \<inter> fst ` set m = {} \<Longrightarrow>
   insert_tables db key ts m = Ok (m @ map (\<lambda>t. (key t, t)) ts)"
  by (induction ts arbitrary: m) (auto simp: im_insert_new)

lemma insert_tables_duplicate:
  "\<not> distinct (map key ts) \<or> key ` set ts \<inter> fst ` set m \<noteq> {} \<Longrightarrow>
   \<exists>msg. insert_tables db key ts m = Err (State msg)"
proof (induction ts arbitrary: m)
  case Nil
  then show ?case by simp
next
  case (Cons t ts)
  show ?case
  proof (cases "key t \<in> fst ` set m")
    case False
    with Cons.prems have "\<not> distinct (map key ts) \<or> key ` set ts \<inter> fst ` set (im_insert (key t) t m) \<noteq> {}"
      by auto
    from Cons.IH [OF this] False show ?thesis by simp
  qed simp
qed

lemma tables_inv_keys: "tables_inv key m \<Longrightarrow> map fst m = map key (map snd m)"
  by (induction m) (auto simp: tables_inv_def im_inv_def)

lemma tables_inv_distinct: "tables_inv key m \<Longrightarrow> distinct (map key (map snd m))"
  by (subst tables_inv_keys [symmetric]) (simp_all add: tables_inv_def im_inv_def)

lemma tables_inv_pairs: "tables_inv key m \<Longrightarrow> m = map (\<lambda>t. (key t, t)) (map snd m)"
  by (induction m) (auto simp: tables_inv_def im_inv_def)

lemma tables_inv_of_list: "distinct (map key ts) \<Longrightarrow> tables_inv key (map (\<lambda>t. (key t, t)) ts)"
  by (simp add: tables_inv_def im_inv_def comp_def list_all_iff)

lemma distinct_sorted_tables: "tables_inv key m \<Longrightarrow> distinct (map key (sorted_tables key m))"
  using tables_inv_distinct [of key m]
  unfolding sorted_tables_def
  by (metis distinct_map distinct_sort set_sort)

lemma map_of_sorted_tables:
  assumes "tables_inv key m"
  shows "map_of (map (\<lambda>t. (key t, t)) (sorted_tables key m)) = map_of m"
proof (rule map_of_inject_set [THEN iffD2])
  show "distinct (map fst (map (\<lambda>t. (key t, t)) (sorted_tables key m)))"
    using distinct_sorted_tables [OF assms] by (simp add: comp_def)
  show "distinct (map fst m)" using assms by (simp add: tables_inv_def im_inv_def)
  have "set (map (\<lambda>t. (key t, t)) (sorted_tables key m)) = set (map (\<lambda>t. (key t, t)) (map snd m))"
    by (simp only: sorted_tables_def set_map set_sort)
  with tables_inv_pairs [OF assms]
  show "set (map (\<lambda>t. (key t, t)) (sorted_tables key m)) = set m" by metis
qed

text \<open>The order in which the map is iterated does not show in the sorted list.\<close>

lemma sorted_tables_canonical:
  assumes m: "tables_inv key m" and n: "tables_inv key n" and eq: "map_of m = map_of n"
  shows "sorted_tables key m = sorted_tables key n"
proof -
  have "set m = set n"
    using m n eq by (metis im_inv_def map_of_inject_set tables_inv_def)
  then have "set (sorted_tables key m) = set (sorted_tables key n)"
    by (simp add: sorted_tables_def)
  moreover from distinct_sorted_tables [OF n] have "inj_on key (set (sorted_tables key n))"
    by (simp add: distinct_map)
  moreover have "sorted (map key (sorted_tables key k))" for k :: "(_ \<times> 'a) list"
    by (simp add: sorted_tables_def)
  ultimately show ?thesis
    using distinct_sorted_tables [OF m] distinct_sorted_tables [OF n]
    by (intro map_sorted_distinct_set_unique [of key]) auto
qed

lemma insert_sorted_tables:
  "tables_inv key m \<Longrightarrow>
   insert_tables db key (sorted_tables key m) []
     = Ok (map (\<lambda>t. (key t, t)) (sorted_tables key m))"
  by (simp add: insert_tables_distinct distinct_sorted_tables)

text \<open>The tests on the envelope, which the three decoders make before they read the payload.\<close>

definition check_envelope ::
  "string \<Rightarrow> string \<Rightarrow> string \<Rightarrow> string \<Rightarrow> (u32 \<Rightarrow> bool) \<Rightarrow> string \<Rightarrow> state_envelope \<Rightarrow> json result" where
  "check_envelope db noun fmt_text fmt supported expected e =
     (if env_format e \<noteq> fmt
      then Err (State (db @ '' checkpoint has connector state format '' @ debug_str (env_format e)
                       @ '', expected '' @ fmt_text))
      else if \<not> supported (env_version e)
      then Err (State (''unsupported '' @ db @ '' '' @ noun @ '' version ''
                       @ show_word (env_version e) @ ''; expected '' @ expected))
      else Ok (env_payload e))"

lemma check_envelope_Ok:
  "env_format e = fmt \<Longrightarrow> supported (env_version e) \<Longrightarrow>
   check_envelope db noun txt fmt supported expected e = Ok (env_payload e)"
  by (simp add: check_envelope_def)

lemma check_envelope_Err:
  "\<not> (env_format e = fmt \<and> supported (env_version e)) \<Longrightarrow>
   \<exists>msg. rbind (check_envelope db noun txt fmt supported expected e) f = Err (State msg)"
  by (auto simp: check_envelope_def)

section \<open>PostgreSQL\<close>

definition POSTGRES_SCHEMA_HISTORY_FORMAT :: string where
  "POSTGRES_SCHEMA_HISTORY_FORMAT = ''rustium.postgresql.schema-history''"

definition POSTGRES_SCHEMA_HISTORY_VERSION :: u32 where
  "POSTGRES_SCHEMA_HISTORY_VERSION = 6"

record pg_column_type =
  pct_name :: string
  pct_type_oid :: u32
  pct_type_modifier :: i32

record pg_table_schema =
  pts_schema :: string
  pts_table :: string
  pts_event_schema :: event_schema
  pts_column_types :: "pg_column_type list"
  pts_opaque_columns :: "string list"

definition pg_table_key :: "pg_table_schema \<Rightarrow> table_key" where
  "pg_table_key t = (pts_schema t, pts_table t)"

record pg_progress =
  pp_signal_id :: string
  pp_data_collections :: "string list"
  pp_additional_conditions :: "(string \<times> string) list"
  pp_surrogate_key :: "string option"
  pp_current_collection :: nat
  pp_last_key :: "string list option"
  pp_maximum_key :: "string list option"
  pp_chunk_sequence :: u64
  pp_paused :: bool

record pg_connector_state =
  pcs_schemas :: "(table_key \<times> pg_table_schema) list"
  pcs_incremental_snapshot :: "pg_progress option"
  pcs_completed_signal_ids :: "string list"

definition pg_column_type_to_json :: "pg_column_type \<Rightarrow> json" where
  "pg_column_type_to_json c =
     JObject [(''name'', JString (pct_name c)), (''type_oid'', json_uint (pct_type_oid c)),
              (''type_modifier'', json_int (sint (pct_type_modifier c)))]"

definition pg_column_type_from_json :: "json \<Rightarrow> pg_column_type option" where
  "pg_column_type_from_json j =
     (case j of
        JObject m \<Rightarrow>
          do {
            name \<leftarrow> field get_string ''name'' m;
            type_oid \<leftarrow> field get_uint ''type_oid'' m;
            modifier \<leftarrow> field get_sint ''type_modifier'' m;
            Some \<lparr>pct_name = name, pct_type_oid = type_oid, pct_type_modifier = modifier\<rparr>
          }
      | _ \<Rightarrow> None)"

definition pg_table_to_json :: "pg_table_schema \<Rightarrow> json" where
  "pg_table_to_json t =
     JObject ([(''schema'', JString (pts_schema t)), (''table'', JString (pts_table t)),
               (''event_schema'', event_schema_to_json (pts_event_schema t)),
               (''column_types'', put_list pg_column_type_to_json (pts_column_types t))]
              @ skip_if (pts_opaque_columns t = []) ''opaque_columns''
                  (put_list JString (pts_opaque_columns t)))"

definition pg_table_from_json :: "json \<Rightarrow> pg_table_schema option" where
  "pg_table_from_json j =
     (case j of
        JObject m \<Rightarrow>
          do {
            schema \<leftarrow> field get_string ''schema'' m;
            table \<leftarrow> field get_string ''table'' m;
            event_schema \<leftarrow> field event_schema_from_json ''event_schema'' m;
            column_types \<leftarrow> field (get_list pg_column_type_from_json) ''column_types'' m;
            opaque_columns \<leftarrow> default_field [] (get_list get_string) ''opaque_columns'' m;
            Some \<lparr>pts_schema = schema, pts_table = table, pts_event_schema = event_schema,
                  pts_column_types = column_types, pts_opaque_columns = opaque_columns\<rparr>
          }
      | _ \<Rightarrow> None)"

definition pg_progress_to_json :: "pg_progress \<Rightarrow> json" where
  "pg_progress_to_json p =
     JObject ([(''signal_id'', JString (pp_signal_id p)),
               (''data_collections'', put_list JString (pp_data_collections p))]
              @ skip_if (pp_additional_conditions p = []) ''additional_conditions''
                  (put_btree JString (pp_additional_conditions p))
              @ skip_none ''surrogate_key'' JString (pp_surrogate_key p)
              @ [(''current_collection'', json_usize (pp_current_collection p)),
                 (''last_key'', put_opt (put_list JString) (pp_last_key p)),
                 (''maximum_key'', put_opt (put_list JString) (pp_maximum_key p)),
                 (''chunk_sequence'', json_uint (pp_chunk_sequence p))]
              @ skip_if (\<not> pp_paused p) ''paused'' (JBool (pp_paused p)))"

definition pg_progress_from_json :: "json \<Rightarrow> pg_progress option" where
  "pg_progress_from_json j =
     (case j of
        JObject m \<Rightarrow>
          do {
            signal_id \<leftarrow> field get_string ''signal_id'' m;
            collections \<leftarrow> field (get_list get_string) ''data_collections'' m;
            conditions \<leftarrow> default_field [] (get_btree get_string) ''additional_conditions'' m;
            surrogate \<leftarrow> opt_field get_string ''surrogate_key'' m;
            current \<leftarrow> field get_usize ''current_collection'' m;
            last_key \<leftarrow> opt_field (get_list get_string) ''last_key'' m;
            maximum_key \<leftarrow> opt_field (get_list get_string) ''maximum_key'' m;
            chunk_sequence \<leftarrow> field get_uint ''chunk_sequence'' m;
            paused \<leftarrow> default_field False get_bool ''paused'' m;
            Some \<lparr>pp_signal_id = signal_id, pp_data_collections = collections,
                  pp_additional_conditions = conditions, pp_surrogate_key = surrogate,
                  pp_current_collection = current, pp_last_key = last_key,
                  pp_maximum_key = maximum_key, pp_chunk_sequence = chunk_sequence,
                  pp_paused = paused\<rparr>
          }
      | _ \<Rightarrow> None)"

definition pg_state_to_json ::
  "pg_table_schema list \<Rightarrow> pg_progress option \<Rightarrow> string list \<Rightarrow> json" where
  "pg_state_to_json tables progress completed =
     JObject ([(''tables'', put_list pg_table_to_json tables)]
              @ skip_none ''incremental_snapshot'' pg_progress_to_json progress
              @ skip_if (completed = []) ''completed_signal_ids'' (put_list JString completed))"

definition pg_state_from_json ::
  "json \<Rightarrow> (pg_table_schema list \<times> pg_progress option \<times> string list) option" where
  "pg_state_from_json j =
     (case j of
        JObject m \<Rightarrow>
          do {
            tables \<leftarrow> field (get_list pg_table_from_json) ''tables'' m;
            progress \<leftarrow> opt_field pg_progress_from_json ''incremental_snapshot'' m;
            completed \<leftarrow> default_field [] (get_list get_string) ''completed_signal_ids'' m;
            Some (tables, progress, completed)
          }
      | _ \<Rightarrow> None)"

definition pg_encode_connector_state ::
  "(table_key \<times> pg_table_schema) list \<Rightarrow> pg_progress option \<Rightarrow> string list \<Rightarrow> state_envelope" where
  "pg_encode_connector_state schemas progress completed =
     state_envelope_new POSTGRES_SCHEMA_HISTORY_FORMAT POSTGRES_SCHEMA_HISTORY_VERSION
       (pg_state_to_json (sorted_tables pg_table_key schemas) progress completed)"

definition pg_encode_schema_history :: "(table_key \<times> pg_table_schema) list \<Rightarrow> state_envelope" where
  "pg_encode_schema_history schemas = pg_encode_connector_state schemas None []"

definition pg_decode_connector_state ::
  "(json \<Rightarrow> string) \<Rightarrow> state_envelope \<Rightarrow> pg_connector_state result" where
  "pg_decode_connector_state json_error e =
     rbind (check_envelope ''PostgreSQL'' ''schema history'' (debug_str POSTGRES_SCHEMA_HISTORY_FORMAT)
              POSTGRES_SCHEMA_HISTORY_FORMAT (\<lambda>v. 1 \<le> v \<and> v \<le> POSTGRES_SCHEMA_HISTORY_VERSION)
              (''1 through '' @ show_word POSTGRES_SCHEMA_HISTORY_VERSION) e)
       (\<lambda>payload. rbind (ok_or (Json (json_error payload)) (pg_state_from_json payload))
          (\<lambda>(tables, progress, completed).
             rbind (insert_tables ''PostgreSQL'' pg_table_key tables [])
               (\<lambda>schemas. Ok \<lparr>pcs_schemas = schemas, pcs_incremental_snapshot = progress,
                              pcs_completed_signal_ids = completed\<rparr>)))"

text \<open>What the connector keeps: a map of tables, sorted conditions and an index within a \<^verbatim>\<open>usize\<close>.\<close>

definition pg_progress_wf :: "pg_progress \<Rightarrow> bool" where
  "pg_progress_wf p =
     (bt_inv (pp_additional_conditions p) \<and> pp_current_collection p < 2 ^ 64)"

definition pg_state_wf :: "pg_connector_state \<Rightarrow> bool" where
  "pg_state_wf s =
     (tables_inv pg_table_key (pcs_schemas s) \<and> pred_option pg_progress_wf (pcs_incremental_snapshot s))"

definition pg_state_eq :: "pg_connector_state \<Rightarrow> pg_connector_state \<Rightarrow> bool" where
  "pg_state_eq s t =
     (map_of (pcs_schemas s) = map_of (pcs_schemas t)
      \<and> pcs_incremental_snapshot s = pcs_incremental_snapshot t
      \<and> pcs_completed_signal_ids s = pcs_completed_signal_ids t)"

lemma pg_column_type_round_trip [codec_simps]:
  "pg_column_type_from_json (pg_column_type_to_json c) = Some c"
  by (simp add: pg_column_type_from_json_def pg_column_type_to_json_def codec_simps)

lemma pg_table_round_trip [codec_simps]: "pg_table_from_json (pg_table_to_json t) = Some t"
  by (simp add: pg_table_from_json_def pg_table_to_json_def codec_simps)

lemma pg_progress_round_trip [codec_simps]:
  "pg_progress_wf p \<Longrightarrow> pg_progress_from_json (pg_progress_to_json p) = Some p"
  by (simp add: pg_progress_from_json_def pg_progress_to_json_def codec_simps pg_progress_wf_def)

lemma pg_progress_to_json_neq_JNull [simp]: "pg_progress_to_json p \<noteq> JNull"
  by (simp add: pg_progress_to_json_def)

lemma pg_state_round_trip [codec_simps]:
  assumes "pred_option pg_progress_wf p"
  shows "pg_state_from_json (pg_state_to_json ts p cs) = Some (ts, p, cs)"
proof -
  have "opt_field pg_progress_from_json ''incremental_snapshot''
      (skip_none ''incremental_snapshot'' pg_progress_to_json p
       @ skip_if (cs = []) ''completed_signal_ids'' (put_list JString cs)) = Some p"
    using assms by (intro opt_field_skip_none) (auto simp: codec_simps)
  then show ?thesis by (simp add: pg_state_from_json_def pg_state_to_json_def codec_simps)
qed

definition pg_accepts :: "state_envelope \<Rightarrow> bool" where
  "pg_accepts e =
     (env_format e = POSTGRES_SCHEMA_HISTORY_FORMAT
      \<and> 1 \<le> env_version e \<and> env_version e \<le> POSTGRES_SCHEMA_HISTORY_VERSION)"

abbreviation pg_encode_state :: "pg_connector_state \<Rightarrow> state_envelope" where
  "pg_encode_state s \<equiv>
     pg_encode_connector_state (pcs_schemas s) (pcs_incremental_snapshot s)
       (pcs_completed_signal_ids s)"

lemma pg_encode_stamped: "pg_accepts (pg_encode_state s)"
  by (simp add: pg_accepts_def pg_encode_connector_state_def state_envelope_new_def
      POSTGRES_SCHEMA_HISTORY_VERSION_def)

lemma pg_decode_encode:
  assumes "pg_state_wf s"
  shows "pg_decode_connector_state json_error (pg_encode_state s)
    = Ok (s\<lparr>pcs_schemas := map (\<lambda>t. (pg_table_key t, t)) (sorted_tables pg_table_key (pcs_schemas s))\<rparr>)"
  using assms pg_encode_stamped [of s]
  by (simp add: pg_decode_connector_state_def check_envelope_Ok pg_accepts_def)
     (simp add: pg_encode_connector_state_def state_envelope_new_def codec_simps pg_state_wf_def
       insert_sorted_tables)

interpretation pg_codec: state_codec pg_encode_state "pg_decode_connector_state json_error"
    pg_state_wf pg_state_eq pg_accepts for json_error :: "json \<Rightarrow> string"
proof
  fix s t :: pg_connector_state
  show "\<exists>t. pg_decode_connector_state json_error (pg_encode_state s) = Ok t \<and> pg_state_wf t
      \<and> pg_state_eq s t" if "pg_state_wf s"
    using that by (auto simp: pg_decode_encode pg_state_wf_def pg_state_eq_def map_of_sorted_tables
        intro!: tables_inv_of_list distinct_sorted_tables)
  show "pg_encode_state s = pg_encode_state t" if "pg_state_wf s" "pg_state_wf t" "pg_state_eq s t"
    using that sorted_tables_canonical [of pg_table_key "pcs_schemas s" "pcs_schemas t"]
    by (simp add: pg_state_wf_def pg_state_eq_def pg_encode_connector_state_def)
  show "pg_accepts (pg_encode_state s)" by (rule pg_encode_stamped)
next
  show "pg_state_eq s u \<Longrightarrow> pg_state_eq t u \<Longrightarrow> pg_state_eq s t" for s t u
    by (simp add: pg_state_eq_def)
  show "\<exists>msg. pg_decode_connector_state json_error e = Err (State msg)" if "\<not> pg_accepts e" for e
    using that unfolding pg_decode_connector_state_def pg_accepts_def by (rule check_envelope_Err)
qed

section \<open>SQL Server\<close>

definition SQLSERVER_STATE_FORMAT :: string where
  "SQLSERVER_STATE_FORMAT = ''rustium.sqlserver.connector-state''"

definition SQLSERVER_STATE_VERSION :: u32 where
  "SQLSERVER_STATE_VERSION = 1"

datatype ms_key_value =
    MkBoolean bool
  | MkInt32 i32
  | MkInt64 i64
  | MkUInt64 u64
  | MkFloat64 u64
  | MkDecimal string
  | MkString string
  | MkBytes "u8 list"
  | MkDate string
  | MkTime string
  | MkTimestamp string
  | MkUuid string

definition tagged :: "string \<Rightarrow> json \<Rightarrow> json" where
  "tagged kind v = JObject [(''kind'', JString kind), (''value'', v)]"

text \<open>\<^verbatim>\<open>#[serde(tag = "kind", content = "value", rename_all = "snake_case")]\<close>.\<close>

fun ms_key_to_json :: "ms_key_value \<Rightarrow> json" where
  "ms_key_to_json (MkBoolean b) = tagged ''boolean'' (JBool b)"
| "ms_key_to_json (MkInt32 i) = tagged ''int32'' (json_int (sint i))"
| "ms_key_to_json (MkInt64 i) = tagged ''int64'' (json_int (sint i))"
| "ms_key_to_json (MkUInt64 u) = tagged ''u_int64'' (json_uint u)"
| "ms_key_to_json (MkFloat64 u) = tagged ''float64'' (json_uint u)"
| "ms_key_to_json (MkDecimal s) = tagged ''decimal'' (JString s)"
| "ms_key_to_json (MkString s) = tagged ''string'' (JString s)"
| "ms_key_to_json (MkBytes bs) = tagged ''bytes'' (put_list json_uint bs)"
| "ms_key_to_json (MkDate s) = tagged ''date'' (JString s)"
| "ms_key_to_json (MkTime s) = tagged ''time'' (JString s)"
| "ms_key_to_json (MkTimestamp s) = tagged ''timestamp'' (JString s)"
| "ms_key_to_json (MkUuid s) = tagged ''uuid'' (JString s)"

definition ms_key_from_json :: "(string \<Rightarrow> string option) \<Rightarrow> json \<Rightarrow> ms_key_value option" where
  "ms_key_from_json parse_uuid j =
     (case j of
        JObject m \<Rightarrow>
          (case field get_string ''kind'' m of
             None \<Rightarrow> None
           | Some t \<Rightarrow>
               if t = ''boolean'' then map_option MkBoolean (field get_bool ''value'' m)
               else if t = ''int32'' then map_option MkInt32 (field get_sint ''value'' m)
               else if t = ''int64'' then map_option MkInt64 (field get_sint ''value'' m)
               else if t = ''u_int64'' then map_option MkUInt64 (field get_uint ''value'' m)
               else if t = ''float64'' then map_option MkFloat64 (field get_uint ''value'' m)
               else if t = ''decimal'' then map_option MkDecimal (field get_string ''value'' m)
               else if t = ''string'' then map_option MkString (field get_string ''value'' m)
               else if t = ''bytes'' then map_option MkBytes (field (get_list get_uint) ''value'' m)
               else if t = ''date'' then map_option MkDate (field get_string ''value'' m)
               else if t = ''time'' then map_option MkTime (field get_string ''value'' m)
               else if t = ''timestamp'' then map_option MkTimestamp (field get_string ''value'' m)
               else if t = ''uuid''
               then map_option MkUuid (field (\<lambda>v. Option.bind (get_string v) parse_uuid) ''value'' m)
               else None)
      | _ \<Rightarrow> None)"

definition ms_key_wf :: "(string \<Rightarrow> string option) \<Rightarrow> ms_key_value \<Rightarrow> bool" where
  "ms_key_wf parse_uuid k = (case k of MkUuid u \<Rightarrow> parse_uuid u = Some u | _ \<Rightarrow> True)"

lemma ms_key_round_trip:
  "ms_key_wf parse_uuid k \<Longrightarrow> ms_key_from_json parse_uuid (ms_key_to_json k) = Some k"
  by (cases k) (simp_all add: ms_key_from_json_def tagged_def codec_simps ms_key_wf_def)


record ms_progress =
  mp_signal_id :: string
  mp_data_collections :: "string list"
  mp_additional_conditions :: "(string \<times> string) list"
  mp_current_collection :: nat
  mp_last_key :: "ms_key_value list option"
  mp_maximum_key :: "ms_key_value list option"
  mp_chunk_sequence :: u64
  mp_paused :: bool

definition ms_progress_to_json :: "ms_progress \<Rightarrow> json" where
  "ms_progress_to_json p =
     JObject ([(''signal_id'', JString (mp_signal_id p)),
               (''data_collections'', put_list JString (mp_data_collections p))]
              @ skip_if (mp_additional_conditions p = []) ''additional_conditions''
                  (put_btree JString (mp_additional_conditions p))
              @ [(''current_collection'', json_usize (mp_current_collection p))]
              @ skip_none ''last_key'' (put_list ms_key_to_json) (mp_last_key p)
              @ skip_none ''maximum_key'' (put_list ms_key_to_json) (mp_maximum_key p)
              @ [(''chunk_sequence'', json_uint (mp_chunk_sequence p))]
              @ skip_if (\<not> mp_paused p) ''paused'' (JBool (mp_paused p)))"

definition ms_progress_from_json :: "(string \<Rightarrow> string option) \<Rightarrow> json \<Rightarrow> ms_progress option" where
  "ms_progress_from_json parse_uuid j =
     (case j of
        JObject m \<Rightarrow>
          do {
            signal_id \<leftarrow> field get_string ''signal_id'' m;
            collections \<leftarrow> field (get_list get_string) ''data_collections'' m;
            conditions \<leftarrow> default_field [] (get_btree get_string) ''additional_conditions'' m;
            current \<leftarrow> field get_usize ''current_collection'' m;
            last_key \<leftarrow> opt_field (get_list (ms_key_from_json parse_uuid)) ''last_key'' m;
            maximum_key \<leftarrow> opt_field (get_list (ms_key_from_json parse_uuid)) ''maximum_key'' m;
            chunk_sequence \<leftarrow> default_field 0 get_uint ''chunk_sequence'' m;
            paused \<leftarrow> default_field False get_bool ''paused'' m;
            Some \<lparr>mp_signal_id = signal_id, mp_data_collections = collections,
                  mp_additional_conditions = conditions, mp_current_collection = current,
                  mp_last_key = last_key, mp_maximum_key = maximum_key,
                  mp_chunk_sequence = chunk_sequence, mp_paused = paused\<rparr>
          }
      | _ \<Rightarrow> None)"

type_synonym ms_connector_state = "ms_progress option \<times> string list"

definition ms_state_to_json :: "ms_connector_state \<Rightarrow> json" where
  "ms_state_to_json s =
     JObject (skip_none ''incremental_snapshot'' ms_progress_to_json (fst s)
              @ skip_if (snd s = []) ''completed_signal_ids'' (put_list JString (snd s)))"

definition ms_state_from_json ::
  "(string \<Rightarrow> string option) \<Rightarrow> json \<Rightarrow> ms_connector_state option" where
  "ms_state_from_json parse_uuid j =
     (case j of
        JObject m \<Rightarrow>
          do {
            progress \<leftarrow> opt_field (ms_progress_from_json parse_uuid) ''incremental_snapshot'' m;
            completed \<leftarrow> default_field [] (get_list get_string) ''completed_signal_ids'' m;
            Some (progress, completed)
          }
      | _ \<Rightarrow> None)"

definition ms_encode_connector_state :: "ms_connector_state \<Rightarrow> state_envelope" where
  "ms_encode_connector_state s =
     state_envelope_new SQLSERVER_STATE_FORMAT SQLSERVER_STATE_VERSION (ms_state_to_json s)"

definition ms_decode_connector_state ::
  "(string \<Rightarrow> string option) \<Rightarrow> (json \<Rightarrow> string) \<Rightarrow> state_envelope \<Rightarrow> ms_connector_state result" where
  "ms_decode_connector_state parse_uuid json_error e =
     rbind (check_envelope ''SQL Server'' ''connector state'' (debug_str SQLSERVER_STATE_FORMAT)
              SQLSERVER_STATE_FORMAT (\<lambda>v. v = SQLSERVER_STATE_VERSION)
              (show_word SQLSERVER_STATE_VERSION) e)
       (\<lambda>payload. ok_or (Json (json_error payload)) (ms_state_from_json parse_uuid payload))"

definition ms_progress_wf :: "(string \<Rightarrow> string option) \<Rightarrow> ms_progress \<Rightarrow> bool" where
  "ms_progress_wf parse_uuid p =
     (bt_inv (mp_additional_conditions p) \<and> mp_current_collection p < 2 ^ 64
      \<and> pred_option (list_all (ms_key_wf parse_uuid)) (mp_last_key p)
      \<and> pred_option (list_all (ms_key_wf parse_uuid)) (mp_maximum_key p))"

definition ms_state_wf :: "(string \<Rightarrow> string option) \<Rightarrow> ms_connector_state \<Rightarrow> bool" where
  "ms_state_wf parse_uuid s = pred_option (ms_progress_wf parse_uuid) (fst s)"

definition ms_accepts :: "state_envelope \<Rightarrow> bool" where
  "ms_accepts e = (env_format e = SQLSERVER_STATE_FORMAT \<and> env_version e = SQLSERVER_STATE_VERSION)"

lemma get_keys [codec_simps]:
  "list_all (ms_key_wf parse_uuid) ks \<Longrightarrow>
   get_list (ms_key_from_json parse_uuid) (put_list ms_key_to_json ks) = Some ks"
  by (intro get_list_put) (auto simp: list_all_iff ms_key_round_trip)

lemma ms_progress_round_trip [codec_simps]:
  "ms_progress_wf parse_uuid p \<Longrightarrow> ms_progress_from_json parse_uuid (ms_progress_to_json p) = Some p"
  by (cases "mp_last_key p"; cases "mp_maximum_key p")
     (simp_all add: ms_progress_from_json_def ms_progress_to_json_def codec_simps ms_progress_wf_def)

lemma ms_progress_to_json_neq_JNull [simp]: "ms_progress_to_json p \<noteq> JNull"
  by (simp add: ms_progress_to_json_def)

lemma ms_state_round_trip [codec_simps]:
  assumes "ms_state_wf parse_uuid s"
  shows "ms_state_from_json parse_uuid (ms_state_to_json s) = Some s"
proof -
  have "opt_field (ms_progress_from_json parse_uuid) ''incremental_snapshot''
      (skip_none ''incremental_snapshot'' ms_progress_to_json (fst s)
       @ skip_if (snd s = []) ''completed_signal_ids'' (put_list JString (snd s))) = Some (fst s)"
    using assms unfolding ms_state_wf_def
    by (intro opt_field_skip_none) (auto simp: codec_simps)
  then show ?thesis by (simp add: ms_state_from_json_def ms_state_to_json_def codec_simps)
qed

interpretation ms_codec: state_codec ms_encode_connector_state
    "ms_decode_connector_state parse_uuid json_error" "ms_state_wf parse_uuid" "(=)" ms_accepts
    for parse_uuid :: "string \<Rightarrow> string option" and json_error :: "json \<Rightarrow> string"
proof
  show stamped: "ms_accepts (ms_encode_connector_state s)" for s
    by (simp add: ms_accepts_def ms_encode_connector_state_def state_envelope_new_def)
  have "ms_decode_connector_state parse_uuid json_error (ms_encode_connector_state s) = Ok s"
    if "ms_state_wf parse_uuid s" for s
    using that stamped [of s]
    by (simp add: ms_decode_connector_state_def check_envelope_Ok ms_accepts_def)
       (simp add: ms_encode_connector_state_def state_envelope_new_def codec_simps)
  then show "\<exists>t. ms_decode_connector_state parse_uuid json_error (ms_encode_connector_state s) = Ok t
      \<and> ms_state_wf parse_uuid t \<and> s = t" if "ms_state_wf parse_uuid s" for s
    using that by blast
  show "\<exists>msg. ms_decode_connector_state parse_uuid json_error e = Err (State msg)"
    if "\<not> ms_accepts e" for e
    using that unfolding ms_decode_connector_state_def ms_accepts_def by (rule check_envelope_Err)
qed auto

section \<open>MySQL\<close>

definition MYSQL_SCHEMA_HISTORY_FORMAT :: string where
  "MYSQL_SCHEMA_HISTORY_FORMAT = ''rustium.mysql.schema-history''"

definition MYSQL_SCHEMA_HISTORY_VERSION :: u32 where
  "MYSQL_SCHEMA_HISTORY_VERSION = 3"

record my_table_schema =
  mts_database :: string
  mts_table :: string
  mts_event_schema :: event_schema

definition my_table_key :: "my_table_schema \<Rightarrow> table_key" where
  "my_table_key t = (mts_database t, mts_table t)"

record my_date =
  md_year :: u16
  md_month :: u8
  md_day :: u8
  md_hour :: u8
  md_minute :: u8
  md_second :: u8
  md_micros :: u32

record my_time =
  mt_negative :: bool
  mt_days :: u32
  mt_hours :: u8
  mt_minutes :: u8
  mt_seconds :: u8
  mt_micros :: u32

datatype my_key_value =
    KvInt i64
  | KvUInt u64
  | KvFloat u32
  | KvDouble u64
  | KvBytes "u8 list"
  | KvDate my_date
  | KvTime my_time

record my_progress =
  yp_signal_id :: string
  yp_data_collections :: "string list"
  yp_additional_conditions :: "(string \<times> string) list"
  yp_current_collection :: nat
  yp_offset :: u64
  yp_last_key :: "my_key_value list option"
  yp_maximum_key :: "my_key_value list option"
  yp_chunk_sequence :: u64
  yp_paused :: bool

record my_connector_state =
  ycs_schemas :: "(table_key \<times> my_table_schema) list"
  ycs_incremental_snapshot :: "my_progress option"
  ycs_completed_signal_ids :: "string list"

definition my_date_to_json :: "my_date \<Rightarrow> json" where
  "my_date_to_json d =
     JObject [(''year'', json_uint (md_year d)), (''month'', json_uint (md_month d)),
              (''day'', json_uint (md_day d)), (''hour'', json_uint (md_hour d)),
              (''minute'', json_uint (md_minute d)), (''second'', json_uint (md_second d)),
              (''micros'', json_uint (md_micros d))]"

definition my_date_from_json :: "json \<Rightarrow> my_date option" where
  "my_date_from_json j =
     (case j of
        JObject m \<Rightarrow>
          do {
            year \<leftarrow> field get_uint ''year'' m;
            month \<leftarrow> field get_uint ''month'' m;
            day \<leftarrow> field get_uint ''day'' m;
            hour \<leftarrow> field get_uint ''hour'' m;
            minute \<leftarrow> field get_uint ''minute'' m;
            second \<leftarrow> field get_uint ''second'' m;
            micros \<leftarrow> field get_uint ''micros'' m;
            Some \<lparr>md_year = year, md_month = month, md_day = day, md_hour = hour,
                  md_minute = minute, md_second = second, md_micros = micros\<rparr>
          }
      | _ \<Rightarrow> None)"

definition my_time_to_json :: "my_time \<Rightarrow> json" where
  "my_time_to_json t =
     JObject [(''negative'', JBool (mt_negative t)), (''days'', json_uint (mt_days t)),
              (''hours'', json_uint (mt_hours t)), (''minutes'', json_uint (mt_minutes t)),
              (''seconds'', json_uint (mt_seconds t)), (''micros'', json_uint (mt_micros t))]"

definition my_time_from_json :: "json \<Rightarrow> my_time option" where
  "my_time_from_json j =
     (case j of
        JObject m \<Rightarrow>
          do {
            negative \<leftarrow> field get_bool ''negative'' m;
            days \<leftarrow> field get_uint ''days'' m;
            hours \<leftarrow> field get_uint ''hours'' m;
            minutes \<leftarrow> field get_uint ''minutes'' m;
            seconds \<leftarrow> field get_uint ''seconds'' m;
            micros \<leftarrow> field get_uint ''micros'' m;
            Some \<lparr>mt_negative = negative, mt_days = days, mt_hours = hours, mt_minutes = minutes,
                  mt_seconds = seconds, mt_micros = micros\<rparr>
          }
      | _ \<Rightarrow> None)"

fun my_key_to_json :: "my_key_value \<Rightarrow> json" where
  "my_key_to_json (KvInt i) = tagged ''int'' (json_int (sint i))"
| "my_key_to_json (KvUInt u) = tagged ''u_int'' (json_uint u)"
| "my_key_to_json (KvFloat u) = tagged ''float'' (json_uint u)"
| "my_key_to_json (KvDouble u) = tagged ''double'' (json_uint u)"
| "my_key_to_json (KvBytes bs) = tagged ''bytes'' (put_list json_uint bs)"
| "my_key_to_json (KvDate d) = tagged ''date'' (my_date_to_json d)"
| "my_key_to_json (KvTime t) = tagged ''time'' (my_time_to_json t)"

definition my_key_from_json :: "json \<Rightarrow> my_key_value option" where
  "my_key_from_json j =
     (case j of
        JObject m \<Rightarrow>
          (case field get_string ''kind'' m of
             None \<Rightarrow> None
           | Some t \<Rightarrow>
               if t = ''int'' then map_option KvInt (field get_sint ''value'' m)
               else if t = ''u_int'' then map_option KvUInt (field get_uint ''value'' m)
               else if t = ''float'' then map_option KvFloat (field get_uint ''value'' m)
               else if t = ''double'' then map_option KvDouble (field get_uint ''value'' m)
               else if t = ''bytes'' then map_option KvBytes (field (get_list get_uint) ''value'' m)
               else if t = ''date'' then map_option KvDate (field my_date_from_json ''value'' m)
               else if t = ''time'' then map_option KvTime (field my_time_from_json ''value'' m)
               else None)
      | _ \<Rightarrow> None)"

definition my_table_to_json :: "my_table_schema \<Rightarrow> json" where
  "my_table_to_json t =
     JObject [(''database'', JString (mts_database t)), (''table'', JString (mts_table t)),
              (''event_schema'', event_schema_to_json (mts_event_schema t))]"

definition my_table_from_json :: "json \<Rightarrow> my_table_schema option" where
  "my_table_from_json j =
     (case j of
        JObject m \<Rightarrow>
          do {
            database \<leftarrow> field get_string ''database'' m;
            table \<leftarrow> field get_string ''table'' m;
            event_schema \<leftarrow> field event_schema_from_json ''event_schema'' m;
            Some \<lparr>mts_database = database, mts_table = table, mts_event_schema = event_schema\<rparr>
          }
      | _ \<Rightarrow> None)"

definition my_progress_to_json :: "my_progress \<Rightarrow> json" where
  "my_progress_to_json p =
     JObject ([(''signal_id'', JString (yp_signal_id p)),
               (''data_collections'', put_list JString (yp_data_collections p))]
              @ skip_if (yp_additional_conditions p = []) ''additional_conditions''
                  (put_btree JString (yp_additional_conditions p))
              @ [(''current_collection'', json_usize (yp_current_collection p)),
                 (''offset'', json_uint (yp_offset p))]
              @ skip_none ''last_key'' (put_list my_key_to_json) (yp_last_key p)
              @ skip_none ''maximum_key'' (put_list my_key_to_json) (yp_maximum_key p)
              @ [(''chunk_sequence'', json_uint (yp_chunk_sequence p))]
              @ skip_if (\<not> yp_paused p) ''paused'' (JBool (yp_paused p)))"

definition my_progress_from_json :: "json \<Rightarrow> my_progress option" where
  "my_progress_from_json j =
     (case j of
        JObject m \<Rightarrow>
          do {
            signal_id \<leftarrow> field get_string ''signal_id'' m;
            collections \<leftarrow> field (get_list get_string) ''data_collections'' m;
            conditions \<leftarrow> default_field [] (get_btree get_string) ''additional_conditions'' m;
            current \<leftarrow> field get_usize ''current_collection'' m;
            offset \<leftarrow> default_field 0 get_uint ''offset'' m;
            last_key \<leftarrow> opt_field (get_list my_key_from_json) ''last_key'' m;
            maximum_key \<leftarrow> opt_field (get_list my_key_from_json) ''maximum_key'' m;
            chunk_sequence \<leftarrow> default_field 0 get_uint ''chunk_sequence'' m;
            paused \<leftarrow> default_field False get_bool ''paused'' m;
            Some \<lparr>yp_signal_id = signal_id, yp_data_collections = collections,
                  yp_additional_conditions = conditions, yp_current_collection = current,
                  yp_offset = offset, yp_last_key = last_key, yp_maximum_key = maximum_key,
                  yp_chunk_sequence = chunk_sequence, yp_paused = paused\<rparr>
          }
      | _ \<Rightarrow> None)"

definition my_state_to_json ::
  "my_table_schema list \<Rightarrow> my_progress option \<Rightarrow> string list \<Rightarrow> json" where
  "my_state_to_json tables progress completed =
     JObject ([(''tables'', put_list my_table_to_json tables)]
              @ skip_none ''incremental_snapshot'' my_progress_to_json progress
              @ skip_if (completed = []) ''completed_signal_ids'' (put_list JString completed))"

definition my_state_from_json ::
  "json \<Rightarrow> (my_table_schema list \<times> my_progress option \<times> string list) option" where
  "my_state_from_json j =
     (case j of
        JObject m \<Rightarrow>
          do {
            tables \<leftarrow> field (get_list my_table_from_json) ''tables'' m;
            progress \<leftarrow> opt_field my_progress_from_json ''incremental_snapshot'' m;
            completed \<leftarrow> default_field [] (get_list get_string) ''completed_signal_ids'' m;
            Some (tables, progress, completed)
          }
      | _ \<Rightarrow> None)"

definition my_encode_connector_state ::
  "(table_key \<times> my_table_schema) list \<Rightarrow> my_progress option \<Rightarrow> string list \<Rightarrow> state_envelope" where
  "my_encode_connector_state schemas progress completed =
     state_envelope_new MYSQL_SCHEMA_HISTORY_FORMAT MYSQL_SCHEMA_HISTORY_VERSION
       (my_state_to_json (sorted_tables my_table_key schemas) progress completed)"

definition my_encode_schema_history :: "(table_key \<times> my_table_schema) list \<Rightarrow> state_envelope" where
  "my_encode_schema_history schemas =
     state_envelope_new MYSQL_SCHEMA_HISTORY_FORMAT MYSQL_SCHEMA_HISTORY_VERSION
       (my_state_to_json (sorted_tables my_table_key schemas) None [])"

definition my_decode_connector_state ::
  "(json \<Rightarrow> string) \<Rightarrow> state_envelope \<Rightarrow> my_connector_state result" where
  "my_decode_connector_state json_error e =
     rbind (check_envelope ''MySQL'' ''schema history'' (debug_str MYSQL_SCHEMA_HISTORY_FORMAT)
              MYSQL_SCHEMA_HISTORY_FORMAT (\<lambda>v. 1 \<le> v \<and> v \<le> MYSQL_SCHEMA_HISTORY_VERSION)
              (''1 through '' @ show_word MYSQL_SCHEMA_HISTORY_VERSION) e)
       (\<lambda>payload. rbind (ok_or (Json (json_error payload)) (my_state_from_json payload))
          (\<lambda>(tables, progress, completed).
             rbind (insert_tables ''MySQL'' my_table_key tables [])
               (\<lambda>schemas. Ok \<lparr>ycs_schemas = schemas, ycs_incremental_snapshot = progress,
                              ycs_completed_signal_ids = completed\<rparr>)))"

definition my_progress_wf :: "my_progress \<Rightarrow> bool" where
  "my_progress_wf p =
     (bt_inv (yp_additional_conditions p) \<and> yp_current_collection p < 2 ^ 64)"

definition my_state_wf :: "my_connector_state \<Rightarrow> bool" where
  "my_state_wf s =
     (tables_inv my_table_key (ycs_schemas s) \<and> pred_option my_progress_wf (ycs_incremental_snapshot s))"

definition my_state_eq :: "my_connector_state \<Rightarrow> my_connector_state \<Rightarrow> bool" where
  "my_state_eq s t =
     (map_of (ycs_schemas s) = map_of (ycs_schemas t)
      \<and> ycs_incremental_snapshot s = ycs_incremental_snapshot t
      \<and> ycs_completed_signal_ids s = ycs_completed_signal_ids t)"

definition my_accepts :: "state_envelope \<Rightarrow> bool" where
  "my_accepts e =
     (env_format e = MYSQL_SCHEMA_HISTORY_FORMAT
      \<and> 1 \<le> env_version e \<and> env_version e \<le> MYSQL_SCHEMA_HISTORY_VERSION)"

abbreviation my_encode_state :: "my_connector_state \<Rightarrow> state_envelope" where
  "my_encode_state s \<equiv>
     my_encode_connector_state (ycs_schemas s) (ycs_incremental_snapshot s)
       (ycs_completed_signal_ids s)"

lemma my_date_round_trip [codec_simps]: "my_date_from_json (my_date_to_json d) = Some d"
  by (simp add: my_date_from_json_def my_date_to_json_def codec_simps)

lemma my_time_round_trip [codec_simps]: "my_time_from_json (my_time_to_json t) = Some t"
  by (simp add: my_time_from_json_def my_time_to_json_def codec_simps)

lemma my_key_round_trip [codec_simps]: "my_key_from_json (my_key_to_json k) = Some k"
  by (cases k) (simp_all add: my_key_from_json_def tagged_def codec_simps)

lemma my_table_round_trip [codec_simps]: "my_table_from_json (my_table_to_json t) = Some t"
  by (simp add: my_table_from_json_def my_table_to_json_def codec_simps)

lemma my_progress_round_trip [codec_simps]:
  "my_progress_wf p \<Longrightarrow> my_progress_from_json (my_progress_to_json p) = Some p"
  by (simp add: my_progress_from_json_def my_progress_to_json_def codec_simps my_progress_wf_def)

lemma my_progress_to_json_neq_JNull [simp]: "my_progress_to_json p \<noteq> JNull"
  by (simp add: my_progress_to_json_def)

lemma my_state_round_trip [codec_simps]:
  assumes "pred_option my_progress_wf p"
  shows "my_state_from_json (my_state_to_json ts p cs) = Some (ts, p, cs)"
proof -
  have "opt_field my_progress_from_json ''incremental_snapshot''
      (skip_none ''incremental_snapshot'' my_progress_to_json p
       @ skip_if (cs = []) ''completed_signal_ids'' (put_list JString cs)) = Some p"
    using assms by (intro opt_field_skip_none) (auto simp: codec_simps)
  then show ?thesis by (simp add: my_state_from_json_def my_state_to_json_def codec_simps)
qed

lemma my_encode_stamped: "my_accepts (my_encode_state s)"
  by (simp add: my_accepts_def my_encode_connector_state_def state_envelope_new_def
      MYSQL_SCHEMA_HISTORY_VERSION_def)

lemma my_decode_encode:
  assumes "my_state_wf s"
  shows "my_decode_connector_state json_error (my_encode_state s)
    = Ok (s\<lparr>ycs_schemas := map (\<lambda>t. (my_table_key t, t)) (sorted_tables my_table_key (ycs_schemas s))\<rparr>)"
  using assms my_encode_stamped [of s]
  by (simp add: my_decode_connector_state_def check_envelope_Ok my_accepts_def)
     (simp add: my_encode_connector_state_def state_envelope_new_def codec_simps my_state_wf_def
       insert_sorted_tables)

interpretation my_codec: state_codec my_encode_state "my_decode_connector_state json_error"
    my_state_wf my_state_eq my_accepts for json_error :: "json \<Rightarrow> string"
proof
  fix s t :: my_connector_state
  show "\<exists>t. my_decode_connector_state json_error (my_encode_state s) = Ok t \<and> my_state_wf t
      \<and> my_state_eq s t" if "my_state_wf s"
    using that by (auto simp: my_decode_encode my_state_wf_def my_state_eq_def map_of_sorted_tables
        intro!: tables_inv_of_list distinct_sorted_tables)
  show "my_encode_state s = my_encode_state t" if "my_state_wf s" "my_state_wf t" "my_state_eq s t"
    using that sorted_tables_canonical [of my_table_key "ycs_schemas s" "ycs_schemas t"]
    by (simp add: my_state_wf_def my_state_eq_def my_encode_connector_state_def)
  show "my_accepts (my_encode_state s)" by (rule my_encode_stamped)
next
  show "my_state_eq s u \<Longrightarrow> my_state_eq t u \<Longrightarrow> my_state_eq s t" for s t u
    by (simp add: my_state_eq_def)
  show "\<exists>msg. my_decode_connector_state json_error e = Err (State msg)" if "\<not> my_accepts e" for e
    using that unfolding my_decode_connector_state_def my_accepts_def by (rule check_envelope_Err)
qed

lemma pg_duplicate_refused:
  assumes "pg_state_from_json (env_payload e) = Some (ts, p, cs)" "\<not> distinct (map pg_table_key ts)"
  shows "\<exists>msg. pg_decode_connector_state json_error e = Err (State msg)"
proof (cases "pg_accepts e")
  case True
  obtain msg where "insert_tables ''PostgreSQL'' pg_table_key ts [] = Err (State msg)"
    using insert_tables_duplicate assms(2) by blast
  with True assms(1) show ?thesis
    by (simp add: pg_decode_connector_state_def check_envelope_Ok pg_accepts_def)
qed (rule pg_codec.guarded)

lemma my_duplicate_refused:
  assumes "my_state_from_json (env_payload e) = Some (ts, p, cs)" "\<not> distinct (map my_table_key ts)"
  shows "\<exists>msg. my_decode_connector_state json_error e = Err (State msg)"
proof (cases "my_accepts e")
  case True
  obtain msg where "insert_tables ''MySQL'' my_table_key ts [] = Err (State msg)"
    using insert_tables_duplicate assms(2) by blast
  with True assms(1) show ?thesis
    by (simp add: my_decode_connector_state_def check_envelope_Ok my_accepts_def)
qed (rule my_codec.guarded)

section \<open>Properties\<close>

text \<open>
  C16. A connector state survives a restart: the envelope that a connector writes into its
  checkpoint is decoded to the same state (the same map of tables, the same progress of the
  incremental snapshot, the same completed signals), which is encoded to the same envelope again.
\<close>

theorem connector_state_round_trip:
  "(pg_state_wf p \<longrightarrow>
      (\<exists>t. pg_decode_connector_state json_error (pg_encode_state p) = Ok t \<and> pg_state_eq p t
        \<and> pg_encode_state t = pg_encode_state p))
   \<and> (my_state_wf y \<longrightarrow>
      (\<exists>t. my_decode_connector_state json_error (my_encode_state y) = Ok t \<and> my_state_eq y t
        \<and> my_encode_state t = my_encode_state y))
   \<and> (ms_state_wf parse_uuid m \<longrightarrow>
      ms_decode_connector_state parse_uuid json_error (ms_encode_connector_state m) = Ok m)"
proof (intro conjI impI)
  show "ms_decode_connector_state parse_uuid json_error (ms_encode_connector_state m) = Ok m"
    if "ms_state_wf parse_uuid m"
    using ms_codec.stable [OF that, of json_error] by blast
qed (rule pg_codec.stable my_codec.stable, assumption)+

definition sample_table :: "string \<Rightarrow> pg_table_schema" where
  "sample_table name =
     \<lparr>pts_schema = ''public'', pts_table = name,
      pts_event_schema =
        \<lparr>es_name = name, es_version = 1,
         es_fields = [\<lparr>fs_name = ''id'', fs_type_name = ''int4'', fs_optional = False,
                       fs_primary_key = True\<rparr>]\<rparr>,
      pts_column_types = [\<lparr>pct_name = ''id'', pct_type_oid = 23, pct_type_modifier = - 1\<rparr>],
      pts_opaque_columns = []\<rparr>"

definition sample_pg_state :: "string list \<Rightarrow> pg_connector_state" where
  "sample_pg_state names =
     \<lparr>pcs_schemas = map (\<lambda>n. ((''public'', n), sample_table n)) names,
      pcs_incremental_snapshot =
        Some \<lparr>pp_signal_id = ''s1'', pp_data_collections = [''public.orders''],
              pp_additional_conditions = [(''public.orders'', ''id > 7'')], pp_surrogate_key = None,
              pp_current_collection = 0, pp_last_key = Some [''41''], pp_maximum_key = None,
              pp_chunk_sequence = 5, pp_paused = False\<rparr>,
      pcs_completed_signal_ids = []\<rparr>"

lemma sample_pg_state_wf: "distinct names \<Longrightarrow> pg_state_wf (sample_pg_state names)"
  by (simp add: pg_state_wf_def sample_pg_state_def tables_inv_def im_inv_def comp_def inj_on_def
      list_all_iff pg_table_key_def sample_table_def pg_progress_wf_def bt_inv_def distinct_map)

theorem connector_state_round_trip_witness:
  "\<exists>t. pg_decode_connector_state (\<lambda>_. []) (pg_encode_state (sample_pg_state [''orders'', ''items''])) = Ok t
     \<and> pg_state_eq (sample_pg_state [''orders'', ''items'']) t"
  using connector_state_round_trip [of "sample_pg_state [''orders'', ''items'']" "\<lambda>_. []" undefined
      undefined undefined] sample_pg_state_wf [of "[''orders'', ''items'']"]
  by auto

text \<open>
  The envelope depends on the state only, never on the iteration order of the hash map that
  holds the tables, and determines it: two states have the same envelope exactly when they agree as
  maps of tables, in the progress and in the completed signals.
\<close>

theorem envelope_determined_by_state:
  "(pg_state_wf s \<and> pg_state_wf t \<longrightarrow> (pg_encode_state s = pg_encode_state t \<longleftrightarrow> pg_state_eq s t))
   \<and> (my_state_wf y \<and> my_state_wf z \<longrightarrow> (my_encode_state y = my_encode_state z \<longleftrightarrow> my_state_eq y z))"
  using pg_codec.determines [of s t] my_codec.determines [of y z] by blast

theorem envelope_determined_by_state_witness:
  "pg_encode_state (sample_pg_state [''orders'', ''items''])
     = pg_encode_state (sample_pg_state [''items'', ''orders''])
   \<and> pg_encode_state (sample_pg_state [''orders''])
     \<noteq> pg_encode_state (sample_pg_state [''items''])"
proof -
  let ?a = "sample_pg_state [''orders'', ''items'']" and ?b = "sample_pg_state [''items'', ''orders'']"
  let ?c = "sample_pg_state [''orders'']" and ?d = "sample_pg_state [''items'']"
  have "pg_state_eq ?a ?b" "\<not> pg_state_eq ?c ?d"
    by (auto simp: pg_state_eq_def sample_pg_state_def fun_eq_iff)
  then show ?thesis
    using envelope_determined_by_state [of ?a ?b] envelope_determined_by_state [of ?c ?d]
    by (simp add: sample_pg_state_wf)
qed

text \<open>
  What a connector refuses when it resumes: an envelope of another connector or of a later
  version, and a schema history that holds two tables of the same name. In every case the answer is
  a state error, and nothing is resumed.
\<close>

theorem foreign_state_refused:
  "(\<not> pg_accepts e \<longrightarrow> (\<exists>msg. pg_decode_connector_state json_error e = Err (State msg)))
   \<and> (\<not> my_accepts e \<longrightarrow> (\<exists>msg. my_decode_connector_state json_error e = Err (State msg)))
   \<and> (\<not> ms_accepts e \<longrightarrow> (\<exists>msg. ms_decode_connector_state parse_uuid json_error e = Err (State msg)))
   \<and> (pg_state_from_json (env_payload e) = Some (ts, p, cs) \<and> \<not> distinct (map pg_table_key ts) \<longrightarrow>
        (\<exists>msg. pg_decode_connector_state json_error e = Err (State msg)))
   \<and> (my_state_from_json (env_payload e) = Some (us, q, cs) \<and> \<not> distinct (map my_table_key us) \<longrightarrow>
        (\<exists>msg. my_decode_connector_state json_error e = Err (State msg)))"
  using pg_codec.guarded [of e json_error] my_codec.guarded [of e json_error]
    ms_codec.guarded [of e parse_uuid json_error] pg_duplicate_refused [of e ts p cs json_error]
    my_duplicate_refused [of e us q cs json_error]
  by blast

theorem foreign_state_refused_witness:
  "(\<exists>msg. pg_decode_connector_state (\<lambda>_. []) (my_encode_schema_history []) = Err (State msg))
   \<and> (\<exists>msg. pg_decode_connector_state (\<lambda>_. [])
         (state_envelope_new POSTGRES_SCHEMA_HISTORY_FORMAT 6
            (pg_state_to_json [sample_table ''a'', sample_table ''a''] None [])) = Err (State msg))"
proof -
  let ?f = "my_encode_schema_history []"
  let ?d = "state_envelope_new POSTGRES_SCHEMA_HISTORY_FORMAT 6
    (pg_state_to_json [sample_table ''a'', sample_table ''a''] None [])"
  have "\<not> pg_accepts ?f"
    by (simp add: pg_accepts_def my_encode_schema_history_def state_envelope_new_def
        POSTGRES_SCHEMA_HISTORY_FORMAT_def MYSQL_SCHEMA_HISTORY_FORMAT_def)
  moreover have "pg_state_from_json (env_payload ?d) = Some ([sample_table ''a'', sample_table ''a''], None, [])"
    by (simp add: state_envelope_new_def codec_simps)
  moreover have "\<not> distinct (map pg_table_key [sample_table ''a'', sample_table ''a''])" by simp
  ultimately show ?thesis
    using foreign_state_refused [of ?f "\<lambda>_. []"] foreign_state_refused [of ?d "\<lambda>_. []"] by blast
qed

end
