(* ===== verification/Pg_Schema.thy ===== *)
theory Pg_Schema
  imports Connector_State
begin

text \<open>
  Table schemas of the PostgreSQL connector: the catalog queries, the resolution of types and the
  merging of checkpointed with current schemas of \<^verbatim>\<open>crates/rustium-postgresql/src/source.rs\<close>, and the
  schema of a relation message of \<^verbatim>\<open>crates/rustium-postgresql/src/schema_history.rs\<close>.

  The replication library is a parameter: a connection executes a statement in a world \<open>'w\<close> and
  returns the rows of the result, each a list of optional texts, or an error text; identifiers and
  literals are quoted by the library and quoting can fail.
\<close>

section \<open>The connection\<close>

type_synonym pg_result = "string option list list"

record ('c, 'w) pg_env =
  pe_connect :: "'w \<Rightarrow> 'c result \<times> 'w"
  pe_exec :: "'c \<Rightarrow> string \<Rightarrow> 'w \<Rightarrow> (string + pg_result) \<times> 'w"
  pe_quote_ident :: "string \<Rightarrow> string + string"
  pe_quote_literal :: "string \<Rightarrow> string + string"

record pg_config =
  pgc_database :: string
  pgc_slot_name :: string
  pgc_read_only :: bool
  pgc_signal_data_collection :: "string option"
  pgc_incremental_snapshot_chunk_size :: nat
  pgc_include_unknown_datatypes :: bool
  pgc_hstore_handling_mode :: string
  pgc_interval_handling_mode :: string
  pgc_money_fraction_digits :: "16 word"

definition pg_error :: "string + 'a \<Rightarrow> 'a result" where
  "pg_error r = (case r of Inl msg \<Rightarrow> Err (Source msg) | Inr x \<Rightarrow> Ok x)"

definition pg_exec :: "('c, 'w) pg_env \<Rightarrow> 'c \<Rightarrow> string \<Rightarrow> ('w, pg_result) stateful" where
  "pg_exec env c query w = (case pe_exec env c query w of (r, w') \<Rightarrow> (pg_error r, w'))"

definition quote_ident :: "('c, 'w) pg_env \<Rightarrow> string \<Rightarrow> string result" where
  "quote_ident env s = pg_error (pe_quote_ident env s)"

definition quote_literal :: "('c, 'w) pg_env \<Rightarrow> string \<Rightarrow> string result" where
  "quote_literal env s = pg_error (pe_quote_literal env s)"

definition get_value :: "pg_result \<Rightarrow> nat \<Rightarrow> nat \<Rightarrow> string option" where
  "get_value res i j = (if i < length res \<and> j < length (res ! i) then res ! i ! j else None)"

definition required_value :: "pg_result \<Rightarrow> nat \<Rightarrow> nat \<Rightarrow> string \<Rightarrow> string result" where
  "required_value res i j label = ok_or (Source (''missing '' @ label)) (get_value res i j)"

section \<open>Types\<close>

record type_identity =
  ti_kind :: string
  ti_namespace :: string
  ti_name :: string

definition postgres_scalar_type_supported :: "type_identity \<Rightarrow> bool" where
  "postgres_scalar_type_supported t =
     (if ti_kind t \<in> {''r'', ''m''} then True
      else if ti_namespace t \<noteq> ''pg_catalog''
      then ti_name t \<in> {''citext'', ''hstore'', ''ltree'', ''isbn'', ''geometry'', ''geography'', ''vector'',
                        ''halfvec'', ''sparsevec''}
      else ti_name t \<in>
        {''bool'', ''bytea'', ''char'', ''name'', ''int8'', ''int2'', ''int4'', ''text'', ''oid'', ''tid'', ''xid'',
         ''xid8'', ''cid'', ''json'', ''jsonb'', ''jsonpath'', ''xml'', ''point'', ''lseg'', ''path'', ''box'',
         ''polygon'', ''line'', ''circle'', ''float4'', ''float8'', ''money'', ''macaddr'', ''macaddr8'', ''inet'',
         ''cidr'', ''bpchar'', ''varchar'', ''date'', ''time'', ''timestamp'', ''timestamptz'', ''interval'',
         ''timetz'', ''bit'', ''varbit'', ''numeric'', ''uuid'', ''pg_lsn'', ''tsvector'', ''tsquery'', ''regproc'',
         ''regprocedure'', ''regoper'', ''regoperator'', ''regclass'', ''regcollation'', ''regtype'', ''regrole'',
         ''regnamespace'', ''regconfig'', ''regdictionary'', ''pg_snapshot'', ''txid_snapshot''})"

definition postgres_type_supported ::
  "type_identity \<Rightarrow> type_identity \<Rightarrow> type_identity \<Rightarrow> type_identity \<Rightarrow> bool" where
  "postgres_type_supported root element base element_base =
     (if ti_kind root = ''e'' then True
      else if ti_kind root = ''d'' then ti_kind base = ''e'' \<or> postgres_scalar_type_supported base
      else if ti_kind element \<noteq> []
      then ti_kind element = ''e'' \<or> postgres_scalar_type_supported element
           \<or> ti_kind element = ''d''
             \<and> (ti_kind element_base = ''e'' \<or> postgres_scalar_type_supported element_base)
      else postgres_scalar_type_supported root)"

text \<open>The twelve texts of a row that describe a type, in the order of the queries.\<close>

definition identity_at :: "string list \<Rightarrow> nat \<Rightarrow> type_identity" where
  "identity_at vs i = \<lparr>ti_kind = vs ! i, ti_namespace = vs ! (i + 1), ti_name = vs ! (i + 2)\<rparr>"

definition supported_values :: "string list \<Rightarrow> bool" where
  "supported_values vs =
     postgres_type_supported (identity_at vs 0) (identity_at vs 3) (identity_at vs 6) (identity_at vs 9)"

definition resolve_type_query :: "string \<Rightarrow> string \<Rightarrow> string" where
  "resolve_type_query type_modifier type_oid = lines_text [
      ''SELECT format_type(t.oid, '' @ type_modifier @ ''),'',
      ''                      t.typtype::text, n.nspname, t.typname,'',
      ''                      COALESCE(element.typtype::text, '' @ squote [] @ ''),'',
      ''                      COALESCE(element_namespace.nspname, '' @ squote [] @ ''),'',
      ''                      COALESCE(element.typname, '' @ squote [] @ ''),'',
      ''                      COALESCE(base.typtype::text, '' @ squote [] @ ''),'',
      ''                      COALESCE(base_namespace.nspname, '' @ squote [] @ ''),'',
      ''                      COALESCE(base.typname, '' @ squote [] @ ''),'',
      ''                      COALESCE(element_base.typtype::text, '' @ squote [] @ ''),'',
      ''                      COALESCE(element_base_namespace.nspname, '' @ squote [] @ ''),'',
      ''                      COALESCE(element_base.typname, '' @ squote [] @ '')'',
      ''               FROM pg_type t'',
      ''               JOIN pg_namespace n ON n.oid = t.typnamespace'',
      ''               LEFT JOIN pg_type element ON element.oid = t.typelem'',
      ''               LEFT JOIN pg_namespace element_namespace ON element_namespace.oid = element.typnamespace'',
      ''               LEFT JOIN pg_type base ON base.oid = t.typbasetype'',
      ''               LEFT JOIN pg_namespace base_namespace ON base_namespace.oid = base.typnamespace'',
      ''               LEFT JOIN pg_type element_base ON element_base.oid = element.typbasetype'',
      ''               LEFT JOIN pg_namespace element_base_namespace ON element_base_namespace.oid = element_base.typnamespace'',
      ''               WHERE t.oid = '' @ type_oid @ ''::oid'']"

definition resolve_postgres_type ::
  "('c, 'w) pg_env \<Rightarrow> 'c \<Rightarrow> u32 \<Rightarrow> i32 \<Rightarrow> ('w, string \<times> bool) stateful" where
  "resolve_postgres_type env c type_oid type_modifier =
     sbind (pg_exec env c (resolve_type_query (show_int (sint type_modifier)) (show_word type_oid)))
       (\<lambda>res. slift
          (if length res \<noteq> 1
           then Err (Source (''PostgreSQL type OID '' @ show_word type_oid @ '' does not exist''))
           else rbind (required_value res 0 0 ''resolved column type'')
             (\<lambda>type_name. rbind (collect_results (\<lambda>j. required_value res 0 j ''resolved type metadata'') [1..<13])
                (\<lambda>vs. Ok (type_name, supported_values vs)))))"

text \<open>
  \<^verbatim>\<open>unqualified_base_type\<close> and the first steps of \<^verbatim>\<open>postgres_field_type_name\<close>: the name without
  parameters, qualification and quotes.
\<close>

definition unqualified_base_type :: "string \<Rightarrow> string" where
  "unqualified_base_type t =
     trim_matches CHR 0x22
       (trim (last (split_on ((=) CHR ''.'') (trim (hd (split_on ((=) CHR ''('') t))))))"

definition postgres_field_type_name :: "string \<Rightarrow> 16 word \<Rightarrow> string" where
  "postgres_field_type_name type_name money_fraction_digits =
     (let trimmed = trim type_name;
         (scalar, array) =
           (case strip_suffix ''[]'' trimmed of Some scalar \<Rightarrow> (scalar, True) | None \<Rightarrow> (trimmed, False))
      in if unqualified_base_type scalar = ''money''
         then ''money('' @ show_int (sint money_fraction_digits) @ '')'' @ (if array then ''[]'' else [])
         else type_name)"

section \<open>The catalog\<close>

definition table_schema_query :: "string \<Rightarrow> string \<Rightarrow> string" where
  "table_schema_query schema_literal table_literal = lines_text [
      ''SELECT a.attname,'',
      ''                      CASE WHEN t.typtype = '' @ squote ''d'',
      ''                           THEN format_type('',
      ''                                  t.typbasetype,'',
      ''                                  CASE WHEN a.atttypmod >= 0 THEN a.atttypmod'',
      ''                                       ELSE t.typtypmod END'',
      ''                                )'',
      ''                           WHEN element_type.typtype = '' @ squote ''d'',
      ''                           THEN format_type(element_type.typbasetype, element_type.typtypmod) || '' @ squote ''[]'',
      ''                           ELSE format_type(a.atttypid, a.atttypmod)'',
      ''                      END,'',
      ''                      NOT a.attnotnull,'',
      ''                      EXISTS ('',
      ''                        SELECT 1'',
      ''                        FROM pg_index i'',
      ''                        WHERE i.indrelid = c.oid'',
      ''                          AND i.indisprimary'',
      ''                          AND a.attnum = ANY(i.indkey::smallint[])'',
      ''                      ),'',
      ''                      a.atttypid::oid::text,'',
      ''                      a.atttypmod::text,'',
      ''                      t.typtype::text,'',
      ''                      type_namespace.nspname,'',
      ''                      t.typname,'',
      ''                      COALESCE(element_type.typtype::text, '' @ squote [] @ ''),'',
      ''                      COALESCE(element_namespace.nspname, '' @ squote [] @ ''),'',
      ''                      COALESCE(element_type.typname, '' @ squote [] @ ''),'',
      ''                      COALESCE(base_type.typtype::text, '' @ squote [] @ ''),'',
      ''                      COALESCE(base_namespace.nspname, '' @ squote [] @ ''),'',
      ''                      COALESCE(base_type.typname, '' @ squote [] @ ''),'',
      ''                      COALESCE(element_base_type.typtype::text, '' @ squote [] @ ''),'',
      ''                      COALESCE(element_base_namespace.nspname, '' @ squote [] @ ''),'',
      ''                      COALESCE(element_base_type.typname, '' @ squote [] @ '')'',
      ''               FROM pg_attribute a'',
      ''               JOIN pg_class c ON c.oid = a.attrelid'',
      ''               JOIN pg_namespace n ON n.oid = c.relnamespace'',
      ''               JOIN pg_type t ON t.oid = a.atttypid'',
      ''               JOIN pg_namespace type_namespace ON type_namespace.oid = t.typnamespace'',
      ''               LEFT JOIN pg_type element_type ON element_type.oid = t.typelem'',
      ''               LEFT JOIN pg_namespace element_namespace ON element_namespace.oid = element_type.typnamespace'',
      ''               LEFT JOIN pg_type base_type ON base_type.oid = t.typbasetype'',
      ''               LEFT JOIN pg_namespace base_namespace ON base_namespace.oid = base_type.typnamespace'',
      ''               LEFT JOIN pg_type element_base_type ON element_base_type.oid = element_type.typbasetype'',
      ''               LEFT JOIN pg_namespace element_base_namespace ON element_base_namespace.oid = element_base_type.typnamespace'',
      ''               WHERE n.nspname = '' @ schema_literal,
      ''                 AND c.relname = '' @ table_literal,
      ''                 AND a.attnum > 0'',
      ''                 AND NOT a.attisdropped'',
      ''               ORDER BY a.attnum'']"

text \<open>One column of the catalog: its field, when the table schema keeps one, whether it is opaque,
  and its type.\<close>

definition catalog_column ::
  "pg_config \<Rightarrow> pg_result \<Rightarrow> nat \<Rightarrow> (field_schema option \<times> bool \<times> pg_column_type) result" where
  "catalog_column config res i =
     rbind (required_value res i 0 ''column name'') (\<lambda>name.
     rbind (collect_results (\<lambda>j. required_value res i j ''column type metadata'') [6..<18]) (\<lambda>vs.
     let supported = supported_values vs in
     rbind (if supported \<or> pgc_include_unknown_datatypes config
            then rbind (if supported
                        then rbind (required_value res i 1 ''column type'')
                               (\<lambda>t. Ok (postgres_field_type_name t (pgc_money_fraction_digits config)))
                        else Ok ''bytea'') (\<lambda>type_name.
                 rbind (required_value res i 2 ''column optionality'') (\<lambda>optional.
                 rbind (required_value res i 3 ''column key state'') (\<lambda>key.
                 Ok (Some \<lparr>fs_name = name, fs_type_name = type_name, fs_optional = (optional = ''t''),
                           fs_primary_key = (key = ''t'')\<rparr>))))
            else Ok None) (\<lambda>fld.
     rbind (required_value res i 4 ''column type OID'') (\<lambda>oid_text.
     rbind (ok_or (Source (''invalid column type OID: '' @ unsigned_error 32 oid_text))
              (parse_unsigned 32 oid_text)) (\<lambda>oid.
     rbind (required_value res i 5 ''column type modifier'') (\<lambda>modifier_text.
     rbind (ok_or (Source (''invalid column type modifier: '' @ signed_error 32 modifier_text))
              (parse_signed 32 modifier_text)) (\<lambda>modifier.
     Ok (fld, \<not> supported,
         \<lparr>pct_name = name, pct_type_oid = of_nat oid, pct_type_modifier = word_of_int modifier\<rparr>))))))))"

text \<open>The fields and the opaque columns, in the order of the columns.\<close>

definition kept_fields :: "(field_schema option \<times> bool \<times> pg_column_type) list \<Rightarrow> field_schema list" where
  "kept_fields cs = concat (map (\<lambda>(f, _). case f of None \<Rightarrow> [] | Some f \<Rightarrow> [f]) cs)"

definition opaque_names :: "(field_schema option \<times> bool \<times> pg_column_type) list \<Rightarrow> string list" where
  "opaque_names cs =
     concat (map (\<lambda>(f, unsupported, _).
       case f of None \<Rightarrow> [] | Some f \<Rightarrow> if unsupported then [fs_name f] else []) cs)"

definition query_table_schema ::
  "('c, 'w) pg_env \<Rightarrow> pg_config \<Rightarrow> 'c \<Rightarrow> string \<Rightarrow> string \<Rightarrow> ('w, pg_table_schema option) stateful"
  where
  "query_table_schema env config c schema table =
     sbind (slift (quote_literal env schema)) (\<lambda>schema_literal.
     sbind (slift (quote_literal env table)) (\<lambda>table_literal.
     sbind (pg_exec env c (table_schema_query schema_literal table_literal)) (\<lambda>res.
     sbind (slift (collect_results (catalog_column config res) [0..<length res])) (\<lambda>cs.
     sreturn
       (if cs = [] then None
        else Some
          \<lparr>pts_schema = schema, pts_table = table,
           pts_event_schema =
             \<lparr>es_name = pgc_slot_name config @ ''.'' @ pgc_database config @ ''.'' @ schema @ ''.''
                         @ table @ ''.Envelope'',
              es_version = 1, es_fields = kept_fields cs\<rparr>,
           pts_column_types = map (\<lambda>(_, _, t). t) cs, pts_opaque_columns = opaque_names cs\<rparr>)))))"

section \<open>Relation messages\<close>

record relation_column =
  rc_name :: string
  rc_type_id :: u32
  rc_type_modifier :: i32
  rc_is_key :: bool

definition same_column :: "relation_column \<Rightarrow> pg_column_type \<Rightarrow> bool" where
  "same_column c t =
     (pct_name t = rc_name c \<and> pct_type_oid t = rc_type_id c
      \<and> pct_type_modifier t = rc_type_modifier c)"

definition find_field :: "string \<Rightarrow> field_schema list \<Rightarrow> field_schema option" where
  "find_field name fls = find (\<lambda>f. fs_name f = name) fls"

definition matching_field :: "pg_table_schema option \<Rightarrow> relation_column \<Rightarrow> field_schema option" where
  "matching_field schema c =
     Option.bind schema (\<lambda>s. Option.bind (find (same_column c) (pts_column_types s))
       (\<lambda>t. find_field (pct_name t) (es_fields (pts_event_schema s))))"

definition relation_type_name_fallback :: "pg_table_schema option \<Rightarrow> relation_column \<Rightarrow> string" where
  "relation_type_name_fallback previous c =
     (case Option.bind previous (\<lambda>s.
         List.find (\<lambda>t. same_column c t
             \<and> find_field (pct_name t) (es_fields (pts_event_schema s)) \<noteq> None) (pts_column_types s)
         \<bind> (\<lambda>t. find_field (pct_name t) (es_fields (pts_event_schema s)))) of
        Some f \<Rightarrow> fs_type_name f
      | None \<Rightarrow> ''unknown_oid_'' @ show_word (rc_type_id c))"

definition supported_in :: "relation_column \<Rightarrow> pg_table_schema \<Rightarrow> bool option" where
  "supported_in c s =
     map_option
       (\<lambda>t. list_ex (\<lambda>f. fs_name f = pct_name t) (es_fields (pts_event_schema s))
            \<and> pct_name t \<notin> set (pts_opaque_columns s))
       (find (same_column c) (pts_column_types s))"

definition relation_type_supported_fallback ::
  "pg_table_schema option \<Rightarrow> pg_table_schema option \<Rightarrow> relation_column \<Rightarrow> bool" where
  "relation_type_supported_fallback catalog previous c =
     (case Option.bind catalog (supported_in c) of
        Some b \<Rightarrow> b
      | None \<Rightarrow> (case Option.bind previous (supported_in c) of Some b \<Rightarrow> b | None \<Rightarrow> False))"

text \<open>One turn of the loop of \<^verbatim>\<open>schema_from_relation\<close>.\<close>

definition relation_field ::
  "bool \<Rightarrow> 16 word \<Rightarrow> pg_table_schema option \<Rightarrow> pg_table_schema option \<Rightarrow>
   relation_column \<times> string \<times> bool \<Rightarrow> field_schema option \<times> bool \<times> pg_column_type" where
  "relation_field include_unknown money_digits previous catalog = (\<lambda>(c, resolved, supported).
     (let catalog_field = matching_field catalog c;
          previous_field = matching_field previous c;
          metadata = (case catalog_field of Some f \<Rightarrow> Some f | None \<Rightarrow> previous_field);
          optional = (case metadata of None \<Rightarrow> True | Some f \<Rightarrow> fs_optional f);
          usable_previous =
            (if case previous of None \<Rightarrow> True | Some s \<Rightarrow> rc_name c \<notin> set (pts_opaque_columns s)
             then previous_field else None);
          named = (case catalog_field of Some f \<Rightarrow> Some f | None \<Rightarrow> usable_previous);
          type_name =
            postgres_field_type_name (case named of None \<Rightarrow> resolved | Some f \<Rightarrow> fs_type_name f)
              money_digits;
          fld = \<lambda>t. \<lparr>fs_name = rc_name c, fs_type_name = t, fs_optional = optional,
                     fs_primary_key = rc_is_key c\<rparr>
      in (if supported then Some (fld type_name)
          else if include_unknown then Some (fld ''bytea'') else None,
          \<not> supported,
          \<lparr>pct_name = rc_name c, pct_type_oid = rc_type_id c,
           pct_type_modifier = rc_type_modifier c\<rparr>)))"

definition schema_from_relation ::
  "string \<Rightarrow> string \<Rightarrow> string \<Rightarrow> relation_column list \<Rightarrow> (string \<times> bool) list \<Rightarrow> bool \<Rightarrow> 16 word \<Rightarrow>
   pg_table_schema option \<Rightarrow> pg_table_schema option \<Rightarrow> pg_table_schema result" where
  "schema_from_relation namespace relation schema_name columns resolved include_unknown money_digits
     previous catalog =
     (if length columns \<noteq> length resolved
      then Err (Invariant (''PostgreSQL relation has '' @ show_nat (length columns)
                 @ '' columns but '' @ show_nat (length resolved) @ '' resolved type names''))
      else
        (let cs = map (relation_field include_unknown money_digits previous catalog)
                    (zip columns resolved)
         in Ok \<lparr>pts_schema = namespace, pts_table = relation,
                pts_event_schema =
                  \<lparr>es_name = schema_name, es_version = 1, es_fields = kept_fields cs\<rparr>,
                pts_column_types = map (\<lambda>(_, _, t). t) cs, pts_opaque_columns = opaque_names cs\<rparr>))"

section \<open>Checkpointed schemas\<close>

text \<open>
  \<^verbatim>\<open>normalize_checkpoint_schemas\<close>: the fields and the opaque columns of a checkpointed table after
  one column of the current catalog, and after all of them.
\<close>

fun update_first :: "('a \<Rightarrow> bool) \<Rightarrow> ('a \<Rightarrow> 'a) \<Rightarrow> 'a list \<Rightarrow> 'a list" where
  "update_first P g [] = []"
| "update_first P g (x # xs) = (if P x then g x # xs else x # update_first P g xs)"

definition normalize_fields :: "field_schema option \<Rightarrow> string \<Rightarrow> field_schema list \<Rightarrow> field_schema list" where
  "normalize_fields current name fls =
     (case current of
        None \<Rightarrow> filter (\<lambda>f. fs_name f \<noteq> name) fls
      | Some cur \<Rightarrow>
          if find_field name fls \<noteq> None
          then update_first (\<lambda>f. fs_name f = name)
                 (\<lambda>f. f\<lparr>fs_type_name := fs_type_name cur, fs_optional := fs_optional cur\<rparr>) fls
          else fls @ [cur])"

definition normalize_opaque ::
  "field_schema option \<Rightarrow> bool \<Rightarrow> string \<Rightarrow> string list \<Rightarrow> string list" where
  "normalize_opaque current opaque name names =
     filter (\<lambda>n. n \<noteq> name) names @ (if current \<noteq> None \<and> opaque then [name] else [])"

definition normalize_column ::
  "pg_table_schema \<Rightarrow> pg_column_type list \<Rightarrow> pg_column_type \<Rightarrow>
   field_schema list \<times> string list \<Rightarrow> field_schema list \<times> string list" where
  "normalize_column current historical_types t st =
     (case find (\<lambda>h. h = t) historical_types of
        None \<Rightarrow> st
      | Some h \<Rightarrow>
          (let cur = find_field (pct_name t) (es_fields (pts_event_schema current))
           in (normalize_fields cur (pct_name h) (fst st),
               normalize_opaque cur (pct_name t \<in> set (pts_opaque_columns current)) (pct_name h)
                 (snd st))))"

text \<open>\<^verbatim>\<open>position(...).unwrap_or(usize::MAX)\<close>.\<close>

definition column_position :: "pg_column_type list \<Rightarrow> field_schema \<Rightarrow> nat" where
  "column_position types f =
     (if list_ex (\<lambda>t. pct_name t = fs_name f) types
      then length (takeWhile (\<lambda>t. pct_name t \<noteq> fs_name f) types) else 2 ^ 64 - 1)"

definition normalize_table :: "pg_table_schema \<Rightarrow> pg_table_schema \<Rightarrow> pg_table_schema" where
  "normalize_table current historical =
     (let (fls, opaque) =
            fold (normalize_column current (pts_column_types historical)) (pts_column_types current)
              (es_fields (pts_event_schema historical), pts_opaque_columns historical);
          sorted_fields = sort_key (column_position (pts_column_types historical)) fls;
          es = pts_event_schema historical;
          changed = (sorted_fields \<noteq> es_fields es \<or> opaque \<noteq> pts_opaque_columns historical)
      in historical
           \<lparr>pts_event_schema := es\<lparr>es_fields := sorted_fields,
              es_version := (if changed then sat_add (es_version es) 1 else es_version es)\<rparr>,
            pts_opaque_columns := opaque\<rparr>)"

definition normalize_checkpoint_schemas ::
  "(table_key \<times> pg_table_schema) list \<Rightarrow> (table_key \<times> pg_table_schema) list \<Rightarrow>
   (table_key \<times> pg_table_schema) list \<times> bool" where
  "normalize_checkpoint_schemas schemas current =
     (let schemas' = map (\<lambda>(k, h). (k, case map_of current k of
                                        None \<Rightarrow> h | Some c \<Rightarrow> normalize_table c h)) schemas
      in (schemas', schemas' \<noteq> schemas))"

definition fill_unavailable :: "event_schema \<Rightarrow> row option \<Rightarrow> row \<Rightarrow> row" where
  "fill_unavailable schema before after =
     fold (\<lambda>f r. if map_of r (fs_name f) = None
                  then im_insert (fs_name f)
                         (case Option.bind before (\<lambda>b. map_of b (fs_name f)) of
                            None \<Rightarrow> DvUnavailable | Some v \<Rightarrow> v) r
                  else r)
       (es_fields schema) after"

definition pg_source_metadata ::
  "string \<Rightarrow> string \<Rightarrow> pg_config \<Rightarrow> string \<Rightarrow> string \<Rightarrow> bool \<Rightarrow> u32 \<Rightarrow> source_metadata" where
  "pg_source_metadata version connector_name config schema table snap relation_oid =
     \<lparr>sm_connector = ''postgresql'', sm_connector_name = connector_name,
      sm_database = pgc_database config, sm_schema = Some schema, sm_table = Some table,
      sm_snapshot = snap, sm_version = version,
      sm_attributes =
        (if relation_oid \<noteq> 0 then [(''relation_oid'', json_uint relation_oid)] else [])\<rparr>"

section \<open>Well-formed schemas\<close>

text \<open>
  The fields of a table are columns of it, in the order of the columns, and the opaque columns are
  fields, in the same order.
\<close>

definition pg_schema_wf :: "pg_table_schema \<Rightarrow> bool" where
  "pg_schema_wf t =
     (subseq (map fs_name (es_fields (pts_event_schema t))) (map pct_name (pts_column_types t))
      \<and> subseq (pts_opaque_columns t) (map fs_name (es_fields (pts_event_schema t))))"

definition column_named :: "field_schema option \<times> bool \<times> pg_column_type \<Rightarrow> bool" where
  "column_named c = (case c of (f, _, t) \<Rightarrow> pred_option (\<lambda>f. fs_name f = pct_name t) f)"

lemma kept_fields_subseq:
  "list_all column_named cs \<Longrightarrow>
   subseq (map fs_name (kept_fields cs)) (map pct_name (map (\<lambda>(_, _, t). t) cs))"
  by (induction cs) (auto simp: kept_fields_def column_named_def split: option.split)

lemma opaque_names_subseq: "subseq (opaque_names cs) (map fs_name (kept_fields cs))"
  by (induction cs) (auto simp: kept_fields_def opaque_names_def split: option.split)

lemma catalog_column_named: "catalog_column config res i = Ok c \<Longrightarrow> column_named c"
  by (auto simp: catalog_column_def rbind_Ok_iff column_named_def Let_def split: if_splits)

lemma catalog_columns_named:
  assumes "collect_results (catalog_column config res) is = Ok cs"
  shows "list_all column_named cs"
  using assms
proof (induction "is" arbitrary: cs)
  case (Cons i js)
  then show ?case by (auto simp: rbind_Ok_iff catalog_column_named)
qed simp

lemma relation_field_named: "column_named (relation_field u d p q x)"
  by (cases x) (simp add: relation_field_def column_named_def Let_def)

section \<open>Normalising twice\<close>

lemma find_as_filter: "find P xs = (case filter P xs of [] \<Rightarrow> None | x # _ \<Rightarrow> Some x)"
  by (induction xs) auto

lemma find_field_name: "find_field name fls = Some f \<Longrightarrow> fs_name f = name"
  by (auto simp: find_field_def find_Some_iff)

definition settled :: "field_schema option \<Rightarrow> string \<Rightarrow> field_schema list \<Rightarrow> bool" where
  "settled cur name fls =
     (case cur of
        None \<Rightarrow> find_field name fls = None
      | Some c \<Rightarrow> (case find_field name fls of
                     None \<Rightarrow> False
                   | Some f \<Rightarrow> fs_type_name f = fs_type_name c \<and> fs_optional f = fs_optional c))"

lemma update_first_id:
  "(\<And>x. find P xs = Some x \<Longrightarrow> g x = x) \<Longrightarrow> update_first P g xs = xs"
  by (induction xs) auto

lemma find_update_first:
  "(\<And>x. P x \<Longrightarrow> P (g x)) \<Longrightarrow> find P (update_first P g xs) = map_option g (find P xs)"
  by (induction xs) auto

lemma find_update_first_other:
  "(\<And>x. P x \<Longrightarrow> \<not> Q x) \<Longrightarrow> (\<And>x. P x \<Longrightarrow> \<not> Q (g x)) \<Longrightarrow>
   find Q (update_first P g xs) = find Q xs"
  by (induction xs) auto

lemma find_append: "find P (xs @ ys) = (case find P xs of None \<Rightarrow> find P ys | Some x \<Rightarrow> Some x)"
  by (induction xs) auto

lemma normalize_fields_settled:
  assumes "\<And>c. cur = Some c \<Longrightarrow> fs_name c = name"
  shows "settled cur name (normalize_fields cur name fls)"
proof (cases cur)
  case None
  then show ?thesis
    by (simp add: settled_def normalize_fields_def find_field_def find_None_iff)
next
  case (Some c)
  with assms show ?thesis
    by (auto simp: settled_def normalize_fields_def find_field_def find_update_first find_append
        split: option.split)
qed

lemma normalize_fields_id:
  assumes "settled cur name fls"
  shows "normalize_fields cur name fls = fls"
proof (cases cur)
  case None
  with assms show ?thesis
    by (auto simp: settled_def normalize_fields_def find_field_def find_None_iff intro!: filter_True)
next
  case (Some c)
  with assms obtain f where f: "find_field name fls = Some f" "fs_type_name f = fs_type_name c"
      "fs_optional f = fs_optional c"
    by (auto simp: settled_def split: option.splits)
  then have "update_first (\<lambda>f. fs_name f = name)
      (\<lambda>f. f\<lparr>fs_type_name := fs_type_name c, fs_optional := fs_optional c\<rparr>) fls = fls"
    by (intro update_first_id) (simp add: find_field_def)
  with Some f(1) show ?thesis by (simp add: normalize_fields_def)
qed

lemma normalize_fields_other:
  assumes "name \<noteq> name'" "\<And>c. cur = Some c \<Longrightarrow> fs_name c = name'"
  shows "find_field name (normalize_fields cur name' fls) = find_field name fls"
proof (cases cur)
  case None
  have "filter (\<lambda>f. fs_name f = name \<and> fs_name f \<noteq> name') fls = filter (\<lambda>f. fs_name f = name) fls"
    using assms(1) by (intro filter_cong) auto
  with None show ?thesis
    by (simp add: normalize_fields_def find_field_def find_as_filter conj_commute)
next
  case (Some c)
  with assms have "find_field name (update_first (\<lambda>f. fs_name f = name')
      (\<lambda>f. f\<lparr>fs_type_name := fs_type_name c, fs_optional := fs_optional c\<rparr>) fls) = find_field name fls"
    unfolding find_field_def by (intro find_update_first_other) auto
  with Some assms show ?thesis
    by (simp add: normalize_fields_def) (simp add: find_field_def find_append split: option.split)
qed

lemma find_field_sort:
  "find_field name (sort_key (column_position ts) fls) = find_field name fls"
proof -
  let ?k = "column_position ts" and ?P = "\<lambda>f. fs_name f = name"
  define pos where "pos = (if list_ex (\<lambda>t. pct_name t = name) ts
    then length (takeWhile (\<lambda>t. pct_name t \<noteq> name) ts) else 2 ^ 64 - 1)"
  have key: "?P f \<Longrightarrow> ?k f = pos" for f by (auto simp: column_position_def pos_def)
  have "filter ?P xs = filter ?P (filter (\<lambda>f. ?k f = pos) xs)" for xs
    using key by (auto intro!: filter_cong)
  then have "filter ?P (sort_key ?k fls) = filter ?P fls"
    by (metis sort_key_stable)
  then show ?thesis by (simp add: find_field_def find_as_filter)
qed

lemma settled_cong: "find_field name fls = find_field name fls' \<Longrightarrow> settled cur name fls = settled cur name fls'"
  by (simp only: settled_def)

text \<open>The two halves of the loop over the current columns.\<close>

definition current_field :: "pg_table_schema \<Rightarrow> pg_column_type \<Rightarrow> field_schema option" where
  "current_field current t = find_field (pct_name t) (es_fields (pts_event_schema current))"

definition fields_step ::
  "pg_table_schema \<Rightarrow> pg_column_type list \<Rightarrow> pg_column_type \<Rightarrow> field_schema list \<Rightarrow> field_schema list" where
  "fields_step current hs t fls =
     (if t \<in> set hs then normalize_fields (current_field current t) (pct_name t) fls else fls)"

definition opaque_step ::
  "pg_table_schema \<Rightarrow> pg_column_type list \<Rightarrow> pg_column_type \<Rightarrow> string list \<Rightarrow> string list" where
  "opaque_step current hs t names =
     (if t \<in> set hs
      then normalize_opaque (current_field current t) (pct_name t \<in> set (pts_opaque_columns current))
             (pct_name t) names
      else names)"

lemma find_eq: "find (\<lambda>h. h = t) hs = (if t \<in> set hs then Some t else None)"
  by (induction hs) auto

lemma fold_normalize_column:
  "fold (normalize_column current hs) ts (fls, names)
   = (fold (fields_step current hs) ts fls, fold (opaque_step current hs) ts names)"
  by (induction ts arbitrary: fls names)
     (simp_all add: normalize_column_def find_eq fields_step_def opaque_step_def current_field_def Let_def)

definition all_settled ::
  "pg_table_schema \<Rightarrow> pg_column_type list \<Rightarrow> pg_column_type list \<Rightarrow> field_schema list \<Rightarrow> bool" where
  "all_settled current hs ts fls =
     list_all (\<lambda>t. t \<in> set hs \<longrightarrow> settled (current_field current t) (pct_name t) fls) ts"

lemma fields_step_other:
  "name \<noteq> pct_name t \<Longrightarrow> find_field name (fields_step current hs t fls) = find_field name fls"
  using normalize_fields_other [of name "pct_name t"] find_field_name
  by (auto simp: fields_step_def current_field_def)

lemma fold_fields_step_other:
  "name \<notin> pct_name ` set ts \<Longrightarrow>
   find_field name (fold (fields_step current hs) ts fls) = find_field name fls"
  by (induction ts arbitrary: fls) (auto simp: fields_step_other)

lemma all_settled_fold:
  "distinct (map pct_name ts) \<Longrightarrow> all_settled current hs ts (fold (fields_step current hs) ts fls)"
proof (induction ts arbitrary: fls)
  case Nil
  then show ?case by (simp add: all_settled_def)
next
  case (Cons t ts)
  let ?g = "fold (fields_step current hs) ts (fields_step current hs t fls)"
  have "settled (current_field current t) (pct_name t) ?g" if "t \<in> set hs"
  proof -
    have "settled (current_field current t) (pct_name t) (fields_step current hs t fls)"
      using that find_field_name normalize_fields_settled
      by (auto simp: fields_step_def current_field_def)
    moreover have "find_field (pct_name t) ?g = find_field (pct_name t) (fields_step current hs t fls)"
      using Cons.prems by (intro fold_fields_step_other) simp
    ultimately show ?thesis using settled_cong by blast
  qed
  with Cons.IH [of "fields_step current hs t fls"] Cons.prems show ?case
    by (simp add: all_settled_def)
qed

lemma fold_fields_step_id:
  "all_settled current hs ts fls \<Longrightarrow> fold (fields_step current hs) ts fls = fls"
  by (induction ts) (auto simp: all_settled_def fields_step_def normalize_fields_id)

lemma all_settled_sort:
  "all_settled current hs ts (sort_key (column_position cs) fls) = all_settled current hs ts fls"
  using settled_cong [OF find_field_sort] by (simp add: all_settled_def list_all_iff)

lemma sort_key_twice: "sort_key f (sort_key f xs) = sort_key f xs"
  by (rule sort_key_id_if_sorted) simp

definition matched_names :: "pg_column_type list \<Rightarrow> pg_column_type list \<Rightarrow> string list" where
  "matched_names hs ts = map pct_name (filter (\<lambda>t. t \<in> set hs) ts)"

lemma fold_opaque_step:
  assumes "distinct (map pct_name ts)"
  shows "\<exists>added. set added \<subseteq> set (matched_names hs ts) \<and>
    (\<forall>names. fold (opaque_step current hs) ts names
       = filter (\<lambda>n. n \<notin> set (matched_names hs ts)) names @ added)"
  using assms
proof (induction ts)
  case Nil
  then show ?case by (simp add: matched_names_def)
next
  case (Cons t ts)
  let ?m = "matched_names hs ts"
  from Cons obtain added where added: "set added \<subseteq> set ?m"
    "\<forall>names. fold (opaque_step current hs) ts names = filter (\<lambda>n. n \<notin> set ?m) names @ added"
    by auto
  show ?case
  proof (cases "t \<in> set hs")
    case False
    then have "opaque_step current hs t = id" "matched_names hs (t # ts) = ?m"
      by (auto simp: opaque_step_def matched_names_def)
    with added show ?thesis by auto
  next
    case True
    define here where "here = (if current_field current t \<noteq> None
      \<and> pct_name t \<in> set (pts_opaque_columns current) then [pct_name t] else [])"
    have new: "pct_name t \<notin> set ?m" using Cons.prems by (auto simp: matched_names_def)
    have "fold (opaque_step current hs) (t # ts) names
        = filter (\<lambda>n. n \<notin> set (matched_names hs (t # ts))) names @ here @ added" for names
    proof -
      have "opaque_step current hs t names = filter (\<lambda>n. n \<noteq> pct_name t) names @ here"
        using True by (simp add: opaque_step_def normalize_opaque_def here_def)
      moreover have "filter (\<lambda>n. n \<notin> set ?m) here = here" using new by (simp add: here_def)
      ultimately show ?thesis
        using added(2) True by (simp add: matched_names_def conj_commute)
    qed
    moreover have "set (here @ added) \<subseteq> set (matched_names hs (t # ts))"
      using added(1) True by (auto simp: here_def matched_names_def)
    ultimately show ?thesis by blast
  qed
qed

lemma fold_opaque_step_twice:
  assumes "distinct (map pct_name ts)"
  shows "fold (opaque_step current hs) ts (fold (opaque_step current hs) ts names)
    = fold (opaque_step current hs) ts names"
proof -
  obtain added where added: "set added \<subseteq> set (matched_names hs ts)"
    "\<And>names. fold (opaque_step current hs) ts names
       = filter (\<lambda>n. n \<notin> set (matched_names hs ts)) names @ added"
    using fold_opaque_step [OF assms] by blast
  then have "filter (\<lambda>n. n \<notin> set (matched_names hs ts)) added = []"
    by (auto simp: filter_empty_conv)
  then show ?thesis by (simp add: added(2))
qed

lemma normalize_table_twice:
  assumes "distinct (map pct_name (pts_column_types c))"
  shows "normalize_table c (normalize_table c h) = normalize_table c h"
proof -
  let ?hs = "pts_column_types h" and ?cs = "pts_column_types c"
  let ?F = "fold (fields_step c ?hs) ?cs" and ?O = "fold (opaque_step c ?hs) ?cs"
  let ?sorted = "sort_key (column_position ?hs) (?F (es_fields (pts_event_schema h)))"
  have "all_settled c ?hs ?cs ?sorted"
    using all_settled_fold [OF assms] by (simp add: all_settled_sort)
  then have "?F ?sorted = ?sorted" by (rule fold_fields_step_id)
  moreover have "?O (?O (pts_opaque_columns h)) = ?O (pts_opaque_columns h)"
    by (rule fold_opaque_step_twice [OF assms])
  ultimately show ?thesis
    by (simp add: normalize_table_def fold_normalize_column Let_def sort_key_twice)
qed

section \<open>Properties\<close>

text \<open>
  Every table schema that the connector builds, from the catalog or from a relation message, is
  well formed: its fields are columns of the table in the order of the columns, and its opaque
  columns are fields, in the same order.
\<close>

theorem table_schema_well_formed:
  "(query_table_schema env config c schema table w = (Ok (Some t), w')
     \<longrightarrow> pg_schema_wf t \<and> pg_table_key t = (schema, table) \<and> pts_column_types t \<noteq> [])
   \<and> (schema_from_relation schema table name columns resolved unknown digits previous catalog = Ok t
     \<longrightarrow> pg_schema_wf t \<and> pg_table_key t = (schema, table)
         \<and> map pct_name (pts_column_types t) = map rc_name columns)"
proof (intro conjI impI)
  assume "query_table_schema env config c schema table w = (Ok (Some t), w')"
  then obtain res cs where cs: "collect_results (catalog_column config res) [0..<length res] = Ok cs"
      "cs \<noteq> []"
    and t: "pts_schema t = schema" "pts_table t = table"
      "es_fields (pts_event_schema t) = kept_fields cs"
      "pts_column_types t = map (\<lambda>(_, _, t). t) cs" "pts_opaque_columns t = opaque_names cs"
    by (auto simp: query_table_schema_def sbind_Ok_iff split: if_splits)
  from t kept_fields_subseq [OF catalog_columns_named [OF cs(1)]] opaque_names_subseq
  show "pg_schema_wf t" by (simp add: pg_schema_wf_def)
  from t cs show "pg_table_key t = (schema, table)" "pts_column_types t \<noteq> []"
    by (simp_all add: pg_table_key_def)
next
  assume rel: "schema_from_relation schema table name columns resolved unknown digits previous catalog = Ok t"
  define cs where "cs = map (relation_field unknown digits previous catalog) (zip columns resolved)"
  from rel have len: "length columns = length resolved"
    and t: "pts_schema t = schema" "pts_table t = table"
      "es_fields (pts_event_schema t) = kept_fields cs"
      "pts_column_types t = map (\<lambda>(_, _, t). t) cs" "pts_opaque_columns t = opaque_names cs"
    by (auto simp: schema_from_relation_def cs_def Let_def split: if_splits)
  have "list_all column_named cs" by (simp add: cs_def list_all_iff relation_field_named)
  with t kept_fields_subseq [of cs] opaque_names_subseq
  show "pg_schema_wf t" by (simp add: pg_schema_wf_def)
  from t show "pg_table_key t = (schema, table)" by (simp add: pg_table_key_def)
  from len show "map pct_name (pts_column_types t) = map rc_name columns"
    unfolding t(4) cs_def
    by (induction columns resolved rule: list_induct2) (auto simp: relation_field_def Let_def)
qed

definition sample_columns :: "relation_column list" where
  "sample_columns =
     [\<lparr>rc_name = ''id'', rc_type_id = 23, rc_type_modifier = - 1, rc_is_key = True\<rparr>,
      \<lparr>rc_name = ''shape'', rc_type_id = 70000, rc_type_modifier = - 1, rc_is_key = False\<rparr>]"

theorem table_schema_well_formed_witness:
  "\<exists>t. schema_from_relation ''public'' ''orders'' ''e'' sample_columns
         [(''integer'', True), (''other'', False)] True 2 None None = Ok t
     \<and> pg_schema_wf t \<and> pts_opaque_columns t = [''shape'']"
proof -
  let ?rel = "schema_from_relation ''public'' ''orders'' ''e'' sample_columns
    [(''integer'', True), (''other'', False)] True 2 None None"
  have "\<exists>t. ?rel = Ok t \<and> pts_opaque_columns t = [''shape'']"
    by (simp add: schema_from_relation_def sample_columns_def relation_field_def matching_field_def
        opaque_names_def Let_def)
  then obtain t where "?rel = Ok t" "pts_opaque_columns t = [''shape'']" by blast
  with table_schema_well_formed [of undefined undefined undefined "''public''" "''orders''" undefined
      t undefined "''e''" sample_columns "[(''integer'', True), (''other'', False)]" True 2 None None]
  show ?thesis by blast
qed

text \<open>
  Bringing the checkpointed schemas up to date with the catalog is idempotent: a second start on
  the same catalog changes nothing and reports no change, so that the version of a schema grows once
  per change and not once per start. The columns of a table have distinct names.
\<close>

theorem normalize_checkpoint_schemas_idempotent:
  assumes "list_all (\<lambda>(_, c). distinct (map pct_name (pts_column_types c))) current"
    and "normalize_checkpoint_schemas schemas current = (schemas', changed)"
  shows "normalize_checkpoint_schemas schemas' current = (schemas', False)"
proof -
  let ?g = "\<lambda>(k, h). (k, case map_of current k of None \<Rightarrow> h | Some c \<Rightarrow> normalize_table c h)"
  have twice: "?g (?g kh) = ?g kh" for kh
  proof (cases kh)
    case (Pair k h)
    have "distinct (map pct_name (pts_column_types c))" if "map_of current k = Some c" for c
      using assms(1) map_of_SomeD [OF that] by (auto simp: list_all_iff)
    with Pair show ?thesis by (simp add: normalize_table_twice split: option.split)
  qed
  from assms(2) have "schemas' = map ?g schemas"
    by (simp add: normalize_checkpoint_schemas_def Let_def)
  then have "map ?g schemas' = schemas'" using twice by (simp add: comp_def)
  then show ?thesis by (simp add: normalize_checkpoint_schemas_def Let_def)
qed

theorem normalize_checkpoint_schemas_idempotent_witness:
  "normalize_checkpoint_schemas
     (fst (normalize_checkpoint_schemas [((''public'', ''a''), sample_table ''a'')]
             [((''public'', ''a''), (sample_table ''a'')\<lparr>pts_opaque_columns := [''id'']\<rparr>)]))
     [((''public'', ''a''), (sample_table ''a'')\<lparr>pts_opaque_columns := [''id'']\<rparr>)]
   = (fst (normalize_checkpoint_schemas [((''public'', ''a''), sample_table ''a'')]
             [((''public'', ''a''), (sample_table ''a'')\<lparr>pts_opaque_columns := [''id'']\<rparr>)]), False)"
  by (rule normalize_checkpoint_schemas_idempotent
        [where schemas = "[((''public'', ''a''), sample_table ''a'')]"
           and changed = "snd (normalize_checkpoint_schemas [((''public'', ''a''), sample_table ''a'')]
             [((''public'', ''a''), (sample_table ''a'')\<lparr>pts_opaque_columns := [''id'']\<rparr>)])"])
     (simp_all add: sample_table_def)

end
