(* ===== verification/Pg_Values.thy ===== *)
theory Pg_Values
  imports Pg_Schema
begin

text \<open>
  The conversion of PostgreSQL texts into values (\<^verbatim>\<open>convert_text_with_modes\<close> and the parsers behind
  it in \<^verbatim>\<open>crates/rustium-postgresql/src/source.rs\<close>): scalars, money, intervals, hstore, vectors and
  nested arrays. Parameters are the arithmetic and the texts of floating-point numbers, the JSON and
  UUID parsers and the decimal library. The hexadecimal decoder slices at even byte offsets, which
  would panic inside a character; the server writes ASCII there, and on other text the model gives
  no value.
\<close>

record text_env =
  te_parse_f64 :: "string \<Rightarrow> f64 option"
  te_show_f64 :: "f64 \<Rightarrow> string"
  te_add :: "f64 \<Rightarrow> f64 \<Rightarrow> f64"
  te_mul :: "f64 \<Rightarrow> f64 \<Rightarrow> f64"
  te_of_int :: "int \<Rightarrow> f64"
  te_le :: "f64 \<Rightarrow> f64 \<Rightarrow> bool"
  te_lt :: "f64 \<Rightarrow> f64 \<Rightarrow> bool"
  te_to_i64 :: "f64 \<Rightarrow> i64"
  te_json :: "string \<Rightarrow> json option"
  te_uuid :: "string \<Rightarrow> string option"
  te_round_decimal :: "string \<Rightarrow> int \<Rightarrow> string option"

abbreviation is_digit :: "char \<Rightarrow> bool" where
  "is_digit c \<equiv> digit_val c \<noteq> None"

section \<open>Hexadecimal, money\<close>

definition hex_val :: "char \<Rightarrow> nat option" where
  "hex_val c =
     (let n = (of_char c :: nat)
      in if 48 \<le> n \<and> n \<le> 57 then Some (n - 48)
         else if 97 \<le> n \<and> n \<le> 102 then Some (n - 87)
         else if 65 \<le> n \<and> n \<le> 70 then Some (n - 55) else None)"

text \<open>\<^verbatim>\<open>u8::from_str_radix(pair, 16)\<close>, which allows a plus sign.\<close>

definition hex_pair :: "char \<Rightarrow> char \<Rightarrow> u8 option" where
  "hex_pair a b =
     (case hex_val b of
        None \<Rightarrow> None
      | Some y \<Rightarrow>
          if a = CHR ''+'' then Some (of_nat y)
          else map_option (\<lambda>x. of_nat (16 * x + y)) (hex_val a))"

fun hex_decode :: "string \<Rightarrow> u8 list option" where
  "hex_decode [] = Some []"
| "hex_decode [c] = None"
| "hex_decode (a # b # s) =
     (case hex_pair a b of
        None \<Rightarrow> None
      | Some x \<Rightarrow> map_option ((#) x) (hex_decode s))"

definition parse_postgres_money :: "text_env \<Rightarrow> string \<Rightarrow> 16 word \<Rightarrow> string option" where
  "parse_postgres_money te text fraction_digits =
     (let v = trim text;
          parenthesized = (prefix ''('' v \<and> suffix '')'' v);
          v1 = (if parenthesized then trim (butlast (tl v)) else v);
          signed = prefix ''-'' v1;
          v2 = (if signed then trim_start (tl v1) else v1);
          v3 = (case utf8_chunks v2 of
                  [] \<Rightarrow> v2
                | ch # rest \<Rightarrow> if is_digit (hd ch) \<or> ch = ''.'' then v2 else concat rest);
          normalized = replace_char CHR '','' [] v3
      in te_round_decimal te (if parenthesized \<or> signed then ''-'' @ normalized else normalized)
           (sint fraction_digits))"

section \<open>Intervals\<close>

record pg_interval =
  iv_years :: i32
  iv_months :: i32
  iv_days :: i32
  iv_hours :: i32
  iv_minutes :: i32
  iv_seconds :: f64

definition interval_default :: pg_interval where
  "interval_default =
     \<lparr>iv_years = 0, iv_months = 0, iv_days = 0, iv_hours = 0, iv_minutes = 0, iv_seconds = 0\<rparr>"

text \<open>The constants are the doubles 365.25 / 12, 24, 60 and one million.\<close>

definition duration_micros :: "text_env \<Rightarrow> pg_interval \<Rightarrow> i64" where
  "duration_micros te iv =
     (let months = sint (iv_years iv) * 12 + sint (iv_months iv);
          days = te_add te (te_mul te (te_of_int te months) 0x403E700000000000)
                   (te_of_int te (sint (iv_days iv)));
          hours = te_add te (te_mul te days 0x4038000000000000) (te_of_int te (sint (iv_hours iv)));
          minutes = te_add te (te_mul te hours 0x404E000000000000)
                      (te_of_int te (sint (iv_minutes iv)));
          seconds = te_add te (te_mul te minutes 0x404E000000000000) (iv_seconds iv)
      in te_to_i64 te (te_mul te seconds 0x412E848000000000))"

definition debezium_iso_string :: "text_env \<Rightarrow> pg_interval \<Rightarrow> string" where
  "debezium_iso_string te iv =
     (let seconds = (if f64_zero (iv_seconds iv) then ''0'' else te_show_f64 te (iv_seconds iv))
      in ''P'' @ show_int (sint (iv_years iv)) @ ''Y'' @ show_int (sint (iv_months iv)) @ ''M''
         @ show_int (sint (iv_days iv)) @ ''DT'' @ show_int (sint (iv_hours iv)) @ ''H''
         @ show_int (sint (iv_minutes iv)) @ ''M'' @ seconds @ ''S'')"

definition i32_min :: i32 where
  "i32_min = 0x80000000"

definition neg_i32 :: "i32 \<Rightarrow> i32 option" where
  "neg_i32 w = (if w = i32_min then None else Some (- w))"

definition neg_f64 :: "f64 \<Rightarrow> f64" where
  "neg_f64 w = w XOR 0x8000000000000000"

definition interval_checked_neg :: "pg_interval \<Rightarrow> pg_interval option" where
  "interval_checked_neg iv =
     do {
       years \<leftarrow> neg_i32 (iv_years iv);
       months \<leftarrow> neg_i32 (iv_months iv);
       days \<leftarrow> neg_i32 (iv_days iv);
       hours \<leftarrow> neg_i32 (iv_hours iv);
       minutes \<leftarrow> neg_i32 (iv_minutes iv);
       Some \<lparr>iv_years = years, iv_months = months, iv_days = days, iv_hours = hours,
             iv_minutes = minutes, iv_seconds = neg_f64 (iv_seconds iv)\<rparr>
     }"

definition parse_i32 :: "string \<Rightarrow> i32 option" where
  "parse_i32 s = map_option word_of_int (parse_signed 32 s)"

text \<open>\<^verbatim>\<open>checked_mul\<close> by a sign.\<close>

definition signed_i32 :: "bool \<Rightarrow> i32 \<Rightarrow> i32 option" where
  "signed_i32 negative w = (if negative then neg_i32 w else Some w)"

definition parse_interval_seconds :: "text_env \<Rightarrow> string \<Rightarrow> f64 option" where
  "parse_interval_seconds te s =
     do {
       seconds \<leftarrow> te_parse_f64 te s;
       if f64_finite seconds then Some seconds else None
     }"

definition interval_unit :: "string \<Rightarrow> nat option" where
  "interval_unit s =
     (if s \<in> {''year'', ''years''} then Some 0
      else if s \<in> {''mon'', ''mons''} then Some 1
      else if s \<in> {''day'', ''days''} then Some 2
      else if s \<in> {''hour'', ''hours''} then Some 3
      else if s \<in> {''min'', ''mins''} then Some 4
      else if s \<in> {''sec'', ''secs''} then Some 5 else None)"

definition set_interval_component ::
  "text_env \<Rightarrow> pg_interval \<Rightarrow> nat \<Rightarrow> string \<Rightarrow> pg_interval option" where
  "set_interval_component te iv k s =
     (if k = 0 then map_option (\<lambda>x. iv\<lparr>iv_years := x\<rparr>) (parse_i32 s)
      else if k = 1 then map_option (\<lambda>x. iv\<lparr>iv_months := x\<rparr>) (parse_i32 s)
      else if k = 2 then map_option (\<lambda>x. iv\<lparr>iv_days := x\<rparr>) (parse_i32 s)
      else if k = 3 then map_option (\<lambda>x. iv\<lparr>iv_hours := x\<rparr>) (parse_i32 s)
      else if k = 4 then map_option (\<lambda>x. iv\<lparr>iv_minutes := x\<rparr>) (parse_i32 s)
      else if k = 5 then map_option (\<lambda>x. iv\<lparr>iv_seconds := x\<rparr>) (parse_interval_seconds te s)
      else None)"

definition iso_component :: "bool \<Rightarrow> char \<Rightarrow> nat option" where
  "iso_component in_time c =
     (if \<not> in_time \<and> c = CHR ''Y'' then Some 0
      else if \<not> in_time \<and> c = CHR ''M'' then Some 1
      else if \<not> in_time \<and> c = CHR ''D'' then Some 2
      else if in_time \<and> c = CHR ''H'' then Some 3
      else if in_time \<and> c = CHR ''M'' then Some 4
      else if in_time \<and> c = CHR ''S'' then Some 5 else None)"

text \<open>The loop of \<^verbatim>\<open>parse_iso_interval\<close>: the token read so far, the components seen.\<close>

fun iso_loop ::
  "text_env \<Rightarrow> bool \<Rightarrow> string \<Rightarrow> nat list \<Rightarrow> pg_interval \<Rightarrow> string \<Rightarrow> pg_interval option" where
  "iso_loop te in_time token seen iv [] = (if seen \<noteq> [] \<and> token = [] then Some iv else None)"
| "iso_loop te in_time token seen iv (c # s) =
     (if c = CHR ''T''
      then (if in_time \<or> token \<noteq> [] then None else iso_loop te True [] seen iv s)
      else (case iso_component in_time c of
              None \<Rightarrow>
                if is_digit c \<or> c \<in> {CHR ''+'', CHR ''-'', CHR ''.''}
                then iso_loop te in_time (token @ [c]) seen iv s else None
            | Some k \<Rightarrow>
                if k \<in> set seen \<or> token = [] then None
                else (case set_interval_component te iv k token of
                        None \<Rightarrow> None
                      | Some iv' \<Rightarrow> iso_loop te in_time [] (k # seen) iv' s)))"

definition parse_iso_interval :: "text_env \<Rightarrow> string \<Rightarrow> pg_interval option" where
  "parse_iso_interval te s =
     do {
       body \<leftarrow> strip_prefix ''P'' s;
       if body = [] then None else iso_loop te False [] [] interval_default body
     }"

text \<open>
  Amounts and units in pairs; the second parser stops at days and has its own \<^verbatim>\<open>seen\<close> array.
\<close>

fun pair_loop ::
  "text_env \<Rightarrow> nat \<Rightarrow> nat list \<Rightarrow> pg_interval \<Rightarrow> string list \<Rightarrow> pg_interval option" where
  "pair_loop te limit seen iv (amount # unit # rest) =
     do {
       k \<leftarrow> interval_unit unit;
       (if limit < k \<or> k \<in> set seen then None
        else do {
          iv' \<leftarrow> set_interval_component te iv k amount;
          pair_loop te limit (k # seen) iv' rest
        })
     }"
| "pair_loop te limit seen iv _ = Some iv"

definition parse_verbose_interval :: "text_env \<Rightarrow> string \<Rightarrow> pg_interval option" where
  "parse_verbose_interval te s =
     do {
       rest \<leftarrow> strip_prefix ''@'' s;
       (let body0 = trim rest;
            ago = suffix '' ago'' body0;
            body = (if ago then trim_end (take (length body0 - 4) body0) else body0);
            tokens = split_whitespace body
        in if body = ''0'' then Some interval_default
           else if tokens = [] \<or> odd (length tokens) then None
           else do {
             iv \<leftarrow> pair_loop te 5 [] interval_default tokens;
             if ago then interval_checked_neg iv else Some iv
           })
     }"

definition looks_like_year_month :: "string \<Rightarrow> bool" where
  "looks_like_year_month s =
     (let unsigned = (case strip_prefix ''+'' s of
                        Some r \<Rightarrow> r
                      | None \<Rightarrow> (case strip_prefix ''-'' s of Some r \<Rightarrow> r | None \<Rightarrow> s))
      in case split_once CHR ''-'' unsigned of
           None \<Rightarrow> False
         | Some (years, months) \<Rightarrow>
             years \<noteq> [] \<and> months \<noteq> [] \<and> list_all is_digit years \<and> list_all is_digit months)"

definition parse_year_month :: "string \<Rightarrow> (i32 \<times> i32) option" where
  "parse_year_month s =
     (let (negative, unsigned) =
            (case strip_prefix ''-'' s of
               Some r \<Rightarrow> (True, r)
             | None \<Rightarrow> (False, case strip_prefix ''+'' s of Some r \<Rightarrow> r | None \<Rightarrow> s))
      in do {
           (years, months) \<leftarrow> split_once CHR ''-'' unsigned;
           (if CHR ''-'' \<in> set months then None
            else do {
              y \<leftarrow> parse_i32 years;
              y' \<leftarrow> signed_i32 negative y;
              m \<leftarrow> parse_i32 months;
              m' \<leftarrow> signed_i32 negative m;
              Some (y', m')
            })
         })"

definition parse_interval_clock ::
  "text_env \<Rightarrow> string \<Rightarrow> bool \<Rightarrow> (i32 \<times> i32 \<times> f64) option" where
  "parse_interval_clock te s inherited_negative =
     (let (negative, unsigned) =
            (case strip_prefix ''-'' s of
               Some r \<Rightarrow> (True, r)
             | None \<Rightarrow> (case strip_prefix ''+'' s of
                          Some r \<Rightarrow> (False, r)
                        | None \<Rightarrow> (inherited_negative, s)))
      in case split_on ((=) CHR '':'') unsigned of
           h # m # sec # rest \<Rightarrow>
             do {
               hours \<leftarrow> parse_i32 h;
               minutes \<leftarrow> parse_i32 m;
               seconds \<leftarrow> parse_interval_seconds te sec;
               (if rest \<noteq> [] \<or> \<not> (0 \<le> sint minutes \<and> sint minutes < 60)
                   \<or> \<not> (te_le te 0 seconds \<and> te_lt te seconds 0x404E000000000000)
                then None
                else do {
                  hours' \<leftarrow> signed_i32 negative hours;
                  minutes' \<leftarrow> signed_i32 negative minutes;
                  Some (hours', minutes',
                        te_mul te seconds (te_of_int te (if negative then - 1 else 1)))
                })
             }
         | _ \<Rightarrow> None)"

definition set_clock :: "pg_interval \<Rightarrow> i32 \<times> i32 \<times> f64 \<Rightarrow> pg_interval" where
  "set_clock iv t =
     iv\<lparr>iv_hours := fst t, iv_minutes := fst (snd t), iv_seconds := snd (snd t)\<rparr>"

definition parse_postgres_interval :: "text_env \<Rightarrow> string \<Rightarrow> pg_interval option" where
  "parse_postgres_interval te s =
     (let tokens = split_whitespace s
      in do {
           (tokens', iv) \<leftarrow>
             (if tokens \<noteq> [] \<and> CHR '':'' \<in> set (last tokens)
              then map_option (\<lambda>t. (butlast tokens, set_clock interval_default t))
                     (parse_interval_clock te (last tokens) False)
              else Some (tokens, interval_default));
           (if tokens' = [] then Some iv
            else if odd (length tokens') then None
            else pair_loop te 2 [] iv tokens')
         })"

definition parse_sql_standard_interval :: "text_env \<Rightarrow> string \<Rightarrow> pg_interval option" where
  "parse_sql_standard_interval te s =
     (if s = ''0'' then Some interval_default
      else
        (let tokens = split_whitespace s
         in if tokens = [] \<or> 3 < length tokens then None
            else do {
              (iv, rest) \<leftarrow>
                (if looks_like_year_month (hd tokens)
                 then map_option
                        (\<lambda>(y, m). (interval_default\<lparr>iv_years := y, iv_months := m\<rparr>, tl tokens))
                        (parse_year_month (hd tokens))
                 else Some (interval_default, tokens));
              (iv', negative_day, rest') \<leftarrow>
                (if rest \<noteq> [] \<and> CHR '':'' \<notin> set (hd rest)
                 then map_option (\<lambda>d. (iv\<lparr>iv_days := d\<rparr>, prefix ''-'' (hd rest), tl rest))
                        (parse_i32 (hd rest))
                 else Some (iv, False, rest));
              (case rest' of
                 [] \<Rightarrow> Some iv'
               | [clock] \<Rightarrow>
                   map_option (set_clock iv') (parse_interval_clock te clock negative_day)
               | _ \<Rightarrow> None)
            }))"

definition is_alphabetic :: "char \<Rightarrow> bool" where
  "is_alphabetic c =
     (let n = (of_char c :: nat) in 65 \<le> n \<and> n \<le> 90 \<or> 97 \<le> n \<and> n \<le> 122)"

definition parse_interval :: "text_env \<Rightarrow> string \<Rightarrow> pg_interval option" where
  "parse_interval te text =
     (let s = trim text
      in if prefix ''P'' s then parse_iso_interval te s
         else if prefix ''@'' s then parse_verbose_interval te s
         else if list_ex is_alphabetic s then parse_postgres_interval te s
         else parse_sql_standard_interval te s)"

definition convert_interval :: "text_env \<Rightarrow> string \<Rightarrow> string \<Rightarrow> data_value option" where
  "convert_interval te s mode =
     (if mode = ''postgres'' then Some (DvString s)
      else do {
        iv \<leftarrow> parse_interval te s;
        (if mode = ''numeric'' then Some (DvInt64 (duration_micros te iv))
         else if mode = ''string'' then Some (DvString (debezium_iso_string te iv)) else None)
      })"

section \<open>hstore\<close>

text \<open>
  The parser walks over characters; its index is the list of the characters that are left. Every
  step of the loops consumes one.
\<close>

type_synonym chars = "string list"

definition hs_char :: "string \<Rightarrow> chars \<Rightarrow> chars option" where
  "hs_char c s = (case s of [] \<Rightarrow> None | d # r \<Rightarrow> if d = c then Some r else None)"

abbreviation skip_whitespace :: "chars \<Rightarrow> chars" where
  "skip_whitespace \<equiv> dropWhile ws_chunk"

fun hs_quoted :: "chars \<Rightarrow> (string \<times> chars) option" where
  "hs_quoted [] = None"
| "hs_quoted (c # s) =
     (if c = [CHR 0x22] then Some ([], s)
      else if c = [CHR 0x5C]
      then (case s of
              [] \<Rightarrow> None
            | d # r \<Rightarrow> map_option (\<lambda>(out, rest). (d @ out, rest)) (hs_quoted r))
      else map_option (\<lambda>(out, rest). (c @ out, rest)) (hs_quoted s))"

definition hs_plain :: "string \<Rightarrow> bool" where
  "hs_plain c = (\<not> ws_chunk c \<and> c \<noteq> ''='' \<and> c \<noteq> '','')"

definition hs_string :: "chars \<Rightarrow> (string \<times> chars) option" where
  "hs_string s =
     (case s of
        [] \<Rightarrow> None
      | c # r \<Rightarrow>
          if c = [CHR 0x22] then hs_quoted r
          else (let w = takeWhile hs_plain s
                in if w = [] then None else Some (concat w, dropWhile hs_plain s)))"

definition hs_null :: "chars \<Rightarrow> bool" where
  "hs_null s =
     (take 4 s = [''N'', ''U'', ''L'', ''L'']
      \<and> (case drop 4 s of [] \<Rightarrow> True | c # _ \<Rightarrow> ws_chunk c \<or> c = '',''))"

text \<open>One entry, up to the character after it.\<close>

definition hs_entry :: "chars \<Rightarrow> ((string \<times> string option) \<times> chars) option" where
  "hs_entry s =
     do {
       (key, s1) \<leftarrow> hs_string s;
       s2 \<leftarrow> hs_char ''='' (skip_whitespace s1);
       s3 \<leftarrow> hs_char ''>'' s2;
       (let s4 = skip_whitespace s3
        in if hs_null s4 then Some ((key, None), skip_whitespace (drop 4 s4))
           else do {
             (v, s5) \<leftarrow> hs_string s4;
             Some ((key, Some v), skip_whitespace s5)
           })
     }"

lemma length_hs_quoted: "hs_quoted s = Some (out, rest) \<Longrightarrow> length rest < length s"
  by (induction s arbitrary: out rest rule: hs_quoted.induct)
     (fastforce split: if_splits list.splits)+

lemma length_hs_string: "hs_string s = Some (out, rest) \<Longrightarrow> length rest < length s"
proof (cases s)
  case (Cons c r)
  assume step: "hs_string s = Some (out, rest)"
  show ?thesis
  proof (cases "c = [CHR 0x22]")
    case True
    with step Cons show ?thesis by (auto simp: hs_string_def dest: length_hs_quoted)
  next
    case False
    with step Cons have "hs_plain c" "rest = dropWhile hs_plain s"
      by (auto simp: hs_string_def Let_def split: if_splits)
    with Cons show ?thesis by (simp add: le_imp_less_Suc length_dropWhile_le)
  qed
qed (simp add: hs_string_def)

lemma length_hs_char: "hs_char c s = Some r \<Longrightarrow> length r < length s"
  by (auto simp: hs_char_def split: list.splits if_splits)

lemma length_hs_entry:
  assumes "hs_entry s = Some (kv, rest)"
  shows "length rest < length s"
proof -
  have skip: "length (skip_whitespace t) \<le> length t" for t by (rule length_dropWhile_le)
  from assms obtain key s1 s2 s3 where s: "hs_string s = Some (key, s1)"
      "hs_char ''='' (skip_whitespace s1) = Some s2" "hs_char ''>'' s2 = Some s3"
      and rest: "length rest \<le> length s3"
    by (auto simp: hs_entry_def Let_def bind_eq_Some_conv split: if_splits
        intro: order.trans [OF skip] order.trans [OF length_dropWhile_le]
        dest!: length_hs_string)
       (metis length_dropWhile_le length_drop less_imp_le_nat diff_le_self order.trans)+
  with length_hs_string [OF s(1)] length_hs_char [OF s(2)] length_hs_char [OF s(3)] skip [of s1]
  show ?thesis by linarith
qed

function hs_entries ::
  "(string \<times> string option) list \<Rightarrow> chars \<Rightarrow> (string \<times> string option) list option" where
  "hs_entries acc s =
     (case hs_entry s of
        None \<Rightarrow> None
      | Some ((key, v), rest) \<Rightarrow>
          (case rest of
             [] \<Rightarrow> Some (bt_insert key v acc)
           | c # r \<Rightarrow>
               if c = '','' then hs_entries (bt_insert key v acc) (skip_whitespace r) else None))"
  by pat_completeness auto
termination
proof (relation "measure (\<lambda>(acc, s). length s)", goal_cases)
  case (2 acc s x kv rest key v c r)
  then have "length (c # r) < length s" using length_hs_entry by blast
  then show ?case using length_dropWhile_le [of ws_chunk r] by simp
qed simp

declare hs_entries.simps [simp del]

definition parse_hstore :: "string \<Rightarrow> (string \<times> string option) list option" where
  "parse_hstore s =
     (case skip_whitespace (utf8_chunks s) of [] \<Rightarrow> Some [] | c # r \<Rightarrow> hs_entries [] (c # r))"

definition hstore_value :: "(string \<times> string option) list \<Rightarrow> string \<Rightarrow> data_value" where
  "hstore_value m mode =
     (if mode = ''map''
      then DvMap (map (\<lambda>(k, v). (k, case v of None \<Rightarrow> DvNull | Some t \<Rightarrow> DvString t)) m)
      else DvJson (JObject (map (\<lambda>(k, v). (k, case v of None \<Rightarrow> JNull | Some t \<Rightarrow> JString t)) m)))"

section \<open>Vectors\<close>

definition parse_dense_vector :: "text_env \<Rightarrow> string \<Rightarrow> data_value list option" where
  "parse_dense_vector te s =
     do {
       a \<leftarrow> strip_prefix ''['' (trim s);
       b \<leftarrow> strip_suffix '']'' a;
       (if trim b = [] then Some []
        else collect_options (\<lambda>v. map_option DvFloat64 (te_parse_f64 te (trim v)))
               (split_on ((=) CHR '','') (trim b)))
     }"

definition sparse_entry :: "text_env \<Rightarrow> string \<Rightarrow> (string \<times> data_value) option" where
  "sparse_entry te s =
     do {
       (index, v) \<leftarrow> split_once CHR '':'' (trim s);
       i \<leftarrow> parse_signed 16 (trim index);
       x \<leftarrow> te_parse_f64 te (trim v);
       Some (show_int i, DvFloat64 x)
     }"

definition parse_sparse_vector :: "text_env \<Rightarrow> string \<Rightarrow> (string \<times> data_value) list option" where
  "parse_sparse_vector te s =
     do {
       (entries, dims) \<leftarrow> split_once CHR ''/'' (trim s);
       d \<leftarrow> parse_i32 (trim dims);
       a \<leftarrow> strip_prefix ''{'' (trim entries);
       b \<leftarrow> strip_suffix ''}'' a;
       vector \<leftarrow>
         (if trim b = [] then Some []
          else map_option (\<lambda>kvs. fold (\<lambda>(k, v). bt_insert k v) kvs [])
                 (collect_options (sparse_entry te) (split_on ((=) CHR '','') (trim b))));
       Some [(''dimensions'', DvInt32 d), (''vector'', DvMap vector)]
     }"

section \<open>Arrays\<close>

text \<open>
  The array parser works on bytes. \<open>conv\<close> is the conversion of an element. Arrays nest, and the
  fuel bounds the nesting and the number of elements together; the length of the text is enough
  (\<open>parse_items_enough\<close>).
\<close>

definition ascii_ws :: "char \<Rightarrow> bool" where
  "ascii_ws c = (c \<in> {CHR 0x20, CHR 0x09, CHR 0x0A, CHR 0x0C, CHR 0x0D})"

abbreviation skip_ws :: "string \<Rightarrow> string" where
  "skip_ws \<equiv> dropWhile ascii_ws"

fun quoted_element :: "string \<Rightarrow> (string \<times> string) option" where
  "quoted_element [] = None"
| "quoted_element (c # s) =
     (if c = CHR 0x22 then Some ([], s)
      else if c = CHR 0x5C
      then (case s of
              [] \<Rightarrow> None
            | d # r \<Rightarrow> map_option (\<lambda>(out, rest). (d # out, rest)) (quoted_element r))
      else map_option (\<lambda>(out, rest). (c # out, rest)) (quoted_element s))"

fun plain_element :: "char \<Rightarrow> string \<Rightarrow> (string \<times> string) option" where
  "plain_element delim [] = Some ([], [])"
| "plain_element delim (c # s) =
     (if c = delim \<or> c = CHR ''}'' then Some ([], c # s)
      else if c = CHR 0x5C
      then (case s of
              [] \<Rightarrow> None
            | d # r \<Rightarrow> map_option (\<lambda>(out, rest). (d # out, rest)) (plain_element delim r))
      else map_option (\<lambda>(out, rest). (c # out, rest)) (plain_element delim s))"

definition parse_element ::
  "(string \<Rightarrow> data_value) \<Rightarrow> char \<Rightarrow> string \<Rightarrow> (data_value \<times> string) option" where
  "parse_element conv delim s =
     (case s of
        [] \<Rightarrow> None
      | c # r \<Rightarrow>
          if c = CHR 0x22
          then do {
            (v, rest) \<leftarrow> quoted_element r;
            if utf8_valid v then Some (conv v, rest) else None
          }
          else do {
            (v, rest) \<leftarrow> plain_element delim s;
            (if \<not> utf8_valid v \<or> trim v = [] then None
             else Some (if trim v = ''NULL'' then DvNull else conv (trim v), rest))
          })"

fun parse_items ::
    "(string \<Rightarrow> data_value) \<Rightarrow> char \<Rightarrow> nat \<Rightarrow> string \<Rightarrow> (data_value list \<times> string) option"
  and parse_array ::
    "(string \<Rightarrow> data_value) \<Rightarrow> char \<Rightarrow> nat \<Rightarrow> string \<Rightarrow> (data_value \<times> string) option" where
  "parse_items conv delim 0 s = None"
| "parse_items conv delim (Suc n) s =
     (case (if prefix ''{'' (skip_ws s) then parse_array conv delim n (skip_ws s)
            else parse_element conv delim (skip_ws s)) of
        None \<Rightarrow> None
      | Some (v, rest) \<Rightarrow>
          (case skip_ws rest of
             [] \<Rightarrow> None
           | c # r \<Rightarrow>
               if c = delim
               then (case parse_items conv delim n r of
                       None \<Rightarrow> None
                     | Some (vs, rest') \<Rightarrow> Some (v # vs, rest'))
               else if c = CHR ''}'' then Some ([v], r) else None))"
| "parse_array conv delim 0 s = None"
| "parse_array conv delim (Suc n) s =
     (case s of
        [] \<Rightarrow> None
      | c # r \<Rightarrow>
          if c \<noteq> CHR ''{'' then None
          else (case skip_ws r of
                  [] \<Rightarrow> None
                | d # r' \<Rightarrow>
                    if d = CHR ''}'' then Some (DvArray [], r')
                    else (case parse_items conv delim n (d # r') of
                            None \<Rightarrow> None
                          | Some (vs, rest) \<Rightarrow> Some (DvArray vs, rest))))"

definition array_delimiter :: "string \<Rightarrow> char" where
  "array_delimiter element_type =
     (if trim (hd (split_on ((=) CHR ''('') element_type)) = ''box'' then CHR '';'' else CHR '','')"

definition parse_postgres_array ::
  "(string \<Rightarrow> data_value) \<Rightarrow> string \<Rightarrow> string \<Rightarrow> data_value option" where
  "parse_postgres_array conv s element_type =
     (let dimensions = takeWhile (\<lambda>c. c \<noteq> CHR ''{'') s;
          rest = dropWhile (\<lambda>c. c \<noteq> CHR ''{'') s
      in if rest = [] then None
         else if \<not> (dimensions = [] \<or> prefix ''['' dimensions \<and> suffix '']='' dimensions) then None
         else (case parse_array conv (array_delimiter element_type) (2 * length rest) rest of
                 None \<Rightarrow> None
               | Some (v, tail) \<Rightarrow> if skip_ws tail = [] then Some v else None))"

section \<open>Values\<close>

function convert_text_with_modes ::
  "text_env \<Rightarrow> string \<Rightarrow> string \<Rightarrow> string \<Rightarrow> string \<Rightarrow> 16 word \<Rightarrow> data_value" where
  "convert_text_with_modes te s type_name hstore_mode interval_mode money_digits =
     (case strip_suffix ''[]'' (trim type_name) of
        Some element_type \<Rightarrow>
          (case parse_postgres_array
                  (\<lambda>v. convert_text_with_modes te v element_type hstore_mode interval_mode money_digits)
                  s element_type of
             Some v \<Rightarrow> v
           | None \<Rightarrow> DvString s)
      | None \<Rightarrow>
          (let or_string = (\<lambda>v. case v of Some v \<Rightarrow> v | None \<Rightarrow> DvString s);
               base = unqualified_base_type type_name
           in if base = ''boolean'' then DvBoolean (s \<in> {''t'', ''true'', ''1''})
              else if base \<in> {''smallint'', ''integer''} then or_string (map_option DvInt32 (parse_i32 s))
              else if base = ''bigint''
              then or_string (map_option (\<lambda>i. DvInt64 (word_of_int i)) (parse_signed 64 s))
              else if base \<in> {''real'', ''double precision''}
              then (if s \<in> {''NaN'', ''Infinity'', ''-Infinity''} then DvString s
                    else or_string (map_option DvFloat64 (te_parse_f64 te s)))
              else if base \<in> {''numeric'', ''decimal''} then DvDecimal s
              else if base = ''money'' then or_string (map_option DvDecimal (parse_postgres_money te s money_digits))
              else if base \<in> {''json'', ''jsonb''} then or_string (map_option DvJson (te_json te s))
              else if base = ''uuid'' then or_string (map_option DvUuid (te_uuid te s))
              else if base = ''oid''
              then or_string (map_option (\<lambda>n. DvUInt64 (of_nat n)) (parse_unsigned 64 s))
              else if base = ''date'' then DvDate s
              else if base \<in> {''time'', ''time without time zone'', ''time with time zone''} then DvTime s
              else if base \<in> {''timestamp'', ''timestamp without time zone'', ''timestamp with time zone''}
              then DvTimestamp s
              else if base = ''interval'' then or_string (convert_interval te s interval_mode)
              else if base = ''bytea'' \<and> prefix [CHR 0x5C, CHR ''x''] s
              then or_string (map_option DvBytes (hex_decode (drop 2 s)))
              else if base = ''hstore''
              then or_string (map_option (\<lambda>m. hstore_value m hstore_mode) (parse_hstore s))
              else if base \<in> {''vector'', ''halfvec''}
              then or_string (map_option DvArray (parse_dense_vector te s))
              else if base = ''sparsevec'' then or_string (map_option DvMap (parse_sparse_vector te s))
              else if base \<in> {''geometry'', ''geography''}
              then or_string (map_option DvBytes
                     (hex_decode (case strip_prefix [CHR 0x5C, CHR ''x''] s of Some r \<Rightarrow> r | None \<Rightarrow> s)))
              else DvString s))"
  by pat_completeness auto
termination
proof (relation "measure (\<lambda>(te, s, t, _). length t)", goal_cases)
  case (2 te s t h i m e v)
  then have "length e + 2 = length (trim t)" by (auto dest: strip_suffix_length)
  with length_trim [of t] show ?case by simp
qed simp

declare convert_text_with_modes.simps [simp del]

definition convert_snapshot_value ::
  "text_env \<Rightarrow> pg_config \<Rightarrow> pg_table_schema \<Rightarrow> field_schema \<Rightarrow> string \<Rightarrow> data_value" where
  "convert_snapshot_value te config schema f s =
     (if fs_name f \<in> set (pts_opaque_columns schema) then DvBytes (bytes_of s)
      else convert_text_with_modes te s (fs_type_name f) (pgc_hstore_handling_mode config)
             (pgc_interval_handling_mode config) (pgc_money_fraction_digits config))"

text \<open>Values of the replication stream: the bytes of a text column need not be UTF-8.\<close>

datatype column_value = CvNull | CvText string | CvBinary string

fun convert_opaque_value :: "column_value \<Rightarrow> data_value" where
  "convert_opaque_value CvNull = DvNull"
| "convert_opaque_value (CvText s) = DvBytes (bytes_of s)"
| "convert_opaque_value (CvBinary s) = DvBytes (bytes_of s)"

fun convert_value ::
  "text_env \<Rightarrow> string \<Rightarrow> string \<Rightarrow> string \<Rightarrow> 16 word \<Rightarrow> column_value \<Rightarrow> data_value" where
  "convert_value te type_name hstore_mode interval_mode digits CvNull = DvNull"
| "convert_value te type_name hstore_mode interval_mode digits (CvBinary s) = DvBytes (bytes_of s)"
| "convert_value te type_name hstore_mode interval_mode digits (CvText s) =
     (if utf8_valid s then convert_text_with_modes te s type_name hstore_mode interval_mode digits
      else DvBytes (bytes_of s))"

definition convert_row ::
  "text_env \<Rightarrow> pg_table_schema \<Rightarrow> string \<Rightarrow> string \<Rightarrow> 16 word \<Rightarrow> (string \<times> column_value) list \<Rightarrow> row"
  where
  "convert_row te schema hstore_mode interval_mode digits data =
     fold (\<lambda>(name, v) r.
         case find_field name (es_fields (pts_event_schema schema)) of
           None \<Rightarrow> r
         | Some f \<Rightarrow>
             im_insert name
               (if name \<in> set (pts_opaque_columns schema) then convert_opaque_value v
                else convert_value te (fs_type_name f) hstore_mode interval_mode digits v) r)
       data []"

section \<open>The fuel of the array parser\<close>

lemma length_quoted_element: "quoted_element s = Some (v, rest) \<Longrightarrow> length rest < length s"
  by (induction s arbitrary: v rest rule: quoted_element.induct)
     (fastforce split: if_splits list.splits)+

lemma length_plain_element: "plain_element d s = Some (v, rest) \<Longrightarrow> length rest + length v \<le> length s"
  by (induction d s arbitrary: v rest rule: plain_element.induct)
     (fastforce split: if_splits list.splits)+

lemma trim_Nil [simp]: "trim [] = []"
  by (simp add: trim_def)

lemma length_parse_element:
  assumes "parse_element conv d s = Some (v, rest)"
  shows "length rest < length s"
proof (cases s)
  case (Cons c r)
  show ?thesis
  proof (cases "c = CHR 0x22")
    case True
    with assms Cons show ?thesis
      by (auto simp: parse_element_def bind_eq_Some_conv split: if_splits dest!: length_quoted_element)
  next
    case False
    with assms Cons obtain w where "plain_element d s = Some (w, rest)" "trim w \<noteq> []"
      by (auto simp: parse_element_def bind_eq_Some_conv split: if_splits)
    then have "length rest + length w \<le> length s" "w \<noteq> []"
      using length_plain_element by auto
    then show ?thesis by (cases w) auto
  qed
qed (use assms in \<open>simp add: parse_element_def\<close>)

lemma length_skip_ws: "length (skip_ws s) \<le> length s"
  by (rule length_dropWhile_le)

lemma length_skip_ws_Cons: "skip_ws s = c # r \<Longrightarrow> length r < length s"
  using length_skip_ws [of s] by simp

lemma length_parse:
  "parse_items conv d n s = Some (vs, rest) \<Longrightarrow> length rest < length s"
  "parse_array conv d n s = Some (v, rest) \<Longrightarrow> length rest < length s"
proof (induction conv d n s and conv d n s arbitrary: vs rest and v rest
    rule: parse_items_parse_array.induct)
  case (2 conv d n s)
  let ?t = "skip_ws s"
  from "2.prems" obtain w rest1 c r where first:
      "(if prefix ''{'' ?t then parse_array conv d n ?t else parse_element conv d ?t) = Some (w, rest1)"
      "skip_ws rest1 = c # r"
    and cases: "rest = r \<or> c = d \<and> (\<exists>ws. parse_items conv d n r = Some (ws, rest))"
    by (auto split: option.splits list.splits if_splits)
  from first(1) "2.IH"(1) have "length rest1 < length ?t"
    by (auto split: if_splits dest: length_parse_element)
  moreover have "length r < length rest1" using first(2) by (rule length_skip_ws_Cons)
  moreover have "length rest < length r" if "parse_items conv d n r = Some (ws, rest)" "c = d" for ws
    using "2.IH"(2) [OF first(1)] first(2) that by auto
  ultimately show ?case using cases length_skip_ws [of s] by auto
next
  case (4 conv d n s)
  then obtain c r c' r' where s: "s = c # r" "skip_ws r = c' # r'" "c = CHR ''{''"
    and rest: "rest = r' \<or> c' \<noteq> CHR ''}'' \<and> (\<exists>ws. parse_items conv d n (c' # r') = Some (ws, rest))"
    by (auto split: list.splits if_splits option.splits)
  have "length (c' # r') \<le> length r" using length_skip_ws [of r] s(2) by simp
  moreover have "length rest < length (c' # r')"
    if "parse_items conv d n (c' # r') = Some (ws, rest)" "c' \<noteq> CHR ''}''" for ws
    using "4.IH" [OF s(1) _ s(2) that(2) that(1)] s(3) by simp
  ultimately show ?case using rest s(1) by auto
qed simp_all

lemma parse_items_enough:
  "(2 * length s + 1 \<le> m \<longrightarrow> m \<le> n \<longrightarrow> parse_items conv d n s = parse_items conv d m s)
   \<and> (2 * length s \<le> m \<longrightarrow> m \<le> n \<longrightarrow> parse_array conv d n s = parse_array conv d m s)"
proof (induction m arbitrary: s n)
  case 0
  then show ?case by (cases n) auto
next
  case (Suc m)
  show ?case
  proof (intro conjI impI)
    assume fuel: "2 * length s + 1 \<le> Suc m" "Suc m \<le> n"
    then obtain k where n: "n = Suc k" "m \<le> k" by (cases n) auto
    let ?t = "skip_ws s"
    have "2 * length ?t \<le> m" using fuel(1) length_skip_ws [of s] by linarith
    then have arr: "parse_array conv d k ?t = parse_array conv d m ?t" using Suc n(2) by blast
    have "parse_items conv d k r = parse_items conv d m r"
      if "(if prefix ''{'' ?t then parse_array conv d m ?t else parse_element conv d ?t) = Some (v, rest)"
        "skip_ws rest = c # r" for v rest c r
    proof -
      have "length rest < length ?t"
        using that(1) length_parse(2) length_parse_element by (auto split: if_splits)
      then have "2 * length r + 1 \<le> m"
        using length_skip_ws_Cons [OF that(2)] length_skip_ws [of s] fuel(1) by linarith
      then show ?thesis using Suc n(2) by blast
    qed
    then have rest: "\<And>v rest c r. (if prefix ''{'' ?t then parse_array conv d m ?t
        else parse_element conv d ?t) = Some (v, rest) \<Longrightarrow> skip_ws rest = c # r \<Longrightarrow>
        parse_items conv d k r = parse_items conv d m r" by blast
    show "parse_items conv d n s = parse_items conv d (Suc m) s"
    proof (cases "if prefix ''{'' ?t then parse_array conv d m ?t else parse_element conv d ?t")
      case None
      then show ?thesis by (simp only: n parse_items.simps arr option.case)
    next
      case (Some p)
      obtain v r1 where p: "p = (v, r1)" by (cases p)
      show ?thesis
      proof (cases "skip_ws r1")
        case Nil
        with Some p show ?thesis by (simp only: n parse_items.simps arr option.case prod.case list.case)
      next
        case (Cons c r)
        from rest [OF Some [unfolded p] Cons] Some p Cons show ?thesis
          by (simp only: n parse_items.simps arr option.case prod.case list.case)
      qed
    qed
  next
    assume fuel: "2 * length s \<le> Suc m" "Suc m \<le> n"
    then obtain k where n: "n = Suc k" "m \<le> k" by (cases n) auto
    show "parse_array conv d n s = parse_array conv d (Suc m) s"
    proof (cases s)
      case Nil
      then show ?thesis by (simp add: n)
    next
      case s: (Cons c r)
      show ?thesis
      proof (cases "skip_ws r")
        case Nil
        then show ?thesis by (simp only: n s parse_array.simps list.case)
      next
        case (Cons c' r')
        then have "2 * length (c' # r') + 1 \<le> m"
          using fuel(1) s length_skip_ws [of r] by simp
        then have "parse_items conv d k (c' # r') = parse_items conv d m (c' # r')"
          using Suc n(2) by blast
        with Cons show ?thesis by (simp only: n s parse_array.simps list.case)
      qed
    qed
  qed
qed

section \<open>Printing arrays and hstore values\<close>

text \<open>
  What the server writes: a bare text where it needs no quotes, otherwise a text in double quotes
  with quotes and backslashes escaped.
\<close>

datatype array_tree = Null | Bare string | Quoted string | Node "array_tree list"

definition escape_quotes :: "string \<Rightarrow> string" where
  "escape_quotes s =
     concat (map (\<lambda>c. if c = CHR 0x22 \<or> c = CHR 0x5C then [CHR 0x5C, c] else [c]) s)"

fun print_tree :: "char \<Rightarrow> array_tree \<Rightarrow> string" where
  "print_tree d Null = ''NULL''"
| "print_tree d (Bare s) = s"
| "print_tree d (Quoted s) = [CHR 0x22] @ escape_quotes s @ [CHR 0x22]"
| "print_tree d (Node ts) = ''{'' @ join_with [d] (map (print_tree d) ts) @ ''}''"

fun tree_value :: "(string \<Rightarrow> data_value) \<Rightarrow> array_tree \<Rightarrow> data_value" where
  "tree_value conv Null = DvNull"
| "tree_value conv (Bare s) = conv s"
| "tree_value conv (Quoted s) = conv s"
| "tree_value conv (Node ts) = DvArray (map (tree_value conv) ts)"

definition bare_text :: "char \<Rightarrow> string \<Rightarrow> bool" where
  "bare_text d s =
     (s \<noteq> [] \<and> s \<noteq> ''NULL'' \<and> trim s = s \<and> utf8_valid s
      \<and> list_all (\<lambda>c. \<not> ascii_ws c \<and> c \<notin> {d, CHR ''{'', CHR ''}'', CHR 0x22, CHR 0x5C}) s)"

fun tree_valid :: "char \<Rightarrow> array_tree \<Rightarrow> bool" where
  "tree_valid d Null = True"
| "tree_valid d (Bare s) = bare_text d s"
| "tree_valid d (Quoted s) = utf8_valid s"
| "tree_valid d (Node ts) = list_all (tree_valid d) ts"

definition parse_item ::
  "(string \<Rightarrow> data_value) \<Rightarrow> char \<Rightarrow> nat \<Rightarrow> string \<Rightarrow> (data_value \<times> string) option" where
  "parse_item conv d n s =
     (if prefix ''{'' s then parse_array conv d n s else parse_element conv d s)"

lemma quoted_escape: "quoted_element (escape_quotes s @ CHR 0x22 # r) = Some (s, r)"
  by (induction s) (auto simp: escape_quotes_def)

lemma plain_element_bare:
  "list_all (\<lambda>c. c \<notin> {d, CHR ''}'', CHR 0x5C}) s \<Longrightarrow> c \<in> {d, CHR ''}''} \<Longrightarrow>
   plain_element d (s @ c # r) = Some (s, c # r)"
  by (induction s) auto

lemma print_tree_start:
  "tree_valid d t \<Longrightarrow> \<exists>c r. print_tree d t = c # r \<and> \<not> ascii_ws c \<and> c \<noteq> CHR ''}''"
  by (cases t) (auto simp: ascii_ws_def bare_text_def neq_Nil_conv)

lemma skip_ws_print: "tree_valid d t \<Longrightarrow> skip_ws (print_tree d t @ r) = print_tree d t @ r"
  using print_tree_start [of d t] by auto

lemma utf8_valid_NULL: "utf8_valid ''NULL''"
  by (simp add: Let_def)

lemma trim_NULL: "trim ''NULL'' = ''NULL''"
  by (simp add: trim_def utf8_cont_def ws_chunk_def is_whitespace_def)

lemma parse_item_leaf:
  assumes d: "d \<in> {CHR '','', CHR '';''}" "c \<in> {d, CHR ''}''}"
  shows "parse_item conv d n (''NULL'' @ c # r) = Some (DvNull, c # r)"
    and "utf8_valid s \<Longrightarrow> parse_item conv d n (print_tree d (Quoted s) @ c # r) = Some (conv s, c # r)"
    and "bare_text d s \<Longrightarrow> parse_item conv d n (s @ c # r) = Some (conv s, c # r)"
proof -
  show "parse_item conv d n (''NULL'' @ c # r) = Some (DvNull, c # r)"
    using d utf8_valid_NULL trim_NULL by (auto simp: parse_item_def parse_element_def)
  show "parse_item conv d n (print_tree d (Quoted s) @ c # r) = Some (conv s, c # r)" if "utf8_valid s"
    using that quoted_escape [of s "c # r"] by (simp add: parse_item_def parse_element_def)
  show "parse_item conv d n (s @ c # r) = Some (conv s, c # r)" if s: "bare_text d s"
  proof -
    obtain a w where a: "s = a # w" "a \<noteq> CHR ''{''" "a \<noteq> CHR 0x22"
      using s by (cases s) (auto simp: bare_text_def)
    have "plain_element d (s @ c # r) = Some (s, c # r)"
      using s d(2) by (intro plain_element_bare) (auto simp: bare_text_def list_all_iff)
    moreover have "utf8_valid s" "trim s = s" "s \<noteq> []" "s \<noteq> ''NULL''" using s by (auto simp: bare_text_def)
    ultimately show ?thesis
      using a by (auto simp: parse_item_def parse_element_def simp del: utf8_valid.simps)
  qed
qed

lemma parse_items_print:
  assumes d: "d \<in> {CHR '','', CHR '';''}" and "ts \<noteq> []" "list_all (tree_valid d) ts"
    and items: "\<And>t. t \<in> set ts \<Longrightarrow> \<exists>n0. \<forall>n\<ge>n0. \<forall>c r. c \<in> {d, CHR ''}''} \<longrightarrow>
      parse_item conv d n (print_tree d t @ c # r) = Some (tree_value conv t, c # r)"
  shows "\<exists>n0. \<forall>n\<ge>n0. \<forall>r. parse_items conv d n (join_with [d] (map (print_tree d) ts) @ CHR ''}'' # r)
    = Some (map (tree_value conv) ts, r)"
  using assms(2-)
proof (induction ts)
  case (Cons t ts)
  from Cons.prems(3) obtain n1 where n1: "\<And>n c r. n1 \<le> n \<Longrightarrow> c \<in> {d, CHR ''}''} \<Longrightarrow>
      parse_item conv d n (print_tree d t @ c # r) = Some (tree_value conv t, c # r)"
    by (meson list.set_intros(1))
  have valid: "tree_valid d t" using Cons.prems(2) by simp
  have noskip: "skip_ws (c # r) = c # r" if "c \<in> {d, CHR ''}''}" for c r
    using that d by (auto simp: ascii_ws_def)
  have step: "parse_items conv d (Suc n) (print_tree d t @ c # r)
      = (if c = d then (case parse_items conv d n r of
                          None \<Rightarrow> None
                        | Some (vs, rest') \<Rightarrow> Some (tree_value conv t # vs, rest'))
         else Some ([tree_value conv t], r))" if "n1 \<le> n" "c \<in> {d, CHR ''}''}" for n c r
    using n1 [OF that] noskip [OF that(2)] that(2)
    unfolding parse_items.simps skip_ws_print [OF valid] parse_item_def [symmetric] by auto
  have dne: "d \<noteq> CHR ''}''" using d by auto
  show ?case
  proof (cases ts)
    case Nil
    have "parse_items conv d n (print_tree d t @ CHR ''}'' # r) = Some ([tree_value conv t], r)"
      if "Suc n1 \<le> n" for n r
      using that step [of "n - 1" "CHR ''}''" r] dne by (cases n) auto
    with Nil show ?thesis by auto
  next
    case (Cons u us)
    have "ts \<noteq> []" "list_all (tree_valid d) ts" using Cons Cons.prems(2) by auto
    with Cons.IH Cons.prems(3) obtain n2 where n2: "\<And>n r. n2 \<le> n \<Longrightarrow>
        parse_items conv d n (join_with [d] (map (print_tree d) ts) @ CHR ''}'' # r)
          = Some (map (tree_value conv) ts, r)"
      by (meson list.set_intros(2))
    have "parse_items conv d n (join_with [d] (map (print_tree d) (t # ts)) @ CHR ''}'' # r)
        = Some (map (tree_value conv) (t # ts), r)" if "Suc (max n1 n2) \<le> n" for n r
      using that step [of "n - 1" d "join_with [d] (map (print_tree d) ts) @ CHR ''}'' # r"]
        n2 [of "n - 1" r] Cons by (cases n) auto
    then show ?thesis by blast
  qed
qed simp

lemma join_start: "ts \<noteq> [] \<Longrightarrow> \<exists>u. join_with sep ts = hd ts @ u"
  by (induction sep ts rule: join_with.induct) auto

lemma parse_array_print:
  assumes d: "d \<in> {CHR '','', CHR '';''}" "list_all (tree_valid d) ts"
    and items: "\<And>t. t \<in> set ts \<Longrightarrow> \<exists>n0. \<forall>n\<ge>n0. \<forall>c r. c \<in> {d, CHR ''}''} \<longrightarrow>
      parse_item conv d n (print_tree d t @ c # r) = Some (tree_value conv t, c # r)"
  shows "\<exists>n0. \<forall>n\<ge>n0. \<forall>r. parse_array conv d n (print_tree d (Node ts) @ r)
    = Some (tree_value conv (Node ts), r)"
proof (cases "ts = []")
  case True
  have "parse_array conv d n (print_tree d (Node ts) @ r) = Some (tree_value conv (Node ts), r)"
    if "1 \<le> n" for n r
    using that True by (cases n) (simp_all add: ascii_ws_def)
  then show ?thesis by blast
next
  case False
  let ?j = "join_with [d] (map (print_tree d) ts)"
  from parse_items_print [OF d(1) False d(2) items] obtain n0 where n0: "\<And>n r. n0 \<le> n \<Longrightarrow>
      parse_items conv d n (?j @ CHR ''}'' # r) = Some (map (tree_value conv) ts, r)" by blast
  obtain u where "?j = hd (map (print_tree d) ts) @ u"
    using join_start [of "map (print_tree d) ts" "[d]"] False by auto
  then obtain c0 r0 where start: "?j = c0 # r0" "\<not> ascii_ws c0" "c0 \<noteq> CHR ''}''"
    using print_tree_start [of d "hd ts"] False d(2) by (cases ts) auto
  have "parse_array conv d n (print_tree d (Node ts) @ r) = Some (tree_value conv (Node ts), r)"
    if n: "Suc n0 \<le> n" for n r
  proof -
    obtain k where k: "n = Suc k" "n0 \<le> k" using n by (cases n) auto
    have "print_tree d (Node ts) @ r = CHR ''{'' # (c0 # (r0 @ CHR ''}'' # r))" using start by simp
    then show ?thesis
      using n0 [OF k(2), of r] start(2,3) by (simp add: k(1) start(1))
  qed
  then show ?thesis by blast
qed

lemma parse_item_print:
  assumes d: "d \<in> {CHR '','', CHR '';''}"
  shows "tree_valid d t \<Longrightarrow> \<exists>n0. \<forall>n\<ge>n0. \<forall>c r. c \<in> {d, CHR ''}''} \<longrightarrow>
    parse_item conv d n (print_tree d t @ c # r) = Some (tree_value conv t, c # r)"
proof (induction t)
  case Null
  then show ?case
    unfolding print_tree.simps tree_value.simps using parse_item_leaf(1) [OF d] by blast
next
  case (Bare s)
  then show ?case
    unfolding print_tree.simps tree_value.simps tree_valid.simps
    using parse_item_leaf(3) [OF d] by blast
next
  case (Quoted s)
  then show ?case
    unfolding tree_value.simps tree_valid.simps using parse_item_leaf(2) [OF d] by blast
next
  case (Node ts)
  then have "\<exists>n0. \<forall>n\<ge>n0. \<forall>r. parse_array conv d n (print_tree d (Node ts) @ r)
      = Some (tree_value conv (Node ts), r)"
    by (intro parse_array_print [OF d]) (simp_all add: list_all_iff)
  moreover have "prefix ''{'' (print_tree d (Node ts) @ r)" for r by simp
  ultimately show ?case by (auto simp only: parse_item_def if_True)
qed

lemma parse_postgres_array_print:
  assumes "tree_valid (array_delimiter e) (Node ts)"
  shows "parse_postgres_array conv (print_tree (array_delimiter e) (Node ts)) e
    = Some (tree_value conv (Node ts))"
proof -
  let ?d = "array_delimiter e" and ?t = "Node ts"
  let ?s = "print_tree ?d ?t"
  have d: "?d \<in> {CHR '','', CHR '';''}" by (simp add: array_delimiter_def)
  have "\<exists>n0. \<forall>n\<ge>n0. \<forall>r. parse_array conv ?d n (?s @ r) = Some (tree_value conv ?t, r)"
    using assms by (intro parse_array_print [OF d] parse_item_print [OF d]) (simp_all add: list_all_iff)
  then obtain n0 where n0: "\<And>n r. n0 \<le> n \<Longrightarrow> parse_array conv ?d n (?s @ r) = Some (tree_value conv ?t, r)"
    by blast
  have "parse_array conv ?d (2 * length ?s) ?s = parse_array conv ?d (max n0 (2 * length ?s)) ?s"
    using parse_items_enough [of ?s "2 * length ?s" "max n0 (2 * length ?s)" conv ?d] by simp
  also have "\<dots> = Some (tree_value conv ?t, [])"
    using n0 [of "max n0 (2 * length ?s)" "[]"] by simp
  finally have "parse_array conv ?d (2 * length ?s) ?s = Some (tree_value conv ?t, [])" .
  moreover have "takeWhile (\<lambda>c. c \<noteq> CHR ''{'') ?s = []" "dropWhile (\<lambda>c. c \<noteq> CHR ''{'') ?s = ?s" "?s \<noteq> []"
    by simp_all
  ultimately show ?thesis
    unfolding parse_postgres_array_def Let_def by (simp only: option.case prod.case) simp
qed

text \<open>hstore: quoted keys and values, on characters.\<close>

definition whole_char :: "string \<Rightarrow> bool" where
  "whole_char c = (c \<noteq> [] \<and> \<not> utf8_cont (hd c) \<and> list_all utf8_cont (tl c))"

definition starts_char :: "string \<Rightarrow> bool" where
  "starts_char s = (s = [] \<or> \<not> utf8_cont (hd s))"

definition hs_quote :: "string \<Rightarrow> chars" where
  "hs_quote s =
     [[CHR 0x22]]
     @ concat (map (\<lambda>c. if c = [CHR 0x22] \<or> c = [CHR 0x5C] then [[CHR 0x5C], c] else [c]) (utf8_chunks s))
     @ [[CHR 0x22]]"

definition hs_print_entry :: "string \<times> string option \<Rightarrow> chars" where
  "hs_print_entry kv =
     (case kv of (k, v) \<Rightarrow>
        hs_quote k @ [''='', ''>'']
        @ (case v of None \<Rightarrow> [''N'', ''U'', ''L'', ''L''] | Some t \<Rightarrow> hs_quote t))"

fun hs_print :: "(string \<times> string option) list \<Rightarrow> chars" where
  "hs_print [] = []"
| "hs_print [kv] = hs_print_entry kv"
| "hs_print (kv # m) = hs_print_entry kv @ [ '','', '' ''] @ hs_print m"

definition print_hstore :: "(string \<times> string option) list \<Rightarrow> string" where
  "print_hstore m = concat (hs_print m)"

lemma utf8_chunks_whole: "starts_char s \<Longrightarrow> list_all whole_char (utf8_chunks s)"
proof (induction s rule: utf8_chunks.induct)
  case (2 c s)
  have "starts_char (dropWhile utf8_cont s)"
    by (cases "dropWhile utf8_cont s = []") (simp_all add: starts_char_def hd_dropWhile)
  moreover have "list_all utf8_cont (takeWhile utf8_cont s)"
    by (auto simp: list_all_iff dest: set_takeWhileD)
  moreover have "\<not> utf8_cont c" using "2.prems" by (simp add: starts_char_def)
  ultimately show ?case using "2.IH" by (simp add: whole_char_def)
qed simp

lemma takeWhile_stop:
  "starts_char r \<Longrightarrow> list_all utf8_cont t \<Longrightarrow>
   takeWhile utf8_cont (t @ r) = t \<and> dropWhile utf8_cont (t @ r) = r"
  by (induction t) (cases r; auto simp: starts_char_def)+

lemma utf8_chunks_concat: "list_all whole_char cs \<Longrightarrow> utf8_chunks (concat cs) = cs"
proof (induction cs)
  case (Cons c cs)
  obtain a t where c: "c = a # t" "list_all utf8_cont t"
    using Cons.prems by (cases c) (auto simp: whole_char_def)
  have "starts_char (concat cs)"
    using Cons.prems by (cases cs) (auto simp: whole_char_def starts_char_def)
  with Cons c takeWhile_stop [of "concat cs" t] show ?case by simp
qed simp

lemma whole_ascii: "(of_char c :: nat) < 128 \<Longrightarrow> whole_char [c]"
  by (simp add: whole_char_def utf8_cont_def)

lemma whole_hs_quote: "starts_char s \<Longrightarrow> list_all whole_char (hs_quote s)"
  using utf8_chunks_whole [of s]
  by (auto simp: hs_quote_def list_all_iff whole_ascii split: if_splits)

lemma whole_hs_print:
  "list_all (\<lambda>(k, v). starts_char k \<and> pred_option starts_char v) m \<Longrightarrow> list_all whole_char (hs_print m)"
  by (induction m rule: hs_print.induct)
     (auto simp: hs_print_entry_def whole_hs_quote whole_ascii split: option.split)

lemma hs_quoted_quote:
  "hs_quoted (concat (map (\<lambda>c. if c = [CHR 0x22] \<or> c = [CHR 0x5C] then [[CHR 0x5C], c] else [c]) cs)
      @ [CHR 0x22] # r) = Some (concat cs, r)"
  by (induction cs) auto

lemma hs_string_quote: "hs_string (hs_quote s @ r) = Some (s, r)"
  using hs_quoted_quote [of "utf8_chunks s" r] by (simp add: hs_string_def hs_quote_def)

lemma ascii_not_ws:
  "\<not> ws_chunk ''=''" "\<not> ws_chunk '',''" "\<not> ws_chunk [CHR 0x22]" "\<not> ws_chunk ''N''" "ws_chunk '' ''"
  by (simp_all add: ws_chunk_def is_whitespace_def)

lemma skip_quote: "skip_whitespace (hs_quote s @ r) = hs_quote s @ r"
  by (simp add: hs_quote_def ascii_not_ws)

lemma hs_null_quote: "\<not> hs_null (hs_quote s @ r)"
  by (simp add: hs_null_def hs_quote_def numeral_eq_Suc)

lemma hs_entry_print:
  assumes "r = [] \<or> hd r = '',''"
  shows "hs_entry (hs_print_entry (k, v) @ r) = Some ((k, v), r)"
proof -
  have skip: "skip_whitespace r = r" using assms by (cases r) (auto simp: ascii_not_ws)
  show ?thesis
  proof (cases v)
    case None
    have "hs_null (''N'' # ''U'' # ''L'' # ''L'' # r)"
      using assms by (cases r) (auto simp: hs_null_def numeral_eq_Suc)
    with None skip show ?thesis
      by (simp add: hs_entry_def hs_print_entry_def hs_string_quote hs_char_def ascii_not_ws
          numeral_eq_Suc)
  next
    case (Some t)
    with skip show ?thesis
      by (simp add: hs_entry_def hs_print_entry_def hs_string_quote hs_char_def ascii_not_ws
          hs_null_quote skip_quote)
  qed
qed

lemma hs_entries_print:
  "m \<noteq> [] \<Longrightarrow> hs_entries acc (hs_print m) = Some (fold (\<lambda>(k, v). bt_insert k v) m acc)"
proof (induction m arbitrary: acc rule: hs_print.induct)
  case (2 kv)
  show ?case
    by (cases kv) (use hs_entry_print [of "[]"] in \<open>simp add: hs_entries.simps\<close>)
next
  case (3 kv kv2 m)
  obtain k v where kv: "kv = (k, v)" by (cases kv)
  let ?rest = "hs_print (kv2 # m)"
  have entry: "hs_entry (hs_print_entry (k, v) @ '','' # '' '' # ?rest) = Some ((k, v), '','' # '' '' # ?rest)"
    by (rule hs_entry_print) simp
  have "skip_whitespace ?rest = ?rest"
    by (cases kv2; cases m) (auto simp: hs_print_entry_def skip_quote)
  then have "skip_whitespace ('' '' # ?rest) = ?rest" by (simp add: ascii_not_ws)
  with entry 3 kv show ?case by (subst hs_entries.simps) simp
qed simp

lemma parse_hstore_print:
  assumes "bt_inv m" "list_all (\<lambda>(k, v). starts_char k \<and> pred_option starts_char v) m"
  shows "parse_hstore (print_hstore m) = Some m"
proof -
  have chunks: "utf8_chunks (print_hstore m) = hs_print m"
    using whole_hs_print [OF assms(2)] by (simp add: print_hstore_def utf8_chunks_concat)
  show ?thesis
  proof (cases m)
    case Nil
    then show ?thesis using chunks by (simp add: parse_hstore_def)
  next
    case (Cons kv m')
    have "skip_whitespace (hs_print m) = hs_print m" "hs_print m \<noteq> []"
      unfolding Cons by (cases kv; cases m'; simp add: hs_print_entry_def skip_quote hs_quote_def ascii_not_ws)+
    then show ?thesis
      using chunks hs_entries_print [of m "[]"] Cons fold_bt_insert_sorted [OF assms(1)]
      by (auto simp: parse_hstore_def split: list.split)
  qed
qed

section \<open>Properties\<close>

text \<open>
  C17. Arrays are read as the server writes them: for an array of any shape and nesting, with bare
  and quoted elements, NULLs and the delimiter of the element type, the text is converted to the
  array of the converted elements. In particular the fuel of the parser is always enough.
\<close>

theorem array_text_round_trip:
  assumes "strip_suffix ''[]'' (trim type_name) = Some element_type"
    and "tree_valid (array_delimiter element_type) (Node ts)"
  shows "convert_text_with_modes te (print_tree (array_delimiter element_type) (Node ts)) type_name
      hstore_mode interval_mode digits
    = tree_value (\<lambda>v. convert_text_with_modes te v element_type hstore_mode interval_mode digits) (Node ts)"
  using assms by (subst convert_text_with_modes.simps) (simp add: parse_postgres_array_print del: print_tree.simps)

definition sample_tree :: array_tree where
  "sample_tree = Node [Node [Bare ''ab'', Null], Node [Quoted [CHR 0x22, CHR ''}''], Quoted []]]"

theorem array_text_round_trip_witness:
  "\<forall>te. convert_text_with_modes te (print_tree CHR '','' sample_tree) ''text[]'' ''json'' ''postgres'' 2
   = DvArray [DvArray [DvString ''ab'', DvNull], DvArray [DvString [CHR 0x22, CHR ''}''], DvString []]]"
proof (rule allI)
  fix te
  have trims: "trim ''text[]'' = ''text[]''" "trim ''text'' = ''text''" "trim ''ab'' = ''ab''"
    by (simp_all add: trim_def utf8_cont_def ws_chunk_def is_whitespace_def)
  have ty: "strip_suffix ''[]'' (trim ''text[]'') = Some ''text''"
    unfolding trims(1) by (simp add: strip_suffix_def suffix_def)
  have d: "array_delimiter ''text'' = CHR '',''" by (simp add: array_delimiter_def trims(2))
  have as_text: "convert_text_with_modes te v ''text'' ''json'' ''postgres'' 2 = DvString v" for v
    by (subst convert_text_with_modes.simps)
       (simp add: trims strip_suffix_def suffix_def unqualified_base_type_def trim_matches_def)
  have "tree_valid CHR '','' sample_tree"
    by (simp add: sample_tree_def bare_text_def trims ascii_ws_def)
  with array_text_round_trip [OF ty, of "[Node [Bare ''ab'', Null], Node [Quoted [CHR 0x22, CHR ''}''], Quoted []]]"
      te "''json''" "''postgres''" 2]
  show "convert_text_with_modes te (print_tree CHR '','' sample_tree) ''text[]'' ''json'' ''postgres'' 2
   = DvArray [DvArray [DvString ''ab'', DvNull], DvArray [DvString [CHR 0x22, CHR ''}''], DvString []]]"
    by (simp add: d as_text sample_tree_def del: print_tree.simps)
qed

text \<open>
  An hstore value is read as the server writes it: every key with its text or its NULL, whatever
  characters they hold, and the document or map that is emitted holds exactly these entries.
\<close>

theorem hstore_round_trip:
  assumes "bt_inv m" "list_all (\<lambda>(k, v). starts_char k \<and> pred_option starts_char v) m"
  shows "convert_text_with_modes te (print_hstore m) ''hstore'' ''map'' interval_mode digits
      = DvMap (map (\<lambda>(k, v). (k, case v of None \<Rightarrow> DvNull | Some t \<Rightarrow> DvString t)) m)
    \<and> convert_text_with_modes te (print_hstore m) ''hstore'' ''json'' interval_mode digits
      = DvJson (JObject (map (\<lambda>(k, v). (k, case v of None \<Rightarrow> JNull | Some t \<Rightarrow> JString t)) m))"
proof -
  have "trim ''hstore'' = ''hstore''"
    by (simp add: trim_def utf8_cont_def ws_chunk_def is_whitespace_def)
  then have "strip_suffix ''[]'' (trim ''hstore'') = None" "unqualified_base_type ''hstore'' = ''hstore''"
    by (simp_all add: strip_suffix_def suffix_def unqualified_base_type_def trim_matches_def)
  then show ?thesis
    by (simp add: convert_text_with_modes.simps parse_hstore_print [OF assms] hstore_value_def Let_def)
qed

theorem hstore_round_trip_witness:
  "\<forall>te. convert_text_with_modes te (print_hstore [(''a,b'', None), (''c'', Some [CHR 0x22, CHR 0x5C])]) ''hstore''
     ''map'' ''postgres'' 2 = DvMap [(''a,b'', DvNull), (''c'', DvString [CHR 0x22, CHR 0x5C])]"
  using hstore_round_trip [of "[(''a,b'', None), (''c'', Some [CHR 0x22, CHR 0x5C])]" _ "''postgres''" 2]
  by (simp add: bt_inv_def starts_char_def utf8_cont_def)

end
