(* ===== verification/Pg_Snapshot.thy ===== *)
theory Pg_Snapshot
  imports Pg_Values Core_Signal
begin

text \<open>
  Incremental snapshots of PostgreSQL: signals, chunks and windows of
  \<^verbatim>\<open>crates/rustium-postgresql/src/incremental_snapshot.rs\<close>, and the two functions of
  \<^verbatim>\<open>source.rs\<close> that apply an external signal. The library of the connection, the regular expressions
  and the JSON printer and parser are parameters; a JSON text is parsed to a document that keeps
  duplicate keys, and a struct with a duplicate field is refused.
\<close>

section \<open>Environment\<close>

record ('c, 'w) snap_env =
  sn_pg :: "('c, 'w) pg_env"
  sn_text :: text_env
  sn_regex :: regex_engine
  sn_regex_error :: "string \<Rightarrow> string"
  sn_parse :: "string \<Rightarrow> string + json"
  sn_print :: "json \<Rightarrow> string"
  sn_shape_error :: "json \<Rightarrow> string"
  sn_key_text :: "data_value list \<Rightarrow> string option"

type_synonym schema_map = "(table_key \<times> pg_table_schema) list"

section \<open>Signals\<close>

record additional_condition =
  ac_data_collection :: string
  ac_filter :: string

datatype signal =
    Execute string "string list" "additional_condition list" "string option"
  | Stop string "string list"
  | Pause string
  | Resume string
  | WindowOpen string
  | WindowClose string
  | Unsupported string string

definition condition_from_json :: "json \<Rightarrow> additional_condition option" where
  "condition_from_json j =
     (case j of
        JObject m \<Rightarrow>
          if \<not> unique_fields [''data-collection'', ''filter''] m then None
          else do {
            coll \<leftarrow> field get_string ''data-collection'' m;
            flt \<leftarrow> field get_string ''filter'' m;
            Some \<lparr>ac_data_collection = coll, ac_filter = flt\<rparr>
          }
      | _ \<Rightarrow> None)"

record execute_data =
  xd_type :: "string option"
  xd_data_collections :: "string list"
  xd_additional_conditions :: "additional_condition list"
  xd_surrogate_key :: "string option"

definition execute_data_from_json :: "json \<Rightarrow> execute_data option" where
  "execute_data_from_json j =
     (case j of
        JObject m \<Rightarrow>
          if \<not> unique_fields [''type'', ''data-collections'', ''additional-conditions'', ''surrogate-key''] m
          then None
          else do {
            kind \<leftarrow> opt_field get_string ''type'' m;
            collections \<leftarrow> field (get_list get_string) ''data-collections'' m;
            conditions \<leftarrow> default_field [] (get_list condition_from_json) ''additional-conditions'' m;
            surrogate \<leftarrow> opt_field get_string ''surrogate-key'' m;
            Some \<lparr>xd_type = kind, xd_data_collections = collections,
                  xd_additional_conditions = conditions, xd_surrogate_key = surrogate\<rparr>
          }
      | _ \<Rightarrow> None)"

record control_data =
  cd_type :: "string option"
  cd_data_collections :: "string list"

definition control_data_from_json :: "json \<Rightarrow> control_data option" where
  "control_data_from_json j =
     (case j of
        JObject m \<Rightarrow>
          if \<not> unique_fields [''type'', ''data-collections''] m then None
          else do {
            kind \<leftarrow> opt_field get_string ''type'' m;
            collections \<leftarrow> default_field [] (get_list get_string) ''data-collections'' m;
            Some \<lparr>cd_type = kind, cd_data_collections = collections\<rparr>
          }
      | _ \<Rightarrow> None)"

text \<open>\<^verbatim>\<open>serde_json::from_str\<close>, with the text of its error.\<close>

definition from_str ::
  "('c, 'w) snap_env \<Rightarrow> (json \<Rightarrow> 'a option) \<Rightarrow> string \<Rightarrow> string \<Rightarrow> 'a result" where
  "from_str env get prefix_text s =
     (case sn_parse env s of
        Inl msg \<Rightarrow> Err (Source (prefix_text @ msg))
      | Inr j \<Rightarrow> ok_or (Source (prefix_text @ sn_shape_error env j)) (get j))"

definition not_incremental :: "string option \<Rightarrow> bool" where
  "not_incremental kind =
     (case kind of None \<Rightarrow> False | Some k \<Rightarrow> \<not> eq_ignore_ascii_case k ''incremental'')"

definition control_snapshot_data :: "('c, 'w) snap_env \<Rightarrow> string \<Rightarrow> string \<Rightarrow> control_data result" where
  "control_snapshot_data env s i =
     rbind (from_str env control_data_from_json
              (''PostgreSQL snapshot control signal '' @ debug_str i @ '' has invalid JSON data: '') s)
       (\<lambda>request.
          if not_incremental (cd_type request)
          then Err (Source (''PostgreSQL snapshot control signal '' @ debug_str i
                            @ '' supports only type=incremental''))
          else Ok request)"

definition parse_signal_fields ::
  "('c, 'w) snap_env \<Rightarrow> string \<Rightarrow> string \<Rightarrow> string \<Rightarrow> signal result" where
  "parse_signal_fields env i signal_type s =
     (if signal_type = ''execute-snapshot''
      then rbind (from_str env execute_data_from_json
                    (''PostgreSQL execute-snapshot signal '' @ debug_str i @ '' has invalid JSON data: '') s)
        (\<lambda>request.
           if not_incremental (xd_type request)
           then Err (Source (''PostgreSQL execute-snapshot signal '' @ debug_str i
                             @ '' supports only type=incremental''))
           else if xd_data_collections request = []
           then Err (Source (''PostgreSQL execute-snapshot signal '' @ debug_str i
                             @ '' has no data-collections''))
           else if list_ex (\<lambda>c. trim (ac_data_collection c) = [] \<or> trim (ac_filter c) = [])
                     (xd_additional_conditions request)
           then Err (Source (''PostgreSQL execute-snapshot signal '' @ debug_str i
                             @ '' has an empty additional-condition''))
           else Ok (Execute i (xd_data_collections request) (xd_additional_conditions request)
                      (case xd_surrogate_key request of
                         None \<Rightarrow> None
                       | Some k \<Rightarrow> if trim k \<noteq> [] then Some k else None)))
      else if signal_type = ''stop-snapshot''
      then rbind (control_snapshot_data env s i) (\<lambda>r. Ok (Stop i (cd_data_collections r)))
      else if signal_type = ''pause-snapshot''
      then rbind (control_snapshot_data env s i) (\<lambda>_. Ok (Pause i))
      else if signal_type = ''resume-snapshot''
      then rbind (control_snapshot_data env s i) (\<lambda>_. Ok (Resume i))
      else if signal_type = ''snapshot-window-open'' then Ok (WindowOpen i)
      else if signal_type = ''snapshot-window-close'' then Ok (WindowClose i)
      else Ok (Unsupported i signal_type))"

definition parse_external_record :: "('c, 'w) snap_env \<Rightarrow> signal_record \<Rightarrow> signal result" where
  "parse_external_record env r =
     (if trim (sg_id r) = [] \<or> trim (sg_type r) = []
      then Err (Source ''PostgreSQL external signal requires non-empty id and type'')
      else rbind (parse_signal_fields env (sg_id r) (sg_type r) (sn_print env (sg_data r)))
        (\<lambda>s. case s of
               WindowOpen _ \<Rightarrow>
                 Err (Source ''PostgreSQL external signal cannot emit internal snapshot watermarks'')
             | WindowClose _ \<Rightarrow>
                 Err (Source ''PostgreSQL external signal cannot emit internal snapshot watermarks'')
             | _ \<Rightarrow> Ok s))"

text \<open>A row of the signal table: the columns with a text, by name.\<close>

definition signal_column :: "(string \<times> string option) list \<Rightarrow> string \<Rightarrow> string result" where
  "signal_column row name =
     ok_or (Source (''PostgreSQL signal has no text '' @ name @ '' column''))
       (Option.bind (map_of row name) (\<lambda>v. v))"

definition parse_signal ::
  "('c, 'w) snap_env \<Rightarrow> (string \<times> string option) list \<Rightarrow> signal result" where
  "parse_signal env row =
     rbind (signal_column row ''id'') (\<lambda>i. rbind (signal_column row ''type'') (\<lambda>t.
     rbind (signal_column row ''data'') (\<lambda>d. parse_signal_fields env i t d)))"

section \<open>Snapshots of transactions\<close>

record pg_snapshot =
  ps_xmin :: u64
  ps_xmax :: u64
  ps_in_progress :: "u64 list"

definition parse_snapshot_xid :: "string option \<Rightarrow> string \<Rightarrow> string \<Rightarrow> u64 result" where
  "parse_snapshot_xid v snap fld =
     (case v of
        None \<Rightarrow> Err (Source (''invalid PostgreSQL snapshot '' @ debug_str snap @ '': missing '' @ fld))
      | Some s \<Rightarrow>
          (case parse_unsigned 64 s of
             None \<Rightarrow> Err (Source (''invalid PostgreSQL snapshot '' @ fld @ '' in '' @ debug_str snap
                                   @ '': '' @ unsigned_error 64 s))
           | Some n \<Rightarrow> Ok (of_nat n)))"

definition nth_option :: "'a list \<Rightarrow> nat \<Rightarrow> 'a option" where
  "nth_option xs i = (if i < length xs then Some (xs ! i) else None)"

definition parse_pg_snapshot :: "string \<Rightarrow> pg_snapshot result" where
  "parse_pg_snapshot s =
     (let parts = split_on ((=) CHR '':'') s in
      rbind (parse_snapshot_xid (nth_option parts 0) s ''xmin'') (\<lambda>xmin.
      rbind (parse_snapshot_xid (nth_option parts 1) s ''xmax'') (\<lambda>xmax.
      rbind (collect_results
               (\<lambda>xid. case parse_unsigned 64 xid of
                        None \<Rightarrow> Err (Source (''invalid PostgreSQL snapshot in-progress xid ''
                                   @ debug_str xid @ '' in '' @ debug_str s @ '': ''
                                   @ unsigned_error 64 xid))
                      | Some n \<Rightarrow> Ok (of_nat n))
               (filter (\<lambda>xid. xid \<noteq> [])
                  (split_on ((=) CHR '','') (case nth_option parts 2 of None \<Rightarrow> [] | Some t \<Rightarrow> t))))
        (\<lambda>in_progress.
          if 3 < length parts
          then Err (Source (''invalid PostgreSQL snapshot '' @ debug_str s @ '': too many fields''))
          else Ok \<lparr>ps_xmin = xmin, ps_xmax = xmax, ps_in_progress = in_progress\<rparr>))))"

section \<open>Chunks\<close>

definition split_collection :: "string \<Rightarrow> (string \<times> string) result" where
  "split_collection coll =
     ok_or (Configuration (''PostgreSQL collection '' @ debug_str coll @ '' must be schema-qualified''))
       (split_once CHR ''.'' coll)"

definition qualified_table :: "('c, 'w) pg_env \<Rightarrow> string \<Rightarrow> string \<Rightarrow> string result" where
  "qualified_table pg schema table =
     rbind (quote_ident pg schema) (\<lambda>s. rbind (quote_ident pg table) (\<lambda>t. Ok (s @ ''.'' @ t)))"

definition qualified_name :: "('c, 'w) pg_env \<Rightarrow> string \<Rightarrow> string result" where
  "qualified_name pg coll = rbind (split_collection coll) (\<lambda>(s, t). qualified_table pg s t)"

definition insert_watermark ::
  "('c, 'w) pg_env \<Rightarrow> 'c \<Rightarrow> string \<Rightarrow> string \<Rightarrow> string \<Rightarrow> ('w, unit) stateful" where
  "insert_watermark pg c signal_table i signal_type =
     sbind (slift (quote_literal pg i)) (\<lambda>i'.
     sbind (slift (quote_literal pg signal_type)) (\<lambda>t'.
     sbind (pg_exec pg c (''INSERT INTO '' @ signal_table @ '' (id, type, data) VALUES ('' @ i' @ '', ''
              @ t' @ '', '' @ squote ''{}'' @ '')''))
       (\<lambda>_. sreturn ())))"

definition query_current_snapshot :: "('c, 'w) pg_env \<Rightarrow> 'c \<Rightarrow> ('w, pg_snapshot) stateful" where
  "query_current_snapshot pg c =
     sbind (pg_exec pg c ''SELECT pg_current_snapshot()::text'') (\<lambda>res.
       slift (rbind (ok_or (Source ''pg_current_snapshot() returned no value'') (get_value res 0 0))
                parse_pg_snapshot))"

definition surrogate_query :: "string \<Rightarrow> string \<Rightarrow> string \<Rightarrow> string" where
  "surrogate_query schema_name table_name column_name =
     ''SELECT EXISTS (SELECT 1 FROM pg_catalog.pg_index i ''
     @ ''JOIN pg_catalog.pg_class c ON c.oid = i.indrelid ''
     @ ''JOIN pg_catalog.pg_namespace n ON n.oid = c.relnamespace ''
     @ ''JOIN pg_catalog.pg_attribute a ON a.attrelid = c.oid AND a.attname = '' @ column_name
     @ '' WHERE n.nspname = '' @ schema_name @ '' AND c.relname = '' @ table_name
     @ '' AND i.indisunique AND i.indisvalid AND i.indpred IS NULL AND i.indexprs IS NULL ''
     @ ''AND i.indnkeyatts = 1 AND EXISTS (SELECT 1 ''
     @ ''FROM unnest(i.indkey::smallint[]) WITH ORDINALITY AS key(attnum, ordinal) ''
     @ ''WHERE key.ordinal = 1 AND key.attnum = a.attnum))''"

definition validate_surrogate_key ::
  "('c, 'w) pg_env \<Rightarrow> 'c \<Rightarrow> pg_table_schema \<Rightarrow> string \<Rightarrow> ('w, unit) stateful" where
  "validate_surrogate_key pg c schema key =
     sbind (slift (quote_literal pg (pts_schema schema))) (\<lambda>s.
     sbind (slift (quote_literal pg (pts_table schema))) (\<lambda>t.
     sbind (slift (quote_literal pg key)) (\<lambda>k.
     sbind (pg_exec pg c (surrogate_query s t k)) (\<lambda>res. slift
       (if get_value res 0 0 \<noteq> Some ''t''
        then Err (Source (''incremental snapshot surrogate-key '' @ debug_str key @ '' on ''
                   @ pts_schema schema @ ''.'' @ pts_table schema
                   @ '' must have a valid single-column unique index''))
        else Ok ())))))"

definition text_projection :: "('c, 'w) pg_env \<Rightarrow> field_schema list \<Rightarrow> string result" where
  "text_projection pg fls =
     rbind (collect_results (\<lambda>f. rbind (quote_ident pg (fs_name f)) (\<lambda>n. Ok (n @ ''::text''))) fls)
       (\<lambda>ps. Ok (join_with '', '' ps))"

definition query_key ::
  "('c, 'w) pg_env \<Rightarrow> 'c \<Rightarrow> string \<Rightarrow> nat \<Rightarrow> ('w, string list option) stateful" where
  "query_key pg c query columns =
     sbind (pg_exec pg c query) (\<lambda>res. slift
       (if res = [] then Ok None
        else rbind (collect_results
                     (\<lambda>i. ok_or (Source ''incremental snapshot maximum key is null'')
                            (if i < 2 ^ 31 then get_value res 0 i else None)) [0..<columns])
               (\<lambda>k. Ok (Some k))))"

definition row_predicate ::
  "('c, 'w) pg_env \<Rightarrow> string list \<Rightarrow> string \<Rightarrow> string list \<Rightarrow> string result" where
  "row_predicate pg columns op vals =
     (if length columns \<noteq> length vals
      then Err (Invariant ''incremental snapshot key boundary has the wrong arity'')
      else rbind (collect_results (quote_literal pg) vals)
        (\<lambda>vs. Ok (''ROW('' @ join_with '', '' columns @ '') '' @ op @ '' ROW('' @ join_with '', '' vs @ '')'')))"

fun data_value_text :: "text_env \<Rightarrow> data_value \<Rightarrow> string option" where
  "data_value_text te (DvBoolean b) = Some (if b then ''t'' else ''f'')"
| "data_value_text te (DvInt32 i) = Some (show_int (sint i))"
| "data_value_text te (DvInt64 i) = Some (show_int (sint i))"
| "data_value_text te (DvUInt64 u) = Some (show_word u)"
| "data_value_text te (DvFloat64 f) = Some (te_show_f64 te f)"
| "data_value_text te (DvDecimal s) = Some s"
| "data_value_text te (DvString s) = Some s"
| "data_value_text te (DvDate s) = Some s"
| "data_value_text te (DvTime s) = Some s"
| "data_value_text te (DvTimestamp s) = Some s"
| "data_value_text te (DvUuid s) = Some s"
| "data_value_text te _ = None"

definition key_text_values :: "text_env \<Rightarrow> row \<Rightarrow> field_schema list \<Rightarrow> string list result" where
  "key_text_values te row fls =
     collect_results
       (\<lambda>f. rbind (ok_or (Invariant (''incremental snapshot row has no key '' @ fs_name f))
                     (map_of row (fs_name f)))
              (\<lambda>v. ok_or (Source (''incremental snapshot key '' @ fs_name f
                            @ '' cannot be converted to PostgreSQL text''))
                     (data_value_text te v))) fls"

definition primary_key_fields :: "pg_table_schema \<Rightarrow> field_schema list" where
  "primary_key_fields s = filter fs_primary_key (es_fields (pts_event_schema s))"

definition row_key :: "('c, 'w) snap_env \<Rightarrow> pg_table_schema \<Rightarrow> row \<Rightarrow> string option" where
  "row_key env schema row =
     Option.bind (collect_options (\<lambda>f. map_of row (fs_name f)) (primary_key_fields schema))
       (sn_key_text env)"

record prepare_input =
  pi_schema :: pg_table_schema
  pi_signal_data_collection :: "string option"
  pi_last_key :: "string list option"
  pi_maximum_key :: "string list option"
  pi_additional_condition :: "string option"
  pi_surrogate_key :: "string option"
  pi_chunk_size :: nat
  pi_chunk_id :: string
  pi_read_only :: bool

record prepared_chunk =
  pk_rows :: "row list"
  pk_chunk_end :: "string list option"
  pk_maximum_key :: "string list option"
  pk_complete :: bool
  pk_watermarks :: "(pg_snapshot \<times> pg_snapshot) option"

definition schema_changed_text :: "string \<Rightarrow> string \<Rightarrow> string" where
  "schema_changed_text schema table =
     ''PostgreSQL schema changed for '' @ schema @ ''.'' @ table
     @ '' while an incremental snapshot window was active; stop the snapshot or restart it after the schema change''"

text \<open>The opening watermark: the signal table with its row, or the low snapshot.\<close>

definition open_watermark ::
  "('c, 'w) pg_env \<Rightarrow> 'c \<Rightarrow> prepare_input \<Rightarrow> ('w, string option \<times> pg_snapshot option) stateful" where
  "open_watermark pg c inp =
     (if pi_read_only inp
      then sbind (pg_exec pg c ''SELECT pg_current_xact_id()'') (\<lambda>_.
           sbind (query_current_snapshot pg c) (\<lambda>low. sreturn (None, Some low)))
      else sbind (slift (rbind (ok_or (Configuration ''signal_data_collection is not set'')
                                  (pi_signal_data_collection inp)) (qualified_name pg))) (\<lambda>signal_table.
           sbind (insert_watermark pg c signal_table (pi_chunk_id inp @ ''-open'') ''snapshot-window-open'')
             (\<lambda>_. sreturn (Some signal_table, None))))"

text \<open>The columns of the key: the surrogate, when one is asked for, or the primary key.\<close>

definition key_fields ::
  "('c, 'w) pg_env \<Rightarrow> 'c \<Rightarrow> prepare_input \<Rightarrow> ('w, field_schema list) stateful" where
  "key_fields pg c inp =
     (let schema = pi_schema inp in
      case pi_surrogate_key inp of
        None \<Rightarrow> sreturn (primary_key_fields schema)
      | Some k \<Rightarrow>
          (case find_field k (es_fields (pts_event_schema schema)) of
             None \<Rightarrow> slift (Err (Source (''incremental snapshot surrogate-key '' @ debug_str k
                       @ '' does not exist in '' @ pts_schema schema @ ''.'' @ pts_table schema)))
           | Some f \<Rightarrow>
               if fs_optional f
               then slift (Err (Source (''incremental snapshot surrogate-key '' @ debug_str k
                      @ '' on '' @ pts_schema schema @ ''.'' @ pts_table schema @ '' must be NOT NULL'')))
               else sbind (validate_surrogate_key pg c schema k) (\<lambda>_. sreturn [f])))"

definition where_clause :: "string list \<Rightarrow> string" where
  "where_clause predicates =
     (if predicates = [] then [] else '' WHERE '' @ join_with '' AND '' predicates)"

definition boundary_predicate ::
  "('c, 'w) pg_env \<Rightarrow> string list \<Rightarrow> string \<Rightarrow> string list option \<Rightarrow> string list result" where
  "boundary_predicate pg columns op bound =
     (case bound of
        None \<Rightarrow> Ok []
      | Some k \<Rightarrow> rbind (row_predicate pg columns op k) (\<lambda>p. Ok [p]))"

text \<open>One row of the chunk, field by field.\<close>

definition chunk_row ::
  "text_env \<Rightarrow> pg_config \<Rightarrow> pg_table_schema \<Rightarrow> pg_result \<Rightarrow> nat \<Rightarrow> row result" where
  "chunk_row te config schema res i =
     rbind (collect_results
              (\<lambda>(j, f).
                 if 2 ^ 31 \<le> j then Err (Invariant ''incremental snapshot has too many columns'')
                 else Ok (fs_name f,
                          case get_value res i j of
                            None \<Rightarrow> DvNull
                          | Some v \<Rightarrow> convert_snapshot_value te config schema f v))
              (enumerate 0 (es_fields (pts_event_schema schema))))
       (\<lambda>kvs. Ok (fold (\<lambda>(k, v). im_insert k v) kvs []))"

text \<open>
  \<^verbatim>\<open>prepare_chunk\<close>, on an open connection. The chunk is read between its two watermarks; its bounds
  are the last key of the previous chunk and the maximum key of the table.
\<close>

definition read_chunk ::
  "('c, 'w) pg_env \<Rightarrow> text_env \<Rightarrow> pg_config \<Rightarrow> 'c \<Rightarrow> prepare_input \<Rightarrow> field_schema list \<Rightarrow>
   ('w, row list \<times> string list option \<times> string list option \<times> bool) stateful" where
  "read_chunk pg te config c inp keys =
     (let schema = pi_schema inp;
          condition = (case pi_additional_condition inp of None \<Rightarrow> [] | Some f \<Rightarrow> [''('' @ f @ '')''])
      in
      sbind (slift (collect_results (\<lambda>f. quote_ident pg (fs_name f)) keys)) (\<lambda>columns.
      sbind (slift (qualified_table pg (pts_schema schema) (pts_table schema))) (\<lambda>table.
      sbind (case pi_maximum_key inp of
               Some k \<Rightarrow> sreturn (Some k)
             | None \<Rightarrow>
                 sbind (slift (text_projection pg keys)) (\<lambda>projection.
                   query_key pg c (''SELECT '' @ projection @ '' FROM '' @ table
                     @ where_clause condition @ '' ORDER BY '' @ join_with '', '' columns
                     @ '' DESC LIMIT 1'') (length keys))) (\<lambda>maximum_key.
      sbind (slift (text_projection pg (es_fields (pts_event_schema schema)))) (\<lambda>projection.
      sbind (slift (boundary_predicate pg columns ''>'' (pi_last_key inp))) (\<lambda>above.
      sbind (slift (boundary_predicate pg columns ''<='' maximum_key)) (\<lambda>below.
      sbind (pg_exec pg c (''SELECT '' @ projection @ '' FROM '' @ table
               @ where_clause (condition @ above @ below) @ '' ORDER BY '' @ join_with '', '' columns
               @ '' LIMIT '' @ show_nat (pi_chunk_size inp))) (\<lambda>res.
      sbind (slift (collect_results (chunk_row te config schema res) [0..<length res])) (\<lambda>rows.
      sbind (slift (if rows = [] then Ok None
                    else rbind (key_text_values te (last rows) keys) (\<lambda>k. Ok (Some k)))) (\<lambda>chunk_end.
      sreturn (rows, chunk_end, maximum_key,
               chunk_end = None \<or> chunk_end = maximum_key \<or> length rows < pi_chunk_size inp)))))))))))"

definition prepare_chunk ::
  "('c, 'w) pg_env \<Rightarrow> text_env \<Rightarrow> pg_config \<Rightarrow> 'c option \<Rightarrow> prepare_input \<Rightarrow>
   ('w, 'c \<times> prepared_chunk) stateful" where
  "prepare_chunk pg te config connection inp =
     sbind (case connection of Some c \<Rightarrow> sreturn c | None \<Rightarrow> pe_connect pg) (\<lambda>c.
     sbind (open_watermark pg c inp) (\<lambda>(signal_table, low).
     sbind (query_table_schema pg config c (pts_schema (pi_schema inp)) (pts_table (pi_schema inp)))
       (\<lambda>found.
     sbind (slift (ok_or (Source (''incremental snapshot table '' @ pts_schema (pi_schema inp) @ ''.''
              @ pts_table (pi_schema inp) @ '' disappeared after its window opened'')) found)) (\<lambda>catalog.
     sbind (slift (if es_fields (pts_event_schema catalog) \<noteq> es_fields (pts_event_schema (pi_schema inp))
                      \<or> pts_column_types catalog \<noteq> pts_column_types (pi_schema inp)
                      \<or> pts_opaque_columns catalog \<noteq> pts_opaque_columns (pi_schema inp)
                   then Err (Source (schema_changed_text (pts_schema (pi_schema inp))
                                       (pts_table (pi_schema inp))))
                   else Ok ())) (\<lambda>_.
     sbind (key_fields pg c inp) (\<lambda>keys.
     sbind (read_chunk pg te config c inp keys) (\<lambda>(rows, chunk_end, maximum_key, complete).
     sbind (case low of
              Some l \<Rightarrow> sbind (query_current_snapshot pg c) (\<lambda>high. sreturn (Some (l, high)))
            | None \<Rightarrow>
                sbind (slift (ok_or (Invariant ''incremental snapshot signal table is missing'')
                         signal_table)) (\<lambda>t.
                sbind (insert_watermark pg c t (pi_chunk_id inp @ ''-close'') ''snapshot-window-close'')
                  (\<lambda>_. sreturn None))) (\<lambda>watermarks.
     sreturn (c, \<lparr>pk_rows = rows, pk_chunk_end = chunk_end, pk_maximum_key = maximum_key,
                  pk_complete = complete, pk_watermarks = watermarks\<rparr>)))))))))"

section \<open>The controller\<close>

definition MAX_COMPLETED_SIGNAL_IDS :: nat where
  "MAX_COMPLETED_SIGNAL_IDS = 1024"

record 'c snapshot_controller =
  sc_progress :: "pg_progress option"
  sc_completed :: "string list"
  sc_connection :: "'c option"
  sc_window :: "(string \<times> row) list"
  sc_schema :: "pg_table_schema option"
  sc_chunk_end :: "string list option"
  sc_chunk_complete :: bool
  sc_chunk_id :: "string option"
  sc_window_open :: bool
  sc_state_dirty :: bool
  sc_prepare_after_commit :: bool
  sc_watermarks :: "(pg_snapshot \<times> pg_snapshot) option"

definition controller_new :: "pg_progress option \<Rightarrow> string list \<Rightarrow> 'c snapshot_controller" where
  "controller_new progress completed =
     \<lparr>sc_progress = progress, sc_completed = completed, sc_connection = None, sc_window = [],
      sc_schema = None, sc_chunk_end = None, sc_chunk_complete = False, sc_chunk_id = None,
      sc_window_open = False, sc_state_dirty = False, sc_prepare_after_commit = False,
      sc_watermarks = None\<rparr>"

text \<open>The list of completed signals: the newest last, bounded, without duplicates.\<close>

definition remember :: "string \<Rightarrow> string list \<Rightarrow> string list" where
  "remember i ids =
     (let ids' = remove1 i ids @ [i]
      in if MAX_COMPLETED_SIGNAL_IDS < length ids' then tl ids' else ids')"

definition remember_completed :: "string \<Rightarrow> 'c snapshot_controller \<Rightarrow> 'c snapshot_controller" where
  "remember_completed i c = c\<lparr>sc_completed := remember i (sc_completed c)\<rparr>"

definition take_state_dirty :: "'c snapshot_controller \<Rightarrow> bool \<times> 'c snapshot_controller" where
  "take_state_dirty c = (sc_state_dirty c, c\<lparr>sc_state_dirty := False\<rparr>)"

definition is_duplicate_execute_signal :: "string \<Rightarrow> 'c snapshot_controller \<Rightarrow> bool" where
  "is_duplicate_execute_signal i c =
     (i \<in> set (sc_completed c)
      \<or> (case sc_progress c of None \<Rightarrow> False | Some p \<Rightarrow> pp_signal_id p = i))"

definition compile_patterns ::
  "('c, 'w) snap_env \<Rightarrow> string \<Rightarrow> string list \<Rightarrow> (string \<Rightarrow> bool) list result" where
  "compile_patterns env context patterns =
     collect_results
       (\<lambda>p. ok_or (Source (''invalid '' @ context @ '' pattern '' @ debug_str p @ '': ''
                     @ sn_regex_error env p)) (sn_regex env False (anchored p)))
       patterns"

definition expand_data_collections ::
  "('c, 'w) snap_env \<Rightarrow> string list \<Rightarrow> additional_condition list \<Rightarrow> schema_map \<Rightarrow>
   (string list \<times> (string \<times> string) list) result" where
  "expand_data_collections env patterns conditions schemas =
     rbind (compile_patterns env ''execute-snapshot data-collections'' patterns) (\<lambda>ps.
     rbind (collect_results
              (\<lambda>c. rbind (ok_or (Source (''invalid additional-condition data-collection pattern ''
                              @ debug_str (ac_data_collection c) @ '': ''
                              @ sn_regex_error env (ac_data_collection c)))
                            (sn_regex env True (anchored (ac_data_collection c))))
                     (\<lambda>m. Ok (m, ac_filter c)))
              conditions) (\<lambda>cs.
     let matches =
           remdups_adj (sort (filter (\<lambda>coll. list_ex (\<lambda>m. m coll) ps)
             (map (\<lambda>(_, s). pts_schema s @ ''.'' @ pts_table s) schemas)))
     in if matches = []
        then Err (Source ''execute-snapshot signal selected no captured PostgreSQL tables'')
        else Ok (matches,
                 fold (\<lambda>coll m. case find (\<lambda>(p, _). p coll) cs of
                                  None \<Rightarrow> m
                                | Some (_, f) \<Rightarrow> bt_insert coll f m) matches [])))"

text \<open>
  \<^verbatim>\<open>prepare_current_chunk\<close>: the table of the current collection, the input of the query, and what
  the answer leaves in the controller.
\<close>

definition chunk_name :: "pg_progress \<Rightarrow> string" where
  "chunk_name p = pp_signal_id p @ ''-'' @ show_word (pp_chunk_sequence p)"

definition chunk_target :: "schema_map \<Rightarrow> pg_progress \<Rightarrow> (string \<times> pg_table_schema) result" where
  "chunk_target schemas p =
     rbind (ok_or (Invariant ''incremental snapshot collection is missing'')
              (nth_option (pp_data_collections p) (pp_current_collection p))) (\<lambda>coll.
     rbind (split_collection coll) (\<lambda>key.
     rbind (ok_or (Source (''incremental snapshot table '' @ debug_str coll
                     @ '' is not a captured PostgreSQL table'')) (map_of schemas key)) (\<lambda>schema.
       if \<not> list_ex fs_primary_key (es_fields (pts_event_schema schema))
       then Err (Source (''incremental snapshot table '' @ debug_str coll @ '' has no primary key''))
       else Ok (coll, schema))))"

definition chunk_input ::
  "pg_config \<Rightarrow> pg_progress \<Rightarrow> string \<Rightarrow> pg_table_schema \<Rightarrow> prepare_input" where
  "chunk_input config p coll schema =
     \<lparr>pi_schema = schema,
      pi_signal_data_collection =
        (if pgc_read_only config then None else pgc_signal_data_collection config),
      pi_last_key = pp_last_key p, pi_maximum_key = pp_maximum_key p,
      pi_additional_condition = map_of (pp_additional_conditions p) coll,
      pi_surrogate_key = pp_surrogate_key p,
      pi_chunk_size = pgc_incremental_snapshot_chunk_size config,
      pi_chunk_id = chunk_name p, pi_read_only = pgc_read_only config\<rparr>"

definition keyed_window ::
  "('c, 'w) snap_env \<Rightarrow> pg_table_schema \<Rightarrow> row list \<Rightarrow> (string \<times> row) list" where
  "keyed_window env s rows =
     fold (\<lambda>row m. case row_key env s row of None \<Rightarrow> m | Some k \<Rightarrow> im_insert k row m) rows []"

definition install_chunk ::
  "('c, 'w) snap_env \<Rightarrow> pg_progress \<Rightarrow> pg_table_schema \<Rightarrow> 'c \<Rightarrow> prepared_chunk \<Rightarrow>
   'c snapshot_controller \<Rightarrow> 'c snapshot_controller" where
  "install_chunk env p schema connection prepared c =
     c\<lparr>sc_connection := Some connection,
       sc_progress :=
         Some (if pp_maximum_key p = None then p\<lparr>pp_maximum_key := pk_maximum_key prepared\<rparr> else p),
       sc_state_dirty := (sc_state_dirty c \<or> pp_maximum_key p = None),
       sc_window := keyed_window env schema (pk_rows prepared),
       sc_chunk_end := pk_chunk_end prepared, sc_chunk_complete := pk_complete prepared,
       sc_chunk_id := Some (chunk_name p), sc_schema := Some schema, sc_window_open := False,
       sc_watermarks := pk_watermarks prepared\<rparr>"

definition prepare_current_chunk ::
  "('c, 'w) snap_env \<Rightarrow> pg_config \<Rightarrow> schema_map \<Rightarrow> ('c snapshot_controller \<times> 'w, unit) stateful" where
  "prepare_current_chunk env config schemas = (\<lambda>(c, w).
     (case sc_progress c of
        None \<Rightarrow> (Err (Invariant ''incremental snapshot has no persisted progress''), (c, w))
      | Some p \<Rightarrow>
          (case chunk_target schemas p of
             Inl e \<Rightarrow> (Err e, (c, w))
           | Inr (coll, schema) \<Rightarrow>
               (let c1 = c\<lparr>sc_connection := None\<rparr>
                in case prepare_chunk (sn_pg env) (sn_text env) config (sc_connection c)
                          (chunk_input config p coll schema) w of
                     (Inl e, w') \<Rightarrow> (Err e, (c1, w'))
                   | (Inr (connection, prepared), w') \<Rightarrow>
                       (Ok (), (install_chunk env p schema connection prepared c1, w'))))))"

definition expected_watermark_id :: "string \<Rightarrow> 'c snapshot_controller \<Rightarrow> string option" where
  "expected_watermark_id suf c = map_option (\<lambda>i. i @ ''-'' @ suf) (sc_chunk_id c)"

definition advance_progress :: "'c snapshot_controller \<Rightarrow> 'c snapshot_controller" where
  "advance_progress c =
     (case sc_progress c of
        None \<Rightarrow> c
      | Some p \<Rightarrow>
          (let (p1, c1) =
                 (if sc_chunk_complete c
                  then (p\<lparr>pp_current_collection := pp_current_collection p + 1, pp_last_key := None,
                          pp_maximum_key := None\<rparr>, c)
                  else (p\<lparr>pp_last_key := sc_chunk_end c\<rparr>, c\<lparr>sc_chunk_end := None\<rparr>));
               p2 = p1\<lparr>pp_chunk_sequence := pp_chunk_sequence p1 + 1\<rparr>
           in if length (pp_data_collections p2) \<le> pp_current_collection p2
              then remember_completed (pp_signal_id p2) (c1\<lparr>sc_progress := None\<rparr>)
              else c1\<lparr>sc_progress := Some p2\<rparr>))"

record closed_window =
  cw_schema :: pg_table_schema
  cw_rows :: "row list"

definition close_current_window ::
  "'c snapshot_controller \<Rightarrow> closed_window result \<times> 'c snapshot_controller" where
  "close_current_window c =
     (case sc_schema c of
        None \<Rightarrow> (Err (Invariant ''incremental snapshot close has no current schema''), c)
      | Some schema \<Rightarrow>
          (let rows = map snd (sc_window c);
               c1 = c\<lparr>sc_schema := None, sc_window := [], sc_window_open := False,
                      sc_chunk_id := None, sc_watermarks := None\<rparr>;
               c2 = (advance_progress c1)\<lparr>sc_state_dirty := True\<rparr>
           in (Ok \<lparr>cw_schema = schema, cw_rows = rows\<rparr>,
               c2\<lparr>sc_prepare_after_commit :=
                    (case sc_progress c2 of None \<Rightarrow> False | Some p \<Rightarrow> \<not> pp_paused p)\<rparr>)))"

definition clear_current_chunk :: "'c snapshot_controller \<Rightarrow> 'c snapshot_controller" where
  "clear_current_chunk c =
     c\<lparr>sc_window := [], sc_schema := None, sc_chunk_end := None, sc_chunk_complete := False,
       sc_chunk_id := None, sc_window_open := False, sc_prepare_after_commit := False,
       sc_watermarks := None\<rparr>"

definition stop_snapshot ::
  "('c, 'w) snap_env \<Rightarrow> string list \<Rightarrow> 'c snapshot_controller \<Rightarrow> unit result \<times> 'c snapshot_controller"
  where
  "stop_snapshot env patterns c =
     (case sc_progress c of
        None \<Rightarrow> (Ok (), c)
      | Some p \<Rightarrow>
          (let c0 = c\<lparr>sc_progress := None\<rparr> in
           case compile_patterns env ''stop-snapshot data-collections'' patterns of
             Inl e \<Rightarrow> (Err e, c0)
           | Inr ps \<Rightarrow>
               (let matches = (\<lambda>coll. ps = [] \<or> list_ex (\<lambda>m. m coll) ps);
                    cur = pp_current_collection p;
                    colls = pp_data_collections p;
                    current = nth_option colls cur;
                    retained = filter (\<lambda>coll. \<not> matches coll) colls;
                    retained_before = length (filter (\<lambda>coll. \<not> matches coll) (take cur colls));
                    removed_current = (case current of None \<Rightarrow> False | Some coll \<Rightarrow> matches coll)
                in if \<not> list_ex matches colls then (Ok (), c0\<lparr>sc_progress := Some p\<rparr>)
                   else
                     (let p1 = p\<lparr>pp_additional_conditions :=
                                   filter (\<lambda>(coll, _). coll \<in> set retained) (pp_additional_conditions p),
                                 pp_data_collections := retained\<rparr>
                      in (Ok (),
                          (if retained = []
                           then remember_completed (pp_signal_id p) (clear_current_chunk c0)
                           else
                             (let p2 = p1\<lparr>pp_current_collection :=
                                            min retained_before (length retained - 1)\<rparr>
                              in if removed_current \<or> current = None
                                 then (clear_current_chunk c0)
                                        \<lparr>sc_prepare_after_commit := \<not> pp_paused p,
                                         sc_progress :=
                                           Some (p2\<lparr>pp_last_key := None, pp_maximum_key := None,
                                                    pp_chunk_sequence := pp_chunk_sequence p2 + 1\<rparr>)\<rparr>
                                 else c0\<lparr>sc_progress := Some p2\<rparr>))
                          \<lparr>sc_state_dirty := True\<rparr>)))))"

definition handle_signal ::
  "('c, 'w) snap_env \<Rightarrow> pg_config \<Rightarrow> schema_map \<Rightarrow> signal \<Rightarrow>
   ('c snapshot_controller \<times> 'w, closed_window option) stateful" where
  "handle_signal env config schemas signal = (\<lambda>(c, w).
     (case signal of
        Execute i collections conditions surrogate \<Rightarrow>
          if is_duplicate_execute_signal i c then (Ok None, (c, w))
          else if sc_progress c \<noteq> None then (Ok None, (c, w))
          else
            (case expand_data_collections env collections conditions schemas of
               Inl e \<Rightarrow> (Err e, (c, w))
             | Inr (expanded, conds) \<Rightarrow>
                 sbind (prepare_current_chunk env config schemas) (\<lambda>_. sreturn None)
                   (c\<lparr>sc_progress :=
                       Some \<lparr>pp_signal_id = i, pp_data_collections = expanded,
                             pp_additional_conditions = conds, pp_surrogate_key = surrogate,
                             pp_current_collection = 0, pp_last_key = None, pp_maximum_key = None,
                             pp_chunk_sequence = 1, pp_paused = False\<rparr>,
                      sc_state_dirty := True\<rparr>, w))
      | Stop i collections \<Rightarrow>
          (case stop_snapshot env collections c of
             (Inl e, c') \<Rightarrow> (Err e, (c', w))
           | (Inr _, c') \<Rightarrow> (Ok None, (c', w)))
      | Pause i \<Rightarrow>
          (Ok None,
           (case sc_progress c of
              Some p \<Rightarrow>
                if pp_paused p then c
                else c\<lparr>sc_progress := Some (p\<lparr>pp_paused := True\<rparr>), sc_prepare_after_commit := False,
                       sc_state_dirty := True\<rparr>
            | None \<Rightarrow> c, w))
      | Resume i \<Rightarrow>
          (Ok None,
           (case sc_progress c of
              Some p \<Rightarrow>
                if \<not> pp_paused p then c
                else c\<lparr>sc_progress := Some (p\<lparr>pp_paused := False\<rparr>),
                       sc_prepare_after_commit := (sc_schema c = None), sc_state_dirty := True\<rparr>
            | None \<Rightarrow> c, w))
      | WindowOpen i \<Rightarrow>
          if pgc_read_only config then (Ok None, (c, w))
          else if expected_watermark_id ''open'' c = Some i
          then (Ok None, (c\<lparr>sc_window_open := True\<rparr>, w)) else (Ok None, (c, w))
      | WindowClose i \<Rightarrow>
          if pgc_read_only config then (Ok None, (c, w))
          else if expected_watermark_id ''close'' c \<noteq> Some i \<or> \<not> sc_window_open c
          then (Ok None, (c, w))
          else
            (case close_current_window c of
               (Inl e, c') \<Rightarrow> (Err e, (c', w))
             | (Inr closed, c') \<Rightarrow> (Ok (Some closed), (c', w)))
      | Unsupported i t \<Rightarrow> (Ok None, (c, w))))"

text \<open>The rows of an event in the order in which they are looked at.\<close>

definition event_rows :: "change_event \<Rightarrow> row list" where
  "event_rows e =
     (case ev_before e of None \<Rightarrow> [] | Some r \<Rightarrow> [r]) @ (case ev_after e of None \<Rightarrow> [] | Some r \<Rightarrow> [r])"

definition deduplicate ::
  "('c, 'w) snap_env \<Rightarrow> change_event \<Rightarrow> 'c snapshot_controller \<Rightarrow> 'c snapshot_controller" where
  "deduplicate env e c =
     (if \<not> sc_window_open c then c
      else
        (case sc_schema c of
           None \<Rightarrow> c
         | Some schema \<Rightarrow>
             if sm_schema (ev_source e) \<noteq> Some (pts_schema schema)
                \<or> sm_table (ev_source e) \<noteq> Some (pts_table schema)
             then c
             else c\<lparr>sc_window :=
                      fold (\<lambda>row m. case row_key env schema row of
                                      None \<Rightarrow> m
                                    | Some k \<Rightarrow> im_remove k m) (event_rows e) (sc_window c)\<rparr>))"

definition reject_active_schema_change ::
  "string \<Rightarrow> string \<Rightarrow> 'c snapshot_controller \<Rightarrow> unit result" where
  "reject_active_schema_change schema table c =
     (case sc_schema c of
        Some s \<Rightarrow>
          if pts_schema s = schema \<and> pts_table s = table
          then Err (Source (schema_changed_text schema table)) else Ok ()
      | None \<Rightarrow> Ok ())"

definition after_commit ::
  "('c, 'w) snap_env \<Rightarrow> pg_config \<Rightarrow> schema_map \<Rightarrow> ('c snapshot_controller \<times> 'w, unit) stateful" where
  "after_commit env config schemas = (\<lambda>(c, w).
     if \<not> pgc_read_only config \<and> sc_prepare_after_commit c
     then prepare_current_chunk env config schemas (c\<lparr>sc_prepare_after_commit := False\<rparr>, w)
     else (Ok (), (c, w)))"

definition closed_some ::
  "closed_window result \<times> 'c snapshot_controller \<Rightarrow> closed_window option result \<times> 'c snapshot_controller"
  where
  "closed_some r = (case r of (Inl e, c) \<Rightarrow> (Err e, c) | (Inr x, c) \<Rightarrow> (Ok (Some x), c))"

definition observe_read_only_event ::
  "u64 \<Rightarrow> 'c snapshot_controller \<Rightarrow> closed_window option result \<times> 'c snapshot_controller" where
  "observe_read_only_event xid c =
     (case sc_watermarks c of
        None \<Rightarrow> (Ok None, c)
      | Some (low, high) \<Rightarrow>
          (let c1 = (if \<not> sc_window_open c \<and> ps_xmin low \<le> xid then c\<lparr>sc_window_open := True\<rparr> else c)
           in if sc_window_open c1 \<and> max (ps_xmax high) (ps_xmax low) < xid
              then closed_some (close_current_window c1) else (Ok None, c1)))"

definition observe_read_only_commit ::
  "u64 \<Rightarrow> 'c snapshot_controller \<Rightarrow> closed_window option result \<times> 'c snapshot_controller" where
  "observe_read_only_commit xid c =
     (case sc_watermarks c of
        None \<Rightarrow> (Ok None, c)
      | Some (low, high) \<Rightarrow>
          if xid = ps_xmax high \<or> xid \<le> ps_xmin high
          then closed_some (close_current_window c) else (Ok None, c))"

definition prepare_read_only_continuation ::
  "('c, 'w) snap_env \<Rightarrow> pg_config \<Rightarrow> schema_map \<Rightarrow> ('c snapshot_controller \<times> 'w, bool) stateful" where
  "prepare_read_only_continuation env config schemas = (\<lambda>(c, w).
     if pgc_read_only config \<and> sc_prepare_after_commit c
     then sbind (prepare_current_chunk env config schemas) (\<lambda>_. sreturn True)
            (c\<lparr>sc_prepare_after_commit := False\<rparr>, w)
     else (Ok False, (c, w)))"

definition resume_snapshot ::
  "('c, 'w) snap_env \<Rightarrow> pg_config \<Rightarrow> schema_map \<Rightarrow> ('c snapshot_controller \<times> 'w, unit) stateful" where
  "resume_snapshot env config schemas = (\<lambda>(c, w).
     (case sc_progress c of
        None \<Rightarrow> (Ok (), (c, w))
      | Some p \<Rightarrow>
          if \<not> pp_paused p then prepare_current_chunk env config schemas (c, w) else (Ok (), (c, w))))"

section \<open>External signals\<close>

definition apply_external_signal ::
  "('c, 'w) snap_env \<Rightarrow> pg_config \<Rightarrow> schema_map \<Rightarrow> signal \<Rightarrow>
   ('c snapshot_controller \<times> 'w, unit) stateful" where
  "apply_external_signal env config schemas signal =
     sbind (handle_signal env config schemas signal) (\<lambda>_.
       if pgc_read_only config
       then sbind (prepare_read_only_continuation env config schemas) (\<lambda>_. sreturn ())
       else after_commit env config schemas)"

text \<open>
  The record that carries the new connector state, if there is one; an acknowledgement is either
  given at once or travels with the record.
\<close>

datatype external_outcome = AcknowledgeNow "ack_ref list" | SendRecord source_record

definition checkpoint_external_signal_state ::
  "schema_map \<Rightarrow> bool \<Rightarrow> source_position option \<Rightarrow> ack_ref option \<Rightarrow> 'c snapshot_controller \<Rightarrow>
   external_outcome result \<times> 'c snapshot_controller" where
  "checkpoint_external_signal_state schemas schema_dirty position ack c =
     (let (dirty, c1) = take_state_dirty c;
          acks = (case ack of None \<Rightarrow> [] | Some a \<Rightarrow> [a])
      in if \<not> schema_dirty \<and> \<not> dirty then (Ok (AcknowledgeNow acks), c1)
         else
           (case position of
              None \<Rightarrow> (Err (Invariant ''PostgreSQL external signal has no safe source position''), c1)
            | Some pos \<Rightarrow>
                (Ok (SendRecord
                   \<lparr>sr_event = None, sr_position = pos, sr_boundary = TransactionCommit,
                    sr_connector_state =
                      Some (pg_encode_connector_state schemas (sc_progress c1) (sc_completed c1)),
                    sr_signal_acks = acks\<rparr>), c1)))"

end
