(* ===== verification/Pg_Window.thy ===== *)
theory Pg_Window
  imports Pg_Snapshot
begin

text \<open>
  The life of a PostgreSQL incremental snapshot: the steps of the source on the controller of
  \<^verbatim>\<open>Pg_Snapshot\<close>, the invariant of the controller, and what the windows between the watermarks
  guarantee.
\<close>

section \<open>Steps\<close>

text \<open>
  What the source does with the controller between two records: signals, events, commits, and in
  read-only mode the observation of transactions. Only windows are returned.
\<close>

datatype snap_op =
    OpSignal signal
  | OpEvent change_event
  | OpCommit
  | OpReadOnlyEvent u64
  | OpReadOnlyCommit u64
  | OpContinue

fun snap_step ::
  "('c, 'w) snap_env \<Rightarrow> pg_config \<Rightarrow> schema_map \<Rightarrow> snap_op \<Rightarrow>
   ('c snapshot_controller \<times> 'w, closed_window option) stateful" where
  "snap_step env config schemas (OpSignal s) st = handle_signal env config schemas s st"
| "snap_step env config schemas (OpEvent e) (c, w) = (Ok None, (deduplicate env e c, w))"
| "snap_step env config schemas OpCommit st =
     sbind (after_commit env config schemas) (\<lambda>_. sreturn None) st"
| "snap_step env config schemas (OpReadOnlyEvent xid) (c, w) =
     (case observe_read_only_event xid c of (r, c') \<Rightarrow> (r, (c', w)))"
| "snap_step env config schemas (OpReadOnlyCommit xid) (c, w) =
     (case observe_read_only_commit xid c of (r, c') \<Rightarrow> (r, (c', w)))"
| "snap_step env config schemas OpContinue st =
     sbind (prepare_read_only_continuation env config schemas) (\<lambda>_. sreturn None) st"

definition table_name :: "pg_table_schema \<Rightarrow> string" where
  "table_name s = pts_schema s @ ''.'' @ pts_table s"

text \<open>The invariant of the controller.\<close>

definition progress_inv :: "pg_progress option \<Rightarrow> bool" where
  "progress_inv = pred_option (\<lambda>p. pp_current_collection p < length (pp_data_collections p))"

definition idle :: "'c snapshot_controller \<Rightarrow> bool" where
  "idle c =
     (sc_chunk_id c = None \<and> sc_window c = [] \<and> \<not> sc_window_open c \<and> sc_watermarks c = None
      \<and> (sc_prepare_after_commit c \<longrightarrow> pred_option (\<lambda>p. \<not> pp_paused p) (sc_progress c)
           \<and> sc_progress c \<noteq> None))"

definition in_chunk :: "('c, 'w) snap_env \<Rightarrow> pg_table_schema \<Rightarrow> 'c snapshot_controller \<Rightarrow> bool" where
  "in_chunk env s c =
     (case sc_progress c of
        None \<Rightarrow> False
      | Some p \<Rightarrow>
          pp_data_collections p ! pp_current_collection p = table_name s
          \<and> sc_chunk_id c = Some (chunk_name p)
          \<and> \<not> sc_prepare_after_commit c
          \<and> im_inv (sc_window c)
          \<and> list_all (\<lambda>(k, r). row_key env s r = Some k) (sc_window c))"

definition controller_inv :: "('c, 'w) snap_env \<Rightarrow> 'c snapshot_controller \<Rightarrow> bool" where
  "controller_inv env c =
     (progress_inv (sc_progress c)
      \<and> (case sc_schema c of None \<Rightarrow> idle c | Some s \<Rightarrow> in_chunk env s c)
      \<and> distinct (sc_completed c) \<and> length (sc_completed c) \<le> MAX_COMPLETED_SIGNAL_IDS)"

lemmas controller_inv_defs = controller_inv_def progress_inv_def idle_def in_chunk_def

lemma remember_member: "i \<in> set (remember i ids)"
  by (cases "remove1 i ids") (simp_all add: remember_def Let_def MAX_COMPLETED_SIGNAL_IDS_def)

lemma remember_bounds:
  assumes "distinct ids" "length ids \<le> MAX_COMPLETED_SIGNAL_IDS"
  shows "distinct (remember i ids)" "length (remember i ids) \<le> MAX_COMPLETED_SIGNAL_IDS"
    "i \<in> set (remember i ids)"
proof -
  have d: "distinct (remove1 i ids @ [i])" using assms(1) by simp
  have len: "length (remove1 i ids) \<le> MAX_COMPLETED_SIGNAL_IDS"
    using assms(2) by (auto simp: length_remove1)
  show "distinct (remember i ids)" using distinct_tl [OF d] d by (simp add: remember_def Let_def)
  show "length (remember i ids) \<le> MAX_COMPLETED_SIGNAL_IDS" using len by (simp add: remember_def Let_def)
  show "i \<in> set (remember i ids)" by (rule remember_member)
qed

lemma controller_new_inv:
  "progress_inv p \<Longrightarrow> distinct ids \<Longrightarrow> length ids \<le> MAX_COMPLETED_SIGNAL_IDS \<Longrightarrow>
   controller_inv env (controller_new p ids)"
  by (simp add: controller_inv_def idle_def controller_new_def)

text \<open>Preparing a chunk: the cases in which it changes more than the connection.\<close>

lemma set_im_insert_entries:
  "set (im_insert k v m) \<subseteq> insert (k, v) (set m)"
  by (induction k v m rule: im_insert.induct) auto

lemma keyed_window_inv:
  "im_inv (keyed_window env s rows)
   \<and> list_all (\<lambda>(k, r). row_key env s r = Some k) (keyed_window env s rows)"
proof -
  have "im_inv (fold (\<lambda>row m. case row_key env s row of None \<Rightarrow> m | Some k \<Rightarrow> im_insert k row m) rows m)
      \<and> list_all (\<lambda>(k, r). row_key env s r = Some k)
          (fold (\<lambda>row m. case row_key env s row of None \<Rightarrow> m | Some k \<Rightarrow> im_insert k row m) rows m)"
    if "im_inv m" "list_all (\<lambda>(k, r). row_key env s r = Some k) m" for m
    using that
  proof (induction rows arbitrary: m)
    case (Cons r rows)
    show ?case
    proof (cases "row_key env s r")
      case (Some k)
      have "list_all (\<lambda>(k, r). row_key env s r = Some k) (im_insert k r m)"
        using Cons.prems(2) Some set_im_insert_entries [of k r m] by (auto simp: list_all_iff)
      with Cons Some show ?thesis by auto
    qed (use Cons in simp)
  qed simp
  from this [of "[]"] show ?thesis by (simp add: keyed_window_def im_inv_def)
qed

lemma chunk_target_Ok:
  assumes "chunk_target schemas p = Ok (coll, s)"
  shows "pp_current_collection p < length (pp_data_collections p)"
    "pp_data_collections p ! pp_current_collection p = coll"
    "\<exists>key. split_once CHR ''.'' coll = Some key \<and> map_of schemas key = Some s"
  using assms
  by (auto simp: chunk_target_def rbind_Ok_iff nth_option_def split_collection_def split: if_splits)

lemma prepare_current_chunk_Ok:
  assumes "prepare_current_chunk env config schemas (c, w) = (Ok (), (c', w'))"
  obtains p coll s connection prepared where "sc_progress c = Some p"
    "chunk_target schemas p = Ok (coll, s)"
    "prepare_chunk (sn_pg env) (sn_text env) config (sc_connection c) (chunk_input config p coll s) w
       = (Ok (connection, prepared), w')"
    "c' = install_chunk env p s connection prepared (c\<lparr>sc_connection := None\<rparr>)"
  using assms
  by (auto simp: prepare_current_chunk_def Let_def split: option.splits sum.splits prod.splits)

lemma prepare_current_chunk_Err:
  assumes "prepare_current_chunk env config schemas (c, w) = (Err e, (c', w'))"
  shows "c' = c \<or> c' = c\<lparr>sc_connection := None\<rparr>"
  using assms
  by (auto simp: prepare_current_chunk_def Let_def split: option.splits sum.splits prod.splits)

text \<open>Progress and the lists behind it.\<close>

lemma nth_filter_length:
  "i < length xs \<Longrightarrow> P (xs ! i) \<Longrightarrow>
   length (filter P (take i xs)) < length (filter P xs)
   \<and> filter P xs ! length (filter P (take i xs)) = xs ! i"
proof (induction xs arbitrary: i)
  case (Cons x xs)
  then show ?case by (cases i) auto
qed simp

lemma map_of_tables_inv: "tables_inv key m \<Longrightarrow> map_of m k = Some t \<Longrightarrow> key t = k"
  using map_of_SomeD [of m k t] by (auto simp: tables_inv_def list_all_iff)

lemma prepare_controller_inv:
  assumes inv: "controller_inv env c" "sc_schema c = None" "\<not> sc_prepare_after_commit c"
    and tables: "tables_inv pg_table_key schemas"
    and prep: "prepare_current_chunk env config schemas (c, w) = (Ok (), (c', w'))"
  shows "controller_inv env c'"
  using prep
proof (rule prepare_current_chunk_Ok)
  fix p coll s connection prepared
  assume p: "sc_progress c = Some p" and target: "chunk_target schemas p = Ok (coll, s)"
    and c': "c' = install_chunk env p s connection prepared (c\<lparr>sc_connection := None\<rparr>)"
  from chunk_target_Ok [OF target] obtain a b where
    key: "split_once CHR ''.'' coll = Some (a, b)" "map_of schemas (a, b) = Some s"
    and cur: "pp_data_collections p ! pp_current_collection p = coll" by auto
  have "table_name s = coll"
    using key map_of_tables_inv [OF tables key(2)]
    by (simp add: pg_table_key_def table_name_def split_once_Some_iff)
  with c' inv p cur keyed_window_inv [of env s "pk_rows prepared"] show ?thesis
    by (auto simp: controller_inv_defs chunk_name_def install_chunk_def)
qed

lemma prepare_controller_inv_Err:
  "controller_inv env c \<Longrightarrow>
   prepare_current_chunk env config schemas (c, w) = (Err e, (c', w')) \<Longrightarrow> controller_inv env c'"
  using prepare_current_chunk_Err [of env config schemas c w e c' w']
  by (auto simp: controller_inv_defs split: option.split)

lemma advance_progress_simps [simp]:
  "sc_schema (advance_progress c) = sc_schema c" "sc_chunk_id (advance_progress c) = sc_chunk_id c"
  "sc_window (advance_progress c) = sc_window c"
  "sc_window_open (advance_progress c) = sc_window_open c"
  "sc_watermarks (advance_progress c) = sc_watermarks c"
  by (auto simp: advance_progress_def remember_completed_def Let_def split: option.split)

lemma advance_progress_inv:
  "progress_inv (sc_progress (advance_progress c))"
  by (auto simp: advance_progress_def remember_completed_def progress_inv_def Let_def
      split: option.split)

lemma advance_progress_completed:
  "distinct (sc_completed c) \<Longrightarrow> length (sc_completed c) \<le> MAX_COMPLETED_SIGNAL_IDS \<Longrightarrow>
   distinct (sc_completed (advance_progress c))
   \<and> length (sc_completed (advance_progress c)) \<le> MAX_COMPLETED_SIGNAL_IDS"
  using remember_bounds
  by (auto simp: advance_progress_def remember_completed_def Let_def split: option.split)

text \<open>A window that closes, in terms of the advanced controller.\<close>

definition released :: "'c snapshot_controller \<Rightarrow> 'c snapshot_controller" where
  "released c =
     c\<lparr>sc_schema := None, sc_window := [], sc_window_open := False, sc_chunk_id := None,
       sc_watermarks := None\<rparr>"

lemma close_current_window_Ok:
  assumes "close_current_window c = (Ok cw, c')"
  shows "sc_schema c = Some (cw_schema cw)" "cw_rows cw = map snd (sc_window c)"
    "c' = (advance_progress (released c))
       \<lparr>sc_state_dirty := True,
        sc_prepare_after_commit :=
          (case sc_progress (advance_progress (released c)) of None \<Rightarrow> False | Some p \<Rightarrow> \<not> pp_paused p)\<rparr>"
  using assms
  by (auto simp: close_current_window_def released_def Let_def split: option.splits)

lemma released_simps [simp]:
  "sc_progress (released c) = sc_progress c" "sc_completed (released c) = sc_completed c"
  "sc_schema (released c) = None" "sc_window (released c) = []" "\<not> sc_window_open (released c)"
  "sc_chunk_id (released c) = None" "sc_watermarks (released c) = None"
  "sc_chunk_end (released c) = sc_chunk_end c" "sc_chunk_complete (released c) = sc_chunk_complete c"
  by (simp_all add: released_def)

lemma close_controller_inv:
  assumes "controller_inv env c" "close_current_window c = (Ok cw, c')"
  shows "controller_inv env c'"
proof -
  let ?a = "advance_progress (released c)"
  have "distinct (sc_completed ?a)" "length (sc_completed ?a) \<le> MAX_COMPLETED_SIGNAL_IDS"
    using assms(1) advance_progress_completed [of "released c"] by (auto simp: controller_inv_def)
  moreover have "progress_inv (sc_progress ?a)" by (rule advance_progress_inv)
  ultimately show ?thesis
    unfolding close_current_window_Ok(3) [OF assms(2)]
    by (simp add: controller_inv_def idle_def split: option.split)
qed

lemma stop_controller_inv:
  assumes inv: "controller_inv env c" and stop: "stop_snapshot env patterns c = (Ok (), c')"
  shows "controller_inv env c'"
proof (cases "sc_progress c")
  case None
  with inv stop show ?thesis by (simp add: stop_snapshot_def)
next
  case (Some p)
  let ?colls = "pp_data_collections p" and ?cur = "pp_current_collection p"
  obtain ps where ps: "compile_patterns env ''stop-snapshot data-collections'' patterns = Ok ps"
    using stop Some
    by (cases "compile_patterns env ''stop-snapshot data-collections'' patterns")
       (auto simp: stop_snapshot_def Let_def)
  define matches where "matches coll = (ps = [] \<or> list_ex (\<lambda>m. m coll) ps)" for coll
  define retained where "retained = filter (\<lambda>coll. \<not> matches coll) ?colls"
  define before where "before = length (filter (\<lambda>coll. \<not> matches coll) (take ?cur ?colls))"
  have cur: "?cur < length ?colls" using inv Some by (simp add: controller_inv_def progress_inv_def)
  have comp: "distinct (sc_completed c)" "length (sc_completed c) \<le> MAX_COMPLETED_SIGNAL_IDS"
    using inv by (auto simp: controller_inv_def)
  consider (none) "\<not> list_ex matches ?colls" | (all) "list_ex matches ?colls" "retained = []"
    | (current) "list_ex matches ?colls" "retained \<noteq> []" "matches (?colls ! ?cur)"
    | (other) "list_ex matches ?colls" "retained \<noteq> []" "\<not> matches (?colls ! ?cur)" by blast
  then show ?thesis
  proof cases
    case none
    then have "c' = c\<lparr>sc_progress := Some p\<rparr>" using stop Some ps
      by (simp add: stop_snapshot_def matches_def [abs_def] Let_def)
    then have "c' = c" using Some by (cases c) simp
    with inv show ?thesis by simp
  next
    case all
    then have "c' = (remember_completed (pp_signal_id p) (clear_current_chunk (c\<lparr>sc_progress := None\<rparr>)))
        \<lparr>sc_state_dirty := True\<rparr>"
      using stop Some ps
      by (simp add: stop_snapshot_def matches_def [abs_def] retained_def Let_def)
    with comp remember_bounds [OF comp] show ?thesis
      by (simp add: controller_inv_defs remember_completed_def clear_current_chunk_def)
  next
    case current
    have "\<exists>q. sc_progress c' = Some q \<and> pp_current_collection q = min before (length retained - 1)
        \<and> pp_data_collections q = retained \<and> pp_paused q = pp_paused p
        \<and> sc_prepare_after_commit c' = (\<not> pp_paused p)"
      "sc_schema c' = None" "sc_chunk_id c' = None" "sc_window c' = []" "\<not> sc_window_open c'"
      "sc_watermarks c' = None" "sc_completed c' = sc_completed c"
      using stop Some ps current cur
      by (auto simp: stop_snapshot_def matches_def [abs_def] retained_def before_def Let_def
          nth_option_def clear_current_chunk_def)
    moreover have "min before (length retained - 1) < length retained"
      using current(2) by (cases retained) auto
    ultimately show ?thesis
      using comp by (auto simp: controller_inv_def progress_inv_def idle_def)
  next
    case other
    have keep: "before < length retained \<and> retained ! before = ?colls ! ?cur"
      using nth_filter_length [OF cur, of "\<lambda>coll. \<not> matches coll"] other
      by (simp add: retained_def before_def)
    have c': "c' = c\<lparr>sc_progress := Some (p\<lparr>pp_additional_conditions :=
            filter (\<lambda>(coll, _). coll \<in> set retained) (pp_additional_conditions p),
          pp_data_collections := retained, pp_current_collection := min before (length retained - 1)\<rparr>),
        sc_state_dirty := True\<rparr>"
      using stop Some ps other cur
      by (simp add: stop_snapshot_def matches_def [abs_def] retained_def before_def Let_def
          nth_option_def)
    have "min before (length retained - 1) = before" using keep by linarith
    with c' keep inv Some show ?thesis
      by (auto simp: controller_inv_defs chunk_name_def split: option.splits)
  qed
qed

lemma in_chunk_window:
  "in_chunk env s c \<Longrightarrow> im_inv m \<Longrightarrow> set m \<subseteq> set (sc_window c) \<Longrightarrow> in_chunk env s (c\<lparr>sc_window := m\<rparr>)"
  by (cases "sc_progress c") (simp_all add: in_chunk_def list_all_iff subset_eq)

text \<open>The keys that an event takes out of the window.\<close>

definition event_keys :: "('c, 'w) snap_env \<Rightarrow> pg_table_schema \<Rightarrow> change_event \<Rightarrow> string set" where
  "event_keys env s e =
     (if sm_schema (ev_source e) = Some (pts_schema s) \<and> sm_table (ev_source e) = Some (pts_table s)
      then {k. \<exists>r\<in>set (event_rows e). row_key env s r = Some k} else {})"

lemma im_remove_filter: "im_inv m \<Longrightarrow> im_remove k m = filter (\<lambda>(k', _). k' \<noteq> k) m"
proof (induction k m rule: im_remove.induct)
  case (2 k k' v m)
  have "filter (\<lambda>(k', _). k' \<noteq> k) m = m" if "k \<notin> fst ` set m"
    using that by (intro filter_True) force
  with 2 show ?case by (auto simp: im_inv_def)
qed simp

lemma im_inv_filter: "im_inv m \<Longrightarrow> im_inv (filter P m)"
  by (simp add: im_inv_def distinct_map_filter)

lemma fold_im_remove:
  "im_inv m \<Longrightarrow>
   fold (\<lambda>row m. case row_key env s row of None \<Rightarrow> m | Some k \<Rightarrow> im_remove k m) rows m
   = filter (\<lambda>(k, _). \<forall>r\<in>set rows. row_key env s r \<noteq> Some k) m"
proof (induction rows arbitrary: m)
  case (Cons r rows)
  show ?case
  proof (cases "row_key env s r")
    case None
    with Cons show ?thesis by simp
  next
    case (Some k)
    have "fold (\<lambda>row m. case row_key env s row of None \<Rightarrow> m | Some k \<Rightarrow> im_remove k m) (r # rows) m
        = filter (\<lambda>(k, _). \<forall>r\<in>set rows. row_key env s r \<noteq> Some k) (filter (\<lambda>(k', _). k' \<noteq> k) m)"
      using Cons.IH [of "filter (\<lambda>(k', _). k' \<noteq> k) m"] Cons.prems Some
      by (simp add: im_remove_filter im_inv_filter)
    also have "\<dots> = filter (\<lambda>(k, _). \<forall>r\<in>set (r # rows). row_key env s r \<noteq> Some k) m"
      using Some by (auto simp: filter_filter intro!: filter_cong)
    finally show ?thesis .
  qed
qed simp

lemma deduplicate_window:
  assumes "sc_schema c = Some s" "im_inv (sc_window c)"
  shows "deduplicate env e c
    = (if sc_window_open c
       then c\<lparr>sc_window := filter (\<lambda>(k, _). k \<notin> event_keys env s e) (sc_window c)\<rparr> else c)"
proof (cases "sm_schema (ev_source e) = Some (pts_schema s) \<and> sm_table (ev_source e) = Some (pts_table s)")
  case True
  with assms show ?thesis
    by (auto simp: deduplicate_def fold_im_remove event_keys_def intro!: arg_cong [where f = "\<lambda>m. c\<lparr>sc_window := m\<rparr>"] filter_cong)
next
  case False
  then have "event_keys env s e = {}" by (auto simp: event_keys_def)
  moreover have "c\<lparr>sc_window := sc_window c\<rparr> = c" by simp
  ultimately show ?thesis using assms(1) False by (auto simp: deduplicate_def)
qed

lemma deduplicate_controller_inv:
  assumes "controller_inv env c"
  shows "controller_inv env (deduplicate env e c)"
proof (cases "sc_schema c")
  case None
  with assms show ?thesis by (simp add: deduplicate_def)
next
  case (Some s)
  then have "in_chunk env s c" "im_inv (sc_window c)"
    using assms by (auto simp: controller_inv_def in_chunk_def split: option.splits)
  with Some assms show ?thesis
    by (auto simp: deduplicate_window controller_inv_def intro!: in_chunk_window im_inv_filter)
qed

lemma sbind_unit_Ok:
  "sbind m (\<lambda>_. sreturn x) st = (Ok y, st') \<longleftrightarrow> y = x \<and> m st = (Ok (), st')"
  for m :: "('s, unit) stateful"
  by (auto simp: sbind_Ok_iff)

lemma handle_signal_inv:
  assumes inv: "controller_inv env c" and tables: "tables_inv pg_table_key schemas"
    and step: "handle_signal env config schemas sig (c, w) = (Ok out, (c', w'))"
  shows "controller_inv env c'"
proof (cases sig)
  case (Execute i colls conds sur)
  show ?thesis
  proof (cases "is_duplicate_execute_signal i c \<or> sc_progress c \<noteq> None")
    case True
    with step inv Execute show ?thesis by (auto simp: handle_signal_def split: if_splits)
  next
    case False
    then obtain expanded cs where ex: "expand_data_collections env colls conds schemas = Ok (expanded, cs)"
      using step Execute by (auto simp: handle_signal_def split: sum.splits)
    let ?p = "\<lparr>pp_signal_id = i, pp_data_collections = expanded, pp_additional_conditions = cs,
      pp_surrogate_key = sur, pp_current_collection = 0, pp_last_key = None, pp_maximum_key = None,
      pp_chunk_sequence = 1, pp_paused = False\<rparr>"
    let ?d = "c\<lparr>sc_progress := Some ?p, sc_state_dirty := True\<rparr>"
    from step Execute False ex
    have prep: "prepare_current_chunk env config schemas (?d, w) = (Ok (), (c', w'))"
      by (simp add: handle_signal_def sbind_unit_Ok)
    have "expanded \<noteq> []"
      using ex by (auto simp: expand_data_collections_def rbind_Ok_iff Let_def split: if_splits)
    with inv False have "controller_inv env ?d" "sc_schema ?d = None" "\<not> sc_prepare_after_commit ?d"
      by (auto simp: controller_inv_defs split: option.splits)
    then show ?thesis by (rule prepare_controller_inv [OF _ _ _ tables prep])
  qed
next
  case (Stop i colls)
  with step have "stop_snapshot env colls c = (Ok (), c')"
    by (auto simp: handle_signal_def split: prod.splits sum.splits)
  with inv show ?thesis by (rule stop_controller_inv)
next
  case (WindowClose i)
  with step inv close_controller_inv [OF inv] show ?thesis
    by (auto simp: handle_signal_def split: if_splits prod.splits sum.splits)
next
  case (WindowOpen i)
  with step inv show ?thesis
    by (auto simp: handle_signal_def controller_inv_defs expected_watermark_id_def
        split: if_splits option.splits)
qed (use step inv in \<open>auto simp: handle_signal_def controller_inv_defs chunk_name_def
        split: option.splits if_splits\<close>)

lemma snap_step_inv:
  assumes inv: "controller_inv env c" and tables: "tables_inv pg_table_key schemas"
    and step: "snap_step env config schemas op (c, w) = (Ok out, (c', w'))"
  shows "controller_inv env c'"
proof -
  have prep: "controller_inv env d'"
    if "prepare_current_chunk env config schemas (c\<lparr>sc_prepare_after_commit := False\<rparr>, w) = (Ok (), (d', w''))"
      "sc_prepare_after_commit c" for d' w''
  proof (rule prepare_controller_inv [OF _ _ _ tables that(1)])
    show "controller_inv env (c\<lparr>sc_prepare_after_commit := False\<rparr>)"
      using inv by (auto simp: controller_inv_defs split: option.splits)
    show "sc_schema (c\<lparr>sc_prepare_after_commit := False\<rparr>) = None"
      using inv that(2) by (auto simp: controller_inv_defs split: option.splits)
  qed simp
  have open': "controller_inv env (c\<lparr>sc_window_open := True\<rparr>)" if "sc_watermarks c \<noteq> None"
    using inv that by (auto simp: controller_inv_defs split: option.splits)
  show ?thesis
  proof (cases op)
    case (OpSignal s)
    with step handle_signal_inv [OF inv tables] show ?thesis by simp
  next
    case (OpEvent e)
    with step deduplicate_controller_inv [OF inv] show ?thesis by auto
  next
    case OpCommit
    with step inv prep show ?thesis by (auto simp: after_commit_def sbind_unit_Ok split: if_splits)
  next
    case OpContinue
    with step inv prep show ?thesis
      by (auto simp: prepare_read_only_continuation_def sbind_Ok_iff split: if_splits)
  next
    case (OpReadOnlyEvent xid)
    with step inv open' close_controller_inv [OF inv] close_controller_inv [OF open'] show ?thesis
      by (auto simp: observe_read_only_event_def closed_some_def Let_def
          split: option.splits prod.splits if_splits sum.splits)
  next
    case (OpReadOnlyCommit xid)
    with step inv close_controller_inv [OF inv] show ?thesis
      by (auto simp: observe_read_only_commit_def closed_some_def
          split: option.splits prod.splits if_splits sum.splits)
  qed
qed

section \<open>Runs\<close>

text \<open>
  The runs of a controller from the start of the connector, with the tables known at each step. Only
  steps without an error continue: the source ends with the first one.
\<close>

inductive snap_reach ::
  "('c, 'w) snap_env \<Rightarrow> pg_config \<Rightarrow> pg_progress option \<Rightarrow> string list \<Rightarrow>
   'c snapshot_controller \<times> 'w \<Rightarrow> bool"
  for env config progress completed where
  start: "tables_inv pg_table_key schemas \<Longrightarrow>
    resume_snapshot env config schemas (controller_new progress completed, w) = (Ok (), st) \<Longrightarrow>
    snap_reach env config progress completed st"
| step: "snap_reach env config progress completed st \<Longrightarrow> tables_inv pg_table_key schemas \<Longrightarrow>
    snap_step env config schemas op st = (Ok out, st') \<Longrightarrow>
    snap_reach env config progress completed st'"

lemma resume_controller_inv:
  assumes "controller_inv env c" "sc_schema c = None" "\<not> sc_prepare_after_commit c"
    "tables_inv pg_table_key schemas"
    and "resume_snapshot env config schemas (c, w) = (Ok (), (c', w'))"
  shows "controller_inv env c'"
  using assms prepare_controller_inv [OF assms(1-4), of config w c' w']
  by (auto simp: resume_snapshot_def split: option.splits if_splits)

lemma snap_reach_inv:
  assumes "snap_reach env config progress completed st"
    and "progress_inv progress" "distinct completed" "length completed \<le> MAX_COMPLETED_SIGNAL_IDS"
  shows "controller_inv env (fst st)"
  using assms(1)
proof induction
  case (start schemas w st)
  obtain c w' where "st = (c, w')" by (cases st)
  with start resume_controller_inv [OF controller_new_inv [OF assms(2-4)], of schemas env config w c w']
  show ?case by (simp add: controller_new_def)
next
  case (step st schemas op out st')
  then show ?case using snap_step_inv by (cases st; cases st') auto
qed

text \<open>
  Steps between the preparation of a chunk and the close of its window, with the keys that were
  touched while the window was open.
\<close>

inductive quiet_steps ::
  "('c, 'w) snap_env \<Rightarrow> pg_config \<Rightarrow> pg_table_schema \<Rightarrow> 'c snapshot_controller \<times> 'w \<Rightarrow> string set \<Rightarrow>
   'c snapshot_controller \<times> 'w \<Rightarrow> bool"
  for env config s st where
  refl: "quiet_steps env config s st {} st"
| step: "quiet_steps env config s st T (c, w) \<Longrightarrow>
    (\<forall>i colls. op \<noteq> OpSignal (Stop i colls)) \<Longrightarrow>
    snap_step env config schemas op (c, w) = (Ok None, st') \<Longrightarrow>
    T' = T \<union> (case op of OpEvent e \<Rightarrow> if sc_window_open c then event_keys env s e else {} | _ \<Rightarrow> {}) \<Longrightarrow>
    quiet_steps env config s st T' st'"

lemma quiet_step:
  assumes inv: "controller_inv env c" "sc_schema c = Some s"
    and op: "\<forall>i colls. op \<noteq> OpSignal (Stop i colls)"
    and step: "snap_step env config schemas op (c, w) = (Ok None, (c', w'))"
  shows "sc_schema c' = Some s" "sc_chunk_id c' = sc_chunk_id c" "controller_inv env c'"
    "sc_window c' = (case op of
       OpEvent e \<Rightarrow> if sc_window_open c then filter (\<lambda>(k, _). k \<notin> event_keys env s e) (sc_window c)
                   else sc_window c
     | _ \<Rightarrow> sc_window c)"
proof -
  have ic: "im_inv (sc_window c)" "\<not> sc_prepare_after_commit c" "sc_progress c \<noteq> None"
    using inv by (auto simp: controller_inv_defs split: option.splits)
  have opened: "controller_inv env (c\<lparr>sc_window_open := True\<rparr>)"
    using inv by (cases "sc_progress c") (simp_all add: controller_inv_def in_chunk_def)
  have "sc_schema c' = Some s \<and> sc_chunk_id c' = sc_chunk_id c \<and> controller_inv env c'
    \<and> sc_window c' = (case op of
       OpEvent e \<Rightarrow> if sc_window_open c then filter (\<lambda>(k, _). k \<notin> event_keys env s e) (sc_window c)
                   else sc_window c
     | _ \<Rightarrow> sc_window c)"
  proof (cases op)
    case (OpEvent e)
    with step have c': "c' = deduplicate env e c" by simp
    have "controller_inv env c'" unfolding c' by (rule deduplicate_controller_inv [OF inv(1)])
    moreover have "c' = (if sc_window_open c
       then c\<lparr>sc_window := filter (\<lambda>(k, _). k \<notin> event_keys env s e) (sc_window c)\<rparr> else c)"
      unfolding c' by (rule deduplicate_window [OF inv(2) ic(1)])
    ultimately show ?thesis using inv(2) OpEvent by simp
  next
    case OpCommit
    with step inv ic show ?thesis by (simp add: after_commit_def sbind_unit_Ok)
  next
    case OpContinue
    with step inv ic show ?thesis by (simp add: prepare_read_only_continuation_def sbind_Ok_iff)
  next
    case (OpReadOnlyEvent xid)
    with step inv ic opened show ?thesis
      by (auto simp: observe_read_only_event_def closed_some_def Let_def
          split: option.splits prod.splits if_splits sum.splits)
  next
    case (OpReadOnlyCommit xid)
    with step inv ic show ?thesis
      by (auto simp: observe_read_only_commit_def closed_some_def
          split: option.splits prod.splits if_splits sum.splits)
  next
    case sig: (OpSignal sg)
    have "sg \<noteq> Stop i colls" for i colls using op sig by simp
    then show ?thesis
      using step sig inv ic opened
      by (cases sg)
         (auto simp: handle_signal_def controller_inv_defs chunk_name_def
            split: option.splits if_splits prod.splits sum.splits)
  qed
  then show "sc_schema c' = Some s" "sc_chunk_id c' = sc_chunk_id c" "controller_inv env c'"
    "sc_window c' = (case op of
       OpEvent e \<Rightarrow> if sc_window_open c then filter (\<lambda>(k, _). k \<notin> event_keys env s e) (sc_window c)
                   else sc_window c
     | _ \<Rightarrow> sc_window c)" by blast+
qed

lemma quiet_steps_window:
  assumes "quiet_steps env config s st T st'" "controller_inv env (fst st)" "sc_schema (fst st) = Some s"
  shows "sc_schema (fst st') = Some s \<and> sc_chunk_id (fst st') = sc_chunk_id (fst st)
    \<and> controller_inv env (fst st')
    \<and> sc_window (fst st') = filter (\<lambda>(k, _). k \<notin> T) (sc_window (fst st))"
  using assms(1)
proof induction
  case refl
  then show ?case using assms(2,3) by (auto intro!: filter_True [symmetric])
next
  case (step T c w op schemas st' T')
  obtain c' w' where st': "st' = (c', w')" by (cases st')
  from step.IH have c: "controller_inv env c" "sc_schema c = Some s" by simp_all
  note q = quiet_step [OF c step.hyps(2) step.hyps(3) [unfolded st']]
  have "sc_window c' = filter (\<lambda>(k, _). k \<notin> T') (sc_window (fst st))"
    using step.IH q(4) step.hyps(4)
    by (auto simp: filter_filter intro!: filter_cong split: snap_op.splits if_splits)
  with q step.IH st' show ?case by simp
qed

lemma snap_step_closes:
  assumes "snap_step env config schemas op (c, w) = (Ok (Some closed), (c', w'))"
  shows "\<exists>d. close_current_window d = (Ok closed, c')
    \<and> (d = c \<or> d = c\<lparr>sc_window_open := True\<rparr>)
    \<and> (\<forall>sg. op = OpSignal sg \<longrightarrow> sc_window_open c
         \<and> (\<exists>i. sc_chunk_id c = Some i \<and> sg = WindowClose (i @ ''-close'')))"
proof (cases op)
  case (OpSignal sg)
  then show ?thesis
    using assms
    by (cases sg)
       (auto simp: handle_signal_def sbind_Ok_iff expected_watermark_id_def
         split: option.splits if_splits prod.splits sum.splits)
next
  case (OpReadOnlyEvent xid)
  with assms show ?thesis
    by (auto simp: observe_read_only_event_def closed_some_def Let_def
        split: option.splits prod.splits if_splits sum.splits)
next
  case (OpReadOnlyCommit xid)
  with assms show ?thesis
    by (auto simp: observe_read_only_commit_def closed_some_def
        split: option.splits prod.splits if_splits sum.splits)
qed (use assms in \<open>auto simp: sbind_Ok_iff\<close>)

section \<open>An example\<close>

text \<open>
  A connection that answers from a list: the chunk of the table \<^verbatim>\<open>public.orders\<close> with the keys 1 and 2.
\<close>

definition sample_text :: text_env where
  "sample_text =
     \<lparr>te_parse_f64 = \<lambda>_. None, te_show_f64 = \<lambda>_. [], te_add = \<lambda>a b. 0, te_mul = \<lambda>a b. 0,
      te_of_int = \<lambda>_. 0, te_le = \<lambda>a b. True, te_lt = \<lambda>a b. True, te_to_i64 = \<lambda>_. 0,
      te_json = \<lambda>_. None, te_uuid = \<lambda>_. None, te_round_decimal = \<lambda>_ _. None\<rparr>"

definition sample_pg :: "(unit, (string + pg_result) list) pg_env" where
  "sample_pg =
     \<lparr>pe_connect = \<lambda>w. (Ok (), w),
      pe_exec = \<lambda>c q w. (case w of [] \<Rightarrow> (Inl ''closed'', []) | r # rs \<Rightarrow> (r, rs)),
      pe_quote_ident = Inr, pe_quote_literal = \<lambda>s. Inr (squote s)\<rparr>"

definition sample_snap_env :: "(unit, (string + pg_result) list) snap_env" where
  "sample_snap_env =
     \<lparr>sn_pg = sample_pg, sn_text = sample_text, sn_regex = \<lambda>ci p. Some (\<lambda>s. anchored s = p),
      sn_regex_error = \<lambda>_. [], sn_parse = \<lambda>_. Inl [], sn_print = \<lambda>_. [], sn_shape_error = \<lambda>_. [],
      sn_key_text = \<lambda>vs. (case vs of [DvString s] \<Rightarrow> Some s | _ \<Rightarrow> None)\<rparr>"

definition sample_pg_config :: pg_config where
  "sample_pg_config =
     \<lparr>pgc_database = ''shop'', pgc_slot_name = ''slot'', pgc_read_only = False,
      pgc_signal_data_collection = Some ''public.signals'',
      pgc_incremental_snapshot_chunk_size = 2, pgc_include_unknown_datatypes = False,
      pgc_hstore_handling_mode = ''json'', pgc_interval_handling_mode = ''postgres'',
      pgc_money_fraction_digits = 2\<rparr>"

definition sample_schemas :: schema_map where
  "sample_schemas = [((''public'', ''orders''), sample_table ''orders'')]"

definition sample_world :: "(string + pg_result) list" where
  "sample_world =
     [Inr [],
      Inr [map Some ([''id'', ''int4'', ''f'', ''t'', ''23'', ''-1'', ''b'', ''pg_catalog'', ''int4'']
                     @ replicate 9 [])],
      Inr [[Some ''2'']], Inr [[Some ''1''], [Some ''2'']], Inr []]"

definition sample_chunk :: "unit snapshot_controller" where
  "sample_chunk =
     \<lparr>sc_progress =
        Some \<lparr>pp_signal_id = ''s'', pp_data_collections = [''public.orders''],
              pp_additional_conditions = [], pp_surrogate_key = None, pp_current_collection = 0,
              pp_last_key = None, pp_maximum_key = Some [''2''], pp_chunk_sequence = 1,
              pp_paused = False\<rparr>,
      sc_completed = [], sc_connection = Some (),
      sc_window = [(''1'', [(''id'', DvString ''1'')]), (''2'', [(''id'', DvString ''2'')])],
      sc_schema = Some (sample_table ''orders''), sc_chunk_end = Some [''2''],
      sc_chunk_complete = True, sc_chunk_id = Some ''s-1'', sc_window_open = False,
      sc_state_dirty = True, sc_prepare_after_commit = False, sc_watermarks = None\<rparr>"

lemma trim_plain:
  "trim ''int4'' = ''int4''" "trim ''public.orders'' = ''public.orders''"
  by (simp_all add: trim_def utf8_cont_def ws_chunk_def is_whitespace_def)

lemma unqualified_int4: "unqualified_base_type ''int4'' = ''int4''"
  by (simp add: unqualified_base_type_def trim_plain trim_matches_def)

lemma int4_is_no_array: "strip_suffix ''[]'' ''int4'' = None"
  by (simp add: strip_suffix_def suffix_def)

lemma sample_convert: "convert_snapshot_value sample_text sample_pg_config (sample_table ''orders'') f s
  = DvString s" if "fs_name f = ''id''" "fs_type_name f = ''int4''"
  using that
  by (simp add: convert_snapshot_value_def sample_table_def convert_text_with_modes.simps trim_plain
      int4_is_no_array unqualified_int4 Let_def)

lemma sample_catalog_column:
  "catalog_column sample_pg_config
     [map Some ([''id'', ''int4'', ''f'', ''t'', ''23'', ''-1'', ''b'', ''pg_catalog'', ''int4''] @ replicate 9 [])] 0
   = Ok (Some \<lparr>fs_name = ''id'', fs_type_name = ''int4'', fs_optional = False, fs_primary_key = True\<rparr>,
         False, \<lparr>pct_name = ''id'', pct_type_oid = 23, pct_type_modifier = - 1\<rparr>)"
proof -
  have n: "[6..<18] = [6,7,8,9,10,11,12,13,14,15,16,17::nat]" by (simp add: upt_conv_Cons)
  have name: "postgres_field_type_name ''int4'' 2 = ''int4''"
    by (simp add: postgres_field_type_name_def trim_plain int4_is_no_array unqualified_int4)
  have "parse_unsigned 32 ''23'' = Some 23" "parse_signed 32 ''-1'' = Some (-1)"
    by (simp_all add: parse_unsigned_def parse_signed_def digits_val_def digit_val_def Let_def)
  then show ?thesis
    by (simp add: catalog_column_def required_value_def get_value_def n supported_values_def
        identity_at_def postgres_type_supported_def postgres_scalar_type_supported_def
        sample_pg_config_def name numeral_eq_Suc Let_def)
qed

definition sample_progress :: pg_progress where
  "sample_progress =
     \<lparr>pp_signal_id = ''s'', pp_data_collections = [''public.orders''], pp_additional_conditions = [],
      pp_surrogate_key = None, pp_current_collection = 0, pp_last_key = None,
      pp_maximum_key = None, pp_chunk_sequence = 1, pp_paused = False\<rparr>"

definition sample_prepared :: prepared_chunk where
  "sample_prepared =
     \<lparr>pk_rows = [[(''id'', DvString ''1'')], [(''id'', DvString ''2'')]], pk_chunk_end = Some [''2''],
      pk_maximum_key = Some [''2''], pk_complete = True, pk_watermarks = None\<rparr>"

lemma sample_exec [simp]:
  "pg_exec sample_pg c q (r # rs) = (pg_error r, rs)"
  by (simp add: pg_exec_def sample_pg_def)

lemma sample_quotes [simp]:
  "quote_ident sample_pg s = Ok s" "quote_literal sample_pg s = Ok (squote s)"
  by (simp_all add: quote_ident_def quote_literal_def sample_pg_def pg_error_def)

lemma sbind_step: "m s = (Ok x, t) \<Longrightarrow> f x t = r \<Longrightarrow> sbind m f s = r"
  by simp

lemma sample_insert:
  "insert_watermark sample_pg c t i k (Inr [] # rs) = (Ok (), rs)"
  by (simp add: insert_watermark_def pg_error_def sbind_def)

lemma sample_query_table_schema:
  "\<exists>t. query_table_schema sample_pg sample_pg_config () ''public'' ''orders'' (tl sample_world)
     = (Ok (Some t), tl (tl sample_world))
   \<and> es_fields (pts_event_schema t) = es_fields (pts_event_schema (sample_table ''orders''))
   \<and> pts_column_types t = pts_column_types (sample_table ''orders'') \<and> pts_opaque_columns t = []"
  using sample_catalog_column
  by (simp add: query_table_schema_def sbind_def pg_error_def sample_world_def kept_fields_def
      opaque_names_def sample_table_def del: replicate.simps)

lemma sample_table_simps [simp]:
  "es_fields (pts_event_schema (sample_table n)) =
     [\<lparr>fs_name = ''id'', fs_type_name = ''int4'', fs_optional = False, fs_primary_key = True\<rparr>]"
  "pts_schema (sample_table n) = ''public''" "pts_table (sample_table n) = n"
  "pts_opaque_columns (sample_table n) = []"
  by (simp_all add: sample_table_def)

lemma sample_config_simps [simp]:
  "pgc_incremental_snapshot_chunk_size sample_pg_config = 2"
  "\<not> pgc_read_only sample_pg_config"
  "pgc_signal_data_collection sample_pg_config = Some ''public.signals''"
  by (simp_all add: sample_pg_config_def)

lemma sample_read_chunk:
  "read_chunk sample_pg sample_text sample_pg_config ()
     (chunk_input sample_pg_config sample_progress ''public.orders'' (sample_table ''orders''))
     (primary_key_fields (sample_table ''orders'')) (tl (tl sample_world))
   = (Ok (pk_rows sample_prepared, Some [''2''], Some [''2''], True), [Inr []])"
proof -
  have rows: "chunk_row sample_text sample_pg_config (sample_table ''orders'') [[Some ''1''], [Some ''2'']] 0
      = Ok [(''id'', DvString ''1'')]"
    "chunk_row sample_text sample_pg_config (sample_table ''orders'') [[Some ''1''], [Some ''2'']] (Suc 0)
      = Ok [(''id'', DvString ''2'')]"
    by (simp_all add: chunk_row_def sample_convert get_value_def)
  have world: "tl (tl sample_world) = [Inr [[Some ''2'']], Inr [[Some ''1''], [Some ''2'']], Inr []]"
    by (simp add: sample_world_def)
  have keys: "primary_key_fields (sample_table ''orders'')
      = [\<lparr>fs_name = ''id'', fs_type_name = ''int4'', fs_optional = False, fs_primary_key = True\<rparr>]"
    by (simp add: primary_key_fields_def)
  have "query_key sample_pg () q (Suc 0) (Inr [[Some ''2'']] # rs) = (Ok (Some [''2'']), rs)" for q rs
    by (simp add: query_key_def sbind_def pg_error_def get_value_def)
  then show ?thesis
    unfolding read_chunk_def world keys
    by (simp add: sbind_Ok_iff Let_def chunk_input_def sample_progress_def qualified_table_def
        text_projection_def boundary_predicate_def row_predicate_def pg_error_def rows
        key_text_values_def sample_prepared_def numeral_2_eq_2)
qed

lemma char_of_one: "char_of (49::nat) = CHR ''1''"
  by code_simp

lemma sample_prepare_chunk:
  "prepare_chunk sample_pg sample_text sample_pg_config None
     (chunk_input sample_pg_config sample_progress ''public.orders'' (sample_table ''orders'')) sample_world
   = (Ok ((), sample_prepared), [])"
proof -
  let ?inp = "chunk_input sample_pg_config sample_progress ''public.orders'' (sample_table ''orders'')"
  have inp: "pi_schema ?inp = sample_table ''orders''" "pi_surrogate_key ?inp = None"
    "\<not> pi_read_only ?inp" "pi_signal_data_collection ?inp = Some ''public.signals''"
    by (simp_all add: chunk_input_def sample_progress_def sample_pg_config_def)
  have open': "open_watermark sample_pg () ?inp sample_world
      = (Ok (Some ''public.signals'', None), tl sample_world)"
    using inp(3,4)
    by (simp add: open_watermark_def sbind_def qualified_name_def split_collection_def
        qualified_table_def sample_world_def sample_insert)
  obtain t where t: "query_table_schema sample_pg sample_pg_config () ''public'' ''orders'' (tl sample_world)
        = (Ok (Some t), tl (tl sample_world))"
      "es_fields (pts_event_schema t) = es_fields (pts_event_schema (sample_table ''orders''))"
      "pts_column_types t = pts_column_types (sample_table ''orders'')" "pts_opaque_columns t = []"
    using sample_query_table_schema by blast
  have connect: "pe_connect sample_pg sample_world = (Ok (), sample_world)" by (simp add: sample_pg_def)
  show ?thesis
    using open' t sample_read_chunk
    by (simp add: prepare_chunk_def sbind_def connect inp key_fields_def sample_insert)
       (simp add: sample_prepared_def)
qed

lemma sample_execute:
  "handle_signal sample_snap_env sample_pg_config sample_schemas
     (Execute ''s'' [''public.orders''] [] None) (controller_new None [], sample_world)
   = (Ok None, (sample_chunk, []))"
proof -
  have expand: "expand_data_collections sample_snap_env [''public.orders''] [] sample_schemas
      = Ok ([''public.orders''], [])"
    by (simp add: expand_data_collections_def compile_patterns_def sample_snap_env_def anchored_def
        sample_schemas_def)
  have target: "chunk_target sample_schemas sample_progress = Ok (''public.orders'', sample_table ''orders'')"
    by (simp add: chunk_target_def nth_option_def sample_progress_def split_collection_def
        sample_schemas_def)
  have env: "sn_pg sample_snap_env = sample_pg" "sn_text sample_snap_env = sample_text"
    by (simp_all add: sample_snap_env_def)
  have "prepare_current_chunk sample_snap_env sample_pg_config sample_schemas
      ((controller_new None [])\<lparr>sc_progress := Some sample_progress, sc_state_dirty := True\<rparr>, sample_world)
    = (Ok (), (sample_chunk, []))"
    using sample_prepare_chunk
    by (simp add: prepare_current_chunk_def target env controller_new_def)
       (simp add: install_chunk_def sample_progress_def sample_prepared_def keyed_window_def
         row_key_def sample_snap_env_def primary_key_fields_def chunk_name_def sample_chunk_def
          show_nat.simps digit_char_def char_of_one)
  then show ?thesis
    by (simp add: handle_signal_def is_duplicate_execute_signal_def expand sbind_def)
       (simp add: controller_new_def sample_progress_def)
qed

section \<open>Properties\<close>

text \<open>
  C13. The controller of incremental snapshots keeps its invariant in every run from the start of the
  connector, whatever signals, events and commits arrive: the current collection exists; a window
  exists only together with a chunk of the current collection, whose name is the signal and the
  sequence number of the progress, and is keyed by the primary keys of its rows; the next chunk is
  scheduled only when no chunk is open and the snapshot is not paused; at most 1024 completed signals
  are remembered, without duplicates.
\<close>

theorem snapshot_controller_invariant:
  assumes "snap_reach env config progress completed st"
    and "progress_inv progress" "distinct completed" "length completed \<le> MAX_COMPLETED_SIGNAL_IDS"
  shows "controller_inv env (fst st)"
  using assms by (rule snap_reach_inv)

lemma sample_chunk_inv: "controller_inv sample_snap_env sample_chunk"
  by (simp add: controller_inv_defs sample_chunk_def chunk_name_def sample_snap_env_def row_key_def
      primary_key_fields_def table_name_def im_inv_def show_nat.simps digit_char_def char_of_one)

lemma sample_tables_inv: "tables_inv pg_table_key sample_schemas"
  by (simp add: tables_inv_def im_inv_def sample_schemas_def pg_table_key_def)

lemma sample_reach:
  "snap_reach sample_snap_env sample_pg_config None [] (sample_chunk, [])"
proof (rule snap_reach.step)
  show "snap_reach sample_snap_env sample_pg_config None [] (controller_new None [], sample_world)"
    by (rule snap_reach.start [OF sample_tables_inv]) (simp add: resume_snapshot_def controller_new_def)
  show "snap_step sample_snap_env sample_pg_config sample_schemas
      (OpSignal (Execute ''s'' [''public.orders''] [] None)) (controller_new None [], sample_world)
    = (Ok None, (sample_chunk, []))"
    using sample_execute by simp
qed (rule sample_tables_inv)

theorem snapshot_controller_invariant_witness: "controller_inv sample_snap_env sample_chunk"
  using snapshot_controller_invariant [OF sample_reach]
  by (simp add: progress_inv_def MAX_COMPLETED_SIGNAL_IDS_def)

text \<open>
  C12. The window between the watermarks reconciles the chunk with the stream. Whatever happens
  between the preparation of a chunk and the close of its window, except a stop, the rows emitted
  are exactly the rows of the chunk whose key no event touched while the window was open, in the
  order of the chunk; a row that the stream has superseded is never emitted. Without read-only mode
  only the close watermark of this very chunk closes the window, and only after its open watermark.
\<close>

theorem snapshot_window_reconciled:
  assumes "controller_inv env c" "sc_schema c = Some s"
    and "quiet_steps env config s (c, w) touched (c1, w1)"
    and "snap_step env config schemas op (c1, w1) = (Ok (Some closed), (c2, w2))"
  shows "cw_schema closed = s
    \<and> cw_rows closed = map snd (filter (\<lambda>(k, _). k \<notin> touched) (sc_window c))
    \<and> (\<forall>r\<in>set (cw_rows closed). \<forall>k\<in>touched. row_key env s r \<noteq> Some k)
    \<and> sc_schema c2 = None
    \<and> (\<forall>sg. op = OpSignal sg \<longrightarrow> sc_window_open c1
         \<and> (\<exists>i. sc_chunk_id c = Some i \<and> sg = WindowClose (i @ ''-close'')))"
proof -
  note q = quiet_steps_window [OF assms(3), simplified, OF assms(1,2)]
  from snap_step_closes [OF assms(4)] obtain d where d: "close_current_window d = (Ok closed, c2)"
      "sc_schema d = sc_schema c1" "sc_window d = sc_window c1"
    and sg: "\<forall>sg. op = OpSignal sg \<longrightarrow> sc_window_open c1
       \<and> (\<exists>i. sc_chunk_id c1 = Some i \<and> sg = WindowClose (i @ ''-close''))"
    by auto
  note closed = close_current_window_Ok [OF d(1)]
  have keyed: "list_all (\<lambda>(k, r). row_key env s r = Some k) (sc_window c)"
    using assms(1,2) by (cases "sc_progress c") (auto simp: controller_inv_def in_chunk_def)
  have rows: "cw_rows closed = map snd (filter (\<lambda>(k, _). k \<notin> touched) (sc_window c))"
    using closed(2) d(3) q by simp
  moreover have "row_key env s r \<noteq> Some k" if "r \<in> set (cw_rows closed)" "k \<in> touched" for r k
    using that rows keyed by (auto simp: list_all_iff)
  moreover have "sc_schema c2 = None" using closed(3) by simp
  moreover have "cw_schema closed = s" using closed(1) d(2) q by simp
  moreover have "\<forall>sg. op = OpSignal sg \<longrightarrow> sc_window_open c1
       \<and> (\<exists>i. sc_chunk_id c = Some i \<and> sg = WindowClose (i @ ''-close''))"
    using sg q by simp
  ultimately show ?thesis by simp
qed

definition sample_update :: change_event where
  "sample_update =
     \<lparr>ev_id = ''e1'',
      ev_source = \<lparr>sm_connector = ''postgresql'', sm_connector_name = ''orders'', sm_database = ''shop'',
        sm_schema = Some ''public'', sm_table = Some ''orders'', sm_snapshot = False,
        sm_version = ''1'', sm_attributes = []\<rparr>,
      ev_position = sample_postgres 5 1 False, ev_transaction = None, ev_operation = Update,
      ev_before = None, ev_after = Some [(''id'', DvString ''1'')],
      ev_schema = \<lparr>es_name = ''orders'', es_version = 1, es_fields = []\<rparr>,
      ev_source_time = None, ev_observed_time = 0\<rparr>"

lemma sample_row_key: "row_key sample_snap_env (sample_table n) [(''id'', DvString k)] = Some k"
  by (simp add: row_key_def sample_snap_env_def primary_key_fields_def)

lemma sample_event_keys: "event_keys sample_snap_env (sample_table ''orders'') sample_update = {''1''}"
  by (auto simp: event_keys_def sample_update_def event_rows_def sample_row_key)

definition sample_deduplicated :: "unit snapshot_controller" where
  "sample_deduplicated =
     sample_chunk\<lparr>sc_window_open := True, sc_window := [(''2'', [(''id'', DvString ''2'')])]\<rparr>"

lemma sample_quiet:
  "quiet_steps sample_snap_env sample_pg_config (sample_table ''orders'') (sample_chunk, w) {''1''}
     (sample_deduplicated, w)"
proof (rule quiet_steps.step)
  show "quiet_steps sample_snap_env sample_pg_config (sample_table ''orders'') (sample_chunk, w) {}
      (sample_chunk\<lparr>sc_window_open := True\<rparr>, w)"
    by (rule quiet_steps.step [OF quiet_steps.refl, where op = "OpSignal (WindowOpen ''s-1-open'')"])
       (simp_all add: handle_signal_def expected_watermark_id_def sample_chunk_def)
  show "snap_step sample_snap_env sample_pg_config [] (OpEvent sample_update)
      (sample_chunk\<lparr>sc_window_open := True\<rparr>, w) = (Ok None, (sample_deduplicated, w))"
    by (simp add: deduplicate_def sample_update_def sample_chunk_def sample_deduplicated_def
        event_rows_def sample_row_key)
qed (simp_all add: sample_event_keys)

lemma sample_close:
  "snap_step sample_snap_env sample_pg_config schemas (OpSignal (WindowClose ''s-1-close''))
     (sample_deduplicated, w)
   = (Ok (Some \<lparr>cw_schema = sample_table ''orders'', cw_rows = [[(''id'', DvString ''2'')]]\<rparr>),
      (snd (close_current_window sample_deduplicated), w))"
  by (simp add: handle_signal_def expected_watermark_id_def sample_chunk_def sample_deduplicated_def
      close_current_window_def Let_def)

theorem snapshot_window_reconciled_witness:
  "map snd (filter (\<lambda>(k, _). k \<notin> {''1''}) (sc_window sample_chunk)) = [[(''id'', DvString ''2'')]]
   \<and> sc_schema (snd (close_current_window sample_deduplicated)) = None"
  using snapshot_window_reconciled [OF sample_chunk_inv _ sample_quiet sample_close [where schemas = "[]" and w = "[]"]]
  by (simp add: sample_chunk_def)

text \<open>
  C14. Every closed window moves the snapshot forward and schedules what comes next. A chunk that was
  not the last of its collection leaves its last key as the lower bound of the next chunk; the last
  chunk moves on to the next collection, and after the last collection the signal is remembered as
  completed. The next commit prepares the next chunk, unless the snapshot is paused.
\<close>

theorem snapshot_chunk_progress:
  assumes "controller_inv env c" "sc_progress c = Some p"
    and "close_current_window c = (Ok closed, c')"
  shows "(if sc_chunk_complete c \<and> length (pp_data_collections p) = pp_current_collection p + 1
       then sc_progress c' = None \<and> is_duplicate_execute_signal (pp_signal_id p) c'
       else \<exists>q. sc_progress c' = Some q
         \<and> pp_chunk_sequence q = pp_chunk_sequence p + 1 \<and> pp_signal_id q = pp_signal_id p
         \<and> pp_data_collections q = pp_data_collections p
         \<and> (if sc_chunk_complete c
            then pp_current_collection q = pp_current_collection p + 1
              \<and> pp_last_key q = None \<and> pp_maximum_key q = None
            else pp_current_collection q = pp_current_collection p
              \<and> pp_last_key q = sc_chunk_end c \<and> pp_maximum_key q = pp_maximum_key p)
         \<and> (\<not> pp_paused p \<and> \<not> pgc_read_only config \<longrightarrow>
              after_commit env config schemas (c', w)
                = prepare_current_chunk env config schemas (c'\<lparr>sc_prepare_after_commit := False\<rparr>, w)))
    \<and> sc_state_dirty c'"
proof -
  have cur: "pp_current_collection p < length (pp_data_collections p)"
    and ids: "distinct (sc_completed c)" "length (sc_completed c) \<le> MAX_COMPLETED_SIGNAL_IDS"
    using assms(1,2) by (auto simp: controller_inv_def progress_inv_def)
  let ?a = "advance_progress (released c)"
  consider (last) "sc_chunk_complete c" "length (pp_data_collections p) = pp_current_collection p + 1"
    | (collection) "sc_chunk_complete c" "length (pp_data_collections p) > pp_current_collection p + 1"
    | (chunk) "\<not> sc_chunk_complete c"
    using cur by linarith
  then show ?thesis
  proof cases
    case last
    with assms(2) have "?a = remember_completed (pp_signal_id p) ((released c)\<lparr>sc_progress := None\<rparr>)"
      by (simp add: advance_progress_def Let_def)
    with last remember_bounds(3) [OF ids] show ?thesis
      unfolding close_current_window_Ok(3) [OF assms(3)]
      by (simp add: remember_completed_def is_duplicate_execute_signal_def)
  next
    case collection
    with assms(2) have "sc_progress ?a = Some (p\<lparr>pp_current_collection := pp_current_collection p + 1,
        pp_last_key := None, pp_maximum_key := None, pp_chunk_sequence := pp_chunk_sequence p + 1\<rparr>)"
      by (simp add: advance_progress_def Let_def)
    with collection show ?thesis
      unfolding close_current_window_Ok(3) [OF assms(3)] by (simp add: after_commit_def)
  next
    case chunk
    with assms(2) cur have "sc_progress ?a = Some (p\<lparr>pp_last_key := sc_chunk_end c,
        pp_chunk_sequence := pp_chunk_sequence p + 1\<rparr>)"
      by (simp add: advance_progress_def Let_def)
    with chunk show ?thesis
      unfolding close_current_window_Ok(3) [OF assms(3)] by (simp add: after_commit_def)
  qed
qed


theorem snapshot_chunk_progress_witness:
  "sc_progress (snd (close_current_window sample_chunk)) = None
   \<and> is_duplicate_execute_signal ''s'' (snd (close_current_window sample_chunk))"
proof -
  have "close_current_window sample_chunk
      = (Ok \<lparr>cw_schema = sample_table ''orders'', cw_rows = map snd (sc_window sample_chunk)\<rparr>,
         snd (close_current_window sample_chunk))"
    by (simp add: close_current_window_def sample_chunk_def Let_def)
  moreover obtain p where p: "sc_progress sample_chunk = Some p" "sc_chunk_complete sample_chunk"
      "length (pp_data_collections p) = pp_current_collection p + 1" "pp_signal_id p = ''s''"
    by (simp add: sample_chunk_def)
  ultimately show ?thesis
    using snapshot_chunk_progress [OF sample_chunk_inv p(1), of _ _ sample_pg_config "[]" "[]"] p
    by simp
qed

text \<open>
  C15. A stop signal takes exactly the collections that match one of its patterns (all of them when it
  names none) out of the running snapshot. The collections that were behind the current one and are
  kept stay behind it, and the ones that are still to do stay to do, in their order; when none of the
  kept collections is still to do, the snapshot is finished if none is kept at all, and otherwise
  starts again with the last kept collection, although its rows were already emitted. The chunk in
  flight survives exactly when its collection is kept.
\<close>

theorem stop_keeps_pending_collections:
  assumes "sc_progress c = Some p" "pp_current_collection p < length (pp_data_collections p)"
    and "compile_patterns env ''stop-snapshot data-collections'' patterns = Ok ps"
    and "\<And>coll. keep coll \<longleftrightarrow> ps \<noteq> [] \<and> (\<forall>m\<in>set ps. \<not> m coll)"
    and "\<exists>coll\<in>set (pp_data_collections p). \<not> keep coll"
    and "stop_snapshot env patterns c = (r, c')"
    and "earlier = filter keep (take (pp_current_collection p) (pp_data_collections p))"
    and "pending = filter keep (drop (pp_current_collection p) (pp_data_collections p))"
  shows "r = Ok () \<and> sc_state_dirty c'
    \<and> (if earlier @ pending = []
       then sc_progress c' = None \<and> is_duplicate_execute_signal (pp_signal_id p) c'
       else \<exists>q. sc_progress c' = Some q \<and> pp_data_collections q = earlier @ pending
         \<and> pp_current_collection q = (if pending = [] then length earlier - 1 else length earlier)
         \<and> (if keep (pp_data_collections p ! pp_current_collection p)
            then pp_last_key q = pp_last_key p \<and> sc_window c' = sc_window c \<and> sc_schema c' = sc_schema c
            else pp_last_key q = None \<and> sc_schema c' = None \<and> sc_prepare_after_commit c' = (\<not> pp_paused q)))"
proof -
  let ?colls = "pp_data_collections p" and ?cur = "pp_current_collection p"
  have matches: "(\<lambda>coll. ps = [] \<or> list_ex (\<lambda>m. m coll) ps) = (\<lambda>coll. \<not> keep coll)"
    using assms(4) by (auto simp: list_ex_iff)
  have retained: "filter keep ?colls = earlier @ pending"
    using assms(7,8) by (simp flip: filter_append)
  have removed: "list_ex (\<lambda>coll. \<not> keep coll) ?colls" using assms(5) by (simp add: list_ex_iff Bex_def)
  have cur: "nth_option ?colls ?cur = Some (?colls ! ?cur)" using assms(2) by (simp add: nth_option_def)
  have index: "min (length earlier) (length (earlier @ pending) - 1)
      = (if pending = [] then length earlier - 1 else length earlier)"
    by (cases pending) auto
  have "(r, c') = stop_snapshot env patterns c" using assms(6) by simp
  also have "... = (Ok (),
      (if earlier @ pending = [] then remember_completed (pp_signal_id p) (clear_current_chunk (c\<lparr>sc_progress := None\<rparr>))
       else let q = p\<lparr>pp_additional_conditions := filter (\<lambda>(coll, _). coll \<in> set (earlier @ pending)) (pp_additional_conditions p),
                      pp_data_collections := earlier @ pending,
                      pp_current_collection := if pending = [] then length earlier - 1 else length earlier\<rparr>
         in if keep (?colls ! ?cur) then c\<lparr>sc_progress := Some q\<rparr>
            else (clear_current_chunk (c\<lparr>sc_progress := None\<rparr>))
              \<lparr>sc_prepare_after_commit := \<not> pp_paused p,
               sc_progress := Some (q\<lparr>pp_last_key := None, pp_maximum_key := None,
                                      pp_chunk_sequence := pp_chunk_sequence q + 1\<rparr>)\<rparr>)
      \<lparr>sc_state_dirty := True\<rparr>)"
    unfolding stop_snapshot_def assms(1) assms(3) option.case sum.case matches
    unfolding Let_def not_not retained cur index [symmetric] assms(7) [symmetric]
    by (simp add: removed)
  finally show ?thesis
    by (auto simp: Let_def clear_current_chunk_def remember_completed_def is_duplicate_execute_signal_def
        remember_member)
qed

definition sample_two :: "unit snapshot_controller" where
  "sample_two =
     (controller_new (Some \<lparr>pp_signal_id = ''s'', pp_data_collections = [''public.a'', ''public.b''],
              pp_additional_conditions = [], pp_surrogate_key = None, pp_current_collection = 1,
              pp_last_key = Some [''7''], pp_maximum_key = Some [''9''], pp_chunk_sequence = 5,
              pp_paused = False\<rparr>) [])"

theorem stop_keeps_pending_collections_witness:
  "\<exists>q. sc_progress (snd (stop_snapshot sample_snap_env [''public.b''] sample_two)) = Some q
     \<and> pp_data_collections q = [''public.a''] \<and> pp_current_collection q = 0 \<and> pp_last_key q = None"
proof -
  obtain p where p: "sc_progress sample_two = Some p"
      "pp_data_collections p = [''public.a'', ''public.b'']" "pp_current_collection p = 1"
    by (simp add: sample_two_def controller_new_def)
  have ps: "compile_patterns sample_snap_env ''stop-snapshot data-collections'' [''public.b'']
      = Ok [\<lambda>s. anchored s = anchored ''public.b'']"
    by (simp add: compile_patterns_def sample_snap_env_def)
  show ?thesis
    using stop_keeps_pending_collections [OF p(1) _ ps, of "\<lambda>coll. coll \<noteq> ''public.b''"
        "fst (stop_snapshot sample_snap_env [''public.b''] sample_two)"
        "snd (stop_snapshot sample_snap_env [''public.b''] sample_two)" "[''public.a'']" "[]"] p
    by (auto simp: anchored_def)
qed

end
