(* ===== verification/Column_Transform.thy ===== *)
theory Column_Transform
  imports Core_Event
begin

text \<open>
  Column transformations: the rules of \<^verbatim>\<open>crates/rustium-config/src/lib.rs\<close>
  (\<^verbatim>\<open>ColumnTransformRule\<close>, and the table selections that match names in the same way) and the
  transformer of \<^verbatim>\<open>crates/rustium-column-transform/src/lib.rs\<close> with its PostgreSQL and MySQL
  wrappers. Regular expressions and the digests are parameters.
\<close>

section \<open>Rules of the configuration\<close>

datatype hash_algorithm =
  Md2 | Md5 | Sha1 | Sha224 | Sha256 | Sha384 | Sha512 | Sha512_224 | Sha512_256
  | Sha3_224 | Sha3_256 | Sha3_384 | Sha3_512

datatype hash_version = HashV1 | HashV2

datatype transform_rule =
    TruncateRule u32 "string list"
  | MaskRule u32 "string list"
  | HashRule hash_algorithm string hash_version "string list"

fun rule_priority :: "transform_rule \<Rightarrow> u8" where
  "rule_priority (TruncateRule _ _) = 0"
| "rule_priority (MaskRule _ _) = 1"
| "rule_priority (HashRule _ _ HashV1 _) = 2"
| "rule_priority (HashRule _ _ HashV2 _) = 3"

fun rule_columns :: "transform_rule \<Rightarrow> string list" where
  "rule_columns (TruncateRule _ cs) = cs"
| "rule_columns (MaskRule _ cs) = cs"
| "rule_columns (HashRule _ _ _ cs) = cs"

text \<open>The first blank or uncompilable selector is reported.\<close>

fun validate_selectors :: "regex_engine \<Rightarrow> string list \<Rightarrow> unit result" where
  "validate_selectors build [] = Ok ()"
| "validate_selectors build (c # cs) =
     (if trim c = [] \<or> build False (anchored c) = None
      then Err (Configuration (''column transformation selector '' @ debug_str c
                @ '' is not a valid regular expression''))
      else validate_selectors build cs)"

definition rule_validate :: "regex_engine \<Rightarrow> transform_rule \<Rightarrow> unit result" where
  "rule_validate build r =
     rbind (case r of
              TruncateRule n _ \<Rightarrow> Ok (Some n)
            | MaskRule n _ \<Rightarrow> Ok (Some n)
            | HashRule _ salt _ _ \<Rightarrow>
                if salt = []
                then Err (Configuration ''source.column_transformations hash salt must not be empty'')
                else Ok None)
       (\<lambda>len.
         if (case len of None \<Rightarrow> False | Some n \<Rightarrow> unat n > 2 ^ 31 - 1)
         then Err (Configuration (''source.column_transformations length must not exceed ''
                   @ show_nat (2 ^ 31 - 1)))
         else if rule_columns r = []
         then Err (Configuration ''source.column_transformations columns must not be empty'')
         else validate_selectors build (rule_columns r))"

text \<open>Selections of tables and collections by fully matched patterns.\<close>

definition regex_matches :: "regex_engine \<Rightarrow> string \<Rightarrow> string \<Rightarrow> bool" where
  "regex_matches build p v = (case build False (anchored p) of None \<Rightarrow> False | Some m \<Rightarrow> m v)"

record table_selection =
  ts_include :: "string list"
  ts_exclude :: "string list"

definition table_includes :: "regex_engine \<Rightarrow> table_selection \<Rightarrow> string \<Rightarrow> string \<Rightarrow> bool" where
  "table_includes build t schema table =
     (let name = schema @ ''.'' @ table
      in (ts_include t = [] \<or> list_ex (\<lambda>p. regex_matches build p name) (ts_include t))
         \<and> \<not> list_ex (\<lambda>p. regex_matches build p name) (ts_exclude t))"

definition validate_table_patterns :: "regex_engine \<Rightarrow> table_selection \<Rightarrow> unit result" where
  "validate_table_patterns build t =
     (case find (\<lambda>p. build False p = None) (ts_include t @ ts_exclude t) of
        None \<Rightarrow> Ok ()
      | Some p \<Rightarrow> Err (Configuration (''table selector '' @ debug_str p
                       @ '' is not a valid regular expression'')))"

definition includes_collection :: "regex_engine \<Rightarrow> string list \<Rightarrow> string \<Rightarrow> bool" where
  "includes_collection build patterns name =
     (patterns = [] \<or> list_ex (\<lambda>p. regex_matches build p name) patterns)"

datatype snapshot_mode = SnapshotInitial | SnapshotNever | SnapshotWhenNeeded

section \<open>The compiled transformer\<close>

datatype transform_operation =
    TruncateOp nat
  | MaskOp string
  | HashOp hash_algorithm "u8 list" hash_version

record compiled_rule =
  cr_selectors :: "(string \<Rightarrow> bool) list"
  cr_operation :: transform_operation

type_synonym column_transformer = "compiled_rule list"

definition compile_selector :: "regex_engine \<Rightarrow> string \<Rightarrow> (string \<Rightarrow> bool) result" where
  "compile_selector build selector =
     ok_or (Configuration (''invalid column transformation selector '' @ debug_str selector))
       (build True (anchored selector))"

fun compile_operation :: "transform_rule \<Rightarrow> transform_operation" where
  "compile_operation (TruncateRule n _) = TruncateOp (unat n)"
| "compile_operation (MaskRule n _) = MaskOp (replicate (unat n) CHR ''*'')"
| "compile_operation (HashRule alg salt version _) = HashOp alg (bytes_of salt) version"

definition compile_rule :: "regex_engine \<Rightarrow> transform_rule \<Rightarrow> compiled_rule result" where
  "compile_rule build r =
     rbind (collect_results (compile_selector build) (rule_columns r))
       (\<lambda>sels. Ok \<lparr>cr_selectors = sels, cr_operation = compile_operation r\<rparr>)"

text \<open>\<^verbatim>\<open>sort_by_key\<close> is stable and the key holds the index: the order of the pairs is the sort.\<close>

definition ordered_rules :: "transform_rule list \<Rightarrow> transform_rule list" where
  "ordered_rules rules =
     map snd (sort_key (\<lambda>(i, r). (rule_priority r, i)) (zip [0..<length rules] rules))"

definition transformer_new :: "regex_engine \<Rightarrow> transform_rule list \<Rightarrow> column_transformer result" where
  "transformer_new build rules = collect_results (compile_rule build) (ordered_rules rules)"

definition is_character_type :: "string \<Rightarrow> bool" where
  "is_character_type type_name =
     (let t = trim type_name in
      if suffix ''[]'' t then False
      else
        let base = to_ascii_lowercase (trim_matches CHR 0x22
              (trim (last (split_on ((=) CHR ''.'') (trim (hd (split_on ((=) CHR ''('') t)))))))
        in base \<in> set [''char'', ''character'', ''bpchar'', ''varchar'', ''character varying'',
             ''nchar'', ''nvarchar'', ''text'', ''ntext'', ''tinytext'', ''mediumtext'',
             ''longtext'', ''name''])"

definition declared_character_length :: "string \<Rightarrow> nat option" where
  "declared_character_length type_name =
     Option.bind (split_once CHR ''('' type_name)
       (\<lambda>(_, rest). Option.bind (split_once CHR '')'' rest)
         (\<lambda>(len, _). parse_unsigned 64 (trim len)))"

section \<open>Hashing\<close>

text \<open>Java's modified UTF-8 of one UTF-16 unit, and the object stream of a string.\<close>

definition modified_utf8 :: "nat \<Rightarrow> u8 list" where
  "modified_utf8 u =
     (if u = 0 then [0xC0, 0x80]
      else if u \<le> 0x7F then [of_nat u]
      else if u \<le> 0x7FF then [of_nat (0xC0 + u div 64), of_nat (0x80 + u mod 64)]
      else [of_nat (0xE0 + u div 4096), of_nat (0x80 + (u div 64) mod 64), of_nat (0x80 + u mod 64)])"

definition java_serialized_string :: "string \<Rightarrow> u8 list" where
  "java_serialized_string value =
     (let body = concat (map modified_utf8 (encode_utf16 value));
          n = length body
      in [0xAC, 0xED, 0x00, 0x05]
         @ (if n < 2 ^ 16 then 0x74 # be_bytes 2 n else 0x7C # be_bytes 8 n)
         @ body)"

type_synonym digests = "hash_algorithm \<Rightarrow> u8 list \<Rightarrow> u8 list"

text \<open>The salt is hashed before the value; the result is printed in lower-case hexadecimal.\<close>

definition digest_text :: "digests \<Rightarrow> hash_algorithm \<Rightarrow> u8 list \<Rightarrow> u8 list \<Rightarrow> string" where
  "digest_text D alg salt bytes = concat (map hex2 (D alg (salt @ bytes)))"

definition hash_string ::
  "digests \<Rightarrow> hash_algorithm \<Rightarrow> u8 list \<Rightarrow> hash_version \<Rightarrow> string \<Rightarrow> string" where
  "hash_string D alg salt version v =
     digest_text D alg salt
       (case version of HashV1 \<Rightarrow> java_serialized_string v | HashV2 \<Rightarrow> bytes_of v)"

section \<open>Transforming values, rows and events\<close>

definition matching_rule ::
  "column_transformer \<Rightarrow> string list \<Rightarrow> string \<Rightarrow> compiled_rule option" where
  "matching_rule rules tables column =
     find (\<lambda>r. list_ex (\<lambda>t. list_ex (\<lambda>sel. sel (t @ ''.'' @ column)) (cr_selectors r)) tables) rules"

definition apply_operation ::
  "digests \<Rightarrow> transform_operation \<Rightarrow> string \<Rightarrow> nat option \<Rightarrow> data_value \<Rightarrow> data_value" where
  "apply_operation D op type_name declared v =
     (case op of
        TruncateOp n \<Rightarrow>
          if is_character_type type_name
          then (case v of DvString s \<Rightarrow> DvString (take_chars n s) | _ \<Rightarrow> v)
          else (case v of DvBytes bs \<Rightarrow> DvBytes (take n bs) | _ \<Rightarrow> v)
      | MaskOp stars \<Rightarrow> if is_character_type type_name then DvString stars else v
      | HashOp alg salt version \<Rightarrow>
          if is_character_type type_name
          then (case v of
                  DvString s \<Rightarrow>
                    (let h = hash_string D alg salt version s
                     in DvString
                          (case (case declared of
                                   Some n \<Rightarrow> Some n
                                 | None \<Rightarrow> declared_character_length type_name) of
                             None \<Rightarrow> h | Some n \<Rightarrow> take (min n (length h)) h))
                | _ \<Rightarrow> v)
          else v)"

definition transform_value_tables ::
  "digests \<Rightarrow> column_transformer \<Rightarrow> string list \<Rightarrow> event_schema \<Rightarrow> string \<Rightarrow> data_value
   \<Rightarrow> nat option \<Rightarrow> data_value" where
  "transform_value_tables D rules tables schema column v declared =
     (case find (\<lambda>f. fs_name f = column) (es_fields schema) of
        None \<Rightarrow> v
      | Some f \<Rightarrow>
          (case matching_rule rules tables column of
             None \<Rightarrow> v
           | Some r \<Rightarrow> apply_operation D (cr_operation r) (fs_type_name f) declared v))"

definition transform_value ::
  "digests \<Rightarrow> column_transformer \<Rightarrow> string \<Rightarrow> string \<Rightarrow> event_schema \<Rightarrow> string \<Rightarrow> data_value
   \<Rightarrow> nat option \<Rightarrow> data_value" where
  "transform_value D rules namespace table schema column v declared =
     transform_value_tables D rules [namespace @ ''.'' @ table] schema column v declared"

text \<open>\<open>row_update\<close> is the assignment through \<^verbatim>\<open>get_mut\<close>: the entry keeps its place.\<close>

definition row_update :: "string \<Rightarrow> (data_value \<Rightarrow> data_value) \<Rightarrow> row \<Rightarrow> row" where
  "row_update k f r = (case map_of r k of None \<Rightarrow> r | Some v \<Rightarrow> im_insert k (f v) r)"

definition transform_row_tables ::
  "digests \<Rightarrow> column_transformer \<Rightarrow> string list \<Rightarrow> event_schema \<Rightarrow> (string \<times> nat) list
   \<Rightarrow> row \<Rightarrow> row" where
  "transform_row_tables D rules tables schema declared r =
     fold (\<lambda>f r. row_update (fs_name f)
              (\<lambda>v. transform_value_tables D rules tables schema (fs_name f) v
                     (map_of declared (fs_name f))) r)
       (es_fields schema) r"

definition transform_row ::
  "digests \<Rightarrow> column_transformer \<Rightarrow> string \<Rightarrow> string \<Rightarrow> event_schema \<Rightarrow> (string \<times> nat) list
   \<Rightarrow> row \<Rightarrow> row" where
  "transform_row D rules namespace table schema declared r =
     transform_row_tables D rules [namespace @ ''.'' @ table] schema declared r"

definition transform_event_tables ::
  "digests \<Rightarrow> column_transformer \<Rightarrow> string list \<Rightarrow> (string \<times> nat) list \<Rightarrow> change_event
   \<Rightarrow> change_event" where
  "transform_event_tables D rules tables declared e =
     e\<lparr>ev_before := map_option (transform_row_tables D rules tables (ev_schema e) declared) (ev_before e),
       ev_after := map_option (transform_row_tables D rules tables (ev_schema e) declared) (ev_after e)\<rparr>"

definition transform_event ::
  "digests \<Rightarrow> column_transformer \<Rightarrow> string \<Rightarrow> string \<Rightarrow> (string \<times> nat) list \<Rightarrow> change_event
   \<Rightarrow> change_event" where
  "transform_event D rules namespace table declared e =
     transform_event_tables D rules [namespace @ ''.'' @ table] declared e"

section \<open>PostgreSQL and MySQL\<close>

text \<open>The declared length of a PostgreSQL column: \<^verbatim>\<open>"char"\<close>, \<^verbatim>\<open>bpchar(n)\<close>, \<^verbatim>\<open>varchar(n)\<close>.\<close>

definition pg_declared_length :: "u32 \<Rightarrow> i32 \<Rightarrow> nat option" where
  "pg_declared_length type_oid type_modifier =
     (if type_oid = 18 then Some 1
      else if (type_oid = 1042 \<or> type_oid = 1043) \<and> 4 \<le> sint type_modifier
      then Some (nat (sint type_modifier - 4))
      else None)"

section \<open>Rows are transformed entry by entry\<close>

lemma row_update_map:
  "im_inv r \<Longrightarrow> row_update k f r = map (\<lambda>(c, v). (c, if c = k then f v else v)) r"
proof (induction r)
  case Nil
  then show ?case by (simp add: row_update_def)
next
  case (Cons e r)
  obtain c v where e: "e = (c, v)" by (cases e)
  show ?case
  proof (cases "c = k")
    case True
    then have "\<forall>(d, w) \<in> set r. d \<noteq> k" using Cons.prems e by (auto simp: im_inv_def image_iff)
    then have "map (\<lambda>(d, w). (d, if d = k then f w else w)) r = r" by (intro map_idI) auto
    with True e show ?thesis by (simp add: row_update_def)
  next
    case False
    then have "row_update k f (e # r) = e # row_update k f r"
      using e by (simp add: row_update_def split: option.split)
    with Cons e False show ?thesis by (simp add: im_inv_def)
  qed
qed

lemma im_inv_map_values: "im_inv (map (\<lambda>(c, v). (c, g c v)) r) = im_inv r"
  by (simp add: im_inv_def comp_def case_prod_beta)

lemma row_updates_map:
  assumes "im_inv r" "distinct ks"
  shows "fold (\<lambda>k. row_update k (g k)) ks r = map (\<lambda>(c, v). (c, if c \<in> set ks then g c v else v)) r"
  using assms
proof (induction ks arbitrary: r)
  case Nil
  then show ?case by (simp add: case_prod_beta)
next
  case (Cons k ks)
  have "fold (\<lambda>k. row_update k (g k)) (k # ks) r
      = fold (\<lambda>k. row_update k (g k)) ks (map (\<lambda>(c, v). (c, if c = k then g k v else v)) r)"
    using Cons.prems by (simp add: row_update_map)
  also have "\<dots> = map (\<lambda>(c, v). (c, if c \<in> set ks then g c v else v))
      (map (\<lambda>(c, v). (c, if c = k then g k v else v)) r)"
    using Cons.prems by (intro Cons.IH) (simp_all add: im_inv_map_values [where g = "\<lambda>c v. if c = k then g k v else v"])
  also have "\<dots> = map (\<lambda>(c, v). (c, if c \<in> set (k # ks) then g c v else v)) r"
    using Cons.prems(2) by auto
  finally show ?case .
qed

lemma transform_row_map:
  assumes "im_inv r" "distinct (map fs_name (es_fields schema))"
  shows "transform_row_tables D rules tables schema declared r =
    map (\<lambda>(c, v). (c, transform_value_tables D rules tables schema c v (map_of declared c))) r"
proof -
  let ?g = "\<lambda>c v. transform_value_tables D rules tables schema c v (map_of declared c)"
  have "transform_row_tables D rules tables schema declared r
      = fold (\<lambda>k. row_update k (?g k)) (map fs_name (es_fields schema)) r"
    by (simp add: transform_row_tables_def fold_map comp_def)
  also have "\<dots> = map (\<lambda>(c, v). (c, if c \<in> set (map fs_name (es_fields schema)) then ?g c v else v)) r"
    using assms by (rule row_updates_map)
  also have "\<dots> = map (\<lambda>(c, v). (c, ?g c v)) r"
  proof -
    have "?g c v = v" if "c \<notin> set (map fs_name (es_fields schema))" for c v
    proof -
      have "find (\<lambda>f. fs_name f = c) (es_fields schema) = None"
        using that by (auto simp: find_None_iff)
      then show ?thesis by (simp add: transform_value_tables_def)
    qed
    then show ?thesis by auto
  qed
  finally show ?thesis .
qed

section \<open>The serialised string determines the value\<close>

fun modified_units :: "nat \<Rightarrow> nat list" where
  "modified_units u =
     (if u = 0 then [0xC0, 0x80]
      else if u \<le> 0x7F then [u]
      else if u \<le> 0x7FF then [0xC0 + u div 64, 0x80 + u mod 64]
      else [0xE0 + u div 4096, 0x80 + (u div 64) mod 64, 0x80 + u mod 64])"

declare modified_units.simps [simp del]

lemma modified_utf8_units: "modified_utf8 u = map of_nat (modified_units u)"
  by (simp add: modified_utf8_def modified_units.simps)

lemma modified_units_small:
  assumes "u < 65536" "b \<in> set (modified_units u)"
  shows "b < 256"
proof -
  have "u div 4096 < 16" using assms(1) by (simp add: less_mult_imp_div_less)
  moreover have "u \<le> 0x7FF \<Longrightarrow> u div 64 < 32" by (simp add: less_mult_imp_div_less)
  moreover have "u mod 64 < 64" "(u div 64) mod 64 < 64" by simp_all
  ultimately show ?thesis
    using assms(2) by (auto simp: modified_units.simps split: if_splits)
qed

lemma of_nat_u8_inject: "a < 256 \<Longrightarrow> b < 256 \<Longrightarrow> (of_nat a :: u8) = of_nat b \<longleftrightarrow> a = b"
  by (simp add: word_of_nat_eq_iff take_bit_nat_eq_self)

lemma map_of_nat_inject:
  "(\<And>b. b \<in> set xs \<union> set ys \<Longrightarrow> b < 256) \<Longrightarrow>
    map (of_nat :: nat \<Rightarrow> u8) xs = map of_nat ys \<longleftrightarrow> xs = ys"
proof (induction xs arbitrary: ys)
  case Nil
  then show ?case by auto
next
  case (Cons x xs)
  then show ?case by (cases ys) (auto simp: of_nat_u8_inject)
qed

text \<open>The first byte tells the length of the unit; the code is prefix free.\<close>

lemma modified_units_prefix_free:
  assumes "modified_units u @ xs = modified_units v @ ys"
  shows "u = v \<and> xs = ys"
proof -
  have split3: "w = (w div 4096 * 64 + (w div 64) mod 64) * 64 + w mod 64" for w :: nat
  proof -
    have "w div 4096 = w div 64 div 64" by (simp add: div_mult2_eq [symmetric])
    then show ?thesis by (metis div_mult_mod_eq)
  qed
  show ?thesis
    using assms split3 [of u] split3 [of v]
    by (auto simp: modified_units.simps split: if_splits; metis div_mult_mod_eq)
qed

lemma modified_units_nonempty [simp]: "modified_units u \<noteq> []"
  by (simp add: modified_units.simps)

lemma modified_body_inject:
  "concat (map modified_units us) = concat (map modified_units vs) \<Longrightarrow> us = vs"
proof (induction us arbitrary: vs)
  case Nil
  then show ?case by (cases vs) auto
next
  case (Cons u us)
  show ?case
  proof (cases vs)
    case Nil
    with Cons.prems show ?thesis by simp
  next
    case (Cons v ws)
    then have "modified_units u @ concat (map modified_units us)
        = modified_units v @ concat (map modified_units ws)" using Cons.prems by simp
    from modified_units_prefix_free [OF this] Cons.IH [of ws] Cons show ?thesis by simp
  qed
qed

lemma utf16_units_small: "n < 0x110000 \<Longrightarrow> u \<in> set (utf16_units n) \<Longrightarrow> u < 65536"
proof -
  assume n: "n < 0x110000" and u: "u \<in> set (utf16_units n)"
  have "(n - 0x10000) div 0x400 < 0x400" using n by (simp add: less_mult_imp_div_less)
  moreover have "(n - 0x10000) mod 0x400 < 0x400" by simp
  ultimately show ?thesis using u by (auto simp: utf16_units_def split: if_splits)
qed

text \<open>A Unicode scalar value: no surrogate.\<close>

definition is_scalar :: "nat \<Rightarrow> bool" where
  "is_scalar n = (n < 0x110000 \<and> \<not> (0xD800 \<le> n \<and> n < 0xE000))"

lemma utf16_prefix_free:
  assumes "is_scalar m" "is_scalar n" "utf16_units m @ xs = utf16_units n @ ys"
  shows "m = n \<and> xs = ys"
proof -
  have high: "0xD800 \<le> 0xD800 + (k - 0x10000) div 0x400 \<and> 0xD800 + (k - 0x10000) div 0x400 < 0xE000"
    if "is_scalar k" for k
  proof -
    have "k - 0x10000 < 0x400 * 0x400" using that by (auto simp: is_scalar_def)
    then have "(k - 0x10000) div 0x400 < 0x400" by (rule less_mult_imp_div_less)
    then show ?thesis by simp
  qed
  have pair: "m = n" if "0x10000 \<le> m" "0x10000 \<le> n"
    "(m - 0x10000) div 0x400 = (n - 0x10000) div 0x400"
    "(m - 0x10000) mod 0x400 = (n - 0x10000) mod 0x400"
  proof -
    have "m - 0x10000 = n - 0x10000" using that(3,4) by (metis div_mult_mod_eq)
    with that(1,2) show ?thesis by simp
  qed
  show ?thesis
    using assms high [of m] high [of n] pair
    by (auto simp: utf16_units_def is_scalar_def split: if_splits)
qed

lemma utf16_inject:
  "list_all is_scalar ms \<Longrightarrow> list_all is_scalar ns \<Longrightarrow>
    concat (map utf16_units ms) = concat (map utf16_units ns) \<Longrightarrow> ms = ns"
proof (induction ms arbitrary: ns)
  case Nil
  then show ?case by (cases ns) (auto simp: utf16_units_def split: if_splits)
next
  case (Cons m ms)
  show ?case
  proof (cases ns)
    case Nil
    with Cons.prems show ?thesis by (simp add: utf16_units_def split: if_splits)
  next
    case (Cons n ns')
    with Cons.prems have "utf16_units m @ concat (map utf16_units ms)
        = utf16_units n @ concat (map utf16_units ns')" "is_scalar m" "is_scalar n" by simp_all
    from utf16_prefix_free [OF this(2,3,1)] Cons.IH [of ns'] Cons.prems Cons show ?thesis by simp
  qed
qed

lemma java_serialized_inject:
  assumes small: "\<forall>u \<in> set (encode_utf16 v) \<union> set (encode_utf16 w). u < 65536"
    and eq: "java_serialized_string v = java_serialized_string w"
  shows "encode_utf16 v = encode_utf16 w"
proof -
  let ?body = "\<lambda>s. concat (map modified_utf8 (encode_utf16 s))"
  let ?hdr = "\<lambda>s. if length (?body s) < 2 ^ 16 then 0x74 # be_bytes 2 (length (?body s))
    else (0x7C :: u8) # be_bytes 8 (length (?body s))"
  have ser: "java_serialized_string s = [0xAC, 0xED, 0x00, 0x05] @ ?hdr s @ ?body s" for s
    by (simp add: java_serialized_string_def Let_def)
  have "?hdr v @ ?body v = ?hdr w @ ?body w" using eq unfolding ser by simp
  then have bodies: "?body v = ?body w"
    by (auto split: if_splits)
  have units: "?body s = map of_nat (concat (map modified_units (encode_utf16 s)))" for s
    by (simp add: map_concat comp_def modified_utf8_units [abs_def])
  have bytes: "map (of_nat :: nat \<Rightarrow> u8) (concat (map modified_units (encode_utf16 v)))
      = map of_nat (concat (map modified_units (encode_utf16 w)))"
    using bodies by (simp only: units)
  have "concat (map modified_units (encode_utf16 v)) = concat (map modified_units (encode_utf16 w))"
  proof -
    have "b < 256" if "b \<in> set (concat (map modified_units (encode_utf16 v)))
        \<union> set (concat (map modified_units (encode_utf16 w)))" for b
      using that small modified_units_small by auto
    with map_of_nat_inject [of "concat (map modified_units (encode_utf16 v))"
        "concat (map modified_units (encode_utf16 w))"] bytes show ?thesis by simp
  qed
  then show ?thesis by (rule modified_body_inject)
qed

section \<open>Choosing the rule\<close>

lemma ordered_rules_props:
  defines "key \<equiv> \<lambda>(i, r). (rule_priority r, i :: nat)"
  shows "set (sort_key key (zip [0..<length rules] rules)) = set (zip [0..<length rules] rules)"
    "sorted (map key (sort_key key (zip [0..<length rules] rules)))"
  by (simp_all add: sorted_sort_key)

lemma matching_rule_least:
  assumes new: "transformer_new build rules = Ok crs"
    and found: "matching_rule crs tables column = Some cr"
  shows "\<exists>i < length rules. compile_rule build (rules ! i) = Ok cr
    \<and> (\<forall>j < length rules. \<forall>cr'. compile_rule build (rules ! j) = Ok cr' \<and>
          list_ex (\<lambda>t. list_ex (\<lambda>sel. sel (t @ ''.'' @ column)) (cr_selectors cr')) tables
          \<longrightarrow> (rule_priority (rules ! i), i) \<le> (rule_priority (rules ! j), j))"
proof -
  define key where "key = (\<lambda>(i, r). (rule_priority r, i :: nat))"
  define ps where "ps = sort_key key (zip [0..<length rules] rules)"
  define matches where "matches = (\<lambda>cr' :: compiled_rule. list_ex (\<lambda>t. list_ex (\<lambda>sel. sel (t @ ''.'' @ column)) (cr_selectors cr')) tables)"
  have ps: "set ps = set (zip [0..<length rules] rules)" "sorted (map key ps)"
    unfolding ps_def key_def by (simp_all add: ordered_rules_props)
  have crs: "list_all2 (\<lambda>r cr. compile_rule build r = Ok cr) (map snd ps) crs"
    using new unfolding transformer_new_def collect_results_Ok_iff
    by (simp add: ordered_rules_def ps_def key_def)
  obtain n where n: "n < length crs" "crs ! n = cr" "\<forall>m < n. \<not> matches (crs ! m)"
    using found unfolding matching_rule_def matches_def by (auto simp: find_Some_iff)
  have len: "length crs = length ps" using crs by (auto dest: list_all2_lengthD)
  obtain i r where nth: "ps ! n = (i, r)" by fastforce
  have nthD: "j < length rules \<and> rules ! j = q" if "ps ! m = (j, q)" "m < length ps" for m j q
  proof -
    have "(j, q) \<in> set (zip [0..<length rules] rules)" using that ps(1) by (metis nth_mem)
    then show ?thesis by (auto simp: set_zip)
  qed
  have i: "i < length rules" "rules ! i = r" using nthD [OF nth] n len by simp_all
  have comp: "compile_rule build r = Ok cr"
    using crs n nth len by (auto simp: list_all2_conv_all_nth)
  have least: "(rule_priority (rules ! i), i) \<le> (rule_priority (rules ! j), j)"
    if j: "j < length rules" "compile_rule build (rules ! j) = Ok cr'" "matches cr'" for j cr'
  proof -
    have "(j, rules ! j) \<in> set ps" using j(1) ps(1) by (force simp: set_zip)
    then obtain m where m: "m < length ps" "ps ! m = (j, rules ! j)" by (auto simp: in_set_conv_nth)
    then have "crs ! m = cr'" using crs len j(2) by (auto simp: list_all2_conv_all_nth)
    with n(3) j(3) have "n \<le> m" by (meson not_less)
    then have "map key ps ! n \<le> map key ps ! m"
      using ps(2) m(1) by (intro sorted_nth_mono) simp_all
    then have "key (ps ! n) \<le> key (ps ! m)" using m(1) n(1) len by simp
    with nth m i show ?thesis by (simp add: key_def)
  qed
  show ?thesis
    using i comp least unfolding matches_def by (intro exI [of _ i]) blast
qed

section \<open>Properties\<close>

text \<open>
  A row keeps its columns and their order, and every column is transformed on its own by the
  rule that applies to it; a column without a rule, or unknown to the schema, is left alone.
\<close>

theorem row_transformed_pointwise:
  assumes "im_inv r" "distinct (map fs_name (es_fields schema))"
  shows "transform_row_tables D rules tables schema declared r =
      map (\<lambda>(c, v). (c, transform_value_tables D rules tables schema c v (map_of declared c))) r
    \<and> (\<forall>c v. matching_rule rules tables c = None \<or> c \<notin> fs_name ` set (es_fields schema)
         \<longrightarrow> transform_value_tables D rules tables schema c v (map_of declared c) = v)"
proof -
  have "transform_value_tables D rules tables schema c v l = v"
    if "matching_rule rules tables c = None \<or> c \<notin> fs_name ` set (es_fields schema)" for c v l
    using that
    by (auto simp: transform_value_tables_def find_Some_iff split: option.splits)
  with transform_row_map [OF assms] show ?thesis by simp
qed

definition sample_schema :: event_schema where
  "sample_schema =
     \<lparr>es_name = ''users'', es_version = 1,
      es_fields = [\<lparr>fs_name = ''id'', fs_type_name = ''int8'', fs_optional = False, fs_primary_key = True\<rparr>,
                   \<lparr>fs_name = ''email'', fs_type_name = ''varchar(20)'', fs_optional = True,
                    fs_primary_key = False\<rparr>]\<rparr>"

definition mask_email :: column_transformer where
  "mask_email = [\<lparr>cr_selectors = [\<lambda>s. s = ''public.users.email''], cr_operation = MaskOp ''***''\<rparr>]"

lemma varchar_is_character: "is_character_type ''varchar(20)''"
  by (simp add: is_character_type_def Let_def trim_def ws_chunk_def is_whitespace_def utf8_cont_def
      trim_matches_def to_ascii_lowercase_def ascii_lower_def suffix_def)

theorem row_transformed_pointwise_witness:
  "transform_row_tables (\<lambda>_ _. []) mask_email [''public.users''] sample_schema []
     [(''id'', DvInt64 1), (''email'', DvString ''a@b'')]
   = [(''id'', DvInt64 1), (''email'', DvString ''***'')]"
proof -
  have "im_inv [(''id'', DvInt64 1), (''email'', DvString ''a@b'')]"
    "distinct (map fs_name (es_fields sample_schema))"
    by (simp_all add: im_inv_def sample_schema_def)
  from row_transformed_pointwise [OF this, of "\<lambda>_ _. []" mask_email "[''public.users'']" "[]"]
  show ?thesis
    by (simp add: mask_email_def matching_rule_def transform_value_tables_def apply_operation_def
        sample_schema_def varchar_is_character)
qed

text \<open>
  C11. Masking does not leak: two rows with the same columns whose values differ only in columns
  covered by a mask rule (a character column whose first matching rule masks) are transformed into
  the same row.
\<close>

theorem masking_hides_values:
  assumes "im_inv r" "im_inv r'" "distinct (map fs_name (es_fields schema))"
    and "map fst r = map fst r'"
    and masked: "\<And>c. map_of r c \<noteq> map_of r' c \<Longrightarrow>
      \<exists>f cr stars. find (\<lambda>f. fs_name f = c) (es_fields schema) = Some f
        \<and> is_character_type (fs_type_name f)
        \<and> matching_rule rules tables c = Some cr \<and> cr_operation cr = MaskOp stars"
  shows "transform_row_tables D rules tables schema declared r
       = transform_row_tables D rules tables schema declared r'"
proof -
  let ?g = "\<lambda>(c, v). (c, transform_value_tables D rules tables schema c v (map_of declared c))"
  have "?g (r ! i) = ?g (r' ! i)" if i: "i < length r" for i
  proof -
    obtain c v where cv: "r ! i = (c, v)" by fastforce
    have len: "length r = length r'" using assms(4) by (metis length_map)
    have "fst (r' ! i) = c" using assms(4) i cv len by (metis fst_conv nth_map)
    then obtain v' where cv': "r' ! i = (c, v')" by (cases "r' ! i") auto
    have lookup: "map_of r c = Some v" "map_of r' c = Some v'"
      using assms(1,2) i len cv cv' by (metis im_inv_def map_of_is_SomeI nth_mem)+
    show ?thesis
    proof (cases "v = v'")
      case True
      with cv cv' show ?thesis by simp
    next
      case False
      with lookup masked [of c] cv cv' show ?thesis
        by (auto simp: transform_value_tables_def apply_operation_def)
    qed
  qed
  then have "map ?g r = map ?g r'"
    using assms(4) by (intro nth_equalityI) (auto dest: map_eq_imp_length_eq)
  with transform_row_map [OF assms(1,3)] transform_row_map [OF assms(2,3)] show ?thesis by simp
qed

theorem masking_hides_values_witness:
  "transform_row_tables (\<lambda>_ _. []) mask_email [''public.users''] sample_schema []
     [(''id'', DvInt64 1), (''email'', DvString ''a@b'')]
   = transform_row_tables (\<lambda>_ _. []) mask_email [''public.users''] sample_schema []
     [(''id'', DvInt64 1), (''email'', DvNull)]"
proof (rule masking_hides_values)
  fix c
  assume "map_of [(''id'', DvInt64 1), (''email'', DvString ''a@b'')] c
      \<noteq> map_of [(''id'', DvInt64 1), (''email'', DvNull)] c"
  then have "c = ''email''" by (auto split: if_splits)
  then show "\<exists>f cr stars. find (\<lambda>f. fs_name f = c) (es_fields sample_schema) = Some f
      \<and> is_character_type (fs_type_name f)
      \<and> matching_rule mask_email [''public.users''] c = Some cr \<and> cr_operation cr = MaskOp stars"
    by (simp add: sample_schema_def varchar_is_character matching_rule_def mask_email_def)
qed (simp_all add: im_inv_def sample_schema_def)

text \<open>
  Of the rules that match a column the one applied has the least priority (truncate, mask, hash
  version 1, hash version 2) and, among equals, comes first in the configuration.
\<close>

theorem rule_of_least_priority:
  assumes "transformer_new build rules = Ok crs" "matching_rule crs tables column = Some cr"
  shows "\<exists>i < length rules. compile_rule build (rules ! i) = Ok cr
    \<and> (\<forall>j < length rules. \<forall>cr'. compile_rule build (rules ! j) = Ok cr' \<and>
          list_ex (\<lambda>t. list_ex (\<lambda>sel. sel (t @ ''.'' @ column)) (cr_selectors cr')) tables
          \<longrightarrow> (rule_priority (rules ! i), i) \<le> (rule_priority (rules ! j), j))"
  using assms by (rule matching_rule_least)

theorem rule_of_least_priority_witness:
  "\<exists>crs cr. transformer_new (\<lambda>_ p. Some (\<lambda>_. True)) [MaskRule 3 [''a''], TruncateRule 5 [''a'']] = Ok crs
     \<and> matching_rule crs [''t''] ''a'' = Some cr \<and> cr_operation cr = TruncateOp 5
     \<and> (\<exists>i < 2. compile_rule (\<lambda>_ p. Some (\<lambda>_. True)) ([MaskRule 3 [''a''], TruncateRule 5 [''a'']] ! i) = Ok cr)"
proof -
  let ?rules = "[MaskRule 3 [''a''], TruncateRule 5 [''a'']]"
  obtain crs cr where found: "transformer_new (\<lambda>_ p. Some (\<lambda>_. True)) ?rules = Ok crs"
    "matching_rule crs [''t''] ''a'' = Some cr" "cr_operation cr = TruncateOp 5"
    by (simp add: transformer_new_def ordered_rules_def compile_rule_def compile_selector_def
        matching_rule_def sort_key_def upt_rec)
  from rule_of_least_priority [OF found(1,2)] found show ?thesis
    by (auto simp: numeral_2_eq_2)
qed

text \<open>
  Hash version 1 does not conflate values: Java's serialised form determines the characters of
  the string (both stream headers, all UTF-16 units, surrogate pairs and the two-byte NUL included).
\<close>

theorem java_serialization_injective:
  assumes "list_all is_scalar (scalars v)" "list_all is_scalar (scalars w)"
  shows "(java_serialized_string v = java_serialized_string w \<longleftrightarrow> encode_utf16 v = encode_utf16 w)
    \<and> (java_serialized_string v = java_serialized_string w \<longrightarrow> scalars v = scalars w)"
proof -
  have small: "\<forall>u \<in> set (encode_utf16 v) \<union> set (encode_utf16 w). u < 65536"
    using assms utf16_units_small
    by (fastforce simp: encode_utf16_def list_all_iff is_scalar_def)
  have "java_serialized_string v = java_serialized_string w \<longleftrightarrow> encode_utf16 v = encode_utf16 w"
    using java_serialized_inject [OF small] by (auto simp: java_serialized_string_def)
  then show ?thesis
    using utf16_inject [OF assms] by (auto simp: encode_utf16_def)
qed

theorem java_serialization_injective_witness:
  "java_serialized_string ''ab'' \<noteq> java_serialized_string ''ac''"
proof -
  have "scalars ''ab'' = [97, 98]" "scalars ''ac'' = [97, 99]"
    by (simp_all add: scalars_def utf8_cont_def)
  then show ?thesis
    using java_serialization_injective [of "''ab''" "''ac''"] by (auto simp: is_scalar_def)
qed

end
