(* ===== verification/Pg_Stream.thy ===== *)
theory Pg_Stream
  imports Pg_Window Column_Transform
begin

text \<open>
  The streaming state of the PostgreSQL connector, \<^verbatim>\<open>StreamingState\<close> of
  \<^verbatim>\<open>crates/rustium-postgresql/src/source.rs\<close>: every decoded message of the replication stream becomes
  at most one source record with its position, its identity and its place in the transaction, and
  after a restart the records up to the stored position are skipped.

  The messages are those of the replication library, with the fields that the connector reads. The
  clock, the hash of identities, the regular expressions, the digests and the order in which a hash
  map is iterated are fields of the environment.
\<close>

section \<open>Messages, environment and state\<close>

type_synonym row_data = "(string \<times> column_value) list"

datatype wal_kind =
    WalBegin u32 instant
  | WalInsert string string u32 row_data
  | WalUpdate string string u32 "row_data option" row_data "string list"
  | WalDelete string string u32 row_data "string list"
  | WalCommit u64 u64
  | WalStreamStart u32
  | WalStreamCommit u32 u64 u64 instant
  | WalStreamAbort
  | WalRollbackPrepared
  | WalTruncate "string list"
  | WalMessage u8 string "u8 list"
  | WalRelation string string "relation_column list"
  | WalOther

record wal_event =
  we_lsn :: u64
  we_kind :: wal_kind

record stream_env =
  se_text :: text_env
  se_regex :: regex_engine
  se_digests :: digests
  se_sha256 :: "u8 list \<Rightarrow> u8 list"
  se_hex :: "u8 list \<Rightarrow> string"
  se_to_vec :: "source_position \<Rightarrow> u8 list"
  se_values :: "schema_map \<Rightarrow> pg_table_schema list"
  se_version :: string
  se_connector_name :: string
  se_transformer :: column_transformer

record pg_stream_config =
  psc_config :: pg_config
  psc_tables :: table_selection
  psc_logical_decoding_messages :: bool
  psc_message_prefix_include_list :: "string list"
  psc_message_prefix_exclude_list :: "string list"
  psc_signal_enabled_channels :: "string list"

record active_transaction =
  at_id :: u32
  at_source_time :: instant
  at_total_order :: u64
  at_collection_order :: "(table_key \<times> u64) list"

record stream_state =
  ss_schemas :: schema_map
  ss_schema_dirty :: bool
  ss_transaction :: "active_transaction option"
  ss_xmin :: "u32 option"
  ss_previous_lsn :: "u64 option"
  ss_event_serial :: u64
  ss_resume_position :: "source_position option"

definition stream_new :: "schema_map \<Rightarrow> source_position option \<Rightarrow> bool \<Rightarrow> stream_state" where
  "stream_new schemas resume dirty =
     \<lparr>ss_schemas = schemas, ss_schema_dirty = dirty, ss_transaction = None, ss_xmin = None,
      ss_previous_lsn = None, ss_event_serial = 0, ss_resume_position = resume\<rparr>"

definition transaction_new :: "u32 \<Rightarrow> instant \<Rightarrow> active_transaction" where
  "transaction_new xid time =
     \<lparr>at_id = xid, at_source_time = time, at_total_order = 0, at_collection_order = []\<rparr>"

section \<open>Selection and transformation\<close>

definition is_signal_table :: "pg_config \<Rightarrow> string \<Rightarrow> string \<Rightarrow> bool" where
  "is_signal_table config schema table =
     (case Option.bind (pgc_signal_data_collection config) (split_once CHR ''.'') of
        None \<Rightarrow> False
      | Some (s, t) \<Rightarrow> s = schema \<and> t = table)"

definition signal_channel_enabled :: "pg_stream_config \<Rightarrow> string \<Rightarrow> bool" where
  "signal_channel_enabled cfg name = (name \<in> set (psc_signal_enabled_channels cfg))"

definition captures_logical_decoding_messages :: "pg_stream_config \<Rightarrow> bool" where
  "captures_logical_decoding_messages cfg =
     (psc_logical_decoding_messages cfg \<or> psc_message_prefix_include_list cfg \<noteq> []
      \<or> psc_message_prefix_exclude_list cfg \<noteq> [])"

definition includes_message_prefix :: "regex_engine \<Rightarrow> pg_stream_config \<Rightarrow> string \<Rightarrow> bool" where
  "includes_message_prefix build cfg prefix_text =
     (captures_logical_decoding_messages cfg
      \<and> (psc_message_prefix_include_list cfg = []
         \<or> list_ex (\<lambda>p. regex_matches build p prefix_text) (psc_message_prefix_include_list cfg))
      \<and> \<not> list_ex (\<lambda>p. regex_matches build p prefix_text) (psc_message_prefix_exclude_list cfg))"

definition pg_column_length :: "pg_column_type \<Rightarrow> nat option" where
  "pg_column_length t = pg_declared_length (pct_type_oid t) (pct_type_modifier t)"

text \<open>Collecting into a hash map keeps the last entry of a name.\<close>

definition declared_lengths :: "pg_table_schema \<Rightarrow> (string \<times> nat) list" where
  "declared_lengths schema =
     rev (concat (map (\<lambda>t. case pg_column_length t of None \<Rightarrow> [] | Some n \<Rightarrow> [(pct_name t, n)])
                    (pts_column_types schema)))"

definition pg_transform_event ::
  "digests \<Rightarrow> column_transformer \<Rightarrow> pg_table_schema \<Rightarrow> change_event \<Rightarrow> change_event" where
  "pg_transform_event D transformer schema e =
     transform_event D transformer (pts_schema schema) (pts_table schema) (declared_lengths schema) e"

definition pg_transform_value ::
  "digests \<Rightarrow> column_transformer \<Rightarrow> pg_table_schema \<Rightarrow> string \<Rightarrow> data_value \<Rightarrow> data_value" where
  "pg_transform_value D transformer schema column v =
     transform_value D transformer (pts_schema schema) (pts_table schema) (pts_event_schema schema)
       column v
       (Option.bind (find (\<lambda>t. pct_name t = column) (pts_column_types schema)) pg_column_length)"

definition transform_emitted_event ::
  "digests \<Rightarrow> column_transformer \<Rightarrow> schema_map \<Rightarrow> change_event \<Rightarrow> change_event result" where
  "transform_emitted_event D transformer schemas e =
     (case (sm_schema (ev_source e), sm_table (ev_source e)) of
        (Some schema, Some table) \<Rightarrow>
          if schema = [] \<or> table = [] then Ok e
          else
            (case map_of schemas (schema, table) of
               None \<Rightarrow> Err (Invariant (''PostgreSQL emitted event has no schema for '' @ schema @ ''.''
                         @ table))
             | Some s \<Rightarrow> Ok (pg_transform_event D transformer s e))
      | _ \<Rightarrow> Ok e)"

section \<open>Positions and identities\<close>

definition next_serial :: "u64 \<Rightarrow> stream_state \<Rightarrow> u64 \<times> stream_state" where
  "next_serial lsn st =
     (let st' = (if ss_previous_lsn st = Some lsn
                 then st\<lparr>ss_event_serial := ss_event_serial st + 1\<rparr>
                 else st\<lparr>ss_previous_lsn := Some lsn, ss_event_serial := 1\<rparr>)
      in (ss_event_serial st', st'))"

definition should_skip :: "source_position \<Rightarrow> stream_state \<Rightarrow> bool \<times> stream_state" where
  "should_skip position st =
     (case ss_resume_position st of
        None \<Rightarrow> (False, st)
      | Some resume \<Rightarrow>
          if is_at_or_before position resume then (True, st)
          else (False, st\<lparr>ss_resume_position := None\<rparr>))"

definition event_id_of ::
  "stream_env \<Rightarrow> pg_stream_config \<Rightarrow> source_position \<Rightarrow> string \<Rightarrow> u64 \<Rightarrow> event_id" where
  "event_id_of env cfg position coll ordinal =
     deterministic (se_sha256 env) (se_hex env) (se_to_vec env) (se_connector_name env)
       (pgc_database (psc_config cfg)) position coll ordinal"

definition postgres_streaming_position :: "u64 \<Rightarrow> source_position" where
  "postgres_streaming_position lsn =
     Postgres \<lparr>pg_lsn = lsn, pg_commit_lsn = Some lsn, pg_transaction_id = None, pg_xmin = None,
               pg_event_serial = 0, pg_snapshot = False\<rparr>"

text \<open>The next place in the open transaction, over all and within one collection.\<close>

definition count_record ::
  "table_key \<Rightarrow> stream_state \<Rightarrow> transaction_metadata option \<times> stream_state" where
  "count_record key st =
     (case ss_transaction st of
        None \<Rightarrow> (None, st)
      | Some t \<Rightarrow>
          (let total = at_total_order t + 1;
               order = (case map_of (at_collection_order t) key of None \<Rightarrow> 0 | Some n \<Rightarrow> n) + 1;
               t' = t\<lparr>at_total_order := total,
                      at_collection_order := im_insert key order (at_collection_order t)\<rparr>
           in (Some \<lparr>tx_id = show_word (at_id t), tx_total_order = Some total,
                     tx_collection_order = Some order\<rparr>,
               st\<lparr>ss_transaction := Some t'\<rparr>)))"

section \<open>Records\<close>

definition with_key_columns :: "string list \<Rightarrow> pg_table_schema \<Rightarrow> pg_table_schema" where
  "with_key_columns keys s =
     s\<lparr>pts_event_schema := (pts_event_schema s)
         \<lparr>es_fields := map (\<lambda>f. f\<lparr>fs_primary_key := (fs_name f \<in> set keys)\<rparr>)
                         (es_fields (pts_event_schema s))\<rparr>\<rparr>"

definition stream_row :: "stream_env \<Rightarrow> pg_stream_config \<Rightarrow> pg_table_schema \<Rightarrow> row_data \<Rightarrow> row" where
  "stream_row env cfg schema data =
     convert_row (se_text env) schema (pgc_hstore_handling_mode (psc_config cfg))
       (pgc_interval_handling_mode (psc_config cfg)) (pgc_money_fraction_digits (psc_config cfg)) data"

definition data_event ::
  "stream_env \<Rightarrow> pg_stream_config \<Rightarrow> instant \<Rightarrow> pg_table_schema \<Rightarrow> string \<Rightarrow> string \<Rightarrow> u32 \<Rightarrow>
   operation \<Rightarrow> row_data option \<Rightarrow> row_data option \<Rightarrow> source_position \<Rightarrow> u64 \<Rightarrow>
   transaction_metadata option \<Rightarrow> instant option \<Rightarrow> change_event" where
  "data_event env cfg now schema sname tname relation_oid op old_data new_data position
     serial transaction source_time =
     (let before = map_option (stream_row env cfg schema) old_data;
          after = map_option (stream_row env cfg schema) new_data
      in \<lparr>ev_id = event_id_of env cfg position
                    (pgc_database (psc_config cfg) @ ''.'' @ sname @ ''.'' @ tname) serial,
          ev_source = pg_source_metadata (se_version env) (se_connector_name env) (psc_config cfg)
                        sname tname False relation_oid,
          ev_position = position, ev_transaction = transaction, ev_operation = op,
          ev_before = before,
          ev_after = map_option (fill_unavailable (pts_event_schema schema) before) after,
          ev_schema = pts_event_schema schema, ev_source_time = source_time,
          ev_observed_time = now\<rparr>)"

definition data_record ::
  "stream_env \<Rightarrow> pg_stream_config \<Rightarrow> instant \<Rightarrow> u64 \<Rightarrow> string \<Rightarrow> string \<Rightarrow> u32 \<Rightarrow> operation \<Rightarrow>
   row_data option \<Rightarrow> row_data option \<Rightarrow> string list option \<Rightarrow>
   (stream_state, source_record option) stateful" where
  "data_record env cfg now lsn sname tname relation_oid op old_data new_data key_columns st =
     (if \<not> table_includes (se_regex env) (psc_tables cfg) sname tname
         \<or> is_signal_table (psc_config cfg) sname tname
      then (Ok None, st)
      else
        (case map_of (ss_schemas st) (sname, tname) of
           None \<Rightarrow>
             (Err (Source (''received an event for unknown table '' @ sname @ ''.'' @ tname
                @ ''; restart after schema refresh'')), st)
         | Some known \<Rightarrow>
             (let schema = (case key_columns of None \<Rightarrow> known | Some keys \<Rightarrow> with_key_columns keys known);
                  st = st\<lparr>ss_schemas := im_insert (sname, tname) schema (ss_schemas st)\<rparr>;
                  (serial, st) = next_serial lsn st;
                  position =
                    Postgres \<lparr>pg_lsn = lsn, pg_commit_lsn = None,
                              pg_transaction_id = map_option at_id (ss_transaction st),
                              pg_xmin = ss_xmin st, pg_event_serial = serial, pg_snapshot = False\<rparr>;
                  (skip, st) = should_skip position st
              in if skip then (Ok None, st)
                 else
                   (let (transaction, st) = count_record (sname, tname) st
                    in (Ok (Some (record_data
                          (data_event env cfg now schema sname tname relation_oid op
                             old_data new_data position serial transaction
                             (map_option at_source_time (ss_transaction st))))), st)))))"

definition boundary_record :: "source_position \<Rightarrow> source_record" where
  "boundary_record position =
     \<lparr>sr_event = None, sr_position = position, sr_boundary = TransactionCommit,
      sr_connector_state = None, sr_signal_acks = []\<rparr>"

definition commit_record :: "u64 \<Rightarrow> u64 \<Rightarrow> (stream_state, source_record option) stateful" where
  "commit_record commit_lsn end_lsn st =
     (let transaction_id = map_option at_id (ss_transaction st);
          (serial, st) = next_serial end_lsn st;
          position =
            Postgres \<lparr>pg_lsn = end_lsn, pg_commit_lsn = Some (max commit_lsn end_lsn),
                      pg_transaction_id = transaction_id, pg_xmin = ss_xmin st,
                      pg_event_serial = serial, pg_snapshot = False\<rparr>;
          st = st\<lparr>ss_transaction := None\<rparr>;
          (skip, st) = should_skip position st
      in (Ok (if skip then None else Some (boundary_record position)), st))"

definition message_schema :: "stream_env \<Rightarrow> event_schema" where
  "message_schema env =
     \<lparr>es_name = se_connector_name env @ ''.Message'', es_version = 1,
      es_fields =
        [\<lparr>fs_name = ''prefix'', fs_type_name = ''text'', fs_optional = True, fs_primary_key = True\<rparr>,
         \<lparr>fs_name = ''content'', fs_type_name = ''bytea'', fs_optional = True, fs_primary_key = False\<rparr>]\<rparr>"

definition message_event ::
  "stream_env \<Rightarrow> pg_stream_config \<Rightarrow> instant \<Rightarrow> bool \<Rightarrow> string \<Rightarrow> u8 list \<Rightarrow> source_position \<Rightarrow> u64 \<Rightarrow>
   transaction_metadata option \<Rightarrow> instant \<Rightarrow> change_event" where
  "message_event env cfg now transactional prefix_text content position serial transaction source_time =
     \<lparr>ev_id = event_id_of env cfg position (pgc_database (psc_config cfg) @ ''.message'') serial,
      ev_source =
        \<lparr>sm_connector = ''postgresql'', sm_connector_name = se_connector_name env,
         sm_database = pgc_database (psc_config cfg), sm_schema = Some [], sm_table = Some [],
         sm_snapshot = False, sm_version = se_version env,
         sm_attributes = [(''rustium.logical_decoding_message'', JBool True),
                          (''transactional'', JBool transactional)]\<rparr>,
      ev_position = position, ev_transaction = transaction, ev_operation = Message,
      ev_before = None,
      ev_after = Some [(''prefix'', DvString prefix_text), (''content'', DvBytes content)],
      ev_schema = message_schema env, ev_source_time = Some source_time, ev_observed_time = now\<rparr>"

definition logical_decoding_message_record ::
  "stream_env \<Rightarrow> pg_stream_config \<Rightarrow> instant \<Rightarrow> u64 \<Rightarrow> u8 \<Rightarrow> string \<Rightarrow> u8 list \<Rightarrow>
   (stream_state, source_record option) stateful" where
  "logical_decoding_message_record env cfg now lsn flags prefix_text content st =
     (let transactional = (flags AND 1 = 1);
          transaction_id = (if transactional then map_option at_id (ss_transaction st) else None);
          (serial, st) = next_serial lsn st;
          position =
            Postgres \<lparr>pg_lsn = lsn, pg_commit_lsn = (if transactional then None else Some lsn),
                      pg_transaction_id = transaction_id, pg_xmin = ss_xmin st,
                      pg_event_serial = serial, pg_snapshot = False\<rparr>;
          (skip, st) = should_skip position st
      in if skip then (Ok None, st)
         else if \<not> includes_message_prefix (se_regex env) cfg prefix_text
         then (Ok (if transactional then None else Some (boundary_record position)), st)
         else
           (let (transaction, st) = count_record ([], ''message'') st;
                source_time = (case ss_transaction st of None \<Rightarrow> now | Some t \<Rightarrow> at_source_time t);
                event = message_event env cfg now transactional prefix_text content position serial
                          transaction source_time
            in (Ok (Some ((record_data event)
                  \<lparr>sr_boundary := if transactional then DataBoundary else TransactionCommit\<rparr>)), st)))"

definition open_transaction :: "u32 \<Rightarrow> instant \<Rightarrow> stream_state \<Rightarrow> stream_state" where
  "open_transaction xid time st =
     (case ss_transaction st of
        None \<Rightarrow> st\<lparr>ss_transaction := Some (transaction_new xid time)\<rparr>
      | Some _ \<Rightarrow> st)"

definition convert ::
  "stream_env \<Rightarrow> pg_stream_config \<Rightarrow> instant \<Rightarrow> u32 option \<Rightarrow> wal_event \<Rightarrow>
   (stream_state, source_record option) stateful" where
  "convert env cfg now xmin wal st =
     (let st = st\<lparr>ss_xmin := xmin\<rparr>; lsn = we_lsn wal in
      case we_kind wal of
        WalBegin xid time \<Rightarrow> (Ok None, st\<lparr>ss_transaction := Some (transaction_new xid time)\<rparr>)
      | WalInsert schema table oid data \<Rightarrow>
          data_record env cfg now lsn schema table oid Create None (Some data) None st
      | WalUpdate schema table oid old new keys \<Rightarrow>
          data_record env cfg now lsn schema table oid Update old (Some new) (Some keys) st
      | WalDelete schema table oid old keys \<Rightarrow>
          data_record env cfg now lsn schema table oid Delete (Some old) None (Some keys) st
      | WalCommit commit_lsn end_lsn \<Rightarrow> commit_record commit_lsn end_lsn st
      | WalStreamStart xid \<Rightarrow> (Ok None, open_transaction xid now st)
      | WalStreamCommit xid commit_lsn end_lsn time \<Rightarrow>
          commit_record commit_lsn end_lsn (open_transaction xid time st)
      | WalStreamAbort \<Rightarrow> (Ok None, st\<lparr>ss_transaction := None\<rparr>)
      | WalRollbackPrepared \<Rightarrow> (Ok None, st\<lparr>ss_transaction := None\<rparr>)
      | WalTruncate tables \<Rightarrow>
          (case tables of
             [] \<Rightarrow> (Ok None, st)
           | table # _ \<Rightarrow>
               (case find (\<lambda>s. pts_table s = table) (se_values env (ss_schemas st)) of
                  None \<Rightarrow> (Ok None, st)
                | Some s \<Rightarrow>
                    data_record env cfg now lsn (pts_schema s) (pts_table s) 0 Truncate None None None st))
      | WalMessage flags prefix_text content \<Rightarrow>
          logical_decoding_message_record env cfg now lsn flags prefix_text content st
      | WalRelation _ _ _ \<Rightarrow> (Ok None, st)
      | WalOther \<Rightarrow> (Ok None, st))"

definition refresh_schema :: "pg_table_schema \<Rightarrow> stream_state \<Rightarrow> u32 option \<times> stream_state" where
  "refresh_schema refreshed st =
     (let key = pg_table_key refreshed;
          current = map_of (ss_schemas st) key;
          changed =
            (case current of
               None \<Rightarrow> True
             | Some c \<Rightarrow>
                 \<not> (es_fields (pts_event_schema c) = es_fields (pts_event_schema refreshed)
                    \<and> pts_column_types c = pts_column_types refreshed
                    \<and> pts_opaque_columns c = pts_opaque_columns refreshed));
          version =
            (case current of
               None \<Rightarrow> es_version (pts_event_schema refreshed)
             | Some c \<Rightarrow>
                 if changed then sat_add (es_version (pts_event_schema c)) 1
                 else es_version (pts_event_schema c));
          table = refreshed\<lparr>pts_event_schema := (pts_event_schema refreshed)\<lparr>es_version := version\<rparr>\<rparr>
      in (if changed then Some version else None,
          st\<lparr>ss_schemas := im_insert key table (ss_schemas st),
             ss_schema_dirty := (ss_schema_dirty st \<or> changed)\<rparr>))"

text \<open>The rows of a closed window; \<open>now i\<close> is the reading of the clock for row \<open>i\<close>.\<close>

definition window_record ::
  "stream_env \<Rightarrow> pg_stream_config \<Rightarrow> instant \<Rightarrow> u64 \<Rightarrow> pg_table_schema \<Rightarrow> row \<Rightarrow> u64 \<Rightarrow> source_record" where
  "window_record env cfg now lsn schema after serial =
     (let position =
            Postgres \<lparr>pg_lsn = lsn, pg_commit_lsn = None, pg_transaction_id = None, pg_xmin = None,
                      pg_event_serial = serial, pg_snapshot = True\<rparr>;
          source = pg_source_metadata (se_version env) (se_connector_name env) (psc_config cfg)
                     (pts_schema schema) (pts_table schema) True 0;
          event =
            \<lparr>ev_id = event_id_of env cfg position
                       (pgc_database (psc_config cfg) @ ''.'' @ pts_schema schema @ ''.''
                        @ pts_table schema) serial,
             ev_source = source\<lparr>sm_attributes :=
                bt_insert ''rustium.snapshot.kind'' (JString ''incremental'') (sm_attributes source)\<rparr>,
             ev_position = position, ev_transaction = None, ev_operation = Read,
             ev_before = None, ev_after = Some after, ev_schema = pts_event_schema schema,
             ev_source_time = None, ev_observed_time = now\<rparr>
      in record_data (pg_transform_event (se_digests env) (se_transformer env) schema event))"

fun window_records ::
  "stream_env \<Rightarrow> pg_stream_config \<Rightarrow> (nat \<Rightarrow> instant) \<Rightarrow> u64 \<Rightarrow> pg_table_schema \<Rightarrow> row list \<Rightarrow>
   stream_state \<Rightarrow> source_record list \<times> stream_state" where
  "window_records env cfg now lsn schema [] st = ([], st)"
| "window_records env cfg now lsn schema (r # rs) st =
     (let (serial, st) = next_serial lsn st;
          (out, st) = window_records env cfg (\<lambda>i. now (Suc i)) lsn schema rs st
      in (window_record env cfg (now 0) lsn schema r serial # out, st))"

definition incremental_snapshot_records ::
  "stream_env \<Rightarrow> pg_stream_config \<Rightarrow> (nat \<Rightarrow> instant) \<Rightarrow> u64 \<Rightarrow> closed_window \<Rightarrow> stream_state \<Rightarrow>
   source_record list \<times> stream_state" where
  "incremental_snapshot_records env cfg now lsn closed st =
     window_records env cfg now lsn (cw_schema closed) (cw_rows closed) st"

definition heartbeat_record ::
  "stream_env \<Rightarrow> pg_stream_config \<Rightarrow> instant \<Rightarrow> source_position \<Rightarrow> source_record" where
  "heartbeat_record env cfg now position =
     (let micros = now div 1000;
          event =
            \<lparr>ev_id = event_id_of env cfg position ''__heartbeat''
                       (if 0 \<le> micros then word_of_int micros else 0),
             ev_source =
               \<lparr>sm_connector = ''postgresql'', sm_connector_name = se_connector_name env,
                sm_database = pgc_database (psc_config cfg), sm_schema = None, sm_table = None,
                sm_snapshot = False, sm_version = se_version env,
                sm_attributes = [(''rustium.heartbeat'', JBool True)]\<rparr>,
             ev_position = position, ev_transaction = None, ev_operation = Message,
             ev_before = None,
             ev_after = Some [(''ts_ms'', DvInt64 (word_of_int (now div 1000000)))],
             ev_schema =
               \<lparr>es_name = se_connector_name env @ ''.Heartbeat'', es_version = 1,
                es_fields = [\<lparr>fs_name = ''ts_ms'', fs_type_name = ''int64'', fs_optional = False,
                              fs_primary_key = False\<rparr>]\<rparr>,
             ev_source_time = None, ev_observed_time = now\<rparr>
      in \<lparr>sr_event = Some event, sr_position = position, sr_boundary = Heartbeat,
          sr_connector_state = None, sr_signal_acks = []\<rparr>)"

section \<open>Replay after a restart\<close>

text \<open>
  A run over a piece of the stream, with the reading of the clock and the transaction horizon that
  accompany each message.
\<close>

type_synonym stamped_event = "instant \<times> u32 option \<times> wal_event"

fun convert_all ::
  "stream_env \<Rightarrow> pg_stream_config \<Rightarrow> stamped_event list \<Rightarrow> (stream_state, source_record list) stateful" where
  "convert_all env cfg [] st = (Ok [], st)"
| "convert_all env cfg ((now, xmin, wal) # es) st =
     sbind (convert env cfg now xmin wal) (\<lambda>r.
     sbind (convert_all env cfg es) (\<lambda>rs.
       sreturn (case r of None \<Rightarrow> rs | Some x \<Rightarrow> x # rs))) st"

text \<open>The place of a message in the stream, for the messages that take a position.\<close>

definition wal_order :: "wal_event \<Rightarrow> u64 option" where
  "wal_order wal =
     (case we_kind wal of
        WalInsert _ _ _ _ \<Rightarrow> Some (we_lsn wal)
      | WalUpdate _ _ _ _ _ _ \<Rightarrow> Some (we_lsn wal)
      | WalDelete _ _ _ _ _ \<Rightarrow> Some (we_lsn wal)
      | WalTruncate _ \<Rightarrow> Some (we_lsn wal)
      | WalMessage _ _ _ \<Rightarrow> Some (we_lsn wal)
      | WalCommit _ e \<Rightarrow> Some e
      | WalStreamCommit _ _ e _ \<Rightarrow> Some e
      | _ \<Rightarrow> None)"

fun in_order :: "u64 \<Rightarrow> stamped_event list \<Rightarrow> bool" where
  "in_order l [] = True"
| "in_order l ((_, _, wal) # es) =
     (case wal_order wal of None \<Rightarrow> in_order l es | Some l' \<Rightarrow> l \<le> l' \<and> in_order l' es)"

definition pg_key :: "source_position \<Rightarrow> (u64 \<times> u8 \<times> u64) option" where
  "pg_key p = (case p of Postgres q \<Rightarrow> Some (postgres_sort_key q) | _ \<Rightarrow> None)"

definition stream_key :: "u64 \<Rightarrow> u64 \<Rightarrow> u64 \<times> u8 \<times> u64" where
  "stream_key l n = (l, streaming_rank False, n)"

text \<open>Two states that differ only in the resume position and the counters of the transaction.\<close>

definition same_stream :: "stream_state \<Rightarrow> stream_state \<Rightarrow> bool" where
  "same_stream a b \<longleftrightarrow>
     ss_schemas a = ss_schemas b \<and> ss_schema_dirty a = ss_schema_dirty b \<and> ss_xmin a = ss_xmin b
     \<and> ss_previous_lsn a = ss_previous_lsn b \<and> ss_event_serial a = ss_event_serial b
     \<and> map_option (\<lambda>t. (at_id t, at_source_time t)) (ss_transaction a)
       = map_option (\<lambda>t. (at_id t, at_source_time t)) (ss_transaction b)"

text \<open>A record without its place in the transaction.\<close>

definition core_event :: "change_event \<Rightarrow> change_event" where
  "core_event e = e\<lparr>ev_transaction := None\<rparr>"

definition core :: "source_record \<Rightarrow> source_record" where
  "core r = r\<lparr>sr_event := map_option core_event (sr_event r)\<rparr>"

definition skips :: "source_position \<Rightarrow> source_position option \<Rightarrow> bool" where
  "skips pos resume = (case resume of None \<Rightarrow> False | Some p \<Rightarrow> is_at_or_before pos p)"

text \<open>What one message does to two such states, of which the first has no resume position.\<close>

definition takes_position ::
  "u64 \<Rightarrow> stream_state \<Rightarrow> stream_state \<Rightarrow> source_record option \<Rightarrow> stream_state \<Rightarrow>
   source_record option \<Rightarrow> stream_state \<Rightarrow> bool" where
  "takes_position l a b r a' r' b' \<longleftrightarrow>
     ss_previous_lsn a' = Some l
     \<and> ss_event_serial a' = (if ss_previous_lsn a = Some l then ss_event_serial a + 1 else 1)
     \<and> (\<exists>pos. pg_key pos = Some (stream_key l (ss_event_serial a'))
        \<and> (\<forall>x. r = Some x \<longrightarrow> sr_position x = pos)
        \<and> (if skips pos (ss_resume_position b)
           then r' = None \<and> ss_resume_position b' = ss_resume_position b
           else map_option core r' = map_option core r \<and> ss_resume_position b' = None))"

definition takes_no_position ::
  "stream_state \<Rightarrow> stream_state \<Rightarrow> source_record option \<Rightarrow> stream_state \<Rightarrow>
   source_record option \<Rightarrow> stream_state \<Rightarrow> bool" where
  "takes_no_position a b r a' r' b' \<longleftrightarrow>
     r = None \<and> r' = None \<and> ss_previous_lsn a' = ss_previous_lsn a
     \<and> ss_event_serial a' = ss_event_serial a \<and> ss_resume_position b' = ss_resume_position b"

definition step_pair ::
  "u64 option \<Rightarrow> stream_state \<Rightarrow> stream_state \<Rightarrow> source_record option \<Rightarrow> stream_state \<Rightarrow>
   source_record option \<Rightarrow> stream_state \<Rightarrow> bool" where
  "step_pair order a b r a' r' b' \<longleftrightarrow>
     same_stream a' b' \<and> ss_resume_position a' = None
     \<and> (takes_no_position a b r a' r' b' \<or> (\<exists>l. order = Some l \<and> takes_position l a b r a' r' b'))"

lemmas step_pair_defs = step_pair_def takes_position_def takes_no_position_def same_stream_def

lemma next_serial_simps:
  "fst (next_serial l a) = ss_event_serial (snd (next_serial l a))"
  "ss_resume_position (snd (next_serial l a)) = ss_resume_position a"
  "ss_transaction (snd (next_serial l a)) = ss_transaction a"
  "ss_previous_lsn (snd (next_serial l a)) = Some l"
  "ss_event_serial (snd (next_serial l a))
     = (if ss_previous_lsn a = Some l then ss_event_serial a + 1 else 1)"
  by (simp_all add: next_serial_def Let_def)

lemma next_serial_same:
  "same_stream a b \<Longrightarrow> same_stream (snd (next_serial l a)) (snd (next_serial l b))"
  "same_stream a b \<Longrightarrow> fst (next_serial l b) = fst (next_serial l a)"
  by (simp_all add: next_serial_def same_stream_def Let_def)

lemma count_record_same:
  "same_stream a b \<Longrightarrow> same_stream (snd (count_record k a)) (snd (count_record k b))"
  "ss_resume_position (snd (count_record k a)) = ss_resume_position a"
  "ss_previous_lsn (snd (count_record k a)) = ss_previous_lsn a"
  "ss_event_serial (snd (count_record k a)) = ss_event_serial a"
  "same_stream a b \<Longrightarrow>
     map_option at_source_time (ss_transaction (snd (count_record k a)))
       = map_option at_source_time (ss_transaction (snd (count_record k b)))"
  by (cases "ss_transaction a"; cases "ss_transaction b"; auto simp: count_record_def same_stream_def Let_def)+

lemma should_skip_simps:
  "ss_resume_position a = None \<Longrightarrow> should_skip pos a = (False, a)"
  "should_skip pos b =
     (if skips pos (ss_resume_position b) then (True, b)
      else (False, b\<lparr>ss_resume_position := None\<rparr>))"
  by (cases b, auto simp: should_skip_def skips_def split: option.splits)

lemma transaction_same:
  assumes "same_stream a b"
  shows "map_option at_id (ss_transaction a) = map_option at_id (ss_transaction b)"
    "map_option at_source_time (ss_transaction a) = map_option at_source_time (ss_transaction b)"
  using assms
  by (cases "ss_transaction a"; cases "ss_transaction b"; auto simp: same_stream_def)+

lemma same_stream_updates:
  "same_stream a b \<Longrightarrow> same_stream a (b\<lparr>ss_resume_position := R\<rparr>)"
  "same_stream a b \<Longrightarrow> same_stream (a\<lparr>ss_xmin := x\<rparr>) (b\<lparr>ss_xmin := x\<rparr>)"
  "same_stream a b \<Longrightarrow> same_stream (a\<lparr>ss_schemas := m\<rparr>) (b\<lparr>ss_schemas := m\<rparr>)"
  "same_stream a b \<Longrightarrow> same_stream (a\<lparr>ss_transaction := T\<rparr>) (b\<lparr>ss_transaction := T\<rparr>)"
  by (auto simp: same_stream_def)

lemma core_record_data [simp]: "core (record_data e) = record_data (core_event e)"
  by (simp add: core_def record_data_def core_event_def)

lemma core_data_event [simp]:
  "core_event (data_event env cfg now s sn tn oid op old new pos n t time)
   = data_event env cfg now s sn tn oid op old new pos n None time"
  by (simp add: core_event_def data_event_def Let_def)

lemma sr_position_record_data [simp]:
  "sr_position (record_data (data_event env cfg now s sn tn oid op old new pos n t time)) = pos"
  by (simp add: record_data_def data_event_def Let_def)

lemma data_record_pair:
  assumes same: "same_stream a b" and none: "ss_resume_position a = None"
    and run: "data_record env cfg now l sn tn oid op old new keys a = (Ok r, a')"
  shows "\<exists>r' b'. data_record env cfg now l sn tn oid op old new keys b = (Ok r', b')
    \<and> step_pair (Some l) a b r a' r' b'"
proof (cases "\<not> table_includes (se_regex env) (psc_tables cfg) sn tn \<or> is_signal_table (psc_config cfg) sn tn")
  case True
  with assms show ?thesis by (auto simp: data_record_def step_pair_defs)
next
  case False
  then obtain t where t: "map_of (ss_schemas a) (sn, tn) = Some t"
    using run by (auto simp: data_record_def split: option.splits)
  have schemas: "ss_schemas b = ss_schemas a" using same by (simp add: same_stream_def)
  define s where "s = (case keys of None \<Rightarrow> t | Some ks \<Rightarrow> with_key_columns ks t)"
  define a1 where "a1 = a\<lparr>ss_schemas := im_insert (sn, tn) s (ss_schemas a)\<rparr>"
  define b1 where "b1 = b\<lparr>ss_schemas := im_insert (sn, tn) s (ss_schemas a)\<rparr>"
  have same1: "same_stream a1 b1" using same by (simp add: a1_def b1_def same_stream_updates)
  define a2 where "a2 = snd (next_serial l a1)"
  define b2 where "b2 = snd (next_serial l b1)"
  define n where "n = ss_event_serial a2"
  have "fst (next_serial l a1) = n" by (simp only: n_def a2_def next_serial_simps(1))
  then have "fst (next_serial l b1) = n" by (simp only: next_serial_same(2) [OF same1])
  then have b2: "next_serial l b1 = (n, b2)" "same_stream a2 b2"
      "ss_resume_position b2 = ss_resume_position b1"
    unfolding b2_def a2_def
    by (simp_all add: prod_eq_iff next_serial_same(1) [OF same1] next_serial_simps(2))
  have a2: "next_serial l a1 = (n, a2)"
    unfolding a2_def using \<open>fst (next_serial l a1) = n\<close> by (simp add: prod_eq_iff)
  have a2': "ss_resume_position a2 = ss_resume_position a1" "ss_previous_lsn a2 = Some l"
      "ss_event_serial a2 = (if ss_previous_lsn a1 = Some l then ss_event_serial a1 + 1 else 1)"
    by (simp_all add: a2_def next_serial_simps)
  define pos where "pos = Postgres \<lparr>pg_lsn = l, pg_commit_lsn = None,
      pg_transaction_id = map_option at_id (ss_transaction a2), pg_xmin = ss_xmin a2,
      pg_event_serial = n, pg_snapshot = False\<rparr>"
  have none2: "ss_resume_position a2 = None" using none a2'(1) by (simp add: a1_def)
  have time: "map_option at_source_time (ss_transaction (snd (count_record k a2)))
      = map_option at_source_time (ss_transaction (snd (count_record k (b2\<lparr>ss_resume_position := None\<rparr>))))" for k
    using b2(2) by (intro count_record_same(5)) (simp add: same_stream_updates)
  have pos_b: "pos = Postgres \<lparr>pg_lsn = l, pg_commit_lsn = None,
      pg_transaction_id = map_option at_id (ss_transaction b2), pg_xmin = ss_xmin b2,
      pg_event_serial = n, pg_snapshot = False\<rparr>"
    using transaction_same [OF b2(2)] b2(2) by (simp add: pos_def same_stream_def)
  let ?ev = "\<lambda>c. record_data (data_event env cfg now s sn tn oid op old new pos n (fst (count_record (sn, tn) c))
      (map_option at_source_time (ss_transaction (snd (count_record (sn, tn) c)))))"
  have A: "r = Some (?ev a2)" "a' = snd (count_record (sn, tn) a2)"
    using run False t a2 none2
    by (auto simp: data_record_def s_def [symmetric] a1_def [symmetric] pos_def [symmetric]
        should_skip_simps(1) Let_def split_beta)
  have B: "data_record env cfg now l sn tn oid op old new keys b
      = (if skips pos (ss_resume_position b) then (Ok None, b2)
         else (Ok (Some (?ev (b2\<lparr>ss_resume_position := None\<rparr>))),
               snd (count_record (sn, tn) (b2\<lparr>ss_resume_position := None\<rparr>))))"
    using False t b2(1,3)
    by (simp add: data_record_def schemas s_def [symmetric] b1_def [symmetric] pos_b [symmetric]
        should_skip_simps(2) Let_def split_beta)
       (simp add: b1_def)
  have key: "pg_key pos = Some (stream_key l n)"
    by (simp add: pg_key_def pos_def postgres_sort_key_def stream_key_def)
  have b2': "same_stream a2 (b2\<lparr>ss_resume_position := None\<rparr>)" using b2(2) by (simp add: same_stream_updates)
  have same_a: "same_stream (snd (count_record (sn, tn) a2)) b2"
    using b2(2) by (auto simp: count_record_def same_stream_def Let_def split: option.splits)
  have "ss_previous_lsn a1 = ss_previous_lsn a" "ss_event_serial a1 = ss_event_serial a"
      "ss_resume_position b1 = ss_resume_position b" by (simp_all add: a1_def b1_def)
  with A B key none2 b2 a2' n_def time same_a count_record_same(1) [OF b2', of "(sn, tn)"] show ?thesis
    by (auto simp: step_pair_def takes_position_def count_record_same(2-4))
qed

lemma next_serial_pair:
  assumes "same_stream a b"
  obtains n a2 b2 where "next_serial l a = (n, a2)" "next_serial l b = (n, b2)" "same_stream a2 b2"
    "ss_resume_position a2 = ss_resume_position a" "ss_resume_position b2 = ss_resume_position b"
    "ss_transaction a2 = ss_transaction a" "ss_transaction b2 = ss_transaction b"
    "n = ss_event_serial a2" "ss_previous_lsn a2 = Some l"
    "ss_event_serial a2 = (if ss_previous_lsn a = Some l then ss_event_serial a + 1 else 1)"
proof -
  have "fst (next_serial l a) = ss_event_serial (snd (next_serial l a))" by (rule next_serial_simps(1))
  moreover from this have "fst (next_serial l b) = ss_event_serial (snd (next_serial l a))"
    by (simp only: next_serial_same(2) [OF assms])
  ultimately show ?thesis
    by (intro that [of "ss_event_serial (snd (next_serial l a))" "snd (next_serial l a)" "snd (next_serial l b)"])
       (simp_all only: prod_eq_iff fst_conv snd_conv next_serial_same(1) [OF assms] next_serial_simps(2-5))
qed

lemma core_boundary [simp]: "core (boundary_record pos) = boundary_record pos"
  "sr_position (boundary_record pos) = pos"
  by (simp_all add: core_def boundary_record_def)

lemma commit_record_pair:
  assumes same: "same_stream a b" and none: "ss_resume_position a = None"
    and run: "commit_record c l a = (Ok r, a')"
  shows "\<exists>r' b'. commit_record c l b = (Ok r', b') \<and> step_pair (Some l) a b r a' r' b'"
proof -
  obtain n a2 b2 where a2: "next_serial l a = (n, a2)" and b2: "next_serial l b = (n, b2)"
    and same2: "same_stream a2 b2" and keep: "ss_resume_position a2 = ss_resume_position a"
      "ss_resume_position b2 = ss_resume_position b"
    and serial: "n = ss_event_serial a2" "ss_previous_lsn a2 = Some l"
      "ss_event_serial a2 = (if ss_previous_lsn a = Some l then ss_event_serial a + 1 else 1)"
    by (rule next_serial_pair [OF same, of l])
  define pos where "pos = Postgres \<lparr>pg_lsn = l, pg_commit_lsn = Some (max c l),
      pg_transaction_id = map_option at_id (ss_transaction a), pg_xmin = ss_xmin a2,
      pg_event_serial = n, pg_snapshot = False\<rparr>"
  have pos_b: "pos = Postgres \<lparr>pg_lsn = l, pg_commit_lsn = Some (max c l),
      pg_transaction_id = map_option at_id (ss_transaction b), pg_xmin = ss_xmin b2,
      pg_event_serial = n, pg_snapshot = False\<rparr>"
    using transaction_same [OF same] same2 by (simp add: pos_def same_stream_def)
  have A: "r = Some (boundary_record pos)" "a' = a2\<lparr>ss_transaction := None\<rparr>"
    using run a2 none keep(1) by (auto simp: commit_record_def pos_def [symmetric] should_skip_simps(1) Let_def)
  have B: "commit_record c l b =
      (if skips pos (ss_resume_position b) then (Ok None, b2\<lparr>ss_transaction := None\<rparr>)
       else (Ok (Some (boundary_record pos)), b2\<lparr>ss_transaction := None, ss_resume_position := None\<rparr>))"
    using b2 keep(2) by (simp add: commit_record_def pos_b [symmetric] should_skip_simps(2) Let_def)
  have key: "pg_key pos = Some (stream_key l n)"
    by (simp add: pg_key_def pos_def postgres_sort_key_def stream_key_def)
  have "same_stream (a2\<lparr>ss_transaction := None\<rparr>) (b2\<lparr>ss_transaction := None\<rparr>)"
    using same2 by (rule same_stream_updates(4))
  then show ?thesis
    using A B key none keep serial same_stream_updates(1) [of _ _ None]
    by (auto simp: step_pair_def takes_position_def)
qed

lemma core_message_record [simp]:
  "core (record_data (message_event env cfg now b p c pos n t time)\<lparr>sr_boundary := d\<rparr>)
   = record_data (message_event env cfg now b p c pos n None time)\<lparr>sr_boundary := d\<rparr>"
  "sr_position (record_data (message_event env cfg now b p c pos n t time)) = pos"
  by (simp_all add: core_def record_data_def core_event_def message_event_def)

lemma message_time_same:
  "same_stream a b \<Longrightarrow>
   (case ss_transaction (snd (count_record k a)) of None \<Rightarrow> now | Some t \<Rightarrow> at_source_time t)
   = (case ss_transaction (snd (count_record k b)) of None \<Rightarrow> now | Some t \<Rightarrow> at_source_time t)"
  using count_record_same(5) [of a b k]
  by (cases "ss_transaction (snd (count_record k a))";
      cases "ss_transaction (snd (count_record k b))"; auto)

lemma message_pair:
  assumes same: "same_stream a b" and none: "ss_resume_position a = None"
    and run: "logical_decoding_message_record env cfg now l flags p content a = (Ok r, a')"
  shows "\<exists>r' b'. logical_decoding_message_record env cfg now l flags p content b = (Ok r', b')
    \<and> step_pair (Some l) a b r a' r' b'"
proof -
  obtain n a2 b2 where a2: "next_serial l a = (n, a2)" and b2: "next_serial l b = (n, b2)"
    and same2: "same_stream a2 b2" and keep: "ss_resume_position a2 = ss_resume_position a"
      "ss_resume_position b2 = ss_resume_position b"
    and serial: "n = ss_event_serial a2" "ss_previous_lsn a2 = Some l"
      "ss_event_serial a2 = (if ss_previous_lsn a = Some l then ss_event_serial a + 1 else 1)"
    by (rule next_serial_pair [OF same, of l])
  define tr where "tr \<longleftrightarrow> flags AND 1 = 1"
  define pos where "pos = Postgres \<lparr>pg_lsn = l, pg_commit_lsn = (if tr then None else Some l),
      pg_transaction_id = (if tr then map_option at_id (ss_transaction a) else None),
      pg_xmin = ss_xmin a2, pg_event_serial = n, pg_snapshot = False\<rparr>"
  have pos_b: "pos = Postgres \<lparr>pg_lsn = l, pg_commit_lsn = (if tr then None else Some l),
      pg_transaction_id = (if tr then map_option at_id (ss_transaction b) else None),
      pg_xmin = ss_xmin b2, pg_event_serial = n, pg_snapshot = False\<rparr>"
    using transaction_same [OF same] same2 by (simp add: pos_def same_stream_def)
  define time where "time c = (case ss_transaction (snd (count_record ([], ''message'') c)) of
      None \<Rightarrow> now | Some t \<Rightarrow> at_source_time t)" for c
  define out where "out c = (if \<not> includes_message_prefix (se_regex env) cfg p
      then (if tr then None else Some (boundary_record pos), c)
      else (Some ((record_data (message_event env cfg now tr p content pos n
              (fst (count_record ([], ''message'') c)) (time c)))
            \<lparr>sr_boundary := if tr then DataBoundary else TransactionCommit\<rparr>),
           snd (count_record ([], ''message'') c)))" for c
  have A: "r = fst (out a2)" "a' = snd (out a2)"
    using run a2 none keep(1)
    by (auto simp: logical_decoding_message_record_def tr_def [symmetric] pos_def out_def
        time_def should_skip_simps(1) Let_def split_beta split: if_splits)
  have B: "logical_decoding_message_record env cfg now l flags p content b =
      (if skips pos (ss_resume_position b) then (Ok None, b2)
       else (Ok (fst (out (b2\<lparr>ss_resume_position := None\<rparr>))), snd (out (b2\<lparr>ss_resume_position := None\<rparr>))))"
    using b2 keep(2)
    by (simp add: logical_decoding_message_record_def tr_def [symmetric] pos_b [symmetric] out_def
        time_def should_skip_simps(2) Let_def split_beta)
       (simp add: pos_b)
  have same3: "same_stream a2 (b2\<lparr>ss_resume_position := None\<rparr>)"
    using same2 by (rule same_stream_updates(1))
  have "time a2 = time (b2\<lparr>ss_resume_position := None\<rparr>)"
    unfolding time_def by (rule message_time_same [OF same3])
  then have outs: "map_option core (fst (out (b2\<lparr>ss_resume_position := None\<rparr>))) = map_option core (fst (out a2))"
      "same_stream (snd (out a2)) (snd (out (b2\<lparr>ss_resume_position := None\<rparr>)))"
      "same_stream (snd (out a2)) b2"
      "\<forall>x. fst (out a2) = Some x \<longrightarrow> sr_position x = pos"
      "ss_resume_position (snd (out a2)) = ss_resume_position a2"
      "ss_resume_position (snd (out (b2\<lparr>ss_resume_position := None\<rparr>))) = None"
      "ss_previous_lsn (snd (out a2)) = ss_previous_lsn a2" "ss_event_serial (snd (out a2)) = ss_event_serial a2"
    using same3 same2 count_record_same(1) [of a2 "b2\<lparr>ss_resume_position := None\<rparr>"]
    by (auto simp: out_def count_record_same same_stream_def count_record_def Let_def split: option.splits)
  have key: "pg_key pos = Some (stream_key l n)"
    by (simp add: pg_key_def pos_def postgres_sort_key_def stream_key_def)
  show ?thesis
    using A B outs key none keep serial by (auto simp: step_pair_def takes_position_def)
qed

lemma open_transaction_same:
  "same_stream a b \<Longrightarrow> same_stream (open_transaction x time a) (open_transaction x time b)"
  "ss_resume_position (open_transaction x time a) = ss_resume_position a"
  "ss_previous_lsn (open_transaction x time a) = ss_previous_lsn a"
  "ss_event_serial (open_transaction x time a) = ss_event_serial a"
  by (cases "ss_transaction a"; cases "ss_transaction b"; auto simp: open_transaction_def same_stream_def)+

lemma step_pair_cong:
  "ss_previous_lsn a0 = ss_previous_lsn a \<Longrightarrow> ss_event_serial a0 = ss_event_serial a \<Longrightarrow>
   ss_resume_position b0 = ss_resume_position b \<Longrightarrow>
   step_pair l a0 b0 r a' r' b' \<longleftrightarrow> step_pair l a b r a' r' b'"
  by (simp add: step_pair_def takes_position_def takes_no_position_def)

lemma convert_pair:
  assumes same: "same_stream a b" and none: "ss_resume_position a = None"
    and run: "convert env cfg now xmin wal a = (Ok r, a')"
  shows "\<exists>r' b'. convert env cfg now xmin wal b = (Ok r', b') \<and> step_pair (wal_order wal) a b r a' r' b'"
proof -
  define a0 where "a0 = a\<lparr>ss_xmin := xmin\<rparr>"
  define b0 where "b0 = b\<lparr>ss_xmin := xmin\<rparr>"
  have same0: "same_stream a0 b0" unfolding a0_def b0_def using same by (rule same_stream_updates(2))
  have keep: "ss_resume_position a0 = None" "ss_previous_lsn a0 = ss_previous_lsn a"
      "ss_event_serial a0 = ss_event_serial a" "ss_resume_position b0 = ss_resume_position b"
    by (simp_all add: a0_def b0_def none)
  note cong = step_pair_cong [OF keep(2,3,4)]
  have schemas: "ss_schemas b0 = ss_schemas a0" using same0 by (simp add: same_stream_def)
  note defs = convert_def Let_def a0_def [symmetric] b0_def [symmetric] schemas
  show ?thesis
  proof (cases "we_kind wal")
    case (WalBegin x1 x2)
    with run same0 keep show ?thesis
      by (auto simp: defs step_pair_def takes_no_position_def same_stream_updates)
  next
    case (WalInsert x1 x2 x3 x4)
    with run data_record_pair [OF same0 keep(1)] show ?thesis by (simp add: defs wal_order_def cong)
  next
    case (WalUpdate x1 x2 x3 x4 x5 x6)
    with run data_record_pair [OF same0 keep(1)] show ?thesis by (simp add: defs wal_order_def cong)
  next
    case (WalDelete x1 x2 x3 x4 x5)
    with run data_record_pair [OF same0 keep(1)] show ?thesis by (simp add: defs wal_order_def cong)
  next
    case (WalCommit x1 x2)
    with run commit_record_pair [OF same0 keep(1)] show ?thesis by (simp add: defs wal_order_def cong)
  next
    case (WalStreamStart x)
    with run same0 keep show ?thesis
      by (auto simp: defs step_pair_def takes_no_position_def open_transaction_same)
  next
    case (WalStreamCommit x1 x2 x3 x4)
    have k: "ss_resume_position (open_transaction x1 x4 a0) = None" by (simp add: open_transaction_same keep)
    note c = step_pair_cong [of "open_transaction x1 x4 a0" a "open_transaction x1 x4 b0" b]
    from WalStreamCommit run commit_record_pair [OF open_transaction_same(1) [OF same0] k] show ?thesis
      by (simp add: defs wal_order_def c open_transaction_same keep)
  next
    case WalStreamAbort
    with run same0 keep show ?thesis
      by (auto simp: defs step_pair_def takes_no_position_def same_stream_updates)
  next
    case WalRollbackPrepared
    with run same0 keep show ?thesis
      by (auto simp: defs step_pair_def takes_no_position_def same_stream_updates)
  next
    case (WalTruncate tables)
    have stay: "step_pair (wal_order wal) a b None a0 None b0"
      using same0 keep by (simp add: step_pair_def takes_no_position_def)
    show ?thesis
    proof (cases tables)
      case Nil
      with WalTruncate run stay show ?thesis by (auto simp: defs)
    next
      case (Cons t ts)
      show ?thesis
      proof (cases "find (\<lambda>s. pts_table s = t) (se_values env (ss_schemas a0))")
        case None
        with Cons WalTruncate run stay show ?thesis by (auto simp: defs)
      next
        case (Some s)
        with Cons WalTruncate run data_record_pair [OF same0 keep(1)] show ?thesis
          by (simp add: defs wal_order_def cong)
      qed
    qed
  next
    case (WalMessage x1 x2 x3)
    with run message_pair [OF same0 keep(1)] show ?thesis by (simp add: defs wal_order_def cong)
  next
    case (WalRelation x1 x2 x3)
    with run same0 keep show ?thesis by (auto simp: defs step_pair_def takes_no_position_def)
  next
    case WalOther
    with run same0 keep show ?thesis by (auto simp: defs step_pair_def takes_no_position_def)
  qed
qed

definition frontier :: "stream_state \<Rightarrow> (u64 \<times> u8 \<times> u64) option" where
  "frontier a = map_option (\<lambda>l. stream_key l (ss_event_serial a)) (ss_previous_lsn a)"

definition has_room :: "u64 \<Rightarrow> nat \<Rightarrow> stream_state \<Rightarrow> bool" where
  "has_room l n a \<longleftrightarrow>
     (case ss_previous_lsn a of None \<Rightarrow> True | Some l' \<Rightarrow> l' \<le> l) \<and> unat (ss_event_serial a) + n < 2 ^ 64"

lemma serial_succ:
  fixes n :: u64
  assumes "unat n + Suc k < 2 ^ 64"
  shows "n < n + 1" "unat (n + 1) = Suc (unat n)"
proof -
  have "unat n + unat (1 :: u64) < 2 ^ 64" using assms by simp
  then show u: "unat (n + 1) = Suc (unat n)"
    by (simp add: unat_add_lem [where 'a = 64, simplified, THEN iffD1])
  then show "n < n + 1" by (simp add: word_less_nat_alt)
qed

lemma step_advances:
  assumes "takes_position l' a b r a' r' b'" "has_room l (Suc n) a" "l \<le> l'"
  shows "has_room l' n a'" "frontier a' = Some (stream_key l' (ss_event_serial a'))"
    "\<And>f. frontier a = Some f \<Longrightarrow> f < stream_key l' (ss_event_serial a')"
proof -
  have prev: "ss_previous_lsn a' = Some l'"
    and serial: "ss_event_serial a' = (if ss_previous_lsn a = Some l' then ss_event_serial a + 1 else 1)"
    using assms(1) by (auto simp: takes_position_def)
  have room: "unat (ss_event_serial a) + Suc n < 2 ^ 64" using assms(2) by (simp add: has_room_def)
  have "unat (ss_event_serial a') \<le> Suc (unat (ss_event_serial a))"
    using serial serial_succ [OF room] by auto
  with room prev show "has_room l' n a'" by (simp add: has_room_def)
  show "frontier a' = Some (stream_key l' (ss_event_serial a'))" using prev by (simp add: frontier_def)
  show "f < stream_key l' (ss_event_serial a')" if "frontier a = Some f" for f
    using that assms(2,3) serial serial_succ(1) [OF room]
    by (auto simp: frontier_def stream_key_def has_room_def less_prod_def' split: if_splits)
qed

lemma same_stream_refl [simp]: "same_stream a a"
  by (simp add: same_stream_def)

text \<open>One message of a run without resume position, seen from both states.\<close>

lemma convert_all_Cons:
  assumes "convert_all env cfg ((now, xmin, wal) # es) a = (Ok recs, a')"
  obtains r a1 rs where "convert env cfg now xmin wal a = (Ok r, a1)"
    "convert_all env cfg es a1 = (Ok rs, a')" "recs = (case r of None \<Rightarrow> rs | Some x \<Rightarrow> x # rs)"
  using assms by (auto simp: sbind_Ok_iff sreturn_def)

lemma in_order_step:
  assumes "in_order l ((now, xmin, wal) # es)" "step_pair (wal_order wal) a b r a' r' b'"
    "has_room l (Suc n) a"
  obtains (stays) l' where "takes_no_position a b r a' r' b'" "l \<le> l'" "in_order l' es" "has_room l' n a'"
      "frontier a' = frontier a"
  | (moves) l' where "takes_position l' a b r a' r' b'" "in_order l' es" "has_room l' n a'"
      "frontier a' = Some (stream_key l' (ss_event_serial a'))"
      "\<And>f. frontier a = Some f \<Longrightarrow> f < stream_key l' (ss_event_serial a')"
proof (cases "takes_no_position a b r a' r' b'")
  case True
  then have prev: "ss_previous_lsn a' = ss_previous_lsn a" "ss_event_serial a' = ss_event_serial a"
    by (simp_all add: takes_no_position_def)
  obtain l' where "l \<le> l'" "in_order l' es" using assms(1) by (auto split: option.splits)
  with True prev assms(3) show ?thesis
    by (intro stays [of l']) (auto simp: has_room_def frontier_def split: option.splits)
next
  case False
  then obtain l' where l': "wal_order wal = Some l'" "takes_position l' a b r a' r' b'"
    using assms(2) by (auto simp: step_pair_def)
  with assms(1) have "l \<le> l'" "in_order l' es" by auto
  with moves l' step_advances [OF l'(2) assms(3)] show ?thesis by blast
qed

definition later :: "source_record \<Rightarrow> source_record \<Rightarrow> bool" where
  "later x y = is_after (sr_position y) (sr_position x)"

definition beyond :: "stream_state \<Rightarrow> source_record \<Rightarrow> bool" where
  "beyond a r \<longleftrightarrow> (\<exists>k. pg_key (sr_position r) = Some k \<and> (\<forall>f. frontier a = Some f \<longrightarrow> f < k))"

lemma pg_key_after:
  "pg_key p = Some k \<Longrightarrow> pg_key q = Some k' \<Longrightarrow> is_after q p \<longleftrightarrow> k < k'"
  by (auto simp: pg_key_def split: source_position.splits)

lemma beyond_trans:
  assumes "beyond a1 x" "frontier a1 = Some k" "\<And>f. frontier a = Some f \<Longrightarrow> f < k"
  shows "beyond a x"
proof -
  obtain k' where k': "pg_key (sr_position x) = Some k'" "k < k'"
    using assms(1,2) unfolding beyond_def by blast
  have "f < k'" if "frontier a = Some f" for f
    by (rule less_trans [OF assms(3) [OF that] k'(2)])
  with k'(1) show ?thesis unfolding beyond_def by blast
qed

lemma records_beyond:
  assumes "convert_all env cfg es a = (Ok recs, a')" "ss_resume_position a = None"
    "in_order l es" "has_room l (length es) a"
  shows "list_all (beyond a) recs \<and> sorted_wrt later recs"
  using assms
proof (induction es arbitrary: a recs l)
  case (Cons e es)
  obtain now xmin wal where e: "e = (now, xmin, wal)" by (cases e)
  from Cons.prems(1) obtain r a1 rs where step: "convert env cfg now xmin wal a = (Ok r, a1)"
    and rest: "convert_all env cfg es a1 = (Ok rs, a')"
    and recs: "recs = (case r of None \<Rightarrow> rs | Some x \<Rightarrow> x # rs)"
    unfolding e by (rule convert_all_Cons)
  obtain r' b' where pair: "step_pair (wal_order wal) a a r a1 r' b'"
    using convert_pair [OF same_stream_refl Cons.prems(2) step] by blast
  then have none: "ss_resume_position a1 = None" by (simp add: step_pair_def)
  from Cons.prems(3,4) have order: "in_order l ((now, xmin, wal) # es)" "has_room l (Suc (length es)) a"
    by (simp_all add: e)
  from order(1) pair order(2) show ?case
  proof (cases rule: in_order_step)
    case (stays l')
    with Cons.IH [OF rest none stays(3,4)] recs show ?thesis
      by (auto simp: takes_no_position_def beyond_def)
  next
    case (moves l')
    note IH = Cons.IH [OF rest none moves(2,3)]
    have tail: "list_all (beyond a) rs"
      using IH beyond_trans [OF _ moves(4,5)] by (auto simp: list_all_iff)
    show ?thesis
    proof (cases r)
      case None
      with recs IH tail show ?thesis by simp
    next
      case (Some x)
      obtain pos where pos: "pg_key pos = Some (stream_key l' (ss_event_serial a1))" "sr_position x = pos"
        using moves(1) Some by (auto simp: takes_position_def)
      have "beyond a x" unfolding beyond_def using pos moves(5) by blast
      moreover have "later x y" if "y \<in> set rs" for y
      proof -
        have "beyond a1 y" using IH that by (simp add: list_all_iff)
        then obtain k where k: "pg_key (sr_position y) = Some k" "stream_key l' (ss_event_serial a1) < k"
          unfolding beyond_def using moves(4) by blast
        with pos show ?thesis unfolding later_def by (simp only: pg_key_after)
      qed
      ultimately have "beyond a x" "\<forall>y\<in>set rs. later x y" by blast+
      with Some recs IH tail show ?thesis by simp
    qed
  qed
qed simp

lemma skips_none [simp]: "\<not> skips pos None"
  by (simp add: skips_def)

lemma skips_key:
  "pg_key pos = Some k \<Longrightarrow>
   skips pos (Some p) \<longleftrightarrow> pos = p \<or> (\<exists>k'. pg_key p = Some k' \<and> k < k')"
  by (cases pos; cases p) (simp_all add: skips_def is_at_or_before_def pg_key_def del: less_prod_simp)

lemma skips_mono:
  assumes "pg_key pos = Some k" "pg_key pos' = Some k'" "k < k'" "\<not> skips pos R"
  shows "\<not> skips pos' R"
proof (cases R)
  case (Some p)
  have "skips pos (Some p)" if "skips pos' (Some p)"
  proof -
    from that consider "pos' = p" | k'' where "pg_key p = Some k''" "k' < k''"
      unfolding skips_key [OF assms(2)] by (elim disjE exE conjE)
    then have "\<exists>k''. pg_key p = Some k'' \<and> k < k''"
    proof cases
      case 1
      with assms(2,3) show ?thesis by (intro exI [of _ k']) simp
    next
      case (2 k'')
      with less_trans [OF assms(3) 2(2)] show ?thesis by (intro exI [of _ k'']) simp
    qed
    then show ?thesis unfolding skips_key [OF assms(1)] by (rule disjI2)
  qed
  with assms(4) Some show ?thesis by blast
qed simp

lemma replay_filters:
  assumes "convert_all env cfg es a = (Ok recs, a')" "ss_resume_position a = None"
    "same_stream a b" "in_order l es" "has_room l (length es) a"
  shows "\<exists>recs' b'. convert_all env cfg es b = (Ok recs', b') \<and> same_stream a' b'
    \<and> map core recs' = map core (filter (\<lambda>r. \<not> skips (sr_position r) (ss_resume_position b)) recs)"
  using assms
proof (induction es arbitrary: a b recs l)
  case Nil
  then show ?case by simp
next
  case (Cons e es)
  obtain now xmin wal where e: "e = (now, xmin, wal)" by (cases e)
  from Cons.prems(1) obtain r a1 rs where step: "convert env cfg now xmin wal a = (Ok r, a1)"
    and rest: "convert_all env cfg es a1 = (Ok rs, a')"
    and recs: "recs = (case r of None \<Rightarrow> rs | Some x \<Rightarrow> x # rs)"
    unfolding e by (rule convert_all_Cons)
  obtain r' b1 where step': "convert env cfg now xmin wal b = (Ok r', b1)"
    and pair: "step_pair (wal_order wal) a b r a1 r' b1"
    using convert_pair [OF Cons.prems(3,2) step] by blast
  then have none: "ss_resume_position a1 = None" and same: "same_stream a1 b1"
    by (simp_all add: step_pair_def)
  from Cons.prems(4,5) have order: "in_order l ((now, xmin, wal) # es)" "has_room l (Suc (length es)) a"
    by (simp_all add: e)
  have run: "convert_all env cfg (e # es) b = (Ok (case r' of None \<Rightarrow> rs' | Some x \<Rightarrow> x # rs'), b')"
    if "convert_all env cfg es b1 = (Ok rs', b')" for rs' b'
    using step' that by (simp add: e sbind_Ok_iff sreturn_def)
  from order(1) pair order(2) show ?case
  proof (cases rule: in_order_step)
    case (stays l')
    from Cons.IH [OF rest none same stays(3,4)] obtain rs' b' where IH:
      "convert_all env cfg es b1 = (Ok rs', b')" "same_stream a' b'"
      "map core rs' = map core (filter (\<lambda>r. \<not> skips (sr_position r) (ss_resume_position b1)) rs)" by blast
    with stays(1) recs run [OF IH(1)] show ?thesis by (auto simp: takes_no_position_def)
  next
    case (moves l')
    from Cons.IH [OF rest none same moves(2,3)] obtain rs' b' where IH:
      "convert_all env cfg es b1 = (Ok rs', b')" "same_stream a' b'"
      "map core rs' = map core (filter (\<lambda>r. \<not> skips (sr_position r) (ss_resume_position b1)) rs)" by blast
    from moves(1) obtain pos where pos: "pg_key pos = Some (stream_key l' (ss_event_serial a1))"
      "\<forall>x. r = Some x \<longrightarrow> sr_position x = pos"
      "if skips pos (ss_resume_position b)
       then r' = None \<and> ss_resume_position b1 = ss_resume_position b
       else map_option core r' = map_option core r \<and> ss_resume_position b1 = None"
      by (auto simp: takes_position_def)
    show ?thesis
    proof (cases "skips pos (ss_resume_position b)")
      case True
      with pos recs IH run [OF IH(1)] show ?thesis by (cases r) auto
    next
      case False
      have tail: "filter (\<lambda>r. \<not> skips (sr_position r) (ss_resume_position b)) rs = rs"
      proof (intro filter_True ballI)
        fix y assume "y \<in> set rs"
        then have "beyond a1 y" using records_beyond [OF rest none moves(2,3)] by (simp add: list_all_iff)
        then obtain k where k: "pg_key (sr_position y) = Some k" "stream_key l' (ss_event_serial a1) < k"
          unfolding beyond_def using moves(4) by blast
        show "\<not> skips (sr_position y) (ss_resume_position b)" by (rule skips_mono [OF pos(1) k False])
      qed
      with False pos recs IH run [OF IH(1)] show ?thesis by (cases r; cases r') auto
    qed
  qed
qed

section \<open>The place within a transaction\<close>

definition row_message :: "wal_event \<Rightarrow> bool" where
  "row_message wal =
     (case we_kind wal of
        WalInsert _ _ _ _ \<Rightarrow> True | WalUpdate _ _ _ _ _ _ \<Rightarrow> True | WalDelete _ _ _ _ _ \<Rightarrow> True
      | _ \<Rightarrow> False)"

definition collection_of :: "source_record \<Rightarrow> (string option \<times> string option) option" where
  "collection_of r = map_option (\<lambda>e. (sm_schema (ev_source e), sm_table (ev_source e))) (sr_event r)"

definition counted :: "active_transaction \<Rightarrow> source_record list \<Rightarrow> bool" where
  "counted t rs \<longleftrightarrow>
     at_total_order t = of_nat (length rs)
     \<and> (\<forall>s n. (case map_of (at_collection_order t) (s, n) of None \<Rightarrow> 0 | Some k \<Rightarrow> k)
           = of_nat (length (filter (\<lambda>r. collection_of r = Some (Some s, Some n)) rs)))"

definition placed :: "u32 \<Rightarrow> instant \<Rightarrow> source_record list \<Rightarrow> source_record \<Rightarrow> bool" where
  "placed xid time before r \<longleftrightarrow>
     (\<exists>e m. sr_event r = Some e \<and> ev_transaction e = Some m \<and> ev_source_time e = Some time
        \<and> tx_id m = show_word xid \<and> tx_total_order m = Some (of_nat (Suc (length before)))
        \<and> tx_collection_order m
          = Some (of_nat (Suc (length (filter (\<lambda>q. collection_of q = collection_of r) before)))))"

lemma data_record_placed:
  assumes "data_record env cfg now l sn tn oid op old new keys c = (Ok r, c')"
    and "ss_resume_position c = None" "ss_transaction c = Some t" "counted t before"
  shows "ss_resume_position c' = None \<and>
    (r = None \<and> ss_transaction c' = Some t
     \<or> (\<exists>x t'. r = Some x \<and> ss_transaction c' = Some t' \<and> at_id t' = at_id t
          \<and> at_source_time t' = at_source_time t \<and> counted t' (before @ [x])
          \<and> placed (at_id t) (at_source_time t) before x))"
proof -
  consider (out) "r = None" "c' = c"
    | (known) s pos n b where
        "r = Some (record_data (data_event env cfg now s sn tn oid op old new pos n
            (fst (count_record (sn, tn) b)) (map_option at_source_time (ss_transaction (snd (count_record (sn, tn) b))))))"
        "c' = snd (count_record (sn, tn) b)" "ss_transaction b = ss_transaction c" "ss_resume_position b = None"
    using assms(1,2)
    by (auto simp: data_record_def Let_def should_skip_def next_serial_def split_beta
        split: if_splits option.splits)
  then show ?thesis
  proof cases
    case out
    with assms show ?thesis by simp
  next
    case known
    have coll: "collection_of (record_data (data_event env cfg now s sn tn oid op old new pos n tr ti))
        = Some (Some sn, Some tn)" for tr ti
      by (simp add: collection_of_def record_data_def data_event_def pg_source_metadata_def Let_def)
    show ?thesis
      using known assms(3,4)
      by (auto simp: count_record_def counted_def placed_def coll Let_def)
         (auto simp: record_data_def data_event_def Let_def add.commute)
  qed
qed

lemma convert_all_placed:
  assumes "convert_all env cfg es c = (Ok recs, c')" "ss_resume_position c = None"
    "list_all (\<lambda>(_, _, wal). row_message wal) es" "ss_transaction c = Some t" "counted t before"
    "i < length recs"
  shows "placed (at_id t) (at_source_time t) (before @ take i recs) (recs ! i)"
  using assms
proof (induction es arbitrary: c recs t before i)
  case (Cons e es)
  obtain now xmin wal where e: "e = (now, xmin, wal)" by (cases e)
  from Cons.prems(1) obtain r c1 rs where step: "convert env cfg now xmin wal c = (Ok r, c1)"
    and rest: "convert_all env cfg es c1 = (Ok rs, c')"
    and recs: "recs = (case r of None \<Rightarrow> rs | Some x \<Rightarrow> x # rs)"
    unfolding e by (rule convert_all_Cons)
  have "ss_resume_position c1 = None \<and>
    (r = None \<and> ss_transaction c1 = Some t
     \<or> (\<exists>x t'. r = Some x \<and> ss_transaction c1 = Some t' \<and> at_id t' = at_id t
          \<and> at_source_time t' = at_source_time t \<and> counted t' (before @ [x])
          \<and> placed (at_id t) (at_source_time t) before x))"
    using step Cons.prems(2-5) data_record_placed [of env cfg now "we_lsn wal" _ _ _ _ _ _ _ "c\<lparr>ss_xmin := xmin\<rparr>" r c1 t before]
    by (auto simp: convert_def row_message_def e Let_def split: wal_kind.splits)
  then show ?case
  proof (elim conjE disjE exE)
    assume "ss_resume_position c1 = None" "r = None" "ss_transaction c1 = Some t"
    with Cons.IH [OF rest] Cons.prems(3,5,6) recs show ?thesis by (simp add: e)
  next
    fix x t' assume x: "ss_resume_position c1 = None" "r = Some x" "ss_transaction c1 = Some t'"
      "at_id t' = at_id t" "at_source_time t' = at_source_time t" "counted t' (before @ [x])"
      "placed (at_id t) (at_source_time t) before x"
    show ?thesis
    proof (cases i)
      case 0
      with x recs show ?thesis by simp
    next
      case (Suc j)
      with Cons.IH [OF rest x(1) _ x(3,6), of j] Cons.prems(3,6) recs x show ?thesis by (simp add: e)
    qed
  qed
qed simp

section \<open>An example\<close>

text \<open>
  A log with two transactions that overlap: the second one writes its row before the first one
  commits, and commits after it; the server sends each transaction when it commits.
\<close>

definition sample_stream_env :: stream_env where
  "sample_stream_env =
     \<lparr>se_text = sample_text, se_regex = \<lambda>_ _. None, se_digests = \<lambda>_ bs. bs, se_sha256 = \<lambda>bs. bs,
      se_hex = \<lambda>_. [], se_to_vec = \<lambda>_. [], se_values = map snd, se_version = ''1'',
      se_connector_name = ''orders'', se_transformer = []\<rparr>"

definition sample_stream_config :: pg_stream_config where
  "sample_stream_config =
     \<lparr>psc_config = sample_pg_config, psc_tables = \<lparr>ts_include = [], ts_exclude = []\<rparr>,
      psc_logical_decoding_messages = False, psc_message_prefix_include_list = [],
      psc_message_prefix_exclude_list = [], psc_signal_enabled_channels = []\<rparr>"

definition sample_insert_at :: "u64 \<Rightarrow> string \<Rightarrow> stamped_event" where
  "sample_insert_at lsn k =
     (0, None, \<lparr>we_lsn = lsn, we_kind = WalInsert ''public'' ''orders'' 7 [(''id'', CvText k)]\<rparr>)"

definition sample_at :: "u64 \<Rightarrow> wal_kind \<Rightarrow> stamped_event" where
  "sample_at lsn k = (0, None, \<lparr>we_lsn = lsn, we_kind = k\<rparr>)"

definition sample_start :: stream_state where
  "sample_start = stream_new sample_schemas None False"

definition row_of :: "source_record \<Rightarrow> row option" where
  "row_of r = Option.bind (sr_event r) ev_after"

definition order_of :: "source_record \<Rightarrow> u64 option" where
  "order_of r = Option.bind (Option.bind (sr_event r) ev_transaction) tx_total_order"

lemma sample_lookup [simp]:
  "map_of sample_schemas (''public'', ''orders'') = Some (sample_table ''orders'')"
  "im_insert (''public'', ''orders'') (sample_table ''orders'') sample_schemas = sample_schemas"
  by (simp_all add: sample_schemas_def)

lemma sample_included [simp]:
  "table_includes (se_regex sample_stream_env) (psc_tables sample_stream_config) s t"
  "is_signal_table (psc_config sample_stream_config) ''public'' t \<longleftrightarrow> t = ''signals''"
  by (auto simp: sample_stream_config_def table_includes_def is_signal_table_def)

lemma sample_row:
  "utf8_valid k \<Longrightarrow>
   stream_row sample_stream_env sample_stream_config (sample_table ''orders'') [(''id'', CvText k)]
   = [(''id'', DvString k)]"
proof -
  have "convert_text_with_modes sample_text k ''int4'' h i d = DvString k" for h i d
    by (subst convert_text_with_modes.simps) (simp add: trim_plain int4_is_no_array unqualified_int4 Let_def)
  then show "utf8_valid k \<Longrightarrow> ?thesis"
    by (simp add: stream_row_def convert_row_def sample_stream_env_def find_field_def)
qed

definition first_transaction :: "stamped_event list" where
  "first_transaction =
     [sample_at 110 (WalBegin 1 0), sample_insert_at 110 ''1'', sample_insert_at 120 ''2'',
      sample_at 200 (WalCommit 190 200)]"

definition second_transaction :: "stamped_event list" where
  "second_transaction =
     [sample_at 115 (WalBegin 2 0), sample_insert_at 115 ''3'', sample_at 300 (WalCommit 290 300)]"

definition seen :: "source_record list result \<times> stream_state \<Rightarrow> (row option \<times> u64 option) list option" where
  "seen run = (case fst run of Inl _ \<Rightarrow> None | Inr rs \<Rightarrow> Some (map (\<lambda>r. (row_of r, order_of r)) rs))"

definition resumed :: "source_position \<Rightarrow> stream_state" where
  "resumed p = sample_start\<lparr>ss_resume_position := Some p\<rparr>"

lemma utf8_digits: "utf8_valid ''1''" "utf8_valid ''2''" "utf8_valid ''3''"
  by (simp_all add: utf8_valid.simps utf8_cont_def)

lemmas sample_run_simps =
  first_transaction_def second_transaction_def sample_at_def sample_insert_at_def sample_start_def
  stream_new_def convert_def data_record_def next_serial_def should_skip_def count_record_def
  transaction_new_def commit_record_def is_at_or_before_def postgres_sort_key_def sbind_def
  sreturn_def

definition row_at :: "u64 \<Rightarrow> u32 \<Rightarrow> source_position" where
  "row_at lsn xid =
     Postgres \<lparr>pg_lsn = lsn, pg_commit_lsn = None, pg_transaction_id = Some xid, pg_xmin = None,
               pg_event_serial = 1, pg_snapshot = False\<rparr>"

definition commit_at :: "u64 \<Rightarrow> u32 \<Rightarrow> source_position" where
  "commit_at lsn xid =
     Postgres \<lparr>pg_lsn = lsn, pg_commit_lsn = Some lsn, pg_transaction_id = Some xid, pg_xmin = None,
               pg_event_serial = 1, pg_snapshot = False\<rparr>"

lemma order_of_simps [simp]:
  "order_of (record_data (data_event env cfg now s sn tn oid op old new pos n t time))
     = Option.bind t tx_total_order"
  "order_of (boundary_record pos) = None" "row_of (boundary_record pos) = None"
  by (simp_all add: order_of_def row_of_def record_data_def data_event_def boundary_record_def Let_def)

lemma row_of_sample [simp]:
  "utf8_valid k \<Longrightarrow>
   row_of (record_data (data_event sample_stream_env sample_stream_config now (sample_table ''orders'')
     sn tn oid op None (Some [(''id'', CvText k)]) pos n t time)) = Some [(''id'', DvString k)]"
  by (simp add: row_of_def record_data_def data_event_def sample_row fill_unavailable_def Let_def)

lemma sample_first_run:
  "\<exists>x y z st. convert_all sample_stream_env sample_stream_config first_transaction sample_start
     = (Ok [x, y, z], st) \<and> sr_position x = row_at 110 1
     \<and> row_of y = Some [(''id'', DvString ''2'')] \<and> order_of y = Some 2 \<and> order_of z = None"
  by (simp add: sample_run_simps row_at_def utf8_digits Let_def)

lemma resumed_transaction_counts_anew:
  "seen (convert_all sample_stream_env sample_stream_config first_transaction (resumed (row_at 110 1)))
   = Some [(Some [(''id'', DvString ''2'')], Some 1), (None, None)]"
  by (simp add: seen_def resumed_def row_at_def sample_run_simps utf8_digits Let_def)

lemma aborted_rows_stay:
  "seen (convert_all sample_stream_env sample_stream_config
      [sample_at 110 (WalStreamStart 1), sample_insert_at 110 ''1'', sample_at 120 WalStreamAbort]
      sample_start)
   = Some [(Some [(''id'', DvString ''1'')], Some 1)]"
  by (simp add: seen_def open_transaction_def sample_run_simps utf8_digits Let_def)

lemma second_transaction_run:
  "seen (convert_all sample_stream_env sample_stream_config second_transaction sample_start)
   = Some [(Some [(''id'', DvString ''3'')], Some 1), (None, None)]"
  "seen (convert_all sample_stream_env sample_stream_config second_transaction (resumed (commit_at 200 1)))
   = Some [(None, None)]"
  by (simp_all add: seen_def resumed_def commit_at_def sample_run_simps utf8_digits Let_def)

section \<open>Properties\<close>



text \<open>
  C23. What the order of positions costs. A message whose log position lies before the resume position
  is skipped, whether or not it was delivered. A server that sends a transaction when it commits sends
  the rows of a transaction that overlaps an earlier committed one with positions below the commit of
  that one: after a restart at that commit none of these rows is emitted, whatever the run without a
  restart would have emitted, and the resume position stays.
\<close>

theorem overlapping_transaction_skipped:
  assumes "convert_all env cfg es (a\<lparr>ss_resume_position := None\<rparr>) = (Ok recs, a')"
    and "ss_resume_position a = Some (Postgres p)"
    and "list_all (\<lambda>(_, _, wal). pred_option (\<lambda>l. l < pg_lsn p) (wal_order wal)) es"
  shows "\<exists>b. convert_all env cfg es a = (Ok [], b) \<and> ss_resume_position b = Some (Postgres p)"
proof -
  have "\<exists>b'. convert_all env cfg es b = (Ok [], b') \<and> ss_resume_position b' = Some (Postgres p)"
    if "convert_all env cfg es c = (Ok recs, a')" "ss_resume_position c = None" "same_stream c b"
      "ss_resume_position b = Some (Postgres p)" for b c
    using that assms(3)
  proof (induction es arbitrary: b c recs)
    case (Cons e es)
    obtain now xmin wal where e: "e = (now, xmin, wal)" by (cases e)
    from Cons.prems(1) obtain r c1 rs where step: "convert env cfg now xmin wal c = (Ok r, c1)"
      and rest: "convert_all env cfg es c1 = (Ok rs, a')"
      unfolding e by (rule convert_all_Cons)
    obtain r' b1 where step': "convert env cfg now xmin wal b = (Ok r', b1)"
      and pair: "step_pair (wal_order wal) c b r c1 r' b1"
      using convert_pair [OF Cons.prems(3,2) step] by blast
    have skip: "skips pos (Some (Postgres p))"
      if "pg_key pos = Some (stream_key l n)" "wal_order wal = Some l" for pos l n
      using that Cons.prems(5) by (simp add: skips_key e) (simp add: pg_key_def postgres_sort_key_def stream_key_def)
    have "r' = None" "ss_resume_position b1 = Some (Postgres p)"
      using pair skip Cons.prems(4)
      by (auto simp: step_pair_def takes_no_position_def takes_position_def)
    moreover have "\<exists>b'. convert_all env cfg es b1 = (Ok [], b') \<and> ss_resume_position b' = Some (Postgres p)"
      using Cons.IH [OF rest] pair Cons.prems(5) calculation(2) by (auto simp: step_pair_def e)
    ultimately show ?case using step' by (auto simp: e sbind_Ok_iff sreturn_def)
  qed simp
  then show ?thesis
    using assms(1,2) by (auto simp: same_stream_def)
qed

theorem overlapping_transaction_skipped_witness:
  "seen (convert_all sample_stream_env sample_stream_config (butlast second_transaction) sample_start)
     = Some [(Some [(''id'', DvString ''3'')], Some 1)]
   \<and> (\<exists>b. convert_all sample_stream_env sample_stream_config (butlast second_transaction)
          (resumed (commit_at 200 1)) = (Ok [], b))"
proof -
  have run: "seen (convert_all sample_stream_env sample_stream_config (butlast second_transaction) sample_start)
     = Some [(Some [(''id'', DvString ''3'')], Some 1)]"
    by (simp add: seen_def sample_run_simps utf8_digits Let_def)
  then obtain recs a' where
    "convert_all sample_stream_env sample_stream_config (butlast second_transaction) sample_start = (Ok recs, a')"
    by (cases "convert_all sample_stream_env sample_stream_config (butlast second_transaction) sample_start")
       (auto simp: seen_def split: sum.splits)
  moreover have "(resumed q)\<lparr>ss_resume_position := None\<rparr> = sample_start" for q
    by (simp add: resumed_def sample_start_def stream_new_def)
  moreover have "list_all (\<lambda>(_, _, wal). pred_option (\<lambda>l. l < 200) (wal_order wal)) (butlast second_transaction)"
    by (simp add: second_transaction_def sample_at_def sample_insert_at_def wal_order_def)
  moreover obtain p where p: "commit_at 200 1 = Postgres p" "pg_lsn p = 200" by (simp add: commit_at_def)
  moreover have "ss_resume_position (resumed (commit_at 200 1)) = Some (Postgres p)"
    by (simp add: resumed_def p(1))
  ultimately have "\<exists>b. convert_all sample_stream_env sample_stream_config (butlast second_transaction)
      (resumed (commit_at 200 1)) = (Ok [], b) \<and> ss_resume_position b = Some (Postgres p)"
    by (intro overlapping_transaction_skipped) simp_all
  with run show ?thesis by blast
qed

text \<open>
  The rows of a transaction are numbered as they come: the record at index \<open>i\<close> after the begin of the
  transaction carries its identifier and commit time, the total order \<open>i + 1\<close>, and as collection order
  the number of records of its own table up to and including itself.
\<close>

theorem transaction_order_counts:
  assumes "convert_all env cfg ((now, xmin, \<lparr>we_lsn = l, we_kind = WalBegin xid time\<rparr>) # es) a = (Ok recs, a')"
    and "ss_resume_position a = None" "list_all (\<lambda>(_, _, wal). row_message wal) es" "i < length recs"
  shows "\<exists>e m. sr_event (recs ! i) = Some e \<and> ev_transaction e = Some m \<and> ev_source_time e = Some time
    \<and> tx_id m = show_word xid \<and> tx_total_order m = Some (of_nat (i + 1))
    \<and> tx_collection_order m
      = Some (of_nat (length (filter (\<lambda>q. collection_of q = collection_of (recs ! i)) (take (i + 1) recs))))"
proof -
  let ?a = "a\<lparr>ss_xmin := xmin, ss_transaction := Some (transaction_new xid time)\<rparr>"
  have "convert_all env cfg es ?a = (Ok recs, a')"
    using assms(1) by (auto simp: convert_def sbind_Ok_iff sreturn_def Let_def)
  from convert_all_placed [OF this _ assms(3) _ _ assms(4), of "transaction_new xid time" "[]"] assms(2,4)
  show ?thesis
    by (auto simp: placed_def counted_def transaction_new_def take_Suc_conv_app_nth)
qed

theorem transaction_order_counts_witness:
  "\<exists>recs st e m. convert_all sample_stream_env sample_stream_config (butlast first_transaction) sample_start
     = (Ok recs, st) \<and> length recs = 2 \<and> sr_event (recs ! 1) = Some e \<and> ev_transaction e = Some m
     \<and> tx_total_order m = Some 2"
proof -
  obtain recs st where run: "convert_all sample_stream_env sample_stream_config (butlast first_transaction) sample_start
      = (Ok recs, st)" "length recs = 2"
    by (simp add: sample_run_simps Let_def)
  have es: "butlast first_transaction = (0, None, \<lparr>we_lsn = 110, we_kind = WalBegin 1 0\<rparr>)
      # [sample_insert_at 110 ''1'', sample_insert_at 120 ''2'']"
    by (simp add: first_transaction_def sample_at_def)
  have "\<exists>e m. sr_event (recs ! 1) = Some e \<and> ev_transaction e = Some m \<and> tx_total_order m = Some 2"
    using transaction_order_counts [OF run(1) [unfolded es], of 1] run(2)
    by (auto simp: sample_start_def stream_new_def sample_insert_at_def row_message_def)
  with run show ?thesis by blast
qed

text \<open>
  A schema that is read again is versioned by its layout. When the known schema of the table has
  the same fields, column types and opaque columns, its version stays and nothing is reported;
  otherwise the table gets the next version (or, when it was unknown, its own), the state is marked
  for the next checkpoint and the version is reported. No other table changes, and reading the
  same schema once more reports nothing.
\<close>

theorem refresh_schema_versions:
  assumes "refresh_schema t st = (v, st')"
  shows "\<exists>t'. map_of (ss_schemas st') = (map_of (ss_schemas st))(pg_table_key t \<mapsto> t')
    \<and> es_fields (pts_event_schema t') = es_fields (pts_event_schema t)
    \<and> pts_column_types t' = pts_column_types t \<and> pts_opaque_columns t' = pts_opaque_columns t
    \<and> (case map_of (ss_schemas st) (pg_table_key t) of
         None \<Rightarrow> v = Some (es_version (pts_event_schema t)) \<and> t' = t
       | Some c \<Rightarrow>
           if es_fields (pts_event_schema c) = es_fields (pts_event_schema t)
              \<and> pts_column_types c = pts_column_types t \<and> pts_opaque_columns c = pts_opaque_columns t
           then v = None \<and> es_version (pts_event_schema t') = es_version (pts_event_schema c)
           else v = Some (sat_add (es_version (pts_event_schema c)) 1)
              \<and> es_version (pts_event_schema t') = sat_add (es_version (pts_event_schema c)) 1)
    \<and> ss_schema_dirty st' = (ss_schema_dirty st \<or> v \<noteq> None)
    \<and> fst (refresh_schema t st') = None"
proof -
  define version where "version = (case map_of (ss_schemas st) (pg_table_key t) of
      None \<Rightarrow> es_version (pts_event_schema t)
    | Some c \<Rightarrow>
        if es_fields (pts_event_schema c) = es_fields (pts_event_schema t)
           \<and> pts_column_types c = pts_column_types t \<and> pts_opaque_columns c = pts_opaque_columns t
        then es_version (pts_event_schema c) else sat_add (es_version (pts_event_schema c)) 1)"
  let ?t = "t\<lparr>pts_event_schema := (pts_event_schema t)\<lparr>es_version := version\<rparr>\<rparr>"
  have same: "t\<lparr>pts_event_schema := (pts_event_schema t)\<lparr>es_version := es_version (pts_event_schema t)\<rparr>\<rparr> = t"
    by simp
  have key: "pg_table_key ?t = pg_table_key t" by (simp add: pg_table_key_def)
  show ?thesis
  proof (cases "map_of (ss_schemas st) (pg_table_key t)")
    case None
    with assms same show ?thesis
      by (intro exI [of _ ?t]) (auto simp: refresh_schema_def version_def key Let_def)
  next
    case (Some c)
    with assms show ?thesis
      by (intro exI [of _ ?t]) (auto simp: refresh_schema_def version_def key Let_def split: if_splits)
  qed
qed

theorem refresh_schema_versions_witness:
  "fst (refresh_schema (sample_table ''orders'') (snd (refresh_schema (sample_table ''orders'')
     (stream_new [] None False)))) = None"
proof -
  obtain v st' where r: "refresh_schema (sample_table ''orders'') (stream_new [] None False) = (v, st')"
    by (cases "refresh_schema (sample_table ''orders'') (stream_new [] None False)")
  from refresh_schema_versions [OF r] have "fst (refresh_schema (sample_table ''orders'') st') = None"
    by (elim exE conjE)
  with r show ?thesis by simp
qed

end
