(* ===== verification/Pg_Server.thy ===== *)
theory Pg_Server
  imports Pg_Stream
begin

text \<open>
  What the PostgreSQL connector asks of the server before it streams, in
  \<^verbatim>\<open>crates/rustium-postgresql/src/source.rs\<close>: the publication, the replica identities, the signal
  table, the locks and schemas of a snapshot, and the replication slot with the decision where to
  resume. Log positions are printed and parsed by the replication library, whose functions are
  fields of the environment; sleeping between two attempts is left out.
\<close>

section \<open>Configuration and environment\<close>

datatype slot_ownership = SlotManaged | SlotExternal

datatype autocreate_mode = PubDisabled | PubAllTables | PubFiltered | PubNoTables

datatype mismatch_strategy = NoValidation | TrustOffset | TrustSlot | TrustGreaterLsn

datatype replica_identity = IdentityDefault | IdentityFull | IdentityNothing | IdentityIndex

datatype isolation_mode = Serializable | RepeatableRead | ReadCommitted | ReadUncommitted

datatype flush_timeout_action = FlushFail | FlushWarn | FlushIgnore

record identity_rule =
  ir_table :: string
  ir_identity :: replica_identity
  ir_index :: "string option"

record pg_server_config =
  pvc_stream :: pg_stream_config
  pvc_publication :: string
  pvc_slot_ownership :: slot_ownership
  pvc_offset_mismatch_strategy :: mismatch_strategy
  pvc_publication_autocreate_mode :: autocreate_mode
  pvc_publish_via_partition_root :: bool
  pvc_replica_identity_autoset_values :: "identity_rule list"
  pvc_snapshot_locks :: bool
  pvc_snapshot_lock_timeout_ms :: nat
  pvc_slot_stream_params :: "(string \<times> string) list"
  pvc_slot_failover :: bool
  pvc_column_transformations :: "transform_rule list"

record ('c, 'w) server_env =
  sv_pg :: "('c, 'w) pg_env"
  sv_regex :: regex_engine
  sv_regex_error :: "string \<Rightarrow> string"
  sv_format_lsn :: "u64 \<Rightarrow> string"
  sv_parse_lsn :: "string \<Rightarrow> string + u64"

text \<open>The entries that an iteration kept.\<close>

definition somes :: "'a option list \<Rightarrow> 'a list" where
  "somes xs = concat (map (case_option [] (\<lambda>x. [x])) xs)"

abbreviation server_pg_config :: "pg_server_config \<Rightarrow> pg_config" where
  "server_pg_config cfg \<equiv> psc_config (pvc_stream cfg)"

definition scalar :: "('c, 'w) pg_env \<Rightarrow> 'c \<Rightarrow> string \<Rightarrow> ('w, string) stateful" where
  "scalar pg c query =
     sbind (pg_exec pg c query) (\<lambda>res. slift (required_value res 0 0 ''query result''))"

text \<open>A statement whose error is reported with a text of the caller.\<close>

definition exec_or ::
  "('c, 'w) pg_env \<Rightarrow> 'c \<Rightarrow> string \<Rightarrow> (string \<Rightarrow> rust_error) \<Rightarrow> ('w, pg_result) stateful" where
  "exec_or pg c query f w =
     (case pe_exec pg c query w of
        (Inl msg, w') \<Rightarrow> (Err (f msg), w')
      | (Inr res, w') \<Rightarrow> (Ok res, w'))"

section \<open>Where to resume\<close>

datatype slot_decision = UseCheckpoint | AdvanceSlot | UseSlot

record resume_slot_resolution =
  rr_start_lsn :: u64
  rr_preserve_checkpoint_position :: bool

definition strategy_name :: "mismatch_strategy \<Rightarrow> string" where
  "strategy_name s =
     (case s of NoValidation \<Rightarrow> ''NoValidation'' | TrustOffset \<Rightarrow> ''TrustOffset''
      | TrustSlot \<Rightarrow> ''TrustSlot'' | TrustGreaterLsn \<Rightarrow> ''TrustGreaterLsn'')"

definition resume_slot_decision ::
  "('c, 'w) server_env \<Rightarrow> u64 \<Rightarrow> u64 \<Rightarrow> mismatch_strategy \<Rightarrow> slot_decision result" where
  "resume_slot_decision env checkpoint_lsn slot_lsn strategy =
     (if checkpoint_lsn = slot_lsn \<or> strategy = NoValidation then Ok UseCheckpoint
      else if checkpoint_lsn > slot_lsn
      then Ok (if strategy = TrustSlot then UseCheckpoint else AdvanceSlot)
      else if strategy = TrustOffset
      then Err (State (''PostgreSQL replication slot is at '' @ sv_format_lsn env slot_lsn
              @ '', ahead of checkpoint '' @ sv_format_lsn env checkpoint_lsn
              @ ''; offset.mismatch.strategy=trust_offset treats the checkpoint as authoritative and refuses to skip source history; reset/resnapshot or choose trust_slot/trust_greater_lsn explicitly''))
      else Ok UseSlot)"

definition slot_query :: "string \<Rightarrow> string" where
  "slot_query slot =
     ''SELECT plugin, COALESCE(wal_status, '' @ squote [] @ ''), COALESCE(confirmed_flush_lsn, restart_lsn)::text FROM pg_replication_slots WHERE slot_name = '' @ slot"

definition debug_option_word :: "'n::len word option \<Rightarrow> string" where
  "debug_option_word x = (case x of None \<Rightarrow> ''None'' | Some w \<Rightarrow> ''Some('' @ show_word w @ '')'')"

definition advance_slot ::
  "('c, 'w) server_env \<Rightarrow> string \<Rightarrow> mismatch_strategy \<Rightarrow> 'c \<Rightarrow> string \<Rightarrow> postgres_position \<Rightarrow> u64 \<Rightarrow>
   ('w, resume_slot_resolution) stateful" where
  "advance_slot env slot_name strategy c slot checkpoint checkpoint_lsn =
     (if pg_transaction_id checkpoint \<noteq> None \<and> pg_commit_lsn checkpoint = None
      then slift (Err (State (''PostgreSQL checkpoint '' @ sv_format_lsn env (pg_lsn checkpoint)
             @ '' is inside transaction '' @ debug_option_word (pg_transaction_id checkpoint)
             @ ''; offset.mismatch.strategy='' @ strategy_name strategy
             @ '' cannot safely advance slot '' @ debug_str slot_name
             @ '' to a mid-transaction position; use no_validation or resume through the transaction before enabling slot advancement'')))
      else
        sbind (slift (quote_literal (sv_pg env) (sv_format_lsn env checkpoint_lsn))) (\<lambda>target.
        sbind (scalar (sv_pg env) c
                 (''SELECT end_lsn::text FROM pg_replication_slot_advance('' @ slot @ '', '' @ target @ '')''))
          (\<lambda>advanced.
        sbind (slift (pg_error (sv_parse_lsn env advanced))) (\<lambda>advanced_lsn. slift
          (if advanced_lsn < checkpoint_lsn
           then Err (State (''PostgreSQL replication slot '' @ debug_str slot_name
                  @ '' advanced only to '' @ sv_format_lsn env advanced_lsn @ '', before checkpoint ''
                  @ sv_format_lsn env checkpoint_lsn @ ''; required WAL alignment is unavailable''))
           else Ok \<lparr>rr_start_lsn = (if advanced_lsn = checkpoint_lsn then pg_lsn checkpoint else advanced_lsn),
                    rr_preserve_checkpoint_position = (advanced_lsn = checkpoint_lsn)\<rparr>)))))"

definition resolve_resume_slot ::
  "('c, 'w) server_env \<Rightarrow> pg_server_config \<Rightarrow> postgres_position \<Rightarrow> ('w, resume_slot_resolution) stateful"
  where
  "resolve_resume_slot env cfg checkpoint =
     (let pg = sv_pg env; slot_name = pgc_slot_name (server_pg_config cfg);
          strategy = pvc_offset_mismatch_strategy cfg
      in
      sbind (pe_connect pg) (\<lambda>c.
      sbind (slift (quote_literal pg slot_name)) (\<lambda>slot.
      sbind (pg_exec pg c (slot_query slot)) (\<lambda>res.
      if res = []
      then slift (Err (State (''PostgreSQL replication slot '' @ debug_str slot_name
             @ '' is missing; the checkpoint cannot be resumed without a possible WAL gap; reset the checkpoint and run a new initial snapshot'')))
      else
      sbind (slift (required_value res 0 0 ''slot plugin'')) (\<lambda>plugin.
      if plugin \<noteq> ''pgoutput''
      then slift (Err (State (''PostgreSQL replication slot '' @ debug_str slot_name @ '' uses plugin ''
             @ debug_str plugin @ ''; the checkpoint requires pgoutput'')))
      else
      sbind (slift (required_value res 0 1 ''slot WAL status'')) (\<lambda>wal_status.
      if wal_status = ''unreserved'' \<or> wal_status = ''lost''
      then slift (Err (State (''PostgreSQL replication slot '' @ debug_str slot_name @ '' has wal_status=''
             @ debug_str wal_status
             @ ''; required WAL may be unavailable, so reset the checkpoint and run a new initial snapshot'')))
      else
      sbind (slift (required_value res 0 2 ''slot LSN'')) (\<lambda>text_lsn.
      sbind (slift (pg_error (sv_parse_lsn env text_lsn))) (\<lambda>slot_lsn.
      let checkpoint_lsn =
            (case pg_commit_lsn checkpoint of None \<Rightarrow> pg_lsn checkpoint | Some l \<Rightarrow> l)
      in
      sbind (slift (resume_slot_decision env checkpoint_lsn slot_lsn strategy)) (\<lambda>d.
      case d of
        UseCheckpoint \<Rightarrow>
          sreturn \<lparr>rr_start_lsn = pg_lsn checkpoint, rr_preserve_checkpoint_position = True\<rparr>
      | UseSlot \<Rightarrow> sreturn \<lparr>rr_start_lsn = slot_lsn, rr_preserve_checkpoint_position = False\<rparr>
      | AdvanceSlot \<Rightarrow> advance_slot env slot_name strategy c slot checkpoint checkpoint_lsn)))))))))"

section \<open>The life of the slot\<close>

text \<open>Whether a failover slot is to be created.\<close>

definition resolve_slot_failover ::
  "('c, 'w) server_env \<Rightarrow> pg_server_config \<Rightarrow> ('w, bool) stateful" where
  "resolve_slot_failover env cfg =
     (if \<not> pvc_slot_failover cfg then sreturn False
      else if pvc_slot_ownership cfg \<noteq> SlotManaged
      then slift (Err (Configuration ''source.slot_failover can be enabled only for a managed replication slot''))
      else
        sbind (pe_connect (sv_pg env)) (\<lambda>c.
        sbind (scalar (sv_pg env) c ''SHOW server_version_num'') (\<lambda>version_text.
        sbind (slift (ok_or (Source (''invalid PostgreSQL version: '' @ unsigned_error 32 version_text))
                 (parse_unsigned 32 version_text))) (\<lambda>version.
        sbind (scalar (sv_pg env) c ''SELECT pg_catalog.pg_is_in_recovery()::text'') (\<lambda>in_recovery.
          sreturn (version \<ge> 170000 \<and> in_recovery \<notin> {''true'', ''t''}))))))"

definition query_slot_safe_lsn ::
  "('c, 'w) server_env \<Rightarrow> pg_server_config \<Rightarrow> ('w, u64) stateful" where
  "query_slot_safe_lsn env cfg =
     sbind (pe_connect (sv_pg env)) (\<lambda>c.
     sbind (slift (quote_literal (sv_pg env) (pgc_slot_name (server_pg_config cfg)))) (\<lambda>slot.
     sbind (scalar (sv_pg env) c
              (''SELECT COALESCE(confirmed_flush_lsn, restart_lsn)::text FROM pg_replication_slots WHERE slot_name = '' @ slot))
       (\<lambda>lsn. slift (pg_error (sv_parse_lsn env lsn)))))"

definition prepare_snapshot_slot ::
  "('c, 'w) server_env \<Rightarrow> pg_server_config \<Rightarrow> ('w, unit) stateful" where
  "prepare_snapshot_slot env cfg =
     (if pvc_slot_ownership cfg = SlotExternal
      then slift (Err (Configuration ''an initial snapshot requires slot_ownership=managed''))
      else
        (let pg = sv_pg env; slot_name = pgc_slot_name (server_pg_config cfg) in
         sbind (pe_connect pg) (\<lambda>c.
         sbind (slift (quote_literal pg slot_name)) (\<lambda>slot.
         sbind (pg_exec pg c (''SELECT active::text FROM pg_replication_slots WHERE slot_name = '' @ slot))
           (\<lambda>res.
         if res = [] then sreturn ()
         else
           sbind (slift (required_value res 0 0 ''slot active state'')) (\<lambda>active.
           if active = ''t''
           then slift (Err (Source (''managed replication slot '' @ debug_str slot_name
                  @ '' is active and cannot be recreated'')))
           else sbind (pg_exec pg c (''SELECT pg_drop_replication_slot('' @ slot @ '')''))
                  (\<lambda>_. sreturn ())))))))"

definition DROP_SLOT_RETRY_ATTEMPTS :: nat where
  "DROP_SLOT_RETRY_ATTEMPTS = 30"

definition drop_slot_error :: "string \<Rightarrow> nat \<Rightarrow> string \<Rightarrow> rust_error" where
  "drop_slot_error slot_name attempt drop_error =
     Source (''failed to drop PostgreSQL replication slot '' @ debug_str slot_name
       @ '' on orderly stop after '' @ show_nat attempt @ '' attempt(s): '' @ drop_error)"

text \<open>The attempts of dropping the slot; \<open>attempt\<close> counts from 1 and the last one does not retry.\<close>

fun drop_slot_attempts ::
  "('c, 'w) pg_env \<Rightarrow> string \<Rightarrow> 'c \<Rightarrow> string \<Rightarrow> nat \<Rightarrow> nat \<Rightarrow> ('w, unit) stateful" where
  "drop_slot_attempts pg slot_name c slot attempt remaining w =
     (case pe_exec pg c (''SELECT pg_drop_replication_slot('' @ slot @ '')'') w of
        (Inr _, w1) \<Rightarrow> (Ok (), w1)
      | (Inl drop_error, w1) \<Rightarrow>
          sbind (exec_or pg c (''SELECT active::text FROM pg_replication_slots WHERE slot_name = '' @ slot)
                   (\<lambda>state_error. Source (''failed to inspect PostgreSQL replication slot ''
                      @ debug_str slot_name @ '' after its orderly-stop deletion failed: '' @ state_error
                      @ ''; deletion error: '' @ drop_error)))
            (\<lambda>state.
               if state = [] then sreturn ()
               else sbind (slift (required_value state 0 0 ''slot active state'')) (\<lambda>active.
                 case remaining of
                   Suc m \<Rightarrow>
                     if active = ''t'' \<or> active = ''true''
                     then drop_slot_attempts pg slot_name c slot (attempt + 1) m
                     else slift (Err (drop_slot_error slot_name attempt drop_error))
                 | 0 \<Rightarrow> slift (Err (drop_slot_error slot_name attempt drop_error))))
            w1)"

definition drop_managed_slot_on_stop ::
  "('c, 'w) server_env \<Rightarrow> pg_server_config \<Rightarrow> ('w, unit) stateful" where
  "drop_managed_slot_on_stop env cfg =
     (if pvc_slot_ownership cfg \<noteq> SlotManaged
      then slift (Err (Configuration ''source.drop_slot_on_stop can be enabled only for a managed replication slot''))
      else
        (let slot_name = pgc_slot_name (server_pg_config cfg) in
         sbind (pe_connect (sv_pg env)) (\<lambda>c.
         sbind (slift (quote_literal (sv_pg env) slot_name)) (\<lambda>slot.
           drop_slot_attempts (sv_pg env) slot_name c slot 1 (DROP_SLOT_RETRY_ATTEMPTS - 1)))))"

section \<open>Tables of the publication\<close>

definition selected :: "('c, 'w) server_env \<Rightarrow> pg_server_config \<Rightarrow> string \<Rightarrow> string \<Rightarrow> bool" where
  "selected env cfg schema table =
     (table_includes (sv_regex env) (psc_tables (pvc_stream cfg)) schema table
      \<and> \<not> is_signal_table (server_pg_config cfg) schema table)"

definition discover_table_schema ::
  "('c, 'w) pg_env \<Rightarrow> pg_config \<Rightarrow> 'c \<Rightarrow> string \<Rightarrow> string \<Rightarrow> ('w, pg_table_schema) stateful" where
  "discover_table_schema pg config c schema table =
     sbind (query_table_schema pg config c schema table) (\<lambda>t. slift
       (ok_or (Source (''could not discover columns for '' @ schema @ ''.'' @ table)) t))"

definition discover_row ::
  "('c, 'w) server_env \<Rightarrow> pg_server_config \<Rightarrow> 'c \<Rightarrow> pg_result \<Rightarrow> nat \<Rightarrow> ('w, pg_table_schema option) stateful"
  where
  "discover_row env cfg c tables i =
     sbind (slift (required_value tables i 0 ''publication schema'')) (\<lambda>schema.
     sbind (slift (required_value tables i 1 ''publication table'')) (\<lambda>table.
       if \<not> selected env cfg schema table then sreturn None
       else sbind (discover_table_schema (sv_pg env) (server_pg_config cfg) c schema table)
              (\<lambda>t. sreturn (Some t))))"

definition publication_tables_query :: "string \<Rightarrow> string" where
  "publication_tables_query publication =
     ''SELECT schemaname, tablename FROM pg_catalog.pg_publication_tables WHERE pubname = ''
     @ publication @ '' ORDER BY schemaname, tablename''"

definition discover_tables ::
  "('c, 'w) server_env \<Rightarrow> pg_server_config \<Rightarrow> 'c \<Rightarrow> ('w, schema_map) stateful" where
  "discover_tables env cfg c =
     sbind (slift (quote_literal (sv_pg env) (pvc_publication cfg))) (\<lambda>publication.
     sbind (pg_exec (sv_pg env) c (publication_tables_query publication)) (\<lambda>tables.
     sbind (scollect (discover_row env cfg c tables) [0..<length tables]) (\<lambda>found.
       sreturn (fold (\<lambda>t m. im_insert (pg_table_key t) t m) (somes found) []))))"

definition snapshot_includes :: "regex_engine \<Rightarrow> string list \<Rightarrow> string \<Rightarrow> string \<Rightarrow> bool" where
  "snapshot_includes build include_collections schema table =
     includes_collection build include_collections (schema @ ''.'' @ table)"

section \<open>Locks of a snapshot\<close>

definition lock_candidate ::
  "('c, 'w) server_env \<Rightarrow> pg_server_config \<Rightarrow> string list \<Rightarrow> pg_result \<Rightarrow> nat \<Rightarrow>
   (string \<times> string) option result" where
  "lock_candidate env cfg include_collections tables i =
     rbind (required_value tables i 0 ''snapshot lock table schema'') (\<lambda>schema.
     rbind (required_value tables i 1 ''snapshot lock table name'') (\<lambda>table.
       Ok (if pgc_signal_data_collection (server_pg_config cfg) = Some (schema @ ''.'' @ table)
              \<or> (table_includes (sv_regex env) (psc_tables (pvc_stream cfg)) schema table
                  \<and> snapshot_includes (sv_regex env) include_collections schema table)
           then Some (schema, table) else None)))"

definition lock_table ::
  "('c, 'w) server_env \<Rightarrow> pg_server_config \<Rightarrow> 'c \<Rightarrow> string \<times> string \<Rightarrow> ('w, unit) stateful" where
  "lock_table env cfg c = (\<lambda>(schema, table).
     sbind (slift (qualified_table (sv_pg env) schema table)) (\<lambda>qualified.
     sbind (exec_or (sv_pg env) c (''LOCK TABLE '' @ qualified @ '' IN ACCESS SHARE MODE'')
              (\<lambda>msg. Source (''PostgreSQL snapshot lock acquisition failed for '' @ schema @ ''.'' @ table
                 @ '' with snapshot_lock_timeout='' @ show_nat (pvc_snapshot_lock_timeout_ms cfg) @ ''ms: ''
                 @ msg)))
       (\<lambda>_. sreturn ())))"

definition lock_snapshot_tables ::
  "('c, 'w) server_env \<Rightarrow> pg_server_config \<Rightarrow> string list \<Rightarrow> 'c \<Rightarrow> ('w, unit) stateful" where
  "lock_snapshot_tables env cfg include_collections c =
     (if \<not> pvc_snapshot_locks cfg then sreturn ()
      else
        (let timeout = show_nat (pvc_snapshot_lock_timeout_ms cfg) in
         sbind (pg_exec (sv_pg env) c (''SET LOCAL lock_timeout = '' @ timeout)) (\<lambda>_.
         sbind (slift (quote_literal (sv_pg env) (pvc_publication cfg))) (\<lambda>publication.
         sbind (exec_or (sv_pg env) c (publication_tables_query publication)
                  (\<lambda>msg. Source (''PostgreSQL snapshot lock acquisition failed while discovering captured tables with snapshot_lock_timeout=''
                     @ timeout @ ''ms: '' @ msg))) (\<lambda>tables.
         sbind (slift (collect_results (lock_candidate env cfg include_collections tables) [0..<length tables]))
           (\<lambda>captured.
              sfor (somes captured) (lock_table env cfg c)))))))"

section \<open>The publication\<close>

definition publication_table ::
  "('c, 'w) server_env \<Rightarrow> pg_server_config \<Rightarrow> pg_result \<Rightarrow> nat \<Rightarrow> (string \<times> string) option result" where
  "publication_table env cfg res i =
     rbind (required_value res i 0 ''publication table schema'') (\<lambda>schema.
     rbind (required_value res i 1 ''publication table name'') (\<lambda>table.
       Ok (if table_includes (sv_regex env) (psc_tables (pvc_stream cfg)) schema table
              \<or> is_signal_table (server_pg_config cfg) schema table
           then Some (schema, table) else None)))"

definition all_tables_query :: string where
  "all_tables_query =
     ''SELECT n.nspname, c.relname FROM pg_catalog.pg_class c JOIN pg_catalog.pg_namespace n ON n.oid = c.relnamespace WHERE c.relkind IN (''
     @ squote ''r'' @ '', '' @ squote ''p'' @ '') AND n.nspname <> '' @ squote ''information_schema''
     @ '' AND n.nspname !~ '' @ squote ''^pg_'' @ '' ORDER BY n.nspname, c.relname''"

definition selected_publication_tables ::
  "('c, 'w) server_env \<Rightarrow> pg_server_config \<Rightarrow> 'c \<Rightarrow> ('w, (string \<times> string) list) stateful" where
  "selected_publication_tables env cfg c =
     sbind (pg_exec (sv_pg env) c all_tables_query) (\<lambda>res.
     sbind (slift (collect_results (publication_table env cfg res) [0..<length res])) (\<lambda>found.
       let tables = somes found in slift
       (if tables = []
        then Err (Configuration (''publication.autocreate.mode=filtered selected no PostgreSQL tables for publication ''
               @ debug_str (pvc_publication cfg)))
        else Ok tables)))"

definition qualified_publication_tables ::
  "('c, 'w) pg_env \<Rightarrow> (string \<times> string) list \<Rightarrow> string result" where
  "qualified_publication_tables pg tables =
     rbind (collect_results (\<lambda>(s, t). qualified_table pg s t) tables) (\<lambda>ts. Ok (join_with '', '' ts))"

definition is_true_text :: "string \<Rightarrow> bool" where
  "is_true_text s \<longleftrightarrow> s = ''true'' \<or> s = ''t''"

definition create_publication ::
  "('c, 'w) server_env \<Rightarrow> pg_server_config \<Rightarrow> 'c \<Rightarrow> string \<Rightarrow> ('w, unit) stateful" where
  "create_publication env cfg c identifier =
     (let options = (if pvc_publish_via_partition_root cfg
                     then '' WITH (publish_via_partition_root = true)'' else [])
      in
      sbind
        (case pvc_publication_autocreate_mode cfg of
           PubDisabled \<Rightarrow>
             slift (Err (Configuration (''publication '' @ debug_str (pvc_publication cfg)
               @ '' does not exist and publication autocreation is disabled'')))
         | PubAllTables \<Rightarrow> sreturn (''CREATE PUBLICATION '' @ identifier @ '' FOR ALL TABLES'' @ options)
         | PubFiltered \<Rightarrow>
             sbind (selected_publication_tables env cfg c) (\<lambda>tables.
             sbind (slift (qualified_publication_tables (sv_pg env) tables)) (\<lambda>names.
               sreturn (''CREATE PUBLICATION '' @ identifier @ '' FOR TABLE '' @ names @ options)))
         | PubNoTables \<Rightarrow> sreturn (''CREATE PUBLICATION '' @ identifier @ options))
        (\<lambda>statement. sbind (pg_exec (sv_pg env) c statement) (\<lambda>_. sreturn ())))"

definition bool_text :: "bool \<Rightarrow> string" where
  "bool_text b = (if b then ''true'' else ''false'')"

definition ensure_publication ::
  "('c, 'w) server_env \<Rightarrow> pg_server_config \<Rightarrow> 'c \<Rightarrow> ('w, unit) stateful" where
  "ensure_publication env cfg c =
     (let pg = sv_pg env; root = pvc_publish_via_partition_root cfg;
          publication = debug_str (pvc_publication cfg)
      in
      sbind (slift (quote_literal pg (pvc_publication cfg))) (\<lambda>literal.
      sbind (slift (quote_ident pg (pvc_publication cfg))) (\<lambda>identifier.
      sbind (pg_exec pg c (''SELECT puballtables::text, pubviaroot::text FROM pg_catalog.pg_publication WHERE pubname = '' @ literal))
        (\<lambda>res.
      if res = [] then create_publication env cfg c identifier
      else
      sbind (slift (required_value res 0 1 ''publication partition-root state'')) (\<lambda>root_text.
      if is_true_text root_text \<noteq> root
      then slift (Err (Configuration (''publication '' @ publication @ '' has publish_via_partition_root=''
             @ bool_text (is_true_text root_text) @ '', but source.publish_via_partition_root=''
             @ bool_text root @ ''; alter or recreate the publication so they match'')))
      else if pvc_publication_autocreate_mode cfg \<noteq> PubFiltered then sreturn ()
      else
      sbind (slift (required_value res 0 0 ''publication all-tables state'')) (\<lambda>all_tables.
      if is_true_text all_tables
      then slift (Err (Configuration (''publication '' @ publication
             @ '' is FOR ALL TABLES and cannot be updated in filtered mode'')))
      else
      sbind (selected_publication_tables env cfg c) (\<lambda>tables.
      sbind (slift (qualified_publication_tables pg tables)) (\<lambda>names.
      sbind (pg_exec pg c (''ALTER PUBLICATION '' @ identifier @ '' SET TABLE '' @ names)) (\<lambda>_.
        sreturn ())))))))))"

section \<open>Replica identities\<close>

definition replica_identity_query :: "string \<Rightarrow> string" where
  "replica_identity_query publication =
     ''SELECT p.schemaname, p.tablename, c.relreplident::text, COALESCE(i.relname, '' @ squote []
     @ '') FROM pg_catalog.pg_publication_tables p JOIN pg_catalog.pg_namespace n ON n.nspname = p.schemaname JOIN pg_catalog.pg_class c ON c.relnamespace = n.oid AND c.relname = p.tablename LEFT JOIN pg_catalog.pg_index x ON x.indrelid = c.oid AND x.indisreplident LEFT JOIN pg_catalog.pg_class i ON i.oid = x.indexrelid WHERE p.pubname = ''
     @ publication @ '' ORDER BY p.schemaname, p.tablename''"

definition rule_matches ::
  "('c, 'w) server_env \<Rightarrow> string \<Rightarrow> identity_rule \<Rightarrow> bool result" where
  "rule_matches env name rule =
     (case sv_regex env False (anchored (ir_table rule)) of
        None \<Rightarrow> Err (Configuration (''PostgreSQL replica identity table selector ''
                  @ debug_str (ir_table rule) @ '' is invalid: '' @ sv_regex_error env (ir_table rule)))
      | Some m \<Rightarrow> Ok (m name))"

definition identity_unchanged :: "identity_rule \<Rightarrow> string \<Rightarrow> string \<Rightarrow> bool" where
  "identity_unchanged rule current index =
     (case ir_identity rule of
        IdentityDefault \<Rightarrow> current = ''d''
      | IdentityFull \<Rightarrow> current = ''f''
      | IdentityNothing \<Rightarrow> current = ''n''
      | IdentityIndex \<Rightarrow> current = ''i'' \<and> ir_index rule = Some index)"

definition identity_change ::
  "('c, 'w) server_env \<Rightarrow> pg_server_config \<Rightarrow> pg_result \<Rightarrow> nat \<Rightarrow> (string \<times> string \<times> identity_rule) option result"
  where
  "identity_change env cfg res i =
     rbind (required_value res i 0 ''replica identity table schema'') (\<lambda>schema.
     rbind (required_value res i 1 ''replica identity table name'') (\<lambda>table.
       if \<not> selected env cfg schema table then Ok None
       else
         (let name = schema @ ''.'' @ table in
          rbind (collect_results (\<lambda>rule. rbind (rule_matches env name rule) (\<lambda>m. Ok (m, rule)))
                   (pvc_replica_identity_autoset_values cfg)) (\<lambda>tried.
            case map snd (filter fst tried) of
              [] \<Rightarrow> Ok None
            | [rule] \<Rightarrow>
                rbind (required_value res i 2 ''replica identity mode'') (\<lambda>current.
                rbind (required_value res i 3 ''replica identity index'') (\<lambda>index.
                  Ok (if identity_unchanged rule current index then None else Some (schema, table, rule))))
            | _ \<Rightarrow> Err (Configuration (''more than one replica.identity.autoset.values rule matches PostgreSQL table ''
                     @ name))))))"

definition identity_changes ::
  "('c, 'w) server_env \<Rightarrow> pg_server_config \<Rightarrow> pg_result \<Rightarrow> (string \<times> string \<times> identity_rule) list result"
  where
  "identity_changes env cfg res =
     rbind (collect_results (identity_change env cfg res) [0..<length res]) (\<lambda>found. Ok (somes found))"

definition identity_clause ::
  "('c, 'w) pg_env \<Rightarrow> string \<Rightarrow> string \<Rightarrow> identity_rule \<Rightarrow> string result" where
  "identity_clause pg schema table rule =
     (case ir_identity rule of
        IdentityDefault \<Rightarrow> Ok ''DEFAULT''
      | IdentityFull \<Rightarrow> Ok ''FULL''
      | IdentityNothing \<Rightarrow> Ok ''NOTHING''
      | IdentityIndex \<Rightarrow>
          rbind (ok_or (Configuration (''PostgreSQL replica identity index is missing for '' @ schema @ ''.''
                   @ table)) (ir_index rule)) (\<lambda>index.
          rbind (quote_ident pg index) (\<lambda>q. Ok (''USING INDEX '' @ q))))"

definition alter_statement :: "('c, 'w) pg_env \<Rightarrow> string \<times> string \<times> identity_rule \<Rightarrow> string result" where
  "alter_statement pg = (\<lambda>(schema, table, rule).
     rbind (qualified_table pg schema table) (\<lambda>qualified.
     rbind (identity_clause pg schema table rule) (\<lambda>clause.
       Ok (''ALTER TABLE '' @ qualified @ '' REPLICA IDENTITY '' @ clause))))"

definition alter_identity ::
  "('c, 'w) pg_env \<Rightarrow> 'c \<Rightarrow> string \<times> string \<times> identity_rule \<Rightarrow> ('w, unit) stateful" where
  "alter_identity pg c change =
     sbind (slift (alter_statement pg change)) (\<lambda>statement.
     sbind (exec_or pg c statement
              (\<lambda>msg. Configuration (''failed to set PostgreSQL replica identity for '' @ fst change @ ''.''
                 @ fst (snd change) @ '': '' @ msg))) (\<lambda>_. sreturn ()))"

definition apply_changes ::
  "('c, 'w) pg_env \<Rightarrow> 'c \<Rightarrow> (string \<times> string \<times> identity_rule) list \<Rightarrow> ('w, unit) stateful" where
  "apply_changes pg c changes =
     sbind (pg_exec pg c ''BEGIN'') (\<lambda>_ w.
       case sfor changes (alter_identity pg c) w of
         (Inl e, w1) \<Rightarrow> (Err e, snd (pe_exec pg c ''ROLLBACK'' w1))
       | (Inr _, w1) \<Rightarrow> sbind (pg_exec pg c ''COMMIT'') (\<lambda>_. sreturn ()) w1)"

definition apply_replica_identity ::
  "('c, 'w) server_env \<Rightarrow> pg_server_config \<Rightarrow> 'c \<Rightarrow> ('w, unit) stateful" where
  "apply_replica_identity env cfg c =
     (if pvc_replica_identity_autoset_values cfg = [] then sreturn ()
      else
        (let pg = sv_pg env in
         sbind (slift (quote_literal pg (pvc_publication cfg))) (\<lambda>publication.
         sbind (pg_exec pg c (replica_identity_query publication)) (\<lambda>res.
         sbind (slift (identity_changes env cfg res)) (\<lambda>changes.
           if changes = [] then sreturn () else apply_changes pg c changes)))))"

section \<open>The signal table\<close>

definition signal_columns_ok ::
  "string \<Rightarrow> pg_result \<Rightarrow> nat \<Rightarrow> string \<Rightarrow> unit result" where
  "signal_columns_ok coll columns i expected =
     rbind (required_value columns i 0 ''signal column name'') (\<lambda>name.
     rbind (required_value columns i 1 ''signal column type'') (\<lambda>data_type.
       if name \<noteq> expected \<or> data_type \<notin> {''text'', ''character varying'', ''character''}
       then Err (Configuration (''PostgreSQL signal table '' @ debug_str coll @ '' column ''
              @ show_nat (i + 1) @ '' must be text-compatible '' @ expected))
       else Ok ()))"

definition validate_signal_table ::
  "('c, 'w) server_env \<Rightarrow> pg_server_config \<Rightarrow> 'c \<Rightarrow> ('w, unit) stateful" where
  "validate_signal_table env cfg c =
     (case pgc_signal_data_collection (server_pg_config cfg) of
        None \<Rightarrow> sreturn ()
      | Some coll \<Rightarrow>
          (let pg = sv_pg env in
           sbind (slift (ok_or (Configuration ''signal_data_collection must be schema-qualified'')
                    (split_once CHR ''.'' coll))) (\<lambda>(schema, table).
           sbind (slift (quote_literal pg (pvc_publication cfg))) (\<lambda>publication.
           sbind (slift (quote_literal pg schema)) (\<lambda>schema_literal.
           sbind (slift (quote_literal pg table)) (\<lambda>table_literal.
           sbind (scalar pg c
                    (''SELECT EXISTS (SELECT 1 FROM pg_catalog.pg_publication_tables WHERE pubname = ''
                     @ publication @ '' AND schemaname = '' @ schema_literal @ '' AND tablename = ''
                     @ table_literal @ '')'')) (\<lambda>published.
           if published \<noteq> ''t''
           then slift (Err (Configuration (''PostgreSQL signal table '' @ debug_str coll
                  @ '' is not part of publication '' @ debug_str (pvc_publication cfg))))
           else
           sbind (pg_exec pg c
                    (''SELECT column_name, data_type FROM information_schema.columns WHERE table_schema = ''
                     @ schema_literal @ '' AND table_name = '' @ table_literal
                     @ '' ORDER BY ordinal_position'')) (\<lambda>columns. slift
             (if length columns \<noteq> 3
              then Err (Configuration (''PostgreSQL signal table '' @ debug_str coll
                     @ '' must contain exactly id, type, and data columns''))
              else rbind (signal_columns_ok coll columns 0 ''id'') (\<lambda>_.
                   rbind (signal_columns_ok coll columns 1 ''type'') (\<lambda>_.
                     signal_columns_ok coll columns 2 ''data'')))))))))))"

section \<open>Validation of the source\<close>

definition validate_slot_stream_server_version :: "(string \<times> string) list \<Rightarrow> u32 \<Rightarrow> unit result" where
  "validate_slot_stream_server_version params version =
     (if params \<noteq> [] \<and> version < 160000
      then Err (Configuration (''source.slot_stream_params requires PostgreSQL 16 or newer; server_version_num=''
             @ show_word version))
      else Ok ())"

definition check_slot ::
  "pg_server_config \<Rightarrow> pg_result \<Rightarrow> unit result" where
  "check_slot cfg res =
     (let slot_name = debug_str (pgc_slot_name (server_pg_config cfg)) in
      if res \<noteq> []
      then rbind (required_value res 0 0 ''slot plugin'') (\<lambda>plugin.
             if plugin \<noteq> ''pgoutput''
             then Err (Configuration (''replication slot '' @ slot_name @ '' uses plugin ''
                    @ debug_str plugin @ '', expected pgoutput''))
             else Ok ())
      else if pvc_slot_ownership cfg = SlotExternal
      then Err (Configuration (''externally managed replication slot '' @ slot_name @ '' does not exist''))
      else Ok ())"

text \<open>The transformer and the schemas that \<^verbatim>\<open>validate_source\<close> stores in the connector.\<close>

definition validate_source ::
  "('c, 'w) server_env \<Rightarrow> pg_server_config \<Rightarrow> ('w, column_transformer \<times> schema_map) stateful" where
  "validate_source env cfg =
     (let pg = sv_pg env in
      sbind (slift (transformer_new (sv_regex env) (pvc_column_transformations cfg))) (\<lambda>transformer.
      sbind (pe_connect pg) (\<lambda>c.
      sbind (scalar pg c ''SHOW server_version_num'') (\<lambda>version_text.
      sbind (slift (ok_or (Source (''invalid PostgreSQL version: '' @ unsigned_error 32 version_text))
               (parse_unsigned 32 version_text))) (\<lambda>version.
      if version < 140000
      then slift (Err (Configuration (''PostgreSQL 14 or newer is required; server_version_num='' @ show_nat version)))
      else
      sbind (slift (validate_slot_stream_server_version (pvc_slot_stream_params cfg) (of_nat version))) (\<lambda>_.
      sbind (scalar pg c ''SHOW wal_level'') (\<lambda>wal_level.
      if wal_level \<noteq> ''logical''
      then slift (Err (Configuration (''PostgreSQL wal_level must be logical; found '' @ debug_str wal_level)))
      else
      sbind (ensure_publication env cfg c) (\<lambda>_.
      sbind (apply_replica_identity env cfg c) (\<lambda>_.
      sbind (validate_signal_table env cfg c) (\<lambda>_.
      sbind (slift (quote_literal pg (pgc_slot_name (server_pg_config cfg)))) (\<lambda>slot.
      sbind (pg_exec pg c (''SELECT plugin, active::text FROM pg_replication_slots WHERE slot_name = '' @ slot))
        (\<lambda>slot_result.
      sbind (slift (check_slot cfg slot_result)) (\<lambda>_.
      sbind (discover_tables env cfg c) (\<lambda>schemas. slift
        (if schemas = [] \<and> pvc_publication_autocreate_mode cfg \<noteq> PubNoTables
         then Err (Configuration ''the publication and table filters select no tables'')
         else Ok (transformer, schemas))))))))))))))))"

text \<open>The schemas are discovered once more on a connection of their own before streaming.\<close>

definition load_current_schemas ::
  "('c, 'w) server_env \<Rightarrow> pg_server_config \<Rightarrow> ('w, schema_map) stateful" where
  "load_current_schemas env cfg = sbind (pe_connect (sv_pg env)) (discover_tables env cfg)"

section \<open>The log of statements\<close>

text \<open>An environment that also records every statement it is given, in the order of execution.\<close>

definition logged :: "('c, 'w) pg_env \<Rightarrow> ('c, 'w \<times> string list) pg_env" where
  "logged pg =
     \<lparr>pe_connect = (\<lambda>(w, l). case pe_connect pg w of (r, w') \<Rightarrow> (r, (w', l))),
      pe_exec = (\<lambda>c q (w, l). case pe_exec pg c q w of (r, w') \<Rightarrow> (r, (w', l @ [q]))),
      pe_quote_ident = pe_quote_ident pg, pe_quote_literal = pe_quote_literal pg\<rparr>"

lemma logged_exec:
  "pe_exec (logged pg) c q (w, l) = (fst (pe_exec pg c q w), (snd (pe_exec pg c q w), l @ [q]))"
  by (simp add: logged_def split_beta)

lemma logged_quote [simp]:
  "quote_ident (logged pg) = quote_ident pg" "quote_literal (logged pg) = quote_literal pg"
  by (simp_all add: fun_eq_iff quote_ident_def quote_literal_def logged_def)

lemma logged_alter_statement [simp]: "alter_statement (logged pg) = alter_statement pg"
  by (simp add: fun_eq_iff alter_statement_def qualified_table_def identity_clause_def
      split: replica_identity.splits)

lemma pg_exec_logged:
  "pg_exec (logged pg) c q (w, l) = (r, (w', l')) \<Longrightarrow> l' = l @ [q]"
  by (auto simp: pg_exec_def logged_exec split: prod.splits)

lemma exec_or_logged:
  "exec_or (logged pg) c q f (w, l) = (r, (w', l')) \<Longrightarrow> l' = l @ [q]"
  by (auto simp: exec_or_def logged_exec split: prod.splits sum.splits)

lemma alter_identity_logged:
  assumes "alter_identity (logged pg) c change (w, l) = (r, (w', l'))"
  shows "(\<exists>e. r = Err e \<and> l' = l)
         \<or> (\<exists>q. alter_statement pg change = Ok q \<and> l' = l @ [q])"
  using assms
  by (cases "alter_statement pg change")
     (auto simp: alter_identity_def sbind_def slift_def sreturn_def split: prod.splits sum.splits
      dest: exec_or_logged)

lemma alter_identity_logged_Ok:
  assumes "alter_identity (logged pg) c change (w, l) = (Ok x, (w', l'))"
  shows "\<exists>q. alter_statement pg change = Ok q \<and> l' = l @ [q]"
  using alter_identity_logged [OF assms] by simp

text \<open>The statements of a prefix of the changes; of all of them when the loop succeeds.\<close>

lemma alter_loop_logged:
  assumes "sfor changes (alter_identity (logged pg) c) (w, l) = (r, (w', l'))"
  shows "\<exists>stmts. l' = l @ stmts \<and> length stmts \<le> length changes
           \<and> collect_results (alter_statement pg) (take (length stmts) changes) = Ok stmts
           \<and> (r = Ok () \<longrightarrow> length stmts = length changes)"
  using assms
proof (induction changes arbitrary: w l)
  case Nil
  then show ?case by (auto simp: sreturn_def)
next
  case (Cons ch changes)
  obtain r1 w1 l1 where step: "alter_identity (logged pg) c ch (w, l) = (r1, (w1, l1))"
    by (metis prod.exhaust_sel)
  show ?case
  proof (cases r1)
    case (Inl e)
    then have r: "r = Err e" "l' = l1"
      using Cons.prems step by (auto simp: sbind_def)
    from alter_identity_logged [OF step] show ?thesis
    proof
      assume "\<exists>e. r1 = Err e \<and> l1 = l"
      then show ?thesis using r by (intro exI [of _ "[]"]) auto
    next
      assume "\<exists>q. alter_statement pg ch = Ok q \<and> l1 = l @ [q]"
      then obtain q where "alter_statement pg ch = Ok q" "l1 = l @ [q]" by blast
      then show ?thesis using r by (intro exI [of _ "[q]"]) auto
    qed
  next
    case (Inr u)
    then obtain q where q: "alter_statement pg ch = Ok q" "l1 = l @ [q]"
      using alter_identity_logged_Ok step by metis
    have "sfor changes (alter_identity (logged pg) c) (w1, l1) = (r, (w', l'))"
      using Cons.prems step Inr by (simp add: sbind_def)
    from Cons.IH [OF this] obtain stmts where
      "l' = l1 @ stmts" "length stmts \<le> length changes"
      "collect_results (alter_statement pg) (take (length stmts) changes) = Ok stmts"
      "r = Ok () \<longrightarrow> length stmts = length changes" by blast
    with q show ?thesis by (intro exI [of _ "q # stmts"]) auto
  qed
qed

definition is_Err :: "'a result \<Rightarrow> bool" where
  "is_Err r = (case r of Inl _ \<Rightarrow> True | Inr _ \<Rightarrow> False)"

lemma is_Err_simps [simp]: "is_Err (Err e)" "\<not> is_Err (Ok x)"
  by (simp_all add: is_Err_def)

lemma apply_changes_logged:
  assumes "apply_changes (logged pg) c changes (w, l) = (r, (w', l'))"
  shows "\<exists>stmts. collect_results (alter_statement pg) (take (length stmts) changes) = Ok stmts
         \<and> (l' = l @ [''BEGIN''] \<and> is_Err r
            \<or> l' = l @ ''BEGIN'' # stmts @ [''ROLLBACK''] \<and> is_Err r
            \<or> l' = l @ ''BEGIN'' # stmts @ [''COMMIT''] \<and> length stmts = length changes)"
proof -
  obtain r0 w0 l0 where b: "pg_exec (logged pg) c ''BEGIN'' (w, l) = (r0, (w0, l0))"
    by (metis prod.exhaust_sel)
  have l0: "l0 = l @ [''BEGIN'']" by (rule pg_exec_logged [OF b])
  show ?thesis
  proof (cases r0)
    case (Inl e)
    then show ?thesis using assms b l0 by (intro exI [of _ "[]"]) (auto simp: apply_changes_def sbind_def)
  next
    case (Inr u)
    obtain r1 w1 l1 where loop: "sfor changes (alter_identity (logged pg) c) (w0, l0) = (r1, (w1, l1))"
      by (metis prod.exhaust_sel)
    from alter_loop_logged [OF loop] obtain stmts where stmts: "l1 = l0 @ stmts"
      "collect_results (alter_statement pg) (take (length stmts) changes) = Ok stmts"
      "r1 = Ok () \<longrightarrow> length stmts = length changes" by blast
    show ?thesis
    proof (cases r1)
      case (Inl e)
      then have "r = Err e \<and> l' = l1 @ [''ROLLBACK'']"
        using assms b loop Inr by (auto simp: apply_changes_def sbind_def logged_exec)
      with stmts l0 show ?thesis by (intro exI [of _ stmts]) auto
    next
      case (Inr u1)
      then have "sbind (pg_exec (logged pg) c ''COMMIT'') (\<lambda>_. sreturn ()) (w1, l1) = (r, (w', l'))"
        using assms b loop \<open>r0 = Inr u\<close> by (auto simp: apply_changes_def sbind_def)
      then have "l' = l1 @ [''COMMIT'']"
        by (auto simp: sbind_def sreturn_def split: prod.splits sum.splits dest: pg_exec_logged)
      with stmts l0 Inr show ?thesis by (intro exI [of _ stmts]) auto
    qed
  qed
qed

text \<open>The replica identities are changed in one transaction: the statements that
  \<^verbatim>\<open>apply_replica_identity\<close> runs are none, the query of the identities alone, or that query followed by
  \<open>BEGIN\<close> alone, by \<open>BEGIN\<close>, the \<open>ALTER TABLE\<close> statements of a prefix of the changes the query's
  result asks for and \<open>ROLLBACK\<close>, the result then being an error, or by \<open>BEGIN\<close>, the statements of
  all the changes and \<open>COMMIT\<close>; without a change there is no transaction.\<close>

theorem replica_identity_atomic:
  assumes env: "sv_pg env = logged pg"
    and run: "apply_replica_identity env cfg c (w, log) = (r, (w', log'))"
  shows "log' = log
         \<or> (\<exists>publication. quote_literal pg (pvc_publication cfg) = Ok publication \<and>
             (let q = replica_identity_query publication; l = log @ [q] in
                log' = l
                \<or> (\<exists>res changes stmts.
                     fst (pg_exec pg c q w) = Ok res \<and> identity_changes env cfg res = Ok changes
                     \<and> changes \<noteq> []
                     \<and> collect_results (alter_statement pg) (take (length stmts) changes) = Ok stmts
                     \<and> (log' = l @ [''BEGIN''] \<and> is_Err r
                        \<or> log' = l @ ''BEGIN'' # stmts @ [''ROLLBACK''] \<and> is_Err r
                        \<or> log' = l @ ''BEGIN'' # stmts @ [''COMMIT''] \<and> length stmts = length changes))))"
proof (cases "pvc_replica_identity_autoset_values cfg = []")
  case True
  then show ?thesis using run by (simp add: apply_replica_identity_def sreturn_def)
next
  case False
  note r = run [unfolded apply_replica_identity_def Let_def env, simplified False if_False]
  show ?thesis
  proof (cases "quote_literal pg (pvc_publication cfg)")
    case (Inl e)
    then show ?thesis using r by (simp add: slift_def)
  next
    case (Inr publication)
    let ?q = "replica_identity_query publication"
    obtain r0 w0 l0 where q: "pg_exec (logged pg) c ?q (w, log) = (r0, (w0, l0))"
      by (metis prod.exhaust_sel)
    have l0: "l0 = log @ [?q]" by (rule pg_exec_logged [OF q])
    have r0: "fst (pg_exec pg c ?q w) = r0"
      using q by (auto simp: pg_exec_def logged_exec split: prod.splits)
    show ?thesis
    proof (cases "log' = log @ [?q]")
      case True
      then show ?thesis using Inr by auto
    next
      case more: False
      then obtain res where res: "r0 = Ok res"
        using r q l0 Inr by (cases r0) (auto simp: sbind_def)
      obtain changes where changes: "identity_changes env cfg res = Ok changes"
        using r q l0 Inr res more
        by (cases "identity_changes env cfg res") (auto simp: sbind_def slift_def)
      have "changes \<noteq> [] \<and> apply_changes (logged pg) c changes (w0, l0) = (r, (w', log'))"
        using r q Inr res changes more l0
        by (auto simp: sbind_def slift_def sreturn_def split: if_splits)
      with apply_changes_logged [of pg c changes w0 l0 r w' log'] obtain stmts where
        "collect_results (alter_statement pg) (take (length stmts) changes) = Ok stmts"
        "log' = l0 @ [''BEGIN''] \<and> is_Err r
         \<or> log' = l0 @ ''BEGIN'' # stmts @ [''ROLLBACK''] \<and> is_Err r
         \<or> log' = l0 @ ''BEGIN'' # stmts @ [''COMMIT''] \<and> length stmts = length changes"
        by blast
      with \<open>changes \<noteq> [] \<and> _\<close> Inr l0 r0 res changes show ?thesis by (auto simp: Let_def)
    qed
  qed
qed

text \<open>
  A server with the table \<^verbatim>\<open>public.orders\<close>, which knows one log position; its answers are a list.
\<close>

definition sample_server_env :: "(unit, (string + pg_result) list) pg_env \<Rightarrow> (unit, (string + pg_result) list) server_env"
  where
  "sample_server_env pg =
     \<lparr>sv_pg = pg, sv_regex = \<lambda>ci p. Some (\<lambda>s. anchored s = p), sv_regex_error = \<lambda>_. [],
      sv_format_lsn = (\<lambda>n. ''0/'' @ show_nat (unat n)),
      sv_parse_lsn = (\<lambda>s. if s = ''0/7'' then Inr 7 else Inl ''unknown'')\<rparr>"

definition sample_server_config :: "mismatch_strategy \<Rightarrow> pg_server_config" where
  "sample_server_config m =
     \<lparr>pvc_stream = sample_stream_config, pvc_publication = ''pub'', pvc_slot_ownership = SlotManaged,
      pvc_offset_mismatch_strategy = m, pvc_publication_autocreate_mode = PubFiltered,
      pvc_publish_via_partition_root = False,
      pvc_replica_identity_autoset_values =
        [\<lparr>ir_table = ''public.orders'', ir_identity = IdentityFull, ir_index = None\<rparr>],
      pvc_snapshot_locks = False, pvc_snapshot_lock_timeout_ms = 0, pvc_slot_stream_params = [],
      pvc_slot_failover = False, pvc_column_transformations = []\<rparr>"

definition logged_env :: "(unit, (string + pg_result) list \<times> string list) server_env" where
  "logged_env =
     \<lparr>sv_pg = logged sample_pg, sv_regex = \<lambda>ci p. Some (\<lambda>s. anchored s = p), sv_regex_error = \<lambda>_. [],
      sv_format_lsn = \<lambda>_. [], sv_parse_lsn = \<lambda>_. Inl []\<rparr>"

definition identity_answers :: "(string + pg_result) list" where
  "identity_answers =
     [Inr [map Some [''public'', ''orders'', ''d'', []]], Inr [], Inr [], Inr []]"

lemma sample_server_simps [simp]:
  "sv_pg logged_env = logged sample_pg"
  "pvc_publication (sample_server_config m) = ''pub''"
  "pgc_slot_name (server_pg_config (sample_server_config m)) = ''slot''"
  "pvc_offset_mismatch_strategy (sample_server_config m) = m"
  "pvc_slot_ownership (sample_server_config m) = SlotManaged"
  "sv_pg (sample_server_env pg) = pg"
  by (simp_all add: logged_env_def sample_server_config_def sample_stream_config_def
      sample_server_env_def sample_pg_config_def)

lemma logged_sample_exec:
  "pg_exec (logged sample_pg) c q (r # rs, l) = (pg_error r, (rs, l @ [q]))"
  by (simp add: pg_exec_def logged_exec) (simp add: sample_pg_def)

lemma sample_identity_change:
  "identity_changes logged_env (sample_server_config m) [map Some [''public'', ''orders'', ''d'', []]]
   = Ok [(''public'', ''orders'', \<lparr>ir_table = ''public.orders'', ir_identity = IdentityFull, ir_index = None\<rparr>)]"
proof -
  have "selected logged_env (sample_server_config m) ''public'' ''orders''"
    by (simp add: selected_def logged_env_def sample_server_config_def table_includes_def
        sample_stream_config_def is_signal_table_def sample_pg_config_def)
  then show ?thesis
    by (simp add: identity_changes_def identity_change_def required_value_def get_value_def
        rule_matches_def logged_env_def sample_server_config_def identity_unchanged_def somes_def)
qed

lemma sample_identity_run:
  "apply_replica_identity logged_env (sample_server_config m) () (identity_answers, [])
   = (Ok (), ([], [replica_identity_query (squote ''pub''), ''BEGIN'',
                   ''ALTER TABLE public.orders REPLICA IDENTITY FULL'', ''COMMIT'']))"
proof -
  have some: "pvc_replica_identity_autoset_values (sample_server_config m) \<noteq> []"
    by (simp add: sample_server_config_def)
  have alter: "alter_statement sample_pg (''public'', ''orders'',
      \<lparr>ir_table = ''public.orders'', ir_identity = IdentityFull, ir_index = None\<rparr>)
      = Ok ''ALTER TABLE public.orders REPLICA IDENTITY FULL''"
    by (simp add: alter_statement_def identity_clause_def qualified_table_def)
  have exec: "exec_or (logged sample_pg) () q f (Inr res # rs, l) = (Ok res, (rs, l @ [q]))" for q f res rs l
    by (simp add: exec_or_def logged_exec) (simp add: sample_pg_def)
  show ?thesis
    using some
    by (simp add: apply_replica_identity_def identity_answers_def Let_def sbind_def slift_def logged_sample_exec
        pg_error_def sample_identity_change apply_changes_def alter_identity_def alter exec sreturn_def
        del: list.map)
qed

lemma replica_identity_atomic_witness:
  "\<exists>res changes stmts. fst (pg_exec sample_pg () (replica_identity_query (squote ''pub'')) identity_answers) = Ok res
     \<and> identity_changes logged_env (sample_server_config NoValidation) res = Ok changes
     \<and> collect_results (alter_statement sample_pg) (take (length stmts) changes) = Ok stmts
     \<and> stmts = [''ALTER TABLE public.orders REPLICA IDENTITY FULL''] \<and> length changes = 1"
  using replica_identity_atomic [of logged_env sample_pg "sample_server_config NoValidation" "()"
      identity_answers "[]", OF _ sample_identity_run]
  by (auto simp: Let_def)

section \<open>Resuming from a slot\<close>

definition checkpoint_end :: "postgres_position \<Rightarrow> u64" where
  "checkpoint_end cp = (case pg_commit_lsn cp of None \<Rightarrow> pg_lsn cp | Some l \<Rightarrow> l)"

lemma advance_slot_Ok:
  assumes "advance_slot env n m c slot cp l w = (Ok r, w')"
  shows "\<not> (pg_transaction_id cp \<noteq> None \<and> pg_commit_lsn cp = None)
         \<and> (rr_preserve_checkpoint_position r \<longrightarrow> rr_start_lsn r = pg_lsn cp)
         \<and> (\<not> rr_preserve_checkpoint_position r \<longrightarrow> rr_start_lsn r > l)"
  using assms
  by (auto simp: advance_slot_def slift_def sbind_Ok_iff split: if_splits)

lemma resume_slot_decision_Ok:
  assumes "resume_slot_decision env l sl m = Ok d"
  shows "m = TrustOffset \<longrightarrow> sl \<le> l"
    and "d = UseSlot \<longrightarrow> sl > l \<and> (m = TrustSlot \<or> m = TrustGreaterLsn)"
    and "d = AdvanceSlot \<longrightarrow> sl < l \<and> (m = TrustOffset \<or> m = TrustGreaterLsn)"
  using assms by (cases m; auto simp: resume_slot_decision_def split: if_splits)+

text \<open>The steps of a resolution that succeeds.\<close>

lemma resolve_resume_slot_steps:
  assumes "resolve_resume_slot env cfg cp w = (Ok r, w')"
  obtains c slot res wal text_lsn slot_lsn d w1 where
    "required_value res 0 0 ''slot plugin'' = Ok ''pgoutput''"
    "required_value res 0 1 ''slot WAL status'' = Ok wal" "wal \<noteq> ''unreserved''" "wal \<noteq> ''lost''"
    "required_value res 0 2 ''slot LSN'' = Ok text_lsn"
    "pg_error (sv_parse_lsn env text_lsn) = Ok slot_lsn"
    "resume_slot_decision env (checkpoint_end cp) slot_lsn (pvc_offset_mismatch_strategy cfg) = Ok d"
    "(case d of
        UseCheckpoint \<Rightarrow>
          sreturn \<lparr>rr_start_lsn = pg_lsn cp, rr_preserve_checkpoint_position = True\<rparr>
      | UseSlot \<Rightarrow> sreturn \<lparr>rr_start_lsn = slot_lsn, rr_preserve_checkpoint_position = False\<rparr>
      | AdvanceSlot \<Rightarrow> advance_slot env (pgc_slot_name (server_pg_config cfg))
          (pvc_offset_mismatch_strategy cfg) c slot cp (checkpoint_end cp)) w1 = (Ok r, w')"
  using assms
  by (auto simp: resolve_resume_slot_def Let_def sbind_Ok_iff slift_def
      checkpoint_end_def [symmetric] split: if_splits)

lemma resolved_position:
  assumes last: "(case d of
        UseCheckpoint \<Rightarrow>
          sreturn \<lparr>rr_start_lsn = pg_lsn cp, rr_preserve_checkpoint_position = True\<rparr>
      | UseSlot \<Rightarrow> sreturn \<lparr>rr_start_lsn = slot_lsn, rr_preserve_checkpoint_position = False\<rparr>
      | AdvanceSlot \<Rightarrow> advance_slot env n m c slot cp (checkpoint_end cp)) w1 = (Ok r, w')"
  shows "(rr_preserve_checkpoint_position r \<longrightarrow> rr_start_lsn r = pg_lsn cp)
        \<and> (\<not> rr_preserve_checkpoint_position r \<longrightarrow>
             (d = UseSlot \<and> rr_start_lsn r = slot_lsn)
             \<or> (d = AdvanceSlot \<and> rr_start_lsn r > checkpoint_end cp
                \<and> \<not> (pg_transaction_id cp \<noteq> None \<and> pg_commit_lsn cp = None)))"
  using last by (cases d) (auto simp: sreturn_def dest: advance_slot_Ok)

lemma resolve_resume_slot_position:
  assumes "resolve_resume_slot env cfg cp w = (Ok r, w')"
  shows "rr_preserve_checkpoint_position r \<Longrightarrow> rr_start_lsn r = pg_lsn cp"
    and "\<not> rr_preserve_checkpoint_position r \<Longrightarrow> rr_start_lsn r > checkpoint_end cp"
proof -
  from assms obtain c slot slot_lsn d w1 where
    dec: "resume_slot_decision env (checkpoint_end cp) slot_lsn (pvc_offset_mismatch_strategy cfg) = Ok d"
    and last: "(case d of
        UseCheckpoint \<Rightarrow>
          sreturn \<lparr>rr_start_lsn = pg_lsn cp, rr_preserve_checkpoint_position = True\<rparr>
      | UseSlot \<Rightarrow> sreturn \<lparr>rr_start_lsn = slot_lsn, rr_preserve_checkpoint_position = False\<rparr>
      | AdvanceSlot \<Rightarrow> advance_slot env (pgc_slot_name (server_pg_config cfg))
          (pvc_offset_mismatch_strategy cfg) c slot cp (checkpoint_end cp)) w1 = (Ok r, w')"
    by (rule resolve_resume_slot_steps)
  from resolved_position [OF last] resume_slot_decision_Ok(2) [OF dec]
  show "rr_preserve_checkpoint_position r \<Longrightarrow> rr_start_lsn r = pg_lsn cp"
    "\<not> rr_preserve_checkpoint_position r \<Longrightarrow> rr_start_lsn r > checkpoint_end cp" by auto
qed


definition slot_answers :: "(string + pg_result) list" where
  "slot_answers = [Inr [map Some [''pgoutput'', ''reserved'', ''0/7'']]]"

lemma slot_resume_run:
  "resolve_resume_slot (sample_server_env sample_pg) (sample_server_config TrustSlot)
     \<lparr>pg_lsn = 5, pg_commit_lsn = Some 5, pg_transaction_id = None, pg_xmin = None, pg_event_serial = 0,
      pg_snapshot = False\<rparr> slot_answers
   = (Ok \<lparr>rr_start_lsn = 7, rr_preserve_checkpoint_position = False\<rparr>, [])"
proof -
  have parse: "sv_parse_lsn (sample_server_env sample_pg) ''0/7'' = Inr 7"
    by (simp add: sample_server_env_def)
  have connect: "pe_connect sample_pg w = (Ok (), w)" for w
    by (simp add: sample_pg_def)
  show ?thesis
    by (simp add: resolve_resume_slot_def Let_def sbind_def connect slot_answers_def slift_def
        pg_error_def parse required_value_def get_value_def resume_slot_decision_def sreturn_def)
qed


end
