(* ===== verification/Pg_Source.thy ===== *)
theory Pg_Source
  imports Pg_Server Core_Runtime
begin

text \<open>
  The PostgreSQL connector as a whole, in \<^verbatim>\<open>crates/rustium-postgresql/src/source.rs\<close>: its retry
  budget, the flush of acknowledged log positions, the schema of a relation message, and the initial
  snapshot, which pages through the tables inside one transaction. The output channel is the list of
  the records sent so far; whether the receiver is still there for the next one is a function of the
  environment, and so is the clock.
\<close>

section \<open>Retries\<close>

definition duration_add :: "duration \<Rightarrow> duration \<Rightarrow> duration" where
  "duration_add a b = min (a + b) duration_max"

definition EFFECTIVELY_UNBOUNDED_RETRY_DURATION :: duration where
  "EFFECTIVELY_UNBOUNDED_RETRY_DURATION = 4294967295 * 1000000000"

record retry_config =
  rt_max_attempts :: u32
  rt_initial_delay :: duration
  rt_max_delay :: duration
  rt_multiplier :: nat
  rt_max_duration :: duration
  rt_jitter :: bool

fun budget_loop :: "nat \<Rightarrow> duration \<Rightarrow> duration \<Rightarrow> duration \<Rightarrow> duration" where
  "budget_loop 0 delay max_delay acc = duration_add acc (duration_mul max_delay 0)"
| "budget_loop (Suc m) delay max_delay acc =
     (if delay < max_delay
      then budget_loop m (min (duration_mul delay 2) max_delay) max_delay (duration_add acc delay)
      else duration_add acc (duration_mul max_delay (Suc m)))"

definition retry_delay_budget :: "retry_policy \<Rightarrow> duration" where
  "retry_delay_budget p =
     budget_loop (nat (sint (rp_max_retries p))) (rp_initial_delay p) (rp_max_delay p) 0"

definition postgres_retry_config :: "retry_policy \<Rightarrow> duration \<Rightarrow> retry_config" where
  "postgres_retry_config p connect_timeout =
     (let unlimited = sint (rp_max_retries p) < 0;
          max_attempts = (if unlimited then - 1 else sat_add (word_of_int (sint (rp_max_retries p))) 1)
      in \<lparr>rt_max_attempts = max_attempts, rt_initial_delay = rp_initial_delay p,
          rt_max_delay = rp_max_delay p, rt_multiplier = 2,
          rt_max_duration =
            (if unlimited then EFFECTIVELY_UNBOUNDED_RETRY_DURATION
             else duration_add (duration_mul connect_timeout (unat max_attempts)) (retry_delay_budget p)),
          rt_jitter = False\<rparr>)"

section \<open>Flushing an acknowledged position\<close>

text \<open>How the flush of the replication stream ended within the time given to it.\<close>

datatype flush_outcome = FlushCompleted | FlushFailed string | FlushTimedOut

definition flush_lsn_with_timeout ::
  "(u64 \<Rightarrow> string) \<Rightarrow> u64 \<Rightarrow> duration \<Rightarrow> flush_timeout_action \<Rightarrow> flush_outcome \<Rightarrow> unit result" where
  "flush_lsn_with_timeout format_lsn lsn timeout action outcome =
     (case outcome of
        FlushCompleted \<Rightarrow> Ok ()
      | FlushFailed msg \<Rightarrow>
          Err (Source (''PostgreSQL LSN flush operation for '' @ format_lsn lsn @ '' failed: '' @ msg))
      | FlushTimedOut \<Rightarrow>
          (case action of
             FlushFail \<Rightarrow>
               Err (Source (''PostgreSQL LSN flush operation for '' @ format_lsn lsn
                 @ '' did not complete within '' @ show_nat (timeout div 1000000)
                 @ '' ms; lsn.flush.timeout.action is configured to fail''))
           | FlushWarn \<Rightarrow> Ok ()
           | FlushIgnore \<Rightarrow> Ok ()))"

section \<open>The horizon of the slot\<close>

record 'c xmin_tracker =
  xt_connection :: "'c option"
  xt_query :: string
  xt_interval :: duration
  xt_last_fetch :: "duration option"
  xt_last_xmin :: "u32 option"

definition tracker_open ::
  "('c, 'w) pg_env \<Rightarrow> pg_config \<Rightarrow> duration \<Rightarrow> ('w, 'c xmin_tracker option) stateful" where
  "tracker_open pg config interval =
     (if interval = 0 then sreturn None
      else
        sbind (slift (quote_literal pg (pgc_slot_name config))) (\<lambda>slot.
        sbind (pe_connect pg) (\<lambda>c.
          sreturn (Some
            \<lparr>xt_connection = Some c,
             xt_query = ''SELECT catalog_xmin::text FROM pg_replication_slots WHERE slot_name = '' @ slot,
             xt_interval = interval, xt_last_fetch = None, xt_last_xmin = None\<rparr>))))"

text \<open>\<open>now\<close> is the reading of the monotonic clock before the query and \<open>fetched\<close> the one after it.\<close>

definition tracker_current ::
  "('c, 'w) pg_env \<Rightarrow> duration \<Rightarrow> duration \<Rightarrow> ('c xmin_tracker \<times> 'w, u32 option) stateful" where
  "tracker_current pg now fetched = (\<lambda>(t, w).
     if xt_last_xmin t \<noteq> None
        \<and> (case xt_last_fetch t of None \<Rightarrow> False | Some f \<Rightarrow> now - f < xt_interval t)
     then (Ok (xt_last_xmin t), (t, w))
     else
       (case xt_connection t of
          None \<Rightarrow> (Err (Source ''PostgreSQL xmin connection is unavailable''), (t, w))
        | Some c \<Rightarrow>
            (case pg_exec pg c (xt_query t) w of (res, w') \<Rightarrow>
               (case rbind res (\<lambda>res.
                        if res = [] then Ok None
                        else (case get_value res 0 0 of
                                None \<Rightarrow> Ok None
                              | Some v \<Rightarrow>
                                  rbind (ok_or (Source (''invalid PostgreSQL replication slot catalog_xmin ''
                                            @ debug_str v @ '': '' @ unsigned_error 32 v))
                                          (parse_unsigned 32 v))
                                    (\<lambda>n. Ok (Some (of_nat n))))) of
                  Inl e \<Rightarrow> (Err e, (t, w'))
                | Inr xmin \<Rightarrow>
                    (Ok xmin, (t\<lparr>xt_last_xmin := xmin, xt_last_fetch := Some fetched\<rparr>, w'))))))"

section \<open>The schema of a relation message\<close>

text \<open>A catalog that cannot be read is left out, a type that cannot be resolved gets a fallback.\<close>

definition resolve_or_fallback ::
  "('c, 'w) pg_env \<Rightarrow> 'c \<Rightarrow> pg_table_schema option \<Rightarrow> pg_table_schema option \<Rightarrow> relation_column \<Rightarrow>
   ('w, string \<times> bool) stateful" where
  "resolve_or_fallback pg c catalog previous column w =
     (case resolve_postgres_type pg c (rc_type_id column) (rc_type_modifier column) w of
        (Inl _, w') \<Rightarrow>
          (Ok (relation_type_name_fallback previous column,
               relation_type_supported_fallback catalog previous column), w')
      | (Inr x, w') \<Rightarrow> (Ok x, w'))"

definition relation_table_schema ::
  "('c, 'w) pg_env \<Rightarrow> pg_config \<Rightarrow> string \<Rightarrow> string \<Rightarrow> relation_column list \<Rightarrow> pg_table_schema option \<Rightarrow>
   ('w, pg_table_schema) stateful" where
  "relation_table_schema pg config schema table columns previous =
     sbind (pe_connect pg) (\<lambda>c.
     sbind (\<lambda>w. case query_table_schema pg config c schema table w of
                  (Inl _, w') \<Rightarrow> (Ok None, w') | (Inr catalog, w') \<Rightarrow> (Ok catalog, w')) (\<lambda>catalog.
     sbind (scollect (resolve_or_fallback pg c catalog previous) columns) (\<lambda>resolved. slift
       (schema_from_relation schema table
          (pgc_slot_name config @ ''.'' @ pgc_database config @ ''.'' @ schema @ ''.'' @ table
           @ ''.Envelope'')
          columns resolved (pgc_include_unknown_datatypes config) (pgc_money_fraction_digits config)
          previous catalog))))"

definition discover_runtime_table_schema ::
  "('c, 'w) pg_env \<Rightarrow> pg_config \<Rightarrow> string \<Rightarrow> string \<Rightarrow> ('w, pg_table_schema) stateful" where
  "discover_runtime_table_schema pg config schema table =
     sbind (pe_connect pg) (\<lambda>c. discover_table_schema pg config c schema table)"

section \<open>The output channel\<close>

record ('c, 'w) source_env =
  so_server :: "('c, 'w) server_env"
  so_snap :: "('c, 'w) snap_env"
  so_stream :: stream_env
  so_receiver :: "nat \<Rightarrow> bool"
  so_clock :: "nat \<Rightarrow> instant"

type_synonym 'w output_state = "'w \<times> source_record list"

definition send_output :: "('c, 'w) source_env \<Rightarrow> source_record \<Rightarrow> ('w output_state, unit) stateful" where
  "send_output env r = (\<lambda>(w, sent).
     if so_receiver env (length sent) then (Ok (), (w, sent @ [r])) else (Err Cancelled, (w, sent)))"

definition on_world :: "('w, 'a) stateful \<Rightarrow> ('w output_state, 'a) stateful" where
  "on_world m = (\<lambda>(w, sent). case m w of (r, w') \<Rightarrow> (r, (w', sent)))"

section \<open>The initial snapshot\<close>

record snapshot_config =
  snc_fetch_size :: nat
  snc_include_collections :: "string list"
  snc_isolation_mode :: isolation_mode

definition imports_snapshot :: "isolation_mode \<Rightarrow> bool" where
  "imports_snapshot m \<longleftrightarrow> m = Serializable \<or> m = RepeatableRead"

definition snapshot_transaction_statement :: "isolation_mode \<Rightarrow> bool \<Rightarrow> string" where
  "snapshot_transaction_statement mode imports_exported_snapshot =
     (if imports_exported_snapshot then ''BEGIN TRANSACTION ISOLATION LEVEL REPEATABLE READ READ ONLY''
      else
        (case mode of
           Serializable \<Rightarrow> ''BEGIN TRANSACTION ISOLATION LEVEL SERIALIZABLE READ ONLY DEFERRABLE''
         | RepeatableRead \<Rightarrow> ''BEGIN TRANSACTION ISOLATION LEVEL REPEATABLE READ READ ONLY''
         | ReadCommitted \<Rightarrow> ''BEGIN TRANSACTION ISOLATION LEVEL READ COMMITTED READ ONLY''
         | ReadUncommitted \<Rightarrow> ''BEGIN TRANSACTION ISOLATION LEVEL READ UNCOMMITTED READ ONLY''))"

definition snapshot_position :: "u64 \<Rightarrow> u64 \<Rightarrow> source_position" where
  "snapshot_position anchor ordinal =
     Postgres \<lparr>pg_lsn = anchor, pg_commit_lsn = Some anchor, pg_transaction_id = None, pg_xmin = None,
               pg_event_serial = ordinal, pg_snapshot = True\<rparr>"

definition snapshot_row ::
  "('c, 'w) source_env \<Rightarrow> pg_server_config \<Rightarrow> pg_table_schema \<Rightarrow> pg_result \<Rightarrow> nat \<Rightarrow> row result" where
  "snapshot_row env cfg schema res i =
     rbind (collect_results
              (\<lambda>(j, f).
                 if 2 ^ 31 \<le> j then Err (Invariant ''PostgreSQL snapshot has too many columns'')
                 else Ok (fs_name f,
                          pg_transform_value (se_digests (so_stream env)) (se_transformer (so_stream env))
                            schema (fs_name f)
                            (case get_value res i j of
                               None \<Rightarrow> DvNull
                             | Some v \<Rightarrow>
                                 convert_snapshot_value (se_text (so_stream env)) (server_pg_config cfg)
                                   schema f v)))
              (enumerate 0 (es_fields (pts_event_schema schema))))
       (\<lambda>kvs. Ok (fold (\<lambda>(k, v). im_insert k v) kvs []))"

definition snapshot_event ::
  "('c, 'w) source_env \<Rightarrow> pg_server_config \<Rightarrow> pg_table_schema \<Rightarrow> u64 \<Rightarrow> instant \<Rightarrow> u64 \<Rightarrow> row \<Rightarrow> change_event"
  where
  "snapshot_event env cfg schema anchor now ordinal after =
     (let position = snapshot_position anchor ordinal; st = so_stream env;
          config = server_pg_config cfg
      in \<lparr>ev_id = event_id_of st (pvc_stream cfg) position
                    (pgc_database config @ ''.'' @ pts_schema schema @ ''.'' @ pts_table schema) ordinal,
          ev_source = pg_source_metadata (se_version st) (se_connector_name st) config
                        (pts_schema schema) (pts_table schema) True 0,
          ev_position = position, ev_transaction = None, ev_operation = Read,
          ev_before = None, ev_after = Some after, ev_schema = pts_event_schema schema,
          ev_source_time = None, ev_observed_time = now\<rparr>)"

text \<open>The rows of one page, each under the next ordinal.\<close>

fun snapshot_page ::
  "('c, 'w) source_env \<Rightarrow> pg_server_config \<Rightarrow> pg_table_schema \<Rightarrow> u64 \<Rightarrow> pg_result \<Rightarrow> nat list \<Rightarrow> u64 \<Rightarrow>
   ('w output_state, u64) stateful" where
  "snapshot_page env cfg schema anchor res [] ordinal = sreturn ordinal"
| "snapshot_page env cfg schema anchor res (i # is) ordinal =
     sbind (slift (snapshot_row env cfg schema res i)) (\<lambda>after.
     sbind (\<lambda>(w, sent). send_output env (record_data
              (snapshot_event env cfg schema anchor (so_clock env (length sent)) (ordinal + 1) after))
              (w, sent))
       (\<lambda>_. snapshot_page env cfg schema anchor res is (ordinal + 1)))"

definition page_query :: "string \<Rightarrow> string \<Rightarrow> string \<Rightarrow> nat \<Rightarrow> nat \<Rightarrow> string" where
  "page_query projection qualified order_keys fetch_size offset =
     ''SELECT '' @ projection @ '' FROM '' @ qualified @ '' ORDER BY '' @ order_keys @ '' LIMIT ''
     @ show_nat fetch_size @ '' OFFSET '' @ show_nat offset"

definition page_parts ::
  "('c, 'w) pg_env \<Rightarrow> pg_table_schema \<Rightarrow> (string \<times> string \<times> string) result" where
  "page_parts pg schema =
     (let fls = es_fields (pts_event_schema schema) in
      rbind (qualified_table pg (pts_schema schema) (pts_table schema)) (\<lambda>qualified.
      rbind (collect_results (\<lambda>f. quote_ident pg (fs_name f)) (filter fs_primary_key fls)) (\<lambda>keys.
      rbind (text_projection pg fls) (\<lambda>projection.
        Ok (if projection = [] then ''NULL'' else projection, qualified,
            if keys = [] then ''ctid'' else join_with '', '' keys)))))"

text \<open>The pages of a table; \<open>None\<close> when they never end.\<close>

partial_function (option) snapshot_pages ::
  "('c, 'w) source_env \<Rightarrow> pg_server_config \<Rightarrow> 'c \<Rightarrow> pg_table_schema \<Rightarrow> u64 \<Rightarrow> nat \<Rightarrow>
   (nat \<Rightarrow> string) \<Rightarrow> nat \<Rightarrow> u64 \<Rightarrow> 'w output_state \<Rightarrow> (u64 result \<times> 'w output_state) option" where
  "snapshot_pages env cfg c schema anchor fetch_size query offset ordinal s =
     (case on_world (pg_exec (sv_pg (so_server env)) c (query offset)) s of
        (Inl e, s1) \<Rightarrow> Some (Err e, s1)
      | (Inr res, s1) \<Rightarrow>
          if res = [] then Some (Ok ordinal, s1)
          else
            (case snapshot_page env cfg schema anchor res [0..<length res] ordinal s1 of
               (Inl e, s2) \<Rightarrow> Some (Err e, s2)
             | (Inr ordinal', s2) \<Rightarrow>
                 if length res < fetch_size then Some (Ok ordinal', s2)
                 else snapshot_pages env cfg c schema anchor fetch_size query
                        (offset + length res) ordinal' s2))"

declare snapshot_pages.simps [code]

definition snapshot_table ::
  "('c, 'w) source_env \<Rightarrow> pg_server_config \<Rightarrow> 'c \<Rightarrow> pg_table_schema \<Rightarrow> u64 \<Rightarrow> nat \<Rightarrow> u64 \<Rightarrow>
   'w output_state \<Rightarrow> (u64 result \<times> 'w output_state) option" where
  "snapshot_table env cfg c schema anchor fetch_size ordinal s =
     (case page_parts (sv_pg (so_server env)) schema of
        Inl e \<Rightarrow> Some (Err e, s)
      | Inr (projection, qualified, order_keys) \<Rightarrow>
          snapshot_pages env cfg c schema anchor fetch_size
            (page_query projection qualified order_keys fetch_size) 0 ordinal s)"

fun snapshot_tables ::
  "('c, 'w) source_env \<Rightarrow> pg_server_config \<Rightarrow> snapshot_config \<Rightarrow> 'c \<Rightarrow> u64 \<Rightarrow> pg_table_schema list \<Rightarrow> u64 \<Rightarrow>
   'w output_state \<Rightarrow> (u64 result \<times> 'w output_state) option" where
  "snapshot_tables env cfg snapshot c anchor [] ordinal s = Some (Ok ordinal, s)"
| "snapshot_tables env cfg snapshot c anchor (t # ts) ordinal s =
     (if \<not> snapshot_includes (sv_regex (so_server env)) (snc_include_collections snapshot)
             (pts_schema t) (pts_table t)
      then snapshot_tables env cfg snapshot c anchor ts ordinal s
      else
        (case snapshot_table env cfg c t anchor (snc_fetch_size snapshot) ordinal s of
           None \<Rightarrow> None
         | Some (Inl e, s') \<Rightarrow> Some (Err e, s')
         | Some (Inr ordinal', s') \<Rightarrow> snapshot_tables env cfg snapshot c anchor ts ordinal' s'))"

text \<open>
  The transaction of the snapshot up to its first page: the connection, the schemas and the log
  position of the slot, which every record of the snapshot carries.
\<close>

definition snapshot_begin ::
  "('c, 'w) server_env \<Rightarrow> pg_server_config \<Rightarrow> snapshot_config \<Rightarrow> string option \<Rightarrow>
   ('w, 'c \<times> schema_map \<times> u64) stateful" where
  "snapshot_begin env cfg snapshot name =
     (let pg = sv_pg env in
      sbind (pe_connect pg) (\<lambda>c.
      sbind (pg_exec pg c (snapshot_transaction_statement (snc_isolation_mode snapshot) (name \<noteq> None)))
        (\<lambda>_.
      sbind (case name of
               None \<Rightarrow> sreturn ()
             | Some n \<Rightarrow>
                 sbind (slift (quote_literal pg n)) (\<lambda>literal.
                 sbind (pg_exec pg c (''SET TRANSACTION SNAPSHOT '' @ literal)) (\<lambda>_. sreturn ())))
        (\<lambda>_.
      sbind (lock_snapshot_tables env cfg (snc_include_collections snapshot) c) (\<lambda>_.
      sbind (discover_tables env cfg c) (\<lambda>schemas.
      sbind (slift (quote_literal pg (pgc_slot_name (server_pg_config cfg)))) (\<lambda>slot.
      sbind (scalar pg c
               (''SELECT COALESCE(confirmed_flush_lsn, restart_lsn)::text FROM pg_replication_slots WHERE slot_name = '' @ slot))
        (\<lambda>anchor_text.
      sbind (slift (pg_error (sv_parse_lsn env anchor_text))) (\<lambda>anchor.
        sreturn (c, schemas, anchor))))))))))"

definition snapshot_complete_record :: "u64 \<Rightarrow> u64 \<Rightarrow> schema_map \<Rightarrow> source_record" where
  "snapshot_complete_record anchor ordinal schemas =
     \<lparr>sr_event = None, sr_position = snapshot_position anchor ordinal, sr_boundary = SnapshotComplete,
      sr_connector_state = Some (pg_encode_schema_history schemas), sr_signal_acks = []\<rparr>"

definition run_snapshot ::
  "('c, 'w) source_env \<Rightarrow> pg_server_config \<Rightarrow> snapshot_config \<Rightarrow> string option \<Rightarrow> 'w output_state \<Rightarrow>
   ((u64 \<times> schema_map) result \<times> 'w output_state) option" where
  "run_snapshot env cfg snapshot name s =
     (case on_world (snapshot_begin (so_server env) cfg snapshot name) s of
        (Inl e, s1) \<Rightarrow> Some (Err e, s1)
      | (Inr (c, schemas, anchor), s1) \<Rightarrow>
          (case snapshot_tables env cfg snapshot c anchor (sorted_tables pg_table_key schemas) 0 s1 of
             None \<Rightarrow> None
           | Some (Inl e, s2) \<Rightarrow> Some (Err e, s2)
           | Some (Inr ordinal, s2) \<Rightarrow>
               Some (sbind (on_world (pg_exec (sv_pg (so_server env)) c ''COMMIT'')) (\<lambda>_.
                     sbind (send_output env (snapshot_complete_record anchor (ordinal + 1) schemas)) (\<lambda>_.
                       sreturn (anchor, schemas))) s2)))"

section \<open>Lemmas on the snapshot\<close>

lemma on_world_Ok: "on_world m (w, sent) = (r, (w', sent')) \<longleftrightarrow> m w = (r, w') \<and> sent' = sent"
  by (auto simp: on_world_def split: prod.splits)

lemma send_output_Ok: "send_output env r s = (Ok (), s') \<Longrightarrow> s' = (fst s, snd s @ [r])"
  by (cases s) (auto simp: send_output_def split: if_splits)

text \<open>A run of snapshot rows: data records under consecutive ordinals at one log position.\<close>

definition is_snapshot_row :: "u64 \<Rightarrow> u64 \<Rightarrow> source_record \<Rightarrow> bool" where
  "is_snapshot_row anchor ordinal r \<longleftrightarrow>
     sr_position r = snapshot_position anchor ordinal \<and> sr_boundary r = DataBoundary
     \<and> sr_connector_state r = None
     \<and> (\<exists>e. sr_event r = Some e \<and> ev_operation e = Read \<and> ev_transaction e = None
          \<and> ev_before e = None \<and> ev_position e = sr_position r)"

fun snapshot_rows :: "u64 \<Rightarrow> u64 \<Rightarrow> source_record list \<Rightarrow> bool" where
  "snapshot_rows anchor ordinal [] = True"
| "snapshot_rows anchor ordinal (r # rs) =
     (is_snapshot_row anchor (ordinal + 1) r \<and> snapshot_rows anchor (ordinal + 1) rs)"

lemma snapshot_rows_append:
  "snapshot_rows anchor ordinal (rs @ rs')
   \<longleftrightarrow> snapshot_rows anchor ordinal rs \<and> snapshot_rows anchor (ordinal + of_nat (length rs)) rs'"
  by (induction rs arbitrary: ordinal) (auto simp: algebra_simps)

lemma snapshot_rows_nth:
  "snapshot_rows anchor ordinal rs \<Longrightarrow> i < length rs \<Longrightarrow>
   is_snapshot_row anchor (ordinal + of_nat (i + 1)) (rs ! i)"
proof (induction rs arbitrary: ordinal i)
  case Nil
  then show ?case by simp
next
  case (Cons r rs)
  show ?case
  proof (cases i)
    case 0
    then show ?thesis using Cons.prems by simp
  next
    case (Suc j)
    have e: "ordinal + 1 + of_nat (j + 1) = ordinal + of_nat (i + 1)" using Suc by simp
    have "is_snapshot_row anchor (ordinal + 1 + of_nat (j + 1)) (rs ! j)"
      by (rule Cons.IH) (use Cons.prems Suc in auto)
    then show ?thesis unfolding e using Suc by (simp only: nth_Cons_Suc)
  qed
qed

lemma snapshot_row_record:
  "is_snapshot_row anchor ordinal (record_data (snapshot_event env cfg schema anchor now ordinal after))"
  by (simp add: is_snapshot_row_def record_data_def snapshot_event_def Let_def)

lemma snapshot_page_Ok:
  assumes "snapshot_page env cfg schema anchor res is ordinal (w, sent) = (Ok ordinal', (w', sent'))"
  shows "w' = w \<and> (\<exists>rs. sent' = sent @ rs \<and> length rs = length is
           \<and> ordinal' = ordinal + of_nat (length is) \<and> snapshot_rows anchor ordinal rs)"
  using assms
proof (induction "is" arbitrary: ordinal sent)
  case Nil
  then show ?case by (auto simp: sreturn_def)
next
  case (Cons i "is")
  obtain after where row: "snapshot_row env cfg schema res i = Ok after"
    using Cons.prems by (cases "snapshot_row env cfg schema res i") (auto simp: slift_def)
  let ?r = "record_data (snapshot_event env cfg schema anchor (so_clock env (length sent)) (ordinal + 1) after)"
  have "send_output env ?r (w, sent) = (Ok (), (w, sent @ [?r]))"
    "snapshot_page env cfg schema anchor res is (ordinal + 1) (w, sent @ [?r]) = (Ok ordinal', (w', sent'))"
    using Cons.prems row by (auto simp: sbind_Ok_iff send_output_def split: if_splits)
  from Cons.IH [OF this(2)] obtain rs where
    rs: "w' = w" "sent' = sent @ [?r] @ rs" "length rs = length is"
      "ordinal' = ordinal + 1 + of_nat (length is)" "snapshot_rows anchor (ordinal + 1) rs" by auto
  then show ?case
    by (intro conjI exI [of _ "?r # rs"]) (auto simp: algebra_simps snapshot_row_record)
qed

lemma snapshot_pages_run:
  assumes "snapshot_pages env cfg c schema anchor fetch query offset ordinal s = Some out"
  shows "\<forall>w sent ordinal' w' sent'. s = (w, sent) \<longrightarrow> out = (Ok ordinal', (w', sent')) \<longrightarrow>
          (\<exists>rs. sent' = sent @ rs \<and> ordinal' = ordinal + of_nat (length rs)
           \<and> snapshot_rows anchor ordinal rs)"
  using assms
proof (induction env cfg c schema anchor fetch query offset ordinal s out rule: snapshot_pages.raw_induct [rotated, consumes 1, case_names page])
  case (page pages env cfg c schema anchor fetch query offset ordinal s out)
  show ?case
  proof (intro allI impI)
    fix w sent ordinal' w' sent'
    assume s: "s = (w, sent)" and out: "out = (Ok ordinal', (w', sent'))"
    obtain r0 w0 where q: "pg_exec (sv_pg (so_server env)) c (query offset) w = (r0, w0)"
      by (metis prod.exhaust_sel)
    then have q': "on_world (pg_exec (sv_pg (so_server env)) c (query offset)) s = (r0, (w0, sent))"
      by (simp add: s on_world_Ok)
    show "\<exists>rs. sent' = sent @ rs \<and> ordinal' = ordinal + of_nat (length rs)
             \<and> snapshot_rows anchor ordinal rs"
    proof (cases r0)
      case (Inl e)
      then show ?thesis using page(2) q' out by simp
    next
      case (Inr res)
      show ?thesis
      proof (cases "res = []")
        case True
        then show ?thesis using page(2) q' Inr out by simp
      next
        case False
        obtain r1 w1 sent1 where
          rows: "snapshot_page env cfg schema anchor res [0..<length res] ordinal (w0, sent)
                 = (r1, (w1, sent1))"
          by (metis prod.exhaust_sel)
        then obtain o1 where r1: "r1 = Ok o1"
          using page(2) q' Inr False out by (cases r1) auto
        from snapshot_page_Ok [OF rows [unfolded r1]] obtain rs where
          rs: "sent1 = sent @ rs" "o1 = ordinal + of_nat (length rs)" "snapshot_rows anchor ordinal rs"
          by auto
        show ?thesis
        proof (cases "length res < fetch")
          case True
          then show ?thesis using page(2) q' Inr False rows r1 rs out by auto
        next
          case more: False
          then have "pages env cfg c schema anchor fetch query (offset + length res) o1 (w1, sent1) = Some out"
            using page(2) q' Inr False rows r1 by simp
          from page(1) [OF this] out obtain rs' where
            "sent' = sent1 @ rs'" "ordinal' = o1 + of_nat (length rs')" "snapshot_rows anchor o1 rs'"
            by blast
          with rs show ?thesis
            by (intro exI [of _ "rs @ rs'"]) (auto simp: snapshot_rows_append algebra_simps)
        qed
      qed
    qed
  qed
qed

lemma snapshot_tables_run:
  assumes "snapshot_tables env cfg snapshot c anchor ts ordinal (w, sent) = Some (Ok ordinal', (w', sent'))"
  shows "\<exists>rs. sent' = sent @ rs \<and> ordinal' = ordinal + of_nat (length rs)
           \<and> snapshot_rows anchor ordinal rs"
  using assms
proof (induction ts arbitrary: ordinal w sent)
  case Nil
  then show ?case by simp
next
  case (Cons t ts)
  show ?case
  proof (cases "snapshot_includes (sv_regex (so_server env)) (snc_include_collections snapshot)
             (pts_schema t) (pts_table t)")
    case False
    then show ?thesis using Cons by simp
  next
    case True
    then obtain o1 w1 sent1 where
      t: "snapshot_table env cfg c t anchor (snc_fetch_size snapshot) ordinal (w, sent)
          = Some (Ok o1, (w1, sent1))"
      and rest: "snapshot_tables env cfg snapshot c anchor ts o1 (w1, sent1) = Some (Ok ordinal', (w', sent'))"
      using Cons.prems by (auto split: option.splits sum.splits)
    obtain query where
      "snapshot_pages env cfg c t anchor (snc_fetch_size snapshot) query 0 ordinal (w, sent)
       = Some (Ok o1, (w1, sent1))"
      using t by (auto simp: snapshot_table_def split: sum.splits prod.splits)
    from snapshot_pages_run [OF this] obtain rs where
      rs: "sent1 = sent @ rs" "o1 = ordinal + of_nat (length rs)" "snapshot_rows anchor ordinal rs"
      by blast
    from Cons.IH [OF rest] obtain rs' where
      "sent' = sent1 @ rs'" "ordinal' = o1 + of_nat (length rs')" "snapshot_rows anchor o1 rs'" by blast
    with rs show ?thesis
      by (intro exI [of _ "rs @ rs'"]) (auto simp: snapshot_rows_append algebra_simps)
  qed
qed

text \<open>The records of an initial snapshot that succeeds are numbered without a gap: every record
  \<^verbatim>\<open>run_snapshot\<close> sends but the last is a row of operation \<open>Read\<close> at the log position of the slot,
  the \<open>i\<close>-th under the serial \<open>i\<close>, and the last one, with the next serial, ends the snapshot and
  carries the schemas, from which the connector state is restored. The same log position and these
  schemas are the result.\<close>

theorem snapshot_records_numbered:
  assumes "run_snapshot env cfg snapshot name (w, sent) = Some (Ok (anchor, schemas), (w', sent'))"
  shows "\<exists>rs. sent' = sent @ rs @ [snapshot_complete_record anchor (of_nat (length rs + 1)) schemas]
           \<and> (\<forall>i<length rs. is_snapshot_row anchor (of_nat (i + 1)) (rs ! i))"
proof -
  obtain c s0 r1 s1 where
    start: "on_world (snapshot_begin (so_server env) cfg snapshot name) (w, sent)
            = (Ok (c, schemas, anchor), s0)"
    and tables: "snapshot_tables env cfg snapshot c anchor (sorted_tables pg_table_key schemas) 0 s0
            = Some (Ok r1, s1)"
    and finish: "sbind (on_world (pg_exec (sv_pg (so_server env)) c ''COMMIT'')) (\<lambda>_.
            sbind (send_output env (snapshot_complete_record anchor (r1 + 1) schemas)) (\<lambda>_.
              sreturn (anchor, schemas))) s1 = (Ok (anchor, schemas), (w', sent'))"
    using assms
    by (auto simp: run_snapshot_def sbind_Ok_iff sreturn_def split: prod.splits sum.splits option.splits)
  obtain w0 where s0: "s0 = (w0, sent)" using start by (cases s0) (auto simp: on_world_Ok)
  obtain w1 sent1 where s1: "s1 = (w1, sent1)" by (cases s1)
  from snapshot_tables_run [OF tables [unfolded s0 s1]] obtain rs where
    rs: "sent1 = sent @ rs" "r1 = of_nat (length rs)" "snapshot_rows anchor 0 rs" by auto
  have "sent' = sent1 @ [snapshot_complete_record anchor (r1 + 1) schemas]"
    using finish unfolding s1
    by (auto simp: sbind_Ok_iff sreturn_def on_world_def split: prod.splits dest!: send_output_Ok)
  with rs snapshot_rows_nth [OF rs(3)] show ?thesis
    by (intro exI [of _ rs]) (auto simp: add.commute)
qed

section \<open>A server that answers the pages of one table\<close>

text \<open>The cells of one row of an answer.\<close>

definition cell :: "string option list \<Rightarrow> nat \<Rightarrow> string option" where
  "cell r j = (if j < length r then r ! j else None)"

definition cells_row ::
  "('c, 'w) source_env \<Rightarrow> pg_server_config \<Rightarrow> pg_table_schema \<Rightarrow> string option list \<Rightarrow> row" where
  "cells_row env cfg schema r =
     fold (\<lambda>(k, v). im_insert k v)
       (map (\<lambda>(j, f).
               (fs_name f,
                pg_transform_value (se_digests (so_stream env)) (se_transformer (so_stream env))
                  schema (fs_name f)
                  (case cell r j of
                     None \<Rightarrow> DvNull
                   | Some v \<Rightarrow>
                       convert_snapshot_value (se_text (so_stream env)) (server_pg_config cfg) schema f v)))
          (enumerate 0 (es_fields (pts_event_schema schema)))) []"

lemma get_value_cell: "i < length res \<Longrightarrow> get_value res i j = cell (res ! i) j"
  by (simp add: get_value_def cell_def)

lemma snapshot_row_cells:
  assumes "length (es_fields (pts_event_schema schema)) \<le> 2 ^ 31" and "i < length res"
  shows "snapshot_row env cfg schema res i = Ok (cells_row env cfg schema (res ! i))"
proof -
  have "j < 2 ^ 31" if "(j, f) \<in> set (enumerate 0 (es_fields (pts_event_schema schema)))" for j f
    using that assms(1) by (auto simp: in_set_enumerate_eq)
  then have "\<not> 2 ^ 31 \<le> fst p" if "p \<in> set (enumerate 0 (es_fields (pts_event_schema schema)))" for p
    using that by (cases p) (simp add: not_le)
  then show ?thesis
    unfolding snapshot_row_def cells_row_def
    by (subst collect_results_total [where g = "\<lambda>(j, f).
          (fs_name f, pg_transform_value (se_digests (so_stream env)) (se_transformer (so_stream env))
             schema (fs_name f)
             (case cell (res ! i) j of None \<Rightarrow> DvNull
              | Some v \<Rightarrow> convert_snapshot_value (se_text (so_stream env)) (server_pg_config cfg) schema f v))"])
       (auto simp: get_value_cell assms(2) split_beta)
qed

text \<open>The records of these rows, the first under the ordinal after \<open>ordinal\<close>.\<close>

fun table_records ::
  "('c, 'w) source_env \<Rightarrow> pg_server_config \<Rightarrow> pg_table_schema \<Rightarrow> u64 \<Rightarrow> u64 \<Rightarrow> nat \<Rightarrow>
   string option list list \<Rightarrow> source_record list" where
  "table_records env cfg schema anchor ordinal n [] = []"
| "table_records env cfg schema anchor ordinal n (r # rs) =
     record_data (snapshot_event env cfg schema anchor (so_clock env n) (ordinal + 1)
                    (cells_row env cfg schema r))
     # table_records env cfg schema anchor (ordinal + 1) (Suc n) rs"

lemma length_table_records [simp]:
  "length (table_records env cfg schema anchor ordinal n rs) = length rs"
  by (induction rs arbitrary: ordinal n) auto

lemma table_records_append:
  "table_records env cfg schema anchor ordinal n (rs @ rs') =
   table_records env cfg schema anchor ordinal n rs
   @ table_records env cfg schema anchor (ordinal + of_nat (length rs)) (n + length rs) rs'"
  by (induction rs arbitrary: ordinal n) (auto simp: algebra_simps)

lemma snapshot_page_complete:
  assumes "length (es_fields (pts_event_schema schema)) \<le> 2 ^ 31" and "\<And>n. so_receiver env n"
    and "\<forall>i\<in>set is. i < length res"
  shows "snapshot_page env cfg schema anchor res is ordinal (w, sent)
         = (Ok (ordinal + of_nat (length is)),
            (w, sent @ table_records env cfg schema anchor ordinal (length sent) (map ((!) res) is)))"
  using assms(3)
proof (induction "is" arbitrary: ordinal sent)
  case Nil
  then show ?case by (simp add: sreturn_def)
next
  case (Cons i "is")
  then show ?case
    by (simp add: snapshot_row_cells [OF assms(1)] sbind_def send_output_def assms(2) algebra_simps)
qed

lemma snapshot_page_all:
  assumes "length (es_fields (pts_event_schema schema)) \<le> 2 ^ 31" and "\<And>n. so_receiver env n"
  shows "snapshot_page env cfg schema anchor res [0..<length res] ordinal (w, sent)
         = (Ok (ordinal + of_nat (length res)),
            (w, sent @ table_records env cfg schema anchor ordinal (length sent) res))"
  using snapshot_page_complete [OF assms, of "[0..<length res]" res cfg anchor ordinal w sent]
  by (simp add: map_nth)

lemma snapshot_pages_complete:
  assumes fls: "length (es_fields (pts_event_schema schema)) \<le> 2 ^ 31"
    and receiver: "\<And>n. so_receiver env n" and fetch: "0 < fetch"
    and server: "\<And>o' w. pg_exec (sv_pg (so_server env)) c (query o') w = (Ok (take fetch (drop o' rows)), w)"
  shows "snapshot_pages env cfg c schema anchor fetch query offset ordinal (w, sent)
         = Some (Ok (ordinal + of_nat (length (drop offset rows))),
                 (w, sent @ table_records env cfg schema anchor ordinal (length sent) (drop offset rows)))"
proof (induction "length rows - offset" arbitrary: offset ordinal sent rule: less_induct)
  case less
  let ?rest = "drop offset rows"
  let ?res = "take fetch ?rest"
  have q: "on_world (pg_exec (sv_pg (so_server env)) c (query offset)) (w, sent) = (Ok ?res, (w, sent))"
    by (simp add: on_world_def server)
  have page: "snapshot_page env cfg schema anchor ?res [0..<length ?res] ordinal (w, sent)
      = (Ok (ordinal + of_nat (length ?res)),
         (w, sent @ table_records env cfg schema anchor ordinal (length sent) ?res))"
    by (rule snapshot_page_all [OF fls receiver])
  let ?sent = "sent @ table_records env cfg schema anchor ordinal (length sent) ?res"
  have step: "snapshot_pages env cfg c schema anchor fetch query offset ordinal (w, sent) =
     (if ?res = [] then Some (Ok ordinal, (w, sent))
      else if length ?res < fetch then Some (Ok (ordinal + of_nat (length ?res)), (w, ?sent))
      else snapshot_pages env cfg c schema anchor fetch query (offset + length ?res)
             (ordinal + of_nat (length ?res)) (w, ?sent))"
    by (subst snapshot_pages.simps) (simp only: q page prod.case sum.case)
  show ?case
  proof (cases "length ?res < fetch")
    case True
    then have "?res = ?rest" by simp
    with True show ?thesis unfolding step by (simp add: if_distrib)
  next
    case more: False
    then have len: "length ?res = fetch" and ne: "?res \<noteq> []" using fetch by auto
    have split: "?rest = ?res @ drop (offset + fetch) rows"
      by (metis append_take_drop_id drop_drop add.commute)
    have "length rows - (offset + fetch) < length rows - offset"
      using len fetch by auto
    from less [OF this, of "ordinal + of_nat fetch" ?sent]
    have run: "snapshot_pages env cfg c schema anchor fetch query offset ordinal (w, sent)
      = Some (Ok (ordinal + of_nat fetch + of_nat (length (drop (offset + fetch) rows))),
         (w, ?sent @ table_records env cfg schema anchor (ordinal + of_nat fetch) (length ?sent)
               (drop (offset + fetch) rows)))"
      unfolding step len using ne by simp
    have total: "length ?rest = fetch + length (drop (offset + fetch) rows)"
      by (subst split, simp only: length_append len)
    have "table_records env cfg schema anchor ordinal (length sent) ?rest
      = table_records env cfg schema anchor ordinal (length sent) ?res
        @ table_records env cfg schema anchor (ordinal + of_nat fetch) (length sent + fetch)
            (drop (offset + fetch) rows)"
      by (subst split, simp only: table_records_append len)
    with run total len show ?thesis by (simp only: length_append length_table_records append_assoc of_nat_add add.assoc)
  qed
qed

text \<open>C22. Against a server that answers every page of the query from one fixed list of rows, as
  PostgreSQL does inside the snapshot transaction, the paging loop of a table ends and sends each row
  exactly once, in the order of the list and under consecutive ordinals, whatever the page size.\<close>

theorem snapshot_table_complete:
  assumes parts: "page_parts (sv_pg (so_server env)) schema = Ok (projection, qualified, order_keys)"
    and server: "\<And>offset w. pg_exec (sv_pg (so_server env)) c
                   (page_query projection qualified order_keys fetch_size offset) w
                 = (Ok (take fetch_size (drop offset rows)), w)"
    and fetch: "0 < fetch_size" and receiver: "\<And>n. so_receiver env n"
    and fls: "length (es_fields (pts_event_schema schema)) \<le> 2 ^ 31"
  shows "snapshot_table env cfg c schema anchor fetch_size ordinal (w, sent)
         = Some (Ok (ordinal + of_nat (length rows)),
                 (w, sent @ table_records env cfg schema anchor ordinal (length sent) rows))"
  using snapshot_pages_complete [OF fls receiver fetch server, of cfg anchor 0 ordinal w sent]
  by (simp add: snapshot_table_def parts)

section \<open>A sample source\<close>

lemma somes_simps [simp]:
  "somes [] = []" "somes (Some x # xs) = x # somes xs" "somes (None # xs) = somes xs"
  by (simp_all add: somes_def)

definition sample_source_env :: "(unit, (string + pg_result) list) pg_env \<Rightarrow> (unit, (string + pg_result) list) source_env"
  where
  "sample_source_env pg =
     \<lparr>so_server = sample_server_env pg, so_snap = sample_snap_env, so_stream = sample_stream_env,
      so_receiver = \<lambda>_. True, so_clock = \<lambda>_. 0\<rparr>"

text \<open>A connection that knows the first page of \<^verbatim>\<open>public.orders\<close>, of one row, and no other page.\<close>

definition page_pg :: "(unit, (string + pg_result) list) pg_env" where
  "page_pg =
     \<lparr>pe_connect = \<lambda>w. (Ok (), w),
      pe_exec = \<lambda>c q w.
        (Inr (if q = page_query ''id::text'' ''public.orders'' ''id'' 1 0 then [[Some ''5'']] else []), w),
      pe_quote_ident = Inr, pe_quote_literal = \<lambda>s. Inr (squote s)\<rparr>"

lemma sample_source_simps [simp]:
  "so_server (sample_source_env pg) = sample_server_env pg"
  "so_receiver (sample_source_env pg) n"
  by (simp_all add: sample_source_env_def)

lemma page_pg_parts: "page_parts page_pg (sample_table ''orders'') = Ok (''id::text'', ''public.orders'', ''id'')"
  by (simp add: page_parts_def qualified_table_def quote_ident_def page_pg_def pg_error_def
      text_projection_def Let_def)

lemma page_pg_exec:
  "pg_exec page_pg () (page_query ''id::text'' ''public.orders'' ''id'' 1 offset) w
   = (Ok (take 1 (drop offset [[Some ''5'']])), w)"
proof -
  have "page_query ''id::text'' ''public.orders'' ''id'' 1 offset
        = page_query ''id::text'' ''public.orders'' ''id'' 1 0 \<longleftrightarrow> offset = 0"
    by (simp add: page_query_def)
  then show ?thesis by (simp add: pg_exec_def page_pg_def pg_error_def)
qed

theorem snapshot_table_complete_witness:
  "snapshot_table (sample_source_env page_pg) (sample_server_config TrustSlot) () (sample_table ''orders'')
     7 1 4 ([], [])
   = Some (Ok 5, ([], table_records (sample_source_env page_pg) (sample_server_config TrustSlot)
                        (sample_table ''orders'') 7 4 0 [[Some ''5'']]))"
proof -
  have parts: "page_parts (sv_pg (so_server (sample_source_env page_pg))) (sample_table ''orders'')
      = Ok (''id::text'', ''public.orders'', ''id'')"
    by (simp only: sample_source_simps sample_server_simps page_pg_parts)
  have server: "pg_exec (sv_pg (so_server (sample_source_env page_pg))) ()
        (page_query ''id::text'' ''public.orders'' ''id'' 1 offset) w
      = (Ok (take 1 (drop offset [[Some ''5'']])), w)" for offset w
    by (simp only: sample_source_simps sample_server_simps page_pg_exec)
  from snapshot_table_complete [OF parts server, of "sample_server_config TrustSlot" 7 4 "[]" "[]"]
  show ?thesis by simp
qed

definition snapshot_world :: "(string + pg_result) list" where
  "snapshot_world =
     [Inr [], Inr [map Some [''public'', ''orders'']],
      Inr [map Some ([''id'', ''int4'', ''f'', ''t'', ''23'', ''-1'', ''b'', ''pg_catalog'', ''int4'']
                     @ replicate 9 [])],
      Inr [[Some ''0/7'']], Inr [[Some ''1'']], Inr []]"

definition sample_snapshot_config :: snapshot_config where
  "sample_snapshot_config =
     \<lparr>snc_fetch_size = 2, snc_include_collections = [], snc_isolation_mode = ReadCommitted\<rparr>"

lemma sample_snapshot_config_simps [simp]:
  "snc_fetch_size sample_snapshot_config = 2"
  "snc_include_collections sample_snapshot_config = []"
  "snc_isolation_mode sample_snapshot_config = ReadCommitted"
  by (simp_all add: sample_snapshot_config_def)

lemma sample_discovered:
  "\<exists>t. query_table_schema sample_pg sample_pg_config () ''public'' ''orders'' (drop 2 snapshot_world)
     = (Ok (Some t), drop 3 snapshot_world)
   \<and> es_fields (pts_event_schema t) = es_fields (pts_event_schema (sample_table ''orders''))
   \<and> pts_schema t = ''public'' \<and> pts_table t = ''orders''"
  using sample_catalog_column
  by (simp add: query_table_schema_def sbind_def pg_error_def snapshot_world_def kept_fields_def
      opaque_names_def sample_table_def del: replicate.simps)

lemma snapshot_run:
  "\<exists>t. run_snapshot (sample_source_env sample_pg) (sample_server_config TrustSlot) sample_snapshot_config
        None (snapshot_world, [])
      = Some (Ok (7, [((''public'', ''orders''), t)]),
          ([], [record_data (snapshot_event (sample_source_env sample_pg) (sample_server_config TrustSlot)
                  t 7 (so_clock (sample_source_env sample_pg) 0) 1
                  (cells_row (sample_source_env sample_pg) (sample_server_config TrustSlot) t [Some ''1''])),
                snapshot_complete_record 7 2 [((''public'', ''orders''), t)]]))"
proof -
  let ?env = "sample_server_env sample_pg" and ?cfg = "sample_server_config TrustSlot"
  obtain t where
    t: "query_table_schema sample_pg sample_pg_config () ''public'' ''orders'' (drop 2 snapshot_world)
       = (Ok (Some t), drop 3 snapshot_world)"
      "es_fields (pts_event_schema t) = es_fields (pts_event_schema (sample_table ''orders''))"
      "pts_schema t = ''public''" "pts_table t = ''orders''"
    using sample_discovered by blast
  have config: "server_pg_config ?cfg = sample_pg_config"
    by (simp add: sample_server_config_def sample_stream_config_def)
  have "selected ?env ?cfg ''public'' ''orders''"
    by (simp add: selected_def sample_server_env_def sample_server_config_def table_includes_def
        sample_stream_config_def is_signal_table_def sample_pg_config_def)
  then have row: "discover_row ?env ?cfg () [map Some [''public'', ''orders'']] 0 (drop 2 snapshot_world)
      = (Ok (Some t), drop 3 snapshot_world)"
    by (simp add: discover_row_def required_value_def get_value_def discover_table_schema_def config t
        sbind_def sreturn_def)
  have discover: "discover_tables ?env ?cfg () (drop 1 snapshot_world)
      = (Ok [((''public'', ''orders''), t)], drop 3 snapshot_world)"
    using row
    by (simp add: discover_tables_def sbind_def snapshot_world_def pg_error_def sreturn_def
        pg_table_key_def t del: list.map)
  have start: "snapshot_begin ?env ?cfg sample_snapshot_config None snapshot_world
      = (Ok ((), [((''public'', ''orders''), t)], 7), drop 4 snapshot_world)"
  proof -
    have exec: "pg_exec sample_pg () q snapshot_world = (Ok [], drop 1 snapshot_world)"
      "pg_exec sample_pg () q (drop 3 snapshot_world) = (Ok [[Some ''0/7'']], drop 4 snapshot_world)" for q
      by (simp_all add: snapshot_world_def pg_error_def)
    have "sv_parse_lsn ?env ''0/7'' = Inr 7" "\<not> pvc_snapshot_locks ?cfg" "pe_connect sample_pg w = (Ok (), w)"
      for w by (simp_all add: sample_server_env_def sample_server_config_def sample_pg_def)
    then show ?thesis
      using discover exec
      by (simp add: snapshot_begin_def Let_def sbind_def scalar_def required_value_def get_value_def
          lock_snapshot_tables_def sreturn_def slift_def pg_error_def del: drop_Suc_Cons)
  qed
  have table: "snapshot_table (sample_source_env sample_pg) ?cfg () t 7 2 0 (drop 4 snapshot_world, [])
      = Some (Ok 1, (drop 5 snapshot_world, [record_data (snapshot_event (sample_source_env sample_pg) ?cfg
                  t 7 (so_clock (sample_source_env sample_pg) 0) 1
                  (cells_row (sample_source_env sample_pg) ?cfg t [Some ''1'']))]))"
  proof -
    have "page_parts sample_pg t = Ok (''id::text'', ''public.orders'', ''id'')"
      by (simp add: page_parts_def qualified_table_def text_projection_def Let_def t)
    moreover have "pg_exec sample_pg () q (drop 4 snapshot_world) = (Ok [[Some ''1'']], drop 5 snapshot_world)"
      for q by (simp add: snapshot_world_def pg_error_def)
    moreover have "snapshot_page (sample_source_env sample_pg) ?cfg t 7 [[Some ''1'']] [0] 0 (drop 5 snapshot_world, [])
      = (Ok 1, (drop 5 snapshot_world, [record_data (snapshot_event (sample_source_env sample_pg) ?cfg
                  t 7 (so_clock (sample_source_env sample_pg) 0) 1
                  (cells_row (sample_source_env sample_pg) ?cfg t [Some ''1'']))]))"
      using snapshot_page_complete [of t "sample_source_env sample_pg" "[0]" "[[Some ''1'']]" ?cfg 7 0
          "drop 5 snapshot_world" "[]"] by (simp add: t)
    ultimately show ?thesis
      by (simp add: snapshot_table_def snapshot_pages.simps on_world_def)
  qed
  have commit: "pg_exec sample_pg () q (drop 5 snapshot_world) = (Ok [], [])" for q
    by (simp add: snapshot_world_def pg_error_def)
  show ?thesis
    using table
    by (intro exI [of _ t])
      (simp add: run_snapshot_def on_world_def start sorted_tables_def
        snapshot_includes_def includes_collection_def sbind_def commit send_output_def sreturn_def)
qed

theorem snapshot_records_numbered_witness:
  "\<exists>r rs t sent. sent = rs @ [snapshot_complete_record 7 (of_nat (length rs + 1)) [((''public'', ''orders''), t)]]
     \<and> hd sent = r \<and> length sent = 2
     \<and> (\<forall>i<length rs. is_snapshot_row 7 (of_nat (i + 1)) (rs ! i))"
proof -
  obtain t r where run: "run_snapshot (sample_source_env sample_pg) (sample_server_config TrustSlot)
      sample_snapshot_config None (snapshot_world, [])
    = Some (Ok (7, [((''public'', ''orders''), t)]),
        ([], [r, snapshot_complete_record 7 2 [((''public'', ''orders''), t)]]))"
    using snapshot_run by blast
  from snapshot_records_numbered [OF run] obtain rs where
    "[r, snapshot_complete_record 7 2 [((''public'', ''orders''), t)]]
     = rs @ [snapshot_complete_record 7 (of_nat (length rs + 1)) [((''public'', ''orders''), t)]]"
    "\<forall>i<length rs. is_snapshot_row 7 (of_nat (i + 1)) (rs ! i)" by auto
  then show ?thesis
    by - (rule exI [of _ r], rule exI [of _ rs], rule exI [of _ t],
         rule exI [of _ "[r, snapshot_complete_record 7 2 [((''public'', ''orders''), t)]]"],
         auto)
qed

section \<open>The retry budget\<close>

text \<open>The delays of \<open>n\<close> attempts that double up to a limit.\<close>

definition doubling :: "duration \<Rightarrow> duration \<Rightarrow> nat \<Rightarrow> duration" where
  "doubling initial limit n = (\<Sum>i<n. min (initial * 2 ^ i) limit)"

lemma doubling_Suc:
  "doubling initial limit (Suc n) = min initial limit + doubling (initial * 2) limit n"
  by (simp add: doubling_def sum.lessThan_Suc_shift mult.assoc del: sum.lessThan_Suc)

lemma doubling_min: "doubling (min d limit) limit n = doubling d limit n"
proof -
  have "min (min d limit * 2 ^ i) limit = min (d * 2 ^ i) limit" for i
  proof (cases "d \<le> limit")
    case False
    have "1 \<le> (2::nat) ^ i" by simp
    then have "limit \<le> limit * 2 ^ i" "limit \<le> d * 2 ^ i"
      using False mult_le_mono [of limit d 1 "2 ^ i"] by auto
    with False show ?thesis by simp
  qed simp
  then show ?thesis by (simp add: doubling_def)
qed

lemma doubling_limit: "limit \<le> d \<Longrightarrow> doubling d limit n = n * limit"
proof -
  assume "limit \<le> d"
  then have "min (d * 2 ^ i) limit = limit" for i
    using mult_le_mono [of limit d 1 "2 ^ i"] by auto
  then show ?thesis by (simp add: doubling_def)
qed

lemma budget_loop_doubling:
  assumes "limit \<le> duration_max" and "acc \<le> duration_max"
  shows "budget_loop n delay limit acc = min (acc + doubling delay limit n) duration_max"
  using assms(2)
proof (induction n arbitrary: delay acc)
  case 0
  then show ?case by (simp add: duration_add_def duration_mul_def doubling_def)
next
  case (Suc n)
  show ?case
  proof (cases "delay < limit")
    case True
    have "min (duration_mul delay 2) limit = min (delay * 2) limit"
      using assms(1) by (auto simp: duration_mul_def)
    then have "budget_loop (Suc n) delay limit acc
        = min (duration_add acc delay + doubling (delay * 2) limit n) duration_max"
      using Suc.IH [of "duration_add acc delay"] True by (simp add: duration_add_def doubling_min)
    also have "\<dots> = min (acc + doubling delay limit (Suc n)) duration_max"
      using True by (auto simp: doubling_Suc duration_add_def)
    finally show ?thesis .
  next
    case False
    then show ?thesis
      by (auto simp: doubling_limit duration_add_def duration_mul_def mult.commute)
  qed
qed

text \<open>C24. The time a PostgreSQL connection may take over its retries: with a limited number of retries
  the budget \<^verbatim>\<open>retry_delay_budget\<close> computes by its early-exit loop is the sum of the doubling delays,
  each cut off at the largest delay, up to the largest \<^verbatim>\<open>Duration\<close>.\<close>

theorem retry_budget_is_sum_of_delays:
  assumes "rp_max_delay p \<le> duration_max"
  shows "retry_delay_budget p =
     min (\<Sum>i<nat (sint (rp_max_retries p)). min (rp_initial_delay p * 2 ^ i) (rp_max_delay p)) duration_max"
  using budget_loop_doubling [OF assms, of 0 "nat (sint (rp_max_retries p))" "rp_initial_delay p"]
  by (simp add: retry_delay_budget_def doubling_def)

theorem retry_budget_is_sum_of_delays_witness:
  "retry_delay_budget \<lparr>rp_max_retries = 3, rp_initial_delay = 300, rp_max_delay = 1000\<rparr> = 1900"
proof -
  have "nat (sint (3 :: i32)) = 3" and "{..<3} = {0, 1, 2 :: nat}" and "1900 \<le> duration_max" "1000 \<le> duration_max"
    by (auto simp: duration_max_def)
  with retry_budget_is_sum_of_delays
         [of "\<lparr>rp_max_retries = 3, rp_initial_delay = 300, rp_max_delay = 1000\<rparr>"]
  show ?thesis by (simp add: min_def)
qed

end
