(* ===== verification/Pg_Run.thy ===== *)
theory Pg_Run
  imports Pg_Source
begin

text \<open>
  The streaming loop of the PostgreSQL connector, \<^verbatim>\<open>PostgresSource::run\<close> in
  \<^verbatim>\<open>crates/rustium-postgresql/src/source.rs\<close>, with the signal file of \<^verbatim>\<open>file_signal.rs\<close>. Every arm of
  the \<^verbatim>\<open>select!\<close> is one step on the state of the loop: the acknowledged position, the heartbeat, the
  signal file, a signal of the runtime and a message of the replication stream. The replication driver
  and the file system are parameters.
\<close>

section \<open>Environment and state\<close>

datatype lsn_flush_mode = FlushConnector | FlushManual | FlushConnectorAndDriver

record ('c, 'w) driver_env =
  dr_flush :: "'w \<Rightarrow> flush_outcome \<times> 'w"
  dr_open :: "bool \<Rightarrow> 'w \<Rightarrow> (string + unit) \<times> 'w"
  dr_ensure_slot :: "'w \<Rightarrow> (string + unit) \<times> 'w"
  dr_set_failover :: "'w \<Rightarrow> unit result \<times> 'w"
  dr_exported_snapshot :: "'w \<Rightarrow> string option \<times> 'w"
  dr_start :: "u64 option \<Rightarrow> 'w \<Rightarrow> (string + unit) \<times> 'w"
  dr_stop :: "'w \<Rightarrow> (string + unit) \<times> 'w"
  dr_as_str :: "column_value \<Rightarrow> string option"
  dr_read_file :: "'w \<Rightarrow> string option result \<times> 'w"
  dr_clear_file :: "'w \<Rightarrow> unit result \<times> 'w"
  dr_source :: "('c, 'w) source_env"

record pg_run_config =
  prc_server :: pg_server_config
  prc_snapshot :: snapshot_config
  prc_snapshot_mode :: snapshot_mode
  prc_flush_mode :: lsn_flush_mode
  prc_flush_timeout :: duration
  prc_flush_timeout_action :: flush_timeout_action
  prc_heartbeat_action_query :: "string option"
  prc_heartbeat_interval :: duration
  prc_xmin_fetch_interval :: duration
  prc_drop_slot_on_stop :: bool

text \<open>The readings of the clocks within one step: the wall clock when the \<open>n\<close>-th record is made.\<close>

record step_time =
  tm_clock :: "nat \<Rightarrow> instant"
  tm_now :: duration
  tm_fetched :: duration

record ('c, 'w) run_state =
  rn_stream :: stream_state
  rn_controller :: "'c snapshot_controller"
  rn_last_safe :: "source_position option"
  rn_tracker :: "'c xmin_tracker option"
  rn_heartbeat :: "'c option"
  rn_applied :: "u64 list"
  rn_cells :: ack_cells
  rn_world :: 'w
  rn_sent :: "source_record list"

type_synonym ('c, 'w, 'a) run_action = "(('c, 'w) run_state, 'a) stateful"

abbreviation run_pg :: "('c, 'w) driver_env \<Rightarrow> ('c, 'w) pg_env" where
  "run_pg env \<equiv> sv_pg (so_server (dr_source env))"

abbreviation run_pg_config :: "pg_run_config \<Rightarrow> pg_config" where
  "run_pg_config cfg \<equiv> server_pg_config (prc_server cfg)"

abbreviation run_stream_config :: "pg_run_config \<Rightarrow> pg_stream_config" where
  "run_stream_config cfg \<equiv> pvc_stream (prc_server cfg)"

text \<open>Actions of the components on their part of the state.\<close>

definition in_world :: "('w, 'a) stateful \<Rightarrow> ('c, 'w, 'a) run_action" where
  "in_world m s = (case m (rn_world s) of (r, w) \<Rightarrow> (r, s\<lparr>rn_world := w\<rparr>))"

definition in_controller ::
  "('c snapshot_controller \<times> 'w, 'a) stateful \<Rightarrow> ('c, 'w, 'a) run_action" where
  "in_controller m s =
     (case m (rn_controller s, rn_world s) of
        (r, (c, w)) \<Rightarrow> (r, s\<lparr>rn_controller := c, rn_world := w\<rparr>))"

definition in_stream :: "(stream_state, 'a) stateful \<Rightarrow> ('c, 'w, 'a) run_action" where
  "in_stream m s = (case m (rn_stream s) of (r, st) \<Rightarrow> (r, s\<lparr>rn_stream := st\<rparr>))"

definition send_record ::
  "('c, 'w) driver_env \<Rightarrow> source_record \<Rightarrow> ('c, 'w, unit) run_action" where
  "send_record env r s =
     (if so_receiver (dr_source env) (length (rn_sent s))
      then (Ok (), s\<lparr>rn_sent := rn_sent s @ [r]\<rparr>) else (Err Cancelled, s))"

definition current_state :: "('c, 'w) run_state \<Rightarrow> state_envelope" where
  "current_state s =
     pg_encode_connector_state (ss_schemas (rn_stream s)) (sc_progress (rn_controller s))
       (sc_completed (rn_controller s))"

section \<open>Windows of an incremental snapshot\<close>

definition send_incremental_window ::
  "('c, 'w) driver_env \<Rightarrow> pg_run_config \<Rightarrow> step_time \<Rightarrow> u64 \<Rightarrow> closed_window \<Rightarrow>
   ('c, 'w, unit) run_action" where
  "send_incremental_window env cfg tm lsn closed s =
     (case incremental_snapshot_records (so_stream (dr_source env)) (run_stream_config cfg)
             (\<lambda>i. tm_clock tm (length (rn_sent s) + i)) lsn closed (rn_stream s) of
        (records, st) \<Rightarrow> sfor records (send_record env) (s\<lparr>rn_stream := st\<rparr>))"

definition send_window_option ::
  "('c, 'w) driver_env \<Rightarrow> pg_run_config \<Rightarrow> step_time \<Rightarrow> u64 \<Rightarrow> closed_window option \<Rightarrow>
   ('c, 'w, unit) run_action" where
  "send_window_option env cfg tm lsn closed =
     (case closed of None \<Rightarrow> sreturn () | Some x \<Rightarrow> send_incremental_window env cfg tm lsn x)"

definition with_controller ::
  "('c snapshot_controller \<Rightarrow> 'a result \<times> 'c snapshot_controller) \<Rightarrow> ('c, 'w, 'a) run_action" where
  "with_controller f s =
     (case f (rn_controller s) of (r, c) \<Rightarrow> (r, s\<lparr>rn_controller := c\<rparr>))"

text \<open>
  At a commit a read-only connector may close one window after another; \<open>None\<close> when there is no end.
\<close>

partial_function (option) read_only_commit_loop ::
  "('c, 'w) driver_env \<Rightarrow> pg_run_config \<Rightarrow> step_time \<Rightarrow> u64 \<Rightarrow> u64 \<Rightarrow> ('c, 'w) run_state \<Rightarrow>
   (unit result \<times> ('c, 'w) run_state) option" where
  "read_only_commit_loop env cfg tm lsn xid s =
     (case sbind (with_controller (observe_read_only_commit xid)) (\<lambda>closed.
           sbind (send_window_option env cfg tm lsn closed) (\<lambda>_ s.
             in_controller (prepare_read_only_continuation (so_snap (dr_source env)) (run_pg_config cfg)
                              (ss_schemas (rn_stream s))) s)) s of
        (Inl e, s1) \<Rightarrow> Some (Err e, s1)
      | (Inr again, s1) \<Rightarrow>
          if again then read_only_commit_loop env cfg tm lsn xid s1 else Some (Ok (), s1))"

section \<open>Signals from outside\<close>

definition apply_external ::
  "('c, 'w) driver_env \<Rightarrow> pg_run_config \<Rightarrow> signal \<Rightarrow> ('c, 'w, unit) run_action" where
  "apply_external env cfg signal s =
     in_controller (apply_external_signal (so_snap (dr_source env)) (run_pg_config cfg)
       (ss_schemas (rn_stream s)) signal) s"

definition acknowledge_cells :: "ack_ref list \<Rightarrow> ('c, 'w) run_state \<Rightarrow> ('c, 'w) run_state" where
  "acknowledge_cells acks s = s\<lparr>rn_cells := fold acknowledge acks (rn_cells s)\<rparr>"

text \<open>The outcome of \<^verbatim>\<open>checkpoint_external_signal_state\<close> is an acknowledgement or a record to send.\<close>

definition checkpoint_external ::
  "('c, 'w) driver_env \<Rightarrow> ack_ref option \<Rightarrow> ('c, 'w, unit) run_action" where
  "checkpoint_external env ack s =
     (case checkpoint_external_signal_state (ss_schemas (rn_stream s)) (ss_schema_dirty (rn_stream s))
             (rn_last_safe s) ack (rn_controller s) of
        (Inl e, c) \<Rightarrow> (Err e, s\<lparr>rn_controller := c\<rparr>)
      | (Inr (AcknowledgeNow acks), c) \<Rightarrow> (Ok (), acknowledge_cells acks (s\<lparr>rn_controller := c\<rparr>))
      | (Inr (SendRecord r), c) \<Rightarrow>
          sbind (send_record env r)
            (\<lambda>_ s2. (Ok (), s2\<lparr>rn_stream := (rn_stream s2)\<lparr>ss_schema_dirty := False\<rparr>\<rparr>))
            (s\<lparr>rn_controller := c\<rparr>))"

definition read_and_clear :: "('c, 'w) driver_env \<Rightarrow> ('w, string list) stateful" where
  "read_and_clear env =
     sbind (dr_read_file env) (\<lambda>contents.
       case contents of
         None \<Rightarrow> sreturn []
       | Some t \<Rightarrow>
           if t = [] then sreturn []
           else sbind (dr_clear_file env) (\<lambda>_. sreturn (signal_lines t)))"

definition parse_external_signal :: "('c, 'w) snap_env \<Rightarrow> string \<Rightarrow> signal result" where
  "parse_external_signal env line =
     rbind (from_str env signal_record_from_json ''PostgreSQL external signal has invalid JSON: '' line)
       (parse_external_record env)"

text \<open>An invalid line is skipped, any other error ends the poll.\<close>

definition apply_signal_line ::
  "('c, 'w) driver_env \<Rightarrow> pg_run_config \<Rightarrow> string \<Rightarrow> ('c, 'w, unit) run_action" where
  "apply_signal_line env cfg line =
     (case parse_external_signal (so_snap (dr_source env)) line of
        Inl e \<Rightarrow> sreturn ()
      | Inr signal \<Rightarrow> apply_external env cfg signal)"

definition poll_signal_file ::
  "('c, 'w) driver_env \<Rightarrow> pg_run_config \<Rightarrow> ('c, 'w, unit) run_action" where
  "poll_signal_file env cfg s =
     (if ss_transaction (rn_stream s) \<noteq> None then (Ok (), s)
      else
        sbind (in_world (read_and_clear env)) (\<lambda>ls.
        sbind (sfor ls (apply_signal_line env cfg)) (\<lambda>_.
          checkpoint_external env None)) s)"

definition drop_delivery :: "signal_delivery \<Rightarrow> ('c, 'w) run_state \<Rightarrow> ('c, 'w) run_state" where
  "drop_delivery d s =
     (case sd_acknowledgement d of None \<Rightarrow> s | Some r \<Rightarrow> s\<lparr>rn_cells := drop_ack r (rn_cells s)\<rparr>)"

definition receives_signals :: "pg_run_config \<Rightarrow> ('c, 'w) run_state \<Rightarrow> bool" where
  "receives_signals cfg s \<longleftrightarrow>
     (signal_channel_enabled (run_stream_config cfg) ''in-process''
      \<or> signal_channel_enabled (run_stream_config cfg) ''kafka'')
     \<and> ss_transaction (rn_stream s) = None"

text \<open>A signal of the runtime; the channel answers \<open>None\<close> when it is closed.\<close>

definition receive_signal ::
  "('c, 'w) driver_env \<Rightarrow> pg_run_config \<Rightarrow> signal_delivery option \<Rightarrow> ('c, 'w, unit) run_action" where
  "receive_signal env cfg delivery s =
     (case delivery of
        None \<Rightarrow> (Err (Source ''PostgreSQL runtime signal channel closed''), s)
      | Some d \<Rightarrow>
          (case parse_external_record (so_snap (dr_source env)) (sd_record d) of
             Inl e \<Rightarrow>
               (Ok (), acknowledge_cells (case sd_acknowledgement d of None \<Rightarrow> [] | Some r \<Rightarrow> [r]) s)
           | Inr signal \<Rightarrow>
               (case sbind (apply_external env cfg signal)
                       (\<lambda>_. checkpoint_external env (sd_acknowledgement d)) s of
                  (Inl e, s') \<Rightarrow> (Err e, drop_delivery d s')
                | (Inr _, s') \<Rightarrow> (Ok (), s'))))"

section \<open>Acknowledged positions and heartbeats\<close>

definition flush_acknowledged_lsn ::
  "('c, 'w) driver_env \<Rightarrow> pg_run_config \<Rightarrow> u64 \<Rightarrow> ('c, 'w, unit) run_action" where
  "flush_acknowledged_lsn env cfg lsn s =
     (case dr_flush env (rn_world s) of
        (outcome, w) \<Rightarrow>
          (flush_lsn_with_timeout (sv_format_lsn (so_server (dr_source env))) lsn (prc_flush_timeout cfg)
             (prc_flush_timeout_action cfg) outcome, s\<lparr>rn_world := w\<rparr>))"

text \<open>A new acknowledged position, \<open>None\<close> when the sender of the watch channel is gone.\<close>

definition acknowledged_changed ::
  "('c, 'w) driver_env \<Rightarrow> pg_run_config \<Rightarrow> source_position option option \<Rightarrow> ('c, 'w, unit) run_action"
  where
  "acknowledged_changed env cfg acknowledged s =
     (case acknowledged of
        None \<Rightarrow> (Err Cancelled, s)
      | Some (Some (Postgres p)) \<Rightarrow>
          if prc_flush_mode cfg = FlushManual then (Ok (), s)
          else
            (let lsn = (case pg_commit_lsn p of None \<Rightarrow> pg_lsn p | Some l \<Rightarrow> l)
             in flush_acknowledged_lsn env cfg lsn
                  (if prc_flush_mode cfg = FlushConnector then s\<lparr>rn_applied := rn_applied s @ [lsn]\<rparr> else s))
      | _ \<Rightarrow> (Ok (), s))"

definition execute_heartbeat_action ::
  "('c, 'w) pg_env \<Rightarrow> 'c \<Rightarrow> string \<Rightarrow> ('w, unit) stateful" where
  "execute_heartbeat_action pg c query =
     sbind (exec_or pg c query
              (\<lambda>msg. Source (''PostgreSQL heartbeat.action.query failed: '' @ msg))) (\<lambda>_. sreturn ())"

definition heartbeat_action ::
  "('c, 'w) driver_env \<Rightarrow> pg_run_config \<Rightarrow> ('c, 'w, unit) run_action" where
  "heartbeat_action env cfg s =
     (case prc_heartbeat_action_query cfg of
        None \<Rightarrow> (Ok (), s)
      | Some query \<Rightarrow>
          (case rn_heartbeat s of
             None \<Rightarrow> (Err (Source ''PostgreSQL heartbeat action connection is unavailable''), s)
           | Some c \<Rightarrow>
               sbind (in_world (execute_heartbeat_action (run_pg env) c query))
                 (\<lambda>_ s1. (Ok (), s1\<lparr>rn_heartbeat := Some c\<rparr>)) (s\<lparr>rn_heartbeat := None\<rparr>)))"

definition heartbeat_tick ::
  "('c, 'w) driver_env \<Rightarrow> pg_run_config \<Rightarrow> step_time \<Rightarrow> ('c, 'w, unit) run_action" where
  "heartbeat_tick env cfg tm =
     sbind (heartbeat_action env cfg) (\<lambda>_ s.
       case rn_last_safe s of
         None \<Rightarrow> (Ok (), s)
       | Some position \<Rightarrow>
           send_record env (heartbeat_record (so_stream (dr_source env)) (run_stream_config cfg)
             (tm_clock tm (length (rn_sent s))) position) s)"

section \<open>Messages of the replication stream\<close>

definition captured :: "('c, 'w) driver_env \<Rightarrow> pg_run_config \<Rightarrow> string \<Rightarrow> string \<Rightarrow> bool" where
  "captured env cfg schema table = selected (so_server (dr_source env)) (prc_server cfg) schema table"

text \<open>A relation message of a captured table refreshes its schema.\<close>

definition refresh_relation ::
  "('c, 'w) driver_env \<Rightarrow> pg_run_config \<Rightarrow> wal_kind \<Rightarrow> ('c, 'w, unit) run_action" where
  "refresh_relation env cfg wal =
     (case wal of
        WalRelation schema table columns \<Rightarrow>
          if \<not> captured env cfg schema table then sreturn ()
          else (\<lambda>s.
            sbind (in_world (relation_table_schema (run_pg env) (run_pg_config cfg) schema table columns
                     (map_of (ss_schemas (rn_stream s)) (schema, table)))) (\<lambda>refreshed.
            sbind (in_stream (\<lambda>st. case refresh_schema refreshed st of (v, st') \<Rightarrow> (Ok v, st'))) (\<lambda>version.
              case version of
                None \<Rightarrow> sreturn ()
              | Some _ \<Rightarrow>
                  (\<lambda>s. (reject_active_schema_change schema table (rn_controller s), s)))) s)
      | _ \<Rightarrow> sreturn ())"

definition row_table :: "wal_kind \<Rightarrow> (string \<times> string) option" where
  "row_table wal =
     (case wal of
        WalInsert schema table _ _ \<Rightarrow> Some (schema, table)
      | WalUpdate schema table _ _ _ _ \<Rightarrow> Some (schema, table)
      | WalDelete schema table _ _ _ \<Rightarrow> Some (schema, table)
      | _ \<Rightarrow> None)"

text \<open>A row of a captured table that is not known yet has its schema read from the catalog.\<close>

definition discover_uncached ::
  "('c, 'w) driver_env \<Rightarrow> pg_run_config \<Rightarrow> wal_kind \<Rightarrow> ('c, 'w, unit) run_action" where
  "discover_uncached env cfg wal s =
     (case row_table wal of
        None \<Rightarrow> (Ok (), s)
      | Some (schema, table) \<Rightarrow>
          if \<not> captured env cfg schema table
             \<or> map_of (ss_schemas (rn_stream s)) (schema, table) \<noteq> None
          then (Ok (), s)
          else
            sbind (in_world (discover_runtime_table_schema (run_pg env) (run_pg_config cfg) schema table))
              (\<lambda>discovered. in_stream (\<lambda>st. (Ok (), snd (refresh_schema discovered st)))) s)"

definition message_transaction :: "wal_kind \<Rightarrow> stream_state \<Rightarrow> u64 option" where
  "message_transaction wal st =
     (case wal of
        WalBegin xid _ \<Rightarrow> Some (ucast xid)
      | WalStreamStart xid \<Rightarrow> Some (ucast xid)
      | WalStreamCommit xid _ _ _ \<Rightarrow> Some (ucast xid)
      | _ \<Rightarrow> map_option (\<lambda>t. ucast (at_id t)) (ss_transaction st))"

definition is_commit :: "wal_kind \<Rightarrow> bool" where
  "is_commit wal =
     (case wal of WalCommit _ _ \<Rightarrow> True | WalStreamCommit _ _ _ _ \<Rightarrow> True | _ \<Rightarrow> False)"

text \<open>What a read-only connector learns from a message about the transactions that are over.\<close>

definition observe_read_only ::
  "('c, 'w) driver_env \<Rightarrow> pg_run_config \<Rightarrow> step_time \<Rightarrow> wal_event \<Rightarrow> ('c, 'w) run_state \<Rightarrow>
   (unit result \<times> ('c, 'w) run_state) option" where
  "observe_read_only env cfg tm wal s =
     (if \<not> pgc_read_only (run_pg_config cfg) then Some (Ok (), s)
      else
        (case message_transaction (we_kind wal) (rn_stream s) of
           None \<Rightarrow> Some (Ok (), s)
         | Some xid \<Rightarrow>
             if is_commit (we_kind wal) then read_only_commit_loop env cfg tm (we_lsn wal) xid s
             else Some (sbind (with_controller (observe_read_only_event xid))
                          (send_window_option env cfg tm (we_lsn wal)) s)))"

definition signal_row :: "('c, 'w) driver_env \<Rightarrow> row_data \<Rightarrow> (string \<times> string option) list" where
  "signal_row env data = map (\<lambda>(k, v). (k, dr_as_str env v)) data"

definition is_watermark :: "signal \<Rightarrow> bool" where
  "is_watermark signal = (case signal of WindowOpen _ \<Rightarrow> True | WindowClose _ \<Rightarrow> True | _ \<Rightarrow> False)"

text \<open>A row of the signal table.\<close>

definition handle_source_signal ::
  "('c, 'w) driver_env \<Rightarrow> pg_run_config \<Rightarrow> step_time \<Rightarrow> u64 \<Rightarrow> row_data \<Rightarrow> ('c, 'w, unit) run_action" where
  "handle_source_signal env cfg tm lsn data s =
     sbind (slift (parse_signal (so_snap (dr_source env)) (signal_row env data))) (\<lambda>signal.
       if \<not> (signal_channel_enabled (run_stream_config cfg) ''source'' \<or> is_watermark signal)
       then sreturn ()
       else
         sbind (in_controller (handle_signal (so_snap (dr_source env)) (run_pg_config cfg)
                  (ss_schemas (rn_stream s)) signal))
           (send_window_option env cfg tm lsn)) s"

definition current_xmin ::
  "('c, 'w) driver_env \<Rightarrow> step_time \<Rightarrow> ('c, 'w, u32 option) run_action" where
  "current_xmin env tm s =
     (case rn_tracker s of
        None \<Rightarrow> (Ok None, s)
      | Some t \<Rightarrow>
          (case tracker_current (run_pg env) (tm_now tm) (tm_fetched tm) (t, rn_world s) of
             (r, (t', w)) \<Rightarrow> (r, s\<lparr>rn_tracker := Some t', rn_world := w\<rparr>)))"

text \<open>The state of the connector travels with the next record once it has changed.\<close>

definition attach_state :: "source_record \<Rightarrow> ('c, 'w, source_record) run_action" where
  "attach_state record s =
     (case take_state_dirty (rn_controller s) of
        (dirty, c) \<Rightarrow>
          (let s1 = s\<lparr>rn_controller := c\<rparr> in
           if ss_schema_dirty (rn_stream s1) \<or> dirty
           then (Ok (record\<lparr>sr_connector_state := Some (current_state s1)\<rparr>),
                 s1\<lparr>rn_stream := (rn_stream s1)\<lparr>ss_schema_dirty := False\<rparr>\<rparr>)
           else (Ok record, s1)))"

definition deduplicate_record ::
  "('c, 'w) driver_env \<Rightarrow> source_record \<Rightarrow> ('c, 'w) run_state \<Rightarrow> ('c, 'w) run_state" where
  "deduplicate_record env record s =
     (case sr_event record of
        None \<Rightarrow> s
      | Some e \<Rightarrow> s\<lparr>rn_controller := deduplicate (so_snap (dr_source env)) e (rn_controller s)\<rparr>)"

definition transform_record ::
  "('c, 'w) driver_env \<Rightarrow> schema_map \<Rightarrow> source_record \<Rightarrow> source_record result" where
  "transform_record env schemas record =
     (case sr_event record of
        None \<Rightarrow> Ok record
      | Some e \<Rightarrow>
          rbind (transform_emitted_event (se_digests (so_stream (dr_source env)))
                   (se_transformer (so_stream (dr_source env))) schemas e)
            (\<lambda>e'. Ok (record\<lparr>sr_event := Some e'\<rparr>)))"

definition deliver ::
  "('c, 'w) driver_env \<Rightarrow> pg_run_config \<Rightarrow> source_record \<Rightarrow> ('c, 'w, unit) run_action" where
  "deliver env cfg record s0 =
     (let s = deduplicate_record env record s0 in
      sbind (slift (transform_record env (ss_schemas (rn_stream s)) record)) (\<lambda>record.
      sbind (attach_state record) (\<lambda>record.
      sbind (send_record env record) (\<lambda>_ s.
        let s1 = s\<lparr>rn_last_safe := Some (sr_position record)\<rparr> in
        if sr_boundary record = TransactionCommit
        then in_controller (after_commit (so_snap (dr_source env)) (run_pg_config cfg)
               (ss_schemas (rn_stream s1))) s1
        else (Ok (), s1)))) s)"

definition convert_and_deliver ::
  "('c, 'w) driver_env \<Rightarrow> pg_run_config \<Rightarrow> step_time \<Rightarrow> wal_event \<Rightarrow> ('c, 'w, unit) run_action" where
  "convert_and_deliver env cfg tm wal =
     sbind (current_xmin env tm) (\<lambda>xmin.
     sbind (\<lambda>s. in_stream (convert (so_stream (dr_source env)) (run_stream_config cfg)
                  (tm_clock tm (length (rn_sent s))) xmin wal) s) (\<lambda>record.
       case record of None \<Rightarrow> sreturn () | Some r \<Rightarrow> deliver env cfg r))"

definition handle_message ::
  "('c, 'w) driver_env \<Rightarrow> pg_run_config \<Rightarrow> step_time \<Rightarrow> wal_event \<Rightarrow> ('c, 'w) run_state \<Rightarrow>
   (unit result \<times> ('c, 'w) run_state) option" where
  "handle_message env cfg tm wal s =
     (case sbind (refresh_relation env cfg (we_kind wal))
             (\<lambda>_. discover_uncached env cfg (we_kind wal)) s of
        (Inl e, s1) \<Rightarrow> Some (Err e, s1)
      | (Inr _, s1) \<Rightarrow>
          (case observe_read_only env cfg tm wal s1 of
             None \<Rightarrow> None
           | Some (Inl e, s2) \<Rightarrow> Some (Err e, s2)
           | Some (Inr _, s2) \<Rightarrow>
               Some
                 (case we_kind wal of
                    WalInsert schema table oid data \<Rightarrow>
                      if is_signal_table (run_pg_config cfg) schema table
                      then handle_source_signal env cfg tm (we_lsn wal) data s2
                      else convert_and_deliver env cfg tm wal s2
                  | _ \<Rightarrow> convert_and_deliver env cfg tm wal s2)))"

section \<open>The loop\<close>

datatype stream_step =
    StepAcknowledged "source_position option option"
  | StepHeartbeat
  | StepSignalFile
  | StepSignal "signal_delivery option"
  | StepMessage wal_event

definition stream_step ::
  "('c, 'w) driver_env \<Rightarrow> pg_run_config \<Rightarrow> step_time \<Rightarrow> stream_step \<Rightarrow> ('c, 'w) run_state \<Rightarrow>
   (unit result \<times> ('c, 'w) run_state) option" where
  "stream_step env cfg tm step s =
     (case step of
        StepAcknowledged p \<Rightarrow> Some (acknowledged_changed env cfg p s)
      | StepHeartbeat \<Rightarrow> Some (heartbeat_tick env cfg tm s)
      | StepSignalFile \<Rightarrow> Some (poll_signal_file env cfg s)
      | StepSignal d \<Rightarrow>
          if receives_signals cfg s then Some (receive_signal env cfg d s) else Some (Ok (), s)
      | StepMessage wal \<Rightarrow> handle_message env cfg tm wal s)"

fun stream_steps ::
  "('c, 'w) driver_env \<Rightarrow> pg_run_config \<Rightarrow> (step_time \<times> stream_step) list \<Rightarrow> ('c, 'w) run_state \<Rightarrow>
   (unit result \<times> ('c, 'w) run_state) option" where
  "stream_steps env cfg [] s = Some (Ok (), s)"
| "stream_steps env cfg ((tm, step) # steps) s =
     (case stream_step env cfg tm step s of
        Some (Inr _, s') \<Rightarrow> stream_steps env cfg steps s'
      | out \<Rightarrow> out)"

definition driver :: "('w \<Rightarrow> (string + 'a) \<times> 'w) \<Rightarrow> ('w, 'a) stateful" where
  "driver m w = (case m w of (r, w') \<Rightarrow> (pg_error r, w'))"

text \<open>The orderly end of a run.\<close>

definition stop_stream_on_orderly_shutdown ::
  "('c, 'w) driver_env \<Rightarrow> pg_run_config \<Rightarrow> ('w, unit) stateful" where
  "stop_stream_on_orderly_shutdown env cfg =
     sbind (driver (dr_stop env)) (\<lambda>_.
       if prc_drop_slot_on_stop cfg
       then drop_managed_slot_on_stop (so_server (dr_source env)) (prc_server cfg)
       else sreturn ())"

section \<open>The start of a run\<close>

text \<open>What the connector restores from its checkpoint before the stream is opened.\<close>

record startup =
  su_snapshot_needed :: bool
  su_schemas :: schema_map
  su_progress :: "pg_progress option"
  su_completed :: "string list"
  su_state_dirty :: bool
  su_resolution :: "resume_slot_resolution option"

definition snapshot_needed :: "snapshot_mode \<Rightarrow> checkpoint option \<Rightarrow> bool" where
  "snapshot_needed mode cp =
     (mode \<noteq> SnapshotNever \<and> (case cp of None \<Rightarrow> True | Some c \<Rightarrow> \<not> cp_snapshot_completed c))"

definition restore_state ::
  "snapshot_mode \<Rightarrow> (json \<Rightarrow> string) \<Rightarrow> checkpoint option \<Rightarrow> schema_map \<Rightarrow> startup result" where
  "restore_state mode json_error cp validated =
     (let su = \<lparr>su_snapshot_needed = snapshot_needed mode cp, su_schemas = validated,
                su_progress = None, su_completed = [], su_state_dirty = False, su_resolution = None\<rparr>
      in case cp of
           None \<Rightarrow> Ok su
         | Some c \<Rightarrow>
             if su_snapshot_needed su then Ok su
             else
               (case cp_connector_state c of
                  Some st \<Rightarrow>
                    rbind (pg_decode_connector_state json_error st) (\<lambda>state.
                      case normalize_checkpoint_schemas (pcs_schemas state) validated of
                        (schemas, changed) \<Rightarrow>
                          Ok (su\<lparr>su_schemas := schemas, su_progress := pcs_incremental_snapshot state,
                                 su_completed := pcs_completed_signal_ids state,
                                 su_state_dirty := (changed \<or> env_version st < 6)\<rparr>))
                | None \<Rightarrow>
                    if mode = SnapshotWhenNeeded
                    then Ok (su\<lparr>su_snapshot_needed := True, su_schemas := []\<rparr>)
                    else Err (State ''PostgreSQL checkpoint predates persistent schema history and cannot safely replay relation changes; reset the checkpoint and run a new initial snapshot'')))"

definition foreign_checkpoint :: rust_error where
  "foreign_checkpoint = State ''PostgreSQL connector cannot resume from a non-PostgreSQL checkpoint''"

definition is_state_error :: "rust_error \<Rightarrow> bool" where
  "is_state_error e = (case e of State _ \<Rightarrow> True | _ \<Rightarrow> False)"

definition prepare_slot ::
  "('c, 'w) server_env \<Rightarrow> pg_run_config \<Rightarrow> checkpoint option \<Rightarrow> startup \<Rightarrow> ('w, startup) stateful" where
  "prepare_slot env cfg cp su =
     (if su_snapshot_needed su
      then sbind (prepare_snapshot_slot env (prc_server cfg)) (\<lambda>_. sreturn su)
      else
        (case cp of
           None \<Rightarrow> sreturn su
         | Some c \<Rightarrow>
             (case cp_source_position c of
                Postgres p \<Rightarrow> (\<lambda>w.
                  case resolve_resume_slot env (prc_server cfg) p w of
                    (Inr r, w1) \<Rightarrow>
                      if rr_preserve_checkpoint_position r
                      then (Ok (su\<lparr>su_resolution := Some r\<rparr>), w1)
                      else
                        sbind (load_current_schemas env (prc_server cfg)) (\<lambda>schemas.
                          sreturn (su\<lparr>su_schemas := schemas, su_progress := None,
                                      su_state_dirty := True, su_resolution := Some r\<rparr>)) w1
                  | (Inl e, w1) \<Rightarrow>
                      if prc_snapshot_mode cfg = SnapshotWhenNeeded \<and> is_state_error e
                      then sbind (prepare_snapshot_slot env (prc_server cfg)) (\<lambda>_.
                             sreturn (su\<lparr>su_snapshot_needed := True, su_schemas := [],
                                         su_progress := None, su_completed := []\<rparr>)) w1
                      else (Err e, w1))
              | _ \<Rightarrow> slift (Err foreign_checkpoint))))"

definition start_run ::
  "('c, 'w) server_env \<Rightarrow> pg_run_config \<Rightarrow> (json \<Rightarrow> string) \<Rightarrow> checkpoint option \<Rightarrow> schema_map \<Rightarrow>
   ('w, startup) stateful" where
  "start_run env cfg json_error cp validated =
     sbind (slift (restore_state (prc_snapshot_mode cfg) json_error cp validated))
       (prepare_slot env cfg cp)"

definition start_lsn :: "checkpoint option \<Rightarrow> startup \<Rightarrow> u64 option result" where
  "start_lsn cp su =
     (case su_resolution su of
        Some r \<Rightarrow> Ok (Some (rr_start_lsn r))
      | None \<Rightarrow>
          (case cp of
             None \<Rightarrow> Ok None
           | Some c \<Rightarrow>
               (case cp_source_position c of Postgres p \<Rightarrow> Ok (Some (pg_lsn p)) | _ \<Rightarrow> Err foreign_checkpoint)))"

definition resume_position :: "checkpoint option \<Rightarrow> startup \<Rightarrow> source_position option" where
  "resume_position cp su =
     (let checkpointed = map_option cp_source_position cp in
      case su_resolution su of
        None \<Rightarrow> checkpointed
      | Some r \<Rightarrow>
          if rr_preserve_checkpoint_position r then checkpointed
          else Some (postgres_streaming_position (rr_start_lsn r)))"

definition initial_safe_position :: "source_position option \<Rightarrow> u64 option \<Rightarrow> source_position option" where
  "initial_safe_position resume start =
     (case resume of
        Some (Postgres p) \<Rightarrow>
          Some (if pg_snapshot p then postgres_streaming_position (pg_lsn p) else Postgres p)
      | Some p \<Rightarrow> Some p
      | None \<Rightarrow> map_option postgres_streaming_position start)"

definition initial_stream_state ::
  "checkpoint option \<Rightarrow> startup \<Rightarrow> source_position option \<Rightarrow> stream_state" where
  "initial_stream_state cp su resume =
     (let st = stream_new (su_schemas su) resume (\<not> su_snapshot_needed su \<and> cp = None)
      in st\<lparr>ss_schema_dirty := (ss_schema_dirty st \<or> su_state_dirty su)\<rparr>)"

definition initial_feedback :: "lsn_flush_mode \<Rightarrow> source_position option \<Rightarrow> u64 list" where
  "initial_feedback mode acknowledged =
     (case mode of
        FlushConnector \<Rightarrow>
          (case acknowledged of
             Some (Postgres p) \<Rightarrow> [case pg_commit_lsn p of None \<Rightarrow> pg_lsn p | Some l \<Rightarrow> l]
           | _ \<Rightarrow> [])
      | FlushManual \<Rightarrow> []
      | FlushConnectorAndDriver \<Rightarrow> [- 1])"

definition open_heartbeat_connection ::
  "('c, 'w) pg_env \<Rightarrow> pg_run_config \<Rightarrow> ('w, 'c option) stateful" where
  "open_heartbeat_connection pg cfg =
     (if prc_heartbeat_interval cfg = 0 \<or> prc_heartbeat_action_query cfg = None then sreturn None
      else sbind (pe_connect pg) (\<lambda>c. sreturn (Some c)))"

text \<open>The replication stream up to its slot: what is restored, and whether the slot is new.\<close>

definition open_slot ::
  "('c, 'w) driver_env \<Rightarrow> pg_run_config \<Rightarrow> (json \<Rightarrow> string) \<Rightarrow> checkpoint option \<Rightarrow> schema_map \<Rightarrow>
   ('w, startup \<times> u64 option) stateful" where
  "open_slot env cfg json_error cp validated =
     (let server = so_server (dr_source env) in
      sbind (start_run server cfg json_error cp validated) (\<lambda>su.
      sbind (resolve_slot_failover server (prc_server cfg)) (\<lambda>failover.
      sbind (driver (dr_open env (su_snapshot_needed su
               \<and> imports_snapshot (snc_isolation_mode (prc_snapshot cfg))))) (\<lambda>_.
      sbind (slift (start_lsn cp su)) (\<lambda>start.
      sbind (if pvc_slot_ownership (prc_server cfg) = SlotManaged
             then sbind (driver (dr_ensure_slot env)) (\<lambda>_.
                    if failover then dr_set_failover env else sreturn ())
             else sreturn ())
        (\<lambda>_. sreturn (su, start)))))))"

definition exported_snapshot ::
  "('c, 'w) driver_env \<Rightarrow> pg_run_config \<Rightarrow> ('w, string option) stateful" where
  "exported_snapshot env cfg w =
     (if imports_snapshot (snc_isolation_mode (prc_snapshot cfg))
      then (case dr_exported_snapshot env w of
              (None, w') \<Rightarrow>
                (Err (Source ''PostgreSQL did not export a snapshot for the managed replication slot''), w')
            | (Some n, w') \<Rightarrow> (Ok (Some n), w'))
      else (Ok None, w))"

text \<open>The snapshot, when one is needed, and the schemas, start and resume positions after it.\<close>

definition snapshot_if_needed ::
  "('c, 'w) driver_env \<Rightarrow> pg_run_config \<Rightarrow> checkpoint option \<Rightarrow> startup \<Rightarrow> u64 option \<Rightarrow>
   'w output_state \<Rightarrow>
   ((startup \<times> u64 option \<times> source_position option) result \<times> 'w output_state) option" where
  "snapshot_if_needed env cfg cp su start s =
     (if \<not> su_snapshot_needed su then Some (Ok (su, start, resume_position cp su), s)
      else
        (case on_world (exported_snapshot env cfg) s of
           (Inl e, s1) \<Rightarrow> Some (Err e, s1)
         | (Inr name, s1) \<Rightarrow>
             (case run_snapshot (dr_source env) (prc_server cfg) (prc_snapshot cfg) name s1 of
                None \<Rightarrow> None
              | Some (Inl e, s2) \<Rightarrow> Some (Err e, s2)
              | Some (Inr (anchor, schemas), s2) \<Rightarrow>
                  Some (Ok (su\<lparr>su_schemas := schemas\<rparr>, Some anchor, None), s2))))"

text \<open>Starting to stream; \<open>acknowledged\<close> is the position the runtime has acknowledged so far.\<close>

definition start_streaming ::
  "('c, 'w) driver_env \<Rightarrow> pg_run_config \<Rightarrow> checkpoint option \<Rightarrow> startup \<Rightarrow> u64 option \<Rightarrow>
   source_position option \<Rightarrow> source_position option \<Rightarrow> source_record list \<Rightarrow> ack_cells \<Rightarrow>
   ('w, ('c, 'w) run_state) stateful" where
  "start_streaming env cfg cp su start resume acknowledged sent cells =
     sbind (driver (dr_start env start)) (\<lambda>_.
     sbind (case start of
              None \<Rightarrow> query_slot_safe_lsn (so_server (dr_source env)) (prc_server cfg)
            | Some l \<Rightarrow> sreturn l) (\<lambda>lsn.
     sbind (open_heartbeat_connection (run_pg env) cfg) (\<lambda>heartbeat.
     sbind (tracker_open (run_pg env) (run_pg_config cfg) (prc_xmin_fetch_interval cfg)) (\<lambda>tracker w.
       let s = \<lparr>rn_stream = initial_stream_state cp su resume,
                rn_controller = controller_new (su_progress su) (su_completed su),
                rn_last_safe = initial_safe_position resume (Some lsn), rn_tracker = tracker,
                rn_heartbeat = heartbeat,
                rn_applied = initial_feedback (prc_flush_mode cfg) acknowledged,
                rn_cells = cells, rn_world = w, rn_sent = sent\<rparr>
       in case in_controller (resume_snapshot (so_snap (dr_source env)) (run_pg_config cfg)
                                (ss_schemas (rn_stream s))) s of
            (Inl e, s') \<Rightarrow> (Err e, rn_world s')
          | (Inr _, s') \<Rightarrow> (Ok s', rn_world s')))))"

definition open_run ::
  "('c, 'w) driver_env \<Rightarrow> pg_run_config \<Rightarrow> (json \<Rightarrow> string) \<Rightarrow> checkpoint option \<Rightarrow> schema_map \<Rightarrow>
   source_position option \<Rightarrow> ack_cells \<Rightarrow> 'w output_state \<Rightarrow>
   (('c, 'w) run_state result \<times> 'w output_state) option" where
  "open_run env cfg json_error cp validated acknowledged cells s =
     (case on_world (open_slot env cfg json_error cp validated) s of
        (Inl e, s1) \<Rightarrow> Some (Err e, s1)
      | (Inr (su, start), s1) \<Rightarrow>
          (case snapshot_if_needed env cfg cp su start s1 of
             None \<Rightarrow> None
           | Some (Inl e, s2) \<Rightarrow> Some (Err e, s2)
           | Some (Inr (su', start', resume), (w, sent)) \<Rightarrow>
               Some (on_world (start_streaming env cfg cp su' start' resume acknowledged sent cells)
                       (w, sent))))"

section \<open>What an action does to the state it succeeds on\<close>

definition on_success :: "('s \<Rightarrow> 's \<Rightarrow> bool) \<Rightarrow> ('s, 'a) stateful \<Rightarrow> bool" where
  "on_success R m \<longleftrightarrow> (\<forall>s x s'. m s = (Ok x, s') \<longrightarrow> R s s')"

lemma on_successI: "(\<And>s x s'. m s = (Ok x, s') \<Longrightarrow> R s s') \<Longrightarrow> on_success R m"
  by (simp add: on_success_def)

lemma on_successD: "on_success R m \<Longrightarrow> m s = (Ok x, s') \<Longrightarrow> R s s'"
  by (simp add: on_success_def)

lemma on_success_sbind:
  "transp R \<Longrightarrow> on_success R m \<Longrightarrow> (\<And>x. on_success R (f x)) \<Longrightarrow> on_success R (sbind m f)"
  unfolding on_success_def sbind_Ok_iff by (blast dest: transpD)

lemma on_success_pure: "reflp R \<Longrightarrow> on_success R (sreturn x)" "reflp R \<Longrightarrow> on_success R (slift r)"
  by (auto simp: on_success_def sreturn_def slift_def dest: reflpD)

lemma on_success_sfor:
  assumes "reflp R" "transp R" "\<And>x. x \<in> set xs \<Longrightarrow> on_success R (f x)"
  shows "on_success R (sfor xs f)"
  using assms(3) by (induction xs) (auto intro: on_success_sbind on_success_pure assms(1,2))

text \<open>
  A controller whose persistent part is unchanged, or marked as changed. The records an action sends
  carry no state.
\<close>

definition keeps_dirty :: "'c snapshot_controller \<Rightarrow> 'c snapshot_controller \<Rightarrow> bool" where
  "keeps_dirty c c' \<longleftrightarrow>
     sc_state_dirty c' \<or> \<not> sc_state_dirty c \<and> sc_progress c' = sc_progress c \<and> sc_completed c' = sc_completed c"

definition quiet :: "('c, 'w) run_state \<Rightarrow> ('c, 'w) run_state \<Rightarrow> bool" where
  "quiet s s' \<longleftrightarrow>
     keeps_dirty (rn_controller s) (rn_controller s')
     \<and> (\<exists>rs. rn_sent s' = rn_sent s @ rs \<and> (\<forall>r\<in>set rs. sr_connector_state r = None))"

lemma keeps_dirty_refl: "keeps_dirty c c"
  by (simp add: keeps_dirty_def)

lemma keeps_dirty_trans: "keeps_dirty a b \<Longrightarrow> keeps_dirty b c \<Longrightarrow> keeps_dirty a c"
  by (auto simp: keeps_dirty_def)

lemma keeps_dirty_same:
  "sc_progress c' = sc_progress c \<Longrightarrow> sc_completed c' = sc_completed c \<Longrightarrow>
   sc_state_dirty c' = sc_state_dirty c \<Longrightarrow> keeps_dirty c c'"
  by (auto simp: keeps_dirty_def)

lemma quiet_refl: "reflp quiet"
  by (auto intro!: reflpI simp: quiet_def keeps_dirty_refl)

lemma quiet_trans: "transp quiet"
proof (rule transpI)
  fix a b c :: "('c, 'w) run_state"
  assume ab: "quiet a b" and bc: "quiet b c"
  then obtain rs rs' where "rn_sent b = rn_sent a @ rs" "rn_sent c = rn_sent b @ rs'"
    "\<forall>r\<in>set rs. sr_connector_state r = None" "\<forall>r\<in>set rs'. sr_connector_state r = None"
    by (auto simp: quiet_def)
  then have "rn_sent c = rn_sent a @ (rs @ rs')" "\<forall>r\<in>set (rs @ rs'). sr_connector_state r = None"
    by auto
  with ab bc show "quiet a c"
    by (auto simp: quiet_def intro: keeps_dirty_trans)
qed

lemmas quiet_rules = on_success_sbind [OF quiet_trans] on_success_pure [OF quiet_refl]
  on_success_sfor [OF quiet_refl quiet_trans]

text \<open>The operations of the controller.\<close>

definition tracks_dirty :: "('c snapshot_controller \<times> 'w, 'a) stateful \<Rightarrow> bool" where
  "tracks_dirty m \<longleftrightarrow> on_success (\<lambda>(c, w) (c', w'). keeps_dirty c c') m"

lemma tracks_dirtyI:
  "(\<And>c w x c' w'. m (c, w) = (Ok x, (c', w')) \<Longrightarrow> keeps_dirty c c') \<Longrightarrow> tracks_dirty m"
  by (auto simp: tracks_dirty_def on_success_def)

lemma tracks_dirtyD: "tracks_dirty m \<Longrightarrow> m (c, w) = (Ok x, (c', w')) \<Longrightarrow> keeps_dirty c c'"
  by (fastforce simp: tracks_dirty_def on_success_def)

lemma prepare_tracks_dirty: "tracks_dirty (prepare_current_chunk env config schemas)"
proof (rule tracks_dirtyI)
  fix c w x c' w'
  assume "prepare_current_chunk env config schemas (c, w) = (Ok x, (c', w'))"
  then have "prepare_current_chunk env config schemas (c, w) = (Ok (), (c', w'))" by simp
  then show "keeps_dirty c c'"
    by (rule prepare_current_chunk_Ok) (auto simp: keeps_dirty_def install_chunk_def)
qed

lemma after_commit_tracks_dirty: "tracks_dirty (after_commit env config schemas)"
proof (rule tracks_dirtyI)
  fix c w x c' w'
  assume run: "after_commit env config schemas (c, w) = (Ok x, (c', w'))"
  show "keeps_dirty c c'"
  proof (cases "\<not> pgc_read_only config \<and> sc_prepare_after_commit c")
    case True
    then have "prepare_current_chunk env config schemas (c\<lparr>sc_prepare_after_commit := False\<rparr>, w)
        = (Ok x, (c', w'))" using run by (simp add: after_commit_def)
    from tracks_dirtyD [OF prepare_tracks_dirty this] show ?thesis by (simp add: keeps_dirty_def)
  qed (use run in \<open>auto simp: after_commit_def keeps_dirty_refl\<close>)
qed

lemma continuation_tracks_dirty: "tracks_dirty (prepare_read_only_continuation env config schemas)"
proof (rule tracks_dirtyI)
  fix c w x c' w'
  assume run: "prepare_read_only_continuation env config schemas (c, w) = (Ok x, (c', w'))"
  show "keeps_dirty c c'"
  proof (cases "pgc_read_only config \<and> sc_prepare_after_commit c")
    case True
    then have "prepare_current_chunk env config schemas (c\<lparr>sc_prepare_after_commit := False\<rparr>, w)
        = (Ok (), (c', w'))"
      using run by (simp add: prepare_read_only_continuation_def sbind_Ok_iff sreturn_def)
    from tracks_dirtyD [OF prepare_tracks_dirty this] show ?thesis by (simp add: keeps_dirty_def)
  qed (use run in \<open>auto simp: prepare_read_only_continuation_def keeps_dirty_refl\<close>)
qed

lemma resume_tracks_dirty: "tracks_dirty (resume_snapshot env config schemas)"
  by (rule tracks_dirtyI)
     (auto simp: resume_snapshot_def keeps_dirty_refl split: option.splits if_splits
       dest: tracks_dirtyD [OF prepare_tracks_dirty])

lemma close_keeps_dirty: "close_current_window c = (Ok x, c') \<Longrightarrow> keeps_dirty c c'"
  using close_current_window_Ok(3) [of c x c'] by (simp add: keeps_dirty_def)

lemma handle_signal_tracks_dirty: "tracks_dirty (handle_signal env config schemas sig)"
proof (rule tracks_dirtyI)
  fix c w x c' w'
  assume run: "handle_signal env config schemas sig (c, w) = (Ok x, (c', w'))"
  show "keeps_dirty c c'"
  proof (cases sig)
    case (Execute i colls conds sur)
    show ?thesis
    proof (cases "is_duplicate_execute_signal i c \<or> sc_progress c \<noteq> None")
      case True
      with run Execute show ?thesis
        by (auto simp: handle_signal_def keeps_dirty_refl split: if_splits)
    next
      case False
      then obtain d where "prepare_current_chunk env config schemas (d, w) = (Ok (), (c', w'))"
        "sc_state_dirty d"
        using run Execute by (auto simp: handle_signal_def sbind_unit_Ok split: sum.splits)
      from tracks_dirtyD [OF prepare_tracks_dirty this(1)] this(2) show ?thesis
        by (simp add: keeps_dirty_def)
    qed
  next
    case (Stop i colls)
    with run have "stop_snapshot env colls c = (Ok (), c')"
      by (auto simp: handle_signal_def split: prod.splits sum.splits)
    then show ?thesis
      by (auto simp: stop_snapshot_def Let_def keeps_dirty_def split: option.splits sum.splits if_splits)
  next
    case (WindowClose i)
    with run show ?thesis
      by (auto simp: handle_signal_def keeps_dirty_refl split: if_splits prod.splits sum.splits
          dest: close_keeps_dirty)
  qed (use run in \<open>auto simp: handle_signal_def keeps_dirty_def split: option.splits if_splits\<close>)
qed

lemma observe_keeps_dirty:
  "observe_read_only_event xid c = (Ok x, c') \<Longrightarrow> keeps_dirty c c'"
  "observe_read_only_commit xid c = (Ok x, c') \<Longrightarrow> keeps_dirty c c'"
proof -
  assume "observe_read_only_event xid c = (Ok x, c')"
  then show "keeps_dirty c c'"
    by (auto simp: observe_read_only_event_def Let_def closed_some_def
        split: option.splits prod.splits if_splits sum.splits
        intro: keeps_dirty_refl keeps_dirty_same dest!: close_keeps_dirty)
      (auto simp: keeps_dirty_def)
next
  assume "observe_read_only_commit xid c = (Ok x, c')"
  then show "keeps_dirty c c'"
    by (auto simp: observe_read_only_commit_def closed_some_def
        split: option.splits prod.splits if_splits sum.splits
        intro: keeps_dirty_refl dest!: close_keeps_dirty)
qed

text \<open>The actions of the loop.\<close>

lemma in_world_quiet: "on_success quiet (in_world m)"
  by (auto intro!: on_successI simp: in_world_def quiet_def keeps_dirty_refl split: prod.splits)

lemma in_stream_quiet: "on_success quiet (in_stream m)"
  by (auto intro!: on_successI simp: in_stream_def quiet_def keeps_dirty_refl split: prod.splits)

lemma in_controller_quiet:
  assumes "tracks_dirty m"
  shows "on_success quiet (in_controller m)"
  by (rule on_successI)
     (auto simp: in_controller_def quiet_def split: prod.splits dest: tracks_dirtyD [OF assms])

lemma with_controller_quiet:
  assumes "\<And>c x c'. m c = (Ok x, c') \<Longrightarrow> keeps_dirty c c'"
  shows "on_success quiet (with_controller m)"
  by (rule on_successI) (auto simp: with_controller_def quiet_def split: prod.splits dest: assms)

lemma send_record_quiet: "sr_connector_state r = None \<Longrightarrow> on_success quiet (send_record env r)"
  by (rule on_successI) (auto simp: send_record_def quiet_def keeps_dirty_refl split: if_splits)

lemma window_records_stateless:
  "\<forall>r\<in>set (fst (window_records env cfg now lsn schema rows st)). sr_connector_state r = None"
  by (induction rows arbitrary: now st)
     (auto simp: Let_def split_beta window_record_def record_data_def)

lemma send_window_quiet: "on_success quiet (send_window_option env cfg tm lsn closed)"
proof (cases closed)
  case None
  then show ?thesis by (simp add: send_window_option_def quiet_rules)
next
  case (Some cw)
  have "on_success quiet (send_incremental_window env cfg tm lsn cw)"
  proof (rule on_successI)
    fix s s' :: "('a, 'b) run_state" and x
    assume run: "send_incremental_window env cfg tm lsn cw s = (Ok x, s')"
    obtain records st where r: "incremental_snapshot_records (so_stream (dr_source env))
        (run_stream_config cfg) (\<lambda>i. tm_clock tm (length (rn_sent s) + i)) lsn cw (rn_stream s)
        = (records, st)" by (metis prod.exhaust_sel)
    then have "\<forall>r\<in>set records. sr_connector_state r = None"
      using window_records_stateless by (metis incremental_snapshot_records_def fst_conv)
    then have "on_success quiet (sfor records (send_record env))"
      by (intro quiet_rules send_record_quiet) blast
    moreover have "sfor records (send_record env) (s\<lparr>rn_stream := st\<rparr>) = (Ok x, s')"
      using run r by (simp add: send_incremental_window_def)
    ultimately have "quiet (s\<lparr>rn_stream := st\<rparr>) s'" by (rule on_successD)
    then show "quiet s s'" by (simp add: quiet_def)
  qed
  then show ?thesis by (simp add: send_window_option_def Some)
qed

lemma controller_relation:
  "reflp (\<lambda>(c, w) (c', w'). keeps_dirty c c')" "transp (\<lambda>(c, w) (c', w'). keeps_dirty c c')"
  by (auto intro!: reflpI transpI simp: keeps_dirty_refl intro: keeps_dirty_trans)

lemma external_tracks_dirty: "tracks_dirty (apply_external_signal env config schemas signal)"
  unfolding apply_external_signal_def tracks_dirty_def
  using handle_signal_tracks_dirty continuation_tracks_dirty after_commit_tracks_dirty
  by (auto simp: tracks_dirty_def
      intro!: on_success_sbind [OF controller_relation(2)] on_success_pure [OF controller_relation(1)])

lemma apply_external_quiet: "on_success quiet (apply_external env cfg signal)"
  by (rule on_successI)
     (auto simp: apply_external_def dest: on_successD [OF in_controller_quiet [OF external_tracks_dirty]])

lemma apply_signal_line_quiet: "on_success quiet (apply_signal_line env cfg line)"
  by (auto simp: apply_signal_line_def split: sum.split intro: quiet_rules apply_external_quiet)

text \<open>
  The state that was sent last, and whether it is the current one. \<open>base\<close> is what the run started from.
\<close>

fun last_sent_state :: "source_record list \<Rightarrow> state_envelope option" where
  "last_sent_state [] = None"
| "last_sent_state (r # rs) = (case last_sent_state rs of None \<Rightarrow> sr_connector_state r | Some e \<Rightarrow> Some e)"

lemma last_sent_state_append:
  "last_sent_state (rs @ rs') = (case last_sent_state rs' of None \<Rightarrow> last_sent_state rs | Some e \<Rightarrow> Some e)"
  by (induction rs) (simp_all split: option.split)

lemma last_sent_state_stateless: "\<forall>r\<in>set rs. sr_connector_state r = None \<Longrightarrow> last_sent_state rs = None"
  by (induction rs) simp_all

definition sent_state ::
  "pg_progress option \<times> string list \<Rightarrow> source_record list \<Rightarrow> pg_progress option \<times> string list \<Rightarrow> bool"
  where
  "sent_state base sent now \<longleftrightarrow>
     (case last_sent_state sent of
        None \<Rightarrow> now = base
      | Some e \<Rightarrow> \<exists>schemas. e = pg_encode_connector_state schemas (fst now) (snd now))"

definition travels :: "pg_progress option \<times> string list \<Rightarrow> ('c, 'w) run_state \<Rightarrow> bool" where
  "travels base s \<longleftrightarrow>
     sc_state_dirty (rn_controller s)
     \<or> sent_state base (rn_sent s) (sc_progress (rn_controller s), sc_completed (rn_controller s))"

definition carries :: "pg_progress option \<times> string list \<Rightarrow> ('c, 'w) run_state \<Rightarrow> ('c, 'w) run_state \<Rightarrow> bool"
  where
  "carries base s s' \<longleftrightarrow> (travels base s \<longrightarrow> travels base s')"

lemma carries_refl: "reflp (carries base)"
  by (simp add: reflp_def carries_def)

lemma carries_trans: "transp (carries base)"
  by (auto simp: transp_def carries_def)

lemmas carries_rules = on_success_sbind [OF carries_trans] on_success_pure [OF carries_refl]
  on_success_sfor [OF carries_refl carries_trans]

lemma quiet_carries:
  assumes "quiet s s'"
  shows "carries base s s'"
proof -
  obtain rs where sent: "rn_sent s' = rn_sent s @ rs" "\<forall>r\<in>set rs. sr_connector_state r = None"
    and keeps: "keeps_dirty (rn_controller s) (rn_controller s')"
    using assms by (auto simp: quiet_def)
  then have "sent_state base (rn_sent s') = sent_state base (rn_sent s)"
    by (simp add: fun_eq_iff sent_state_def last_sent_state_append last_sent_state_stateless)
  with keeps show ?thesis
    unfolding carries_def travels_def keeps_dirty_def by (elim disjE conjE) simp_all
qed

lemma on_success_carries: "on_success quiet m \<Longrightarrow> on_success (carries base) m"
  by (auto simp: on_success_def intro: quiet_carries)

text \<open>Attaching the state and sending the record that carries it.\<close>

lemma send_state_travels:
  assumes "send_record env r s = (Ok x, s')" and "sr_connector_state r = Some (current_state s)"
  shows "travels base s'"
  using assms
  by (auto simp: send_record_def travels_def sent_state_def last_sent_state_append
      current_state_def split: if_splits)

lemma checkpoint_external_carries: "on_success (carries base) (checkpoint_external env ack)"
proof (rule on_successI)
  fix s s' :: "('a, 'b) run_state" and x
  assume run: "checkpoint_external env ack s = (Ok x, s')"
  let ?s = "s\<lparr>rn_controller := (rn_controller s)\<lparr>sc_state_dirty := False\<rparr>\<rparr>"
  show "carries base s s'"
  proof (cases "\<not> ss_schema_dirty (rn_stream s) \<and> \<not> sc_state_dirty (rn_controller s)")
    case True
    then obtain acks where "s' = acknowledge_cells acks ?s"
      using run by (auto simp: checkpoint_external_def checkpoint_external_signal_state_def
          take_state_dirty_def Let_def)
    with True show ?thesis by (auto simp: carries_def travels_def acknowledge_cells_def)
  next
    case False
    then obtain r s2 where
      sent: "send_record env r ?s = (Ok (), s2)" and r: "sr_connector_state r = Some (current_state ?s)"
      and s': "s' = s2\<lparr>rn_stream := (rn_stream s2)\<lparr>ss_schema_dirty := False\<rparr>\<rparr>"
      using run by (auto simp: checkpoint_external_def checkpoint_external_signal_state_def
          take_state_dirty_def Let_def sbind_Ok_iff current_state_def split: option.splits)
    have "travels base s2" by (rule send_state_travels [OF sent r])
    then show ?thesis by (simp add: s' carries_def travels_def)
  qed
qed

lemma convert_stateless:
  assumes "convert env cfg now xmin wal st = (Ok (Some r), st')"
  shows "sr_connector_state r = None"
  using assms
  by (auto simp: convert_def data_record_def commit_record_def boundary_record_def record_data_def
      logical_decoding_message_record_def Let_def split_beta
      split: wal_kind.splits option.splits if_splits list.splits)

lemma deduplicate_keeps:
  "sc_state_dirty (deduplicate env e c) = sc_state_dirty c"
  "sc_progress (deduplicate env e c) = sc_progress c"
  "sc_completed (deduplicate env e c) = sc_completed c"
  by (auto simp: deduplicate_def split: option.split)

lemma deliver_carries:
  assumes "sr_connector_state r = None"
  shows "on_success (carries base) (deliver env cfg r)"
proof (rule on_successI)
  fix s s' :: "('a, 'b) run_state" and x
  assume run: "deliver env cfg r s = (Ok x, s')"
  let ?d = "deduplicate_record env r s"
  obtain r1 s1 r2 s2 where
    tr: "transform_record env (ss_schemas (rn_stream ?d)) r = Ok r1"
    and attach: "attach_state r1 ?d = (Ok r2, s1)"
    and send: "send_record env r2 s1 = (Ok (), s2)"
    and commit: "(let s3 = s2\<lparr>rn_last_safe := Some (sr_position r2)\<rparr> in
        if sr_boundary r2 = TransactionCommit
        then in_controller (after_commit (so_snap (dr_source env)) (run_pg_config cfg)
               (ss_schemas (rn_stream s3))) s3
        else (Ok (), s3)) = (Ok x, s')"
    using run by (auto simp: deliver_def Let_def sbind_Ok_iff slift_def)
  have stateless: "sr_connector_state r1 = None"
    using tr assms by (auto simp: transform_record_def rbind_Ok_iff split: option.splits)
  have "carries base s s2"
  proof (cases "sr_connector_state r2")
    case None
    then have "r2 = r1" "s1 = ?d\<lparr>rn_controller := (rn_controller ?d)\<lparr>sc_state_dirty := False\<rparr>\<rparr>"
      "\<not> sc_state_dirty (rn_controller ?d)"
      using attach by (auto simp: attach_state_def take_state_dirty_def Let_def split: if_splits)
    then have "keeps_dirty (rn_controller s) (rn_controller s1)" "rn_sent s1 = rn_sent s"
      by (auto simp: deduplicate_record_def keeps_dirty_def deduplicate_keeps split: option.splits)
    then have "quiet s s1" by (simp add: quiet_def)
    moreover have "quiet s1 s2" by (rule on_successD [OF send_record_quiet [OF None] send])
    ultimately show ?thesis by (blast intro: quiet_carries dest: transpD [OF quiet_trans])
  next
    case (Some e)
    then have "e = current_state s1"
      using attach stateless
      by (auto simp: attach_state_def take_state_dirty_def Let_def current_state_def split: if_splits)
    then show ?thesis using send_state_travels [OF send] Some by (simp add: carries_def)
  qed
  moreover have "quiet s2 s'"
  proof -
    let ?s3 = "s2\<lparr>rn_last_safe := Some (sr_position r2)\<rparr>"
    have "quiet ?s3 s'"
      using commit on_successD [OF in_controller_quiet [OF after_commit_tracks_dirty]]
        reflpD [OF quiet_refl, of ?s3]
      by (auto simp: Let_def split: if_splits)
    then show ?thesis by (simp add: quiet_def)
  qed
  ultimately show "carries base s s'"
    by (blast intro: quiet_carries dest: transpD [OF carries_trans])
qed

lemma refresh_relation_quiet: "on_success quiet (refresh_relation env cfg wal)"
proof (cases wal)
  case (WalRelation schema table columns)
  have body: "on_success quiet
     (sbind (in_world m) (\<lambda>refreshed.
      sbind (in_stream (g refreshed)) (\<lambda>version.
        case version of None \<Rightarrow> sreturn ()
        | Some _ \<Rightarrow> (\<lambda>s. (reject_active_schema_change schema table (rn_controller s), s)))))"
    for m :: "('b, pg_table_schema) stateful" and g :: "pg_table_schema \<Rightarrow> (stream_state, u32 option) stateful"
    by (intro quiet_rules in_world_quiet in_stream_quiet)
       (auto split: option.split intro: quiet_rules intro!: on_successI intro: reflpD [OF quiet_refl])
  show ?thesis
  proof (rule on_successI)
    fix s s' :: "('a, 'b) run_state" and x
    assume run: "refresh_relation env cfg wal s = (Ok x, s')"
    show "quiet s s'"
    proof (cases "captured env cfg schema table")
      case True
      then have "sbind (in_world (relation_table_schema (run_pg env) (run_pg_config cfg) schema table
             columns (map_of (ss_schemas (rn_stream s)) (schema, table)))) (\<lambda>refreshed.
           sbind (in_stream (\<lambda>st. case refresh_schema refreshed st of (v, st') \<Rightarrow> (Ok v, st')))
             (\<lambda>version. case version of None \<Rightarrow> sreturn ()
              | Some _ \<Rightarrow> (\<lambda>s. (reject_active_schema_change schema table (rn_controller s), s)))) s
          = (Ok x, s')"
        using run WalRelation by (simp add: refresh_relation_def)
      then show ?thesis by (rule on_successD [OF body])
    next
      case False
      then show ?thesis
        using run WalRelation reflpD [OF quiet_refl, of s] by (simp add: refresh_relation_def sreturn_def)
    qed
  qed
qed (simp_all add: refresh_relation_def quiet_rules)

lemma discover_uncached_quiet: "on_success quiet (discover_uncached env cfg wal)"
proof (rule on_successI)
  fix s s' :: "('a, 'b) run_state" and x
  assume run: "discover_uncached env cfg wal s = (Ok x, s')"
  have body: "on_success quiet (sbind (in_world m) (\<lambda>d. in_stream (g d)))"
    for m :: "('b, pg_table_schema) stateful" and g :: "pg_table_schema \<Rightarrow> (stream_state, unit) stateful"
    by (intro quiet_rules in_world_quiet in_stream_quiet)
  show "quiet s s'"
    using run on_successD [OF body] reflpD [OF quiet_refl, of s]
    by (auto simp: discover_uncached_def split: option.splits if_splits)
qed

lemma read_only_commit_loop_quiet:
  assumes "read_only_commit_loop env cfg tm lsn xid s = Some out"
  shows "fst out = Ok () \<longrightarrow> quiet s (snd out)"
  using assms
proof (induction env cfg tm lsn xid s out
    rule: read_only_commit_loop.raw_induct [rotated, consumes 1, case_names iterate])
  case (iterate loop env cfg tm lsn xid s out)
  have continue: "on_success quiet (\<lambda>s. in_controller (prepare_read_only_continuation
      (so_snap (dr_source env)) (run_pg_config cfg) (ss_schemas (rn_stream s))) s)"
    by (rule on_successI) (rule on_successD [OF in_controller_quiet [OF continuation_tracks_dirty]])
  let ?body = "sbind (with_controller (observe_read_only_commit xid)) (\<lambda>closed.
           sbind (send_window_option env cfg tm lsn closed) (\<lambda>_ s.
             in_controller (prepare_read_only_continuation (so_snap (dr_source env)) (run_pg_config cfg)
                              (ss_schemas (rn_stream s))) s))"
  have body: "on_success quiet ?body"
    by (intro quiet_rules with_controller_quiet send_window_quiet continue) (rule observe_keeps_dirty)
  show ?case
  proof (cases "?body s")
    case (Pair r s1)
    show ?thesis
    proof (cases r)
      case (Inl e)
      then show ?thesis using iterate(2) Pair by auto
    next
      case (Inr again)
      then have q: "quiet s s1" using on_successD [OF body] Pair by blast
      show ?thesis
      proof (cases again)
        case True
        then have "loop env cfg tm lsn xid s1 = Some out"
          using iterate(2) Pair Inr by simp
        from iterate(1) [OF this] q show ?thesis by (blast dest: transpD [OF quiet_trans])
      next
        case False
        then show ?thesis using iterate(2) Pair Inr q by auto
      qed
    qed
  qed
qed

lemma observe_read_only_quiet:
  assumes "observe_read_only env cfg tm wal s = Some (Ok x, s')"
  shows "quiet s s'"
proof -
  have "on_success quiet (sbind (with_controller (observe_read_only_event xid))
          (send_window_option env cfg tm (we_lsn wal)))" for xid
    by (intro quiet_rules with_controller_quiet send_window_quiet) (rule observe_keeps_dirty)
  from on_successD [OF this] show ?thesis
    using assms reflpD [OF quiet_refl, of s] read_only_commit_loop_quiet
    by (fastforce simp: observe_read_only_def split: if_splits option.splits)
qed

lemma handle_source_signal_quiet: "on_success quiet (handle_source_signal env cfg tm lsn data)"
proof (rule on_successI)
  fix s s' :: "('a, 'b) run_state" and x
  assume run: "handle_source_signal env cfg tm lsn data s = (Ok x, s')"
  have "on_success quiet
     (sbind (slift p) (\<lambda>signal.
       if \<not> (signal_channel_enabled (run_stream_config cfg) ''source'' \<or> is_watermark signal)
       then sreturn ()
       else
         sbind (in_controller (handle_signal (so_snap (dr_source env)) (run_pg_config cfg) schemas signal))
           (send_window_option env cfg tm lsn)))" for p :: "signal result" and schemas
    by (intro quiet_rules) (auto intro!: quiet_rules in_controller_quiet handle_signal_tracks_dirty send_window_quiet)
  from on_successD [OF this run [unfolded handle_source_signal_def]] show "quiet s s'" .
qed

lemma current_xmin_quiet: "on_success quiet (current_xmin env tm)"
  by (rule on_successI)
     (auto simp: current_xmin_def quiet_def keeps_dirty_refl split: option.splits prod.splits)

lemma convert_and_deliver_carries: "on_success (carries base) (convert_and_deliver env cfg tm wal)"
proof (rule on_successI)
  fix s s' :: "('a, 'b) run_state" and x
  assume "convert_and_deliver env cfg tm wal s = (Ok x, s')"
  then obtain xmin s1 made s2 where
    xmin: "current_xmin env tm s = (Ok xmin, s1)"
    and conv: "in_stream (convert (so_stream (dr_source env)) (run_stream_config cfg)
                 (tm_clock tm (length (rn_sent s1))) xmin wal) s1 = (Ok made, s2)"
    and rest: "(case made of None \<Rightarrow> sreturn () | Some r \<Rightarrow> deliver env cfg r) s2 = (Ok x, s')"
    by (auto simp: convert_and_deliver_def sbind_Ok_iff)
  have "carries base s s1" "carries base s1 s2"
    using on_successD [OF current_xmin_quiet xmin] on_successD [OF in_stream_quiet conv]
    by (auto intro: quiet_carries)
  moreover have "carries base s2 s'"
  proof (cases made)
    case None
    then show ?thesis using rest by (auto simp: sreturn_def carries_def)
  next
    case (Some r)
    have "sr_connector_state r = None"
      using conv Some by (auto simp: in_stream_def split: prod.splits dest: convert_stateless)
    from on_successD [OF deliver_carries [OF this]] rest Some show ?thesis by simp
  qed
  ultimately show "carries base s s'" by (blast dest: transpD [OF carries_trans])
qed

lemma acknowledged_changed_quiet: "on_success quiet (acknowledged_changed env cfg p)"
  by (rule on_successI)
     (auto simp: acknowledged_changed_def flush_acknowledged_lsn_def quiet_def keeps_dirty_refl Let_def
       split: option.splits source_position.splits if_splits prod.splits)

lemma heartbeat_tick_quiet: "on_success quiet (heartbeat_tick env cfg tm)"
proof -
  have action: "on_success quiet (heartbeat_action env cfg)"
  proof (rule on_successI)
    fix s s' :: "('a, 'b) run_state" and x
    assume run: "heartbeat_action env cfg s = (Ok x, s')"
    then have "rn_controller s' = rn_controller s \<and> rn_sent s' = rn_sent s"
      by (auto simp: heartbeat_action_def sbind_Ok_iff in_world_def split: option.splits prod.splits)
    then show "quiet s s'" by (simp add: quiet_def keeps_dirty_refl)
  qed
  have send: "on_success quiet (\<lambda>s. case rn_last_safe s of
         None \<Rightarrow> (Ok (), s)
       | Some position \<Rightarrow>
           send_record env (heartbeat_record (so_stream (dr_source env)) (run_stream_config cfg)
             (tm_clock tm (length (rn_sent s))) position) s)"
    by (rule on_successI)
       (auto simp: send_record_def heartbeat_record_def Let_def quiet_def keeps_dirty_refl
         split: option.splits if_splits)
  show ?thesis
    unfolding heartbeat_tick_def by (intro quiet_rules action send)
qed

lemma poll_signal_file_carries: "on_success (carries base) (poll_signal_file env cfg)"
proof (rule on_successI)
  fix s s' :: "('a, 'b) run_state" and x
  assume run: "poll_signal_file env cfg s = (Ok x, s')"
  have "on_success (carries base)
     (sbind (in_world (read_and_clear env)) (\<lambda>ls.
      sbind (sfor ls (apply_signal_line env cfg)) (\<lambda>_. checkpoint_external env None)))"
    by (intro carries_rules checkpoint_external_carries on_success_carries in_world_quiet
        apply_signal_line_quiet)
  from on_successD [OF this] run show "carries base s s'"
    by (auto simp: poll_signal_file_def carries_def split: if_splits)
qed

lemma receive_signal_carries: "on_success (carries base) (receive_signal env cfg d)"
proof (rule on_successI)
  fix s s' :: "('a, 'b) run_state" and x
  assume run: "receive_signal env cfg d s = (Ok x, s')"
  have "on_success (carries base)
     (sbind (apply_external env cfg signal) (\<lambda>_. checkpoint_external env ack))" for signal ack
    by (intro carries_rules checkpoint_external_carries on_success_carries apply_external_quiet)
  from on_successD [OF this] run show "carries base s s'"
    by (auto simp: receive_signal_def acknowledge_cells_def carries_def travels_def
        split: option.splits sum.splits prod.splits)
qed

lemma handle_message_carries:
  assumes "handle_message env cfg tm wal s = Some (Ok x, s')"
  shows "carries base s s'"
proof -
  have prefix: "on_success quiet (sbind (refresh_relation env cfg (we_kind wal))
             (\<lambda>_. discover_uncached env cfg (we_kind wal)))"
    by (intro quiet_rules refresh_relation_quiet discover_uncached_quiet)
  obtain s1 s2 where
    s1: "sbind (refresh_relation env cfg (we_kind wal))
             (\<lambda>_. discover_uncached env cfg (we_kind wal)) s = (Ok (), s1)"
    and s2: "observe_read_only env cfg tm wal s1 = Some (Ok (), s2)"
    and rest: "(\<exists>data. handle_source_signal env cfg tm (we_lsn wal) data s2 = (Ok x, s'))
        \<or> convert_and_deliver env cfg tm wal s2 = (Ok x, s')"
    using assms
    by (auto simp: handle_message_def split: prod.splits sum.splits option.splits wal_kind.splits if_splits)
  have "carries base s s1" "carries base s1 s2"
    using on_successD [OF prefix s1] observe_read_only_quiet [OF s2] by (auto intro: quiet_carries)
  moreover have "carries base s2 s'"
    using rest on_successD [OF handle_source_signal_quiet] on_successD [OF convert_and_deliver_carries]
    by (blast intro: quiet_carries)
  ultimately show ?thesis by (blast dest: transpD [OF carries_trans])
qed

lemma stream_step_carries:
  assumes "stream_step env cfg tm step s = Some (Ok x, s')"
  shows "carries base s s'"
proof (cases step)
  case (StepSignal d)
  then show ?thesis
    using assms on_successD [OF receive_signal_carries, of env cfg d s x s' base]
    by (auto simp: stream_step_def carries_def split: if_splits)
qed (use assms in \<open>auto simp: stream_step_def
      intro: handle_message_carries quiet_carries on_successD [OF acknowledged_changed_quiet]
        on_successD [OF heartbeat_tick_quiet] on_successD [OF poll_signal_file_carries]\<close>)

lemma stream_steps_carry:
  "stream_steps env cfg steps s = Some (Ok x, s') \<Longrightarrow> carries base s s'"
proof (induction steps arbitrary: s)
  case Nil
  then show ?case by (simp add: carries_def)
next
  case (Cons a steps)
  obtain tm step where a: "a = (tm, step)" by (cases a)
  then obtain y s1 where "stream_step env cfg tm step s = Some (Ok y, s1)"
    "stream_steps env cfg steps s1 = Some (Ok x, s')"
    using Cons.prems by (auto split: option.splits sum.splits)
  from stream_step_carries [OF this(1)] Cons.IH [OF this(2)]
  show ?case by (blast dest: transpD [OF carries_trans])
qed

lemma resume_position_quiet:
  assumes "start_streaming env cfg cp su start resume acknowledged sent cells w = (Ok s, w')"
  shows "rn_sent s = sent \<and> keeps_dirty (controller_new (su_progress su) (su_completed su)) (rn_controller s)"
proof -
  obtain lsn heartbeat tracker w2 where
    "(case in_controller (resume_snapshot (so_snap (dr_source env)) (run_pg_config cfg)
            (ss_schemas (initial_stream_state cp su resume)))
          \<lparr>rn_stream = initial_stream_state cp su resume,
           rn_controller = controller_new (su_progress su) (su_completed su),
           rn_last_safe = initial_safe_position resume (Some lsn), rn_tracker = tracker,
           rn_heartbeat = heartbeat, rn_applied = initial_feedback (prc_flush_mode cfg) acknowledged,
           rn_cells = cells, rn_world = w2, rn_sent = sent\<rparr> of
         (Inl e, s') \<Rightarrow> (Err e, rn_world s') | (Inr _, s') \<Rightarrow> (Ok s', rn_world s')) = (Ok s, w')"
    using assms by (auto simp: start_streaming_def Let_def sbind_Ok_iff)
  then show ?thesis
    by (auto simp: in_controller_def split: prod.splits sum.splits dest: tracks_dirtyD [OF resume_tracks_dirty])
qed

text \<open>C21. The progress of an incremental snapshot never lives in the connector alone: after any steps of
  the streaming loop that succeed, the list of completed signals and the progress are marked as
  changed, and the next record is going to carry them, or they are the ones in the last connector state
  that was sent, or no state was sent since the start and they are the restored ones.\<close>

theorem snapshot_progress_travels:
  assumes start: "start_streaming env cfg cp su start resume acknowledged [] cells w = (Ok s, w')"
    and run: "stream_steps env cfg steps s = Some (Ok (), s')"
  shows "sc_state_dirty (rn_controller s')
    \<or> (case last_sent_state (rn_sent s') of
         None \<Rightarrow> sc_progress (rn_controller s') = su_progress su
                 \<and> sc_completed (rn_controller s') = su_completed su
       | Some e \<Rightarrow> \<exists>schemas. e = pg_encode_connector_state schemas (sc_progress (rn_controller s'))
                                  (sc_completed (rn_controller s')))"
proof -
  have "travels (su_progress su, su_completed su) s"
    using resume_position_quiet [OF start]
    by (auto simp: travels_def sent_state_def keeps_dirty_def controller_new_def)
  with stream_steps_carry [OF run] have "travels (su_progress su, su_completed su) s'"
    by (simp add: carries_def)
  then show ?thesis
    by (auto simp: travels_def sent_state_def split: option.splits)
qed

text \<open>A run that restores a paused snapshot, which a signal then stops.\<close>

definition sample_driver :: "(unit, (string + pg_result) list) driver_env" where
  "sample_driver =
     \<lparr>dr_flush = \<lambda>w. (FlushCompleted, w), dr_open = \<lambda>_ w. (Inr (), w), dr_ensure_slot = \<lambda>w. (Inr (), w),
      dr_set_failover = \<lambda>w. (Ok (), w), dr_exported_snapshot = \<lambda>w. (None, w), dr_start = \<lambda>_ w. (Inr (), w),
      dr_stop = \<lambda>w. (Inr (), w),
      dr_as_str = (\<lambda>v. case v of CvText s \<Rightarrow> Some s | _ \<Rightarrow> None), dr_read_file = \<lambda>w. (Ok None, w),
      dr_clear_file = \<lambda>w. (Ok (), w),
      dr_source = (sample_source_env sample_pg)
        \<lparr>so_snap := sample_snap_env\<lparr>sn_parse := \<lambda>_. Inr (JObject [(''data-collections'', JArray [])])\<rparr>\<rparr>\<rparr>"

definition sample_run_config :: pg_run_config where
  "sample_run_config =
     \<lparr>prc_server = (sample_server_config TrustSlot)
        \<lparr>pvc_stream := sample_stream_config\<lparr>psc_signal_enabled_channels := [''in-process'']\<rparr>\<rparr>,
      prc_snapshot = sample_snapshot_config, prc_snapshot_mode = SnapshotInitial,
      prc_flush_mode = FlushConnector, prc_flush_timeout = 0, prc_flush_timeout_action = FlushFail,
      prc_heartbeat_action_query = None, prc_heartbeat_interval = 0, prc_xmin_fetch_interval = 0,
      prc_drop_slot_on_stop = False\<rparr>"

definition sample_startup :: startup where
  "sample_startup =
     \<lparr>su_snapshot_needed = False, su_schemas = sample_schemas,
      su_progress = Some (sample_progress\<lparr>pp_paused := True\<rparr>), su_completed = [],
      su_state_dirty = False, su_resolution = None\<rparr>"

definition sample_run_state :: "(unit, (string + pg_result) list) run_state" where
  "sample_run_state =
     \<lparr>rn_stream = initial_stream_state None sample_startup None,
      rn_controller = controller_new (su_progress sample_startup) [],
      rn_last_safe = initial_safe_position None (Some 7), rn_tracker = None, rn_heartbeat = None,
      rn_applied = [], rn_cells = [], rn_world = [], rn_sent = []\<rparr>"

lemma sample_run_simps [simp]:
  "prc_heartbeat_interval sample_run_config = 0" "prc_xmin_fetch_interval sample_run_config = 0"
  "prc_flush_mode sample_run_config = FlushConnector"
  "\<not> pgc_read_only (run_pg_config sample_run_config)"
  "dr_start sample_driver l w = (Inr (), w)"
  "so_receiver (dr_source sample_driver) n"
  by (simp_all add: sample_run_config_def sample_driver_def sample_server_config_def
      sample_stream_config_def sample_pg_config_def sample_source_env_def)

lemma sample_run_start:
  "start_streaming sample_driver sample_run_config None sample_startup (Some 7) None None [] [] []
   = (Ok sample_run_state, [])"
  by (simp add: start_streaming_def driver_def pg_error_def sbind_def sreturn_def
      open_heartbeat_connection_def tracker_open_def in_controller_def resume_snapshot_def
      controller_new_def sample_startup_def initial_feedback_def sample_run_state_def)

definition stop_delivery :: signal_delivery where
  "stop_delivery =
     \<lparr>sd_record = signal_record_new ''x'' ''stop-snapshot'' empty_data, sd_acknowledgement = None\<rparr>"

lemma sample_stop_signal:
  "parse_external_record (so_snap (dr_source sample_driver)) (sd_record stop_delivery) = Ok (Stop ''x'' [])"
  by (simp add: parse_external_record_def stop_delivery_def signal_record_new_def trim_def
      utf8_cont_def ws_chunk_def is_whitespace_def
      parse_signal_fields_def control_snapshot_data_def from_str_def sample_driver_def
      control_data_from_json_def unique_fields_def opt_field_def default_field_def get_list_def
      not_incremental_def)

definition stopped_state :: "(unit, (string + pg_result) list) run_state" where
  "stopped_state =
     sample_run_state
       \<lparr>rn_controller := controller_new None [''s''],
        rn_sent := [(boundary_record (postgres_streaming_position 7))
          \<lparr>sr_connector_state := Some (pg_encode_connector_state sample_schemas None [''s''])\<rparr>],
        rn_stream := (rn_stream sample_run_state)\<lparr>ss_schema_dirty := False\<rparr>\<rparr>"

lemma sample_stop_applied:
  "apply_external sample_driver sample_run_config (Stop ''x'' []) sample_run_state
   = (Ok (), sample_run_state\<lparr>rn_controller := (controller_new None [''s''])\<lparr>sc_state_dirty := True\<rparr>\<rparr>)"
  by (simp add: apply_external_def apply_external_signal_def sbind_def in_controller_def handle_signal_def
      stop_snapshot_def compile_patterns_def sample_run_state_def sample_startup_def sample_progress_def
      controller_new_def clear_current_chunk_def remember_completed_def remember_def
      MAX_COMPLETED_SIGNAL_IDS_def after_commit_def Let_def)

lemma sample_stop_checkpointed:
  "checkpoint_external sample_driver None
     (sample_run_state\<lparr>rn_controller := (controller_new None [''s''])\<lparr>sc_state_dirty := True\<rparr>\<rparr>)
   = (Ok (), stopped_state)"
  by (simp add: checkpoint_external_def checkpoint_external_signal_state_def take_state_dirty_def sbind_def send_record_def
      sample_run_state_def stopped_state_def controller_new_def initial_safe_position_def
      current_state_def initial_stream_state_def stream_new_def sample_startup_def boundary_record_def)

lemma sample_stream_steps:
  "stream_steps sample_driver sample_run_config
     [(\<lparr>tm_clock = \<lambda>_. 0, tm_now = 0, tm_fetched = 0\<rparr>, StepSignal (Some stop_delivery))] sample_run_state
   = Some (Ok (), stopped_state)"
proof -
  have "receives_signals sample_run_config sample_run_state"
    by (simp add: receives_signals_def signal_channel_enabled_def sample_run_config_def
        sample_run_state_def initial_stream_state_def stream_new_def Let_def)
  moreover have "receive_signal sample_driver sample_run_config (Some stop_delivery) sample_run_state
      = (Ok (), stopped_state)"
    unfolding receive_signal_def option.case sample_stop_signal sum.case
    using sample_stop_applied sample_stop_checkpointed
    by (simp add: sbind_def stop_delivery_def)
  ultimately show ?thesis by (simp add: stream_step_def)
qed

theorem snapshot_progress_travels_witness:
  "\<exists>schemas. last_sent_state (rn_sent stopped_state) = Some (pg_encode_connector_state schemas None [''s''])"
  using snapshot_progress_travels [OF sample_run_start sample_stream_steps]
  by (auto simp: stopped_state_def controller_new_def)

section \<open>A restart\<close>

lemma restore_state_Ok:
  assumes "restore_state mode json_error (Some cp) validated = Ok su" "\<not> su_snapshot_needed su"
  shows "\<exists>e state. cp_connector_state cp = Some e \<and> pg_decode_connector_state json_error e = Ok state
           \<and> su_progress su = pcs_incremental_snapshot state
           \<and> su_completed su = pcs_completed_signal_ids state
           \<and> su_schemas su = fst (normalize_checkpoint_schemas (pcs_schemas state) validated)"
  using assms
  by (auto simp: restore_state_def Let_def rbind_Ok_iff split_beta split: if_splits option.splits)

lemma prepare_slot_Ok:
  assumes "prepare_slot env cfg (Some cp) su0 w = (Ok su, w')" "\<not> su_snapshot_needed su"
  obtains p r w1 where "\<not> su_snapshot_needed su0" "cp_source_position cp = Postgres p"
    "resolve_resume_slot env (prc_server cfg) p w = (Ok r, w1)" "su_resolution su = Some r"
    "su_completed su = su_completed su0"
    "if rr_preserve_checkpoint_position r then su_progress su = su_progress su0 \<and> su_schemas su = su_schemas su0
     else su_progress su = None \<and> su_state_dirty su
          \<and> load_current_schemas env (prc_server cfg) w1 = (Ok (su_schemas su), w')"
  using assms
  by (auto simp: prepare_slot_def sreturn_def slift_def sbind_Ok_iff
      split: if_splits source_position.splits prod.splits sum.splits)

text \<open>C20. What a restart continues from: with a checkpoint and no snapshot to take, the checkpoint is one
  of PostgreSQL, and either the stream restarts at its log position, with the position itself as the
  limit of what is skipped and with the schemas, the progress and the completed signals decoded from the
  state stored in it, or it restarts past the end of the checkpoint; then the progress of the snapshot
  is dropped, the change is going to be sent, the schemas are read anew from the catalog, and nothing of
  the stream is skipped but what the server leaves out.\<close>

theorem restart_restores_or_refreshes:
  assumes run: "start_run env cfg json_error (Some cp) validated w = (Ok su, w')"
    and stream: "\<not> su_snapshot_needed su"
  shows "\<exists>p e state. cp_source_position cp = Postgres p \<and> cp_connector_state cp = Some e
    \<and> pg_decode_connector_state json_error e = Ok state
    \<and> su_completed su = pcs_completed_signal_ids state
    \<and> ((start_lsn (Some cp) su = Ok (Some (pg_lsn p))
        \<and> resume_position (Some cp) su = Some (cp_source_position cp)
        \<and> su_progress su = pcs_incremental_snapshot state
        \<and> su_schemas su = fst (normalize_checkpoint_schemas (pcs_schemas state) validated))
       \<or> (\<exists>l w1. l > checkpoint_end p \<and> start_lsn (Some cp) su = Ok (Some l)
           \<and> resume_position (Some cp) su = Some (postgres_streaming_position l)
           \<and> su_progress su = None \<and> su_state_dirty su
           \<and> load_current_schemas env (prc_server cfg) w1 = (Ok (su_schemas su), w')))"
proof -
  obtain su0 where restored: "restore_state (prc_snapshot_mode cfg) json_error (Some cp) validated = Ok su0"
    and slot: "prepare_slot env cfg (Some cp) su0 w = (Ok su, w')"
    using run by (auto simp: start_run_def sbind_Ok_iff slift_def)
  from slot stream obtain p r w1 where
    su0: "\<not> su_snapshot_needed su0" and p: "cp_source_position cp = Postgres p"
    and r: "resolve_resume_slot env (prc_server cfg) p w = (Ok r, w1)" "su_resolution su = Some r"
    and kept: "su_completed su = su_completed su0"
    and cases: "if rr_preserve_checkpoint_position r
        then su_progress su = su_progress su0 \<and> su_schemas su = su_schemas su0
        else su_progress su = None \<and> su_state_dirty su
          \<and> load_current_schemas env (prc_server cfg) w1 = (Ok (su_schemas su), w')"
    by (rule prepare_slot_Ok)
  from restore_state_Ok [OF restored su0] obtain e state where
    state: "cp_connector_state cp = Some e" "pg_decode_connector_state json_error e = Ok state"
      "su_progress su0 = pcs_incremental_snapshot state" "su_completed su0 = pcs_completed_signal_ids state"
      "su_schemas su0 = fst (normalize_checkpoint_schemas (pcs_schemas state) validated)" by blast
  show ?thesis
  proof (cases "rr_preserve_checkpoint_position r")
    case True
    then show ?thesis
      using p r state kept cases resolve_resume_slot_position(1) [OF r(1)]
      by (simp add: start_lsn_def resume_position_def)
  next
    case False
    then show ?thesis
      using p r state kept cases resolve_resume_slot_position(2) [OF r(1)]
      by (auto simp: start_lsn_def resume_position_def)
  qed
qed

definition restart_checkpoint :: checkpoint where
  "restart_checkpoint =
     \<lparr>cp_schema_version = 1, cp_connector_name = ''orders'', cp_generation = [],
      cp_source_position = postgres_streaming_position 7, cp_snapshot_completed = True,
      cp_config_fingerprint = [], cp_updated_at = 0,
      cp_connector_state = Some (pg_encode_state (sample_pg_state [''orders'']))\<rparr>"

lemma sample_restart:
  "\<exists>su. start_run (sample_server_env sample_pg) sample_run_config (\<lambda>_. []) (Some restart_checkpoint) []
          slot_answers = (Ok su, []) \<and> \<not> su_snapshot_needed su"
proof -
  let ?cfg = "prc_server sample_run_config"
  have config: "pgc_slot_name (server_pg_config ?cfg) = ''slot''"
      "pvc_offset_mismatch_strategy ?cfg = TrustSlot" "prc_snapshot_mode sample_run_config = SnapshotInitial"
    by (simp_all add: sample_run_config_def sample_server_config_def sample_stream_config_def
        sample_pg_config_def)
  have parse: "sv_parse_lsn (sample_server_env sample_pg) ''0/7'' = Inr 7"
    by (simp add: sample_server_env_def)
  have connect: "pe_connect sample_pg w = (Ok (), w)" for w by (simp add: sample_pg_def)
  have slot: "resolve_resume_slot (sample_server_env sample_pg) ?cfg
      \<lparr>pg_lsn = 7, pg_commit_lsn = Some 7, pg_transaction_id = None, pg_xmin = None,
       pg_event_serial = 0, pg_snapshot = False\<rparr> slot_answers
    = (Ok \<lparr>rr_start_lsn = 7, rr_preserve_checkpoint_position = True\<rparr>, [])"
    by (simp add: resolve_resume_slot_def Let_def sbind_def connect slot_answers_def slift_def
        pg_error_def parse required_value_def get_value_def resume_slot_decision_def sreturn_def config)
  have "pg_state_wf (sample_pg_state [''orders''])" by (simp add: sample_pg_state_wf)
  then have "\<exists>su. restore_state SnapshotInitial (\<lambda>_. []) (Some restart_checkpoint) [] = Ok su
      \<and> \<not> su_snapshot_needed su"
    by (simp add: restore_state_def restart_checkpoint_def snapshot_needed_def pg_decode_encode Let_def
        split_beta)
  then obtain su where su: "restore_state SnapshotInitial (\<lambda>_. []) (Some restart_checkpoint) [] = Ok su"
    "\<not> su_snapshot_needed su" by blast
  then show ?thesis
    using slot
    by (simp add: start_run_def prepare_slot_def config restart_checkpoint_def postgres_streaming_position_def)
qed

theorem restart_restores_or_refreshes_witness:
  "\<exists>(su :: startup) e state. cp_connector_state restart_checkpoint = Some e
     \<and> pg_decode_connector_state (\<lambda>_. []) e = Ok state
     \<and> su_completed su = pcs_completed_signal_ids state"
proof -
  obtain su where "start_run (sample_server_env sample_pg) sample_run_config (\<lambda>_. [])
      (Some restart_checkpoint) [] slot_answers = (Ok su, [])" "\<not> su_snapshot_needed su"
    using sample_restart by blast
  from restart_restores_or_refreshes [OF this] show ?thesis
    by (elim exE conjE) (intro exI conjI, assumption+)
qed

end
