(* ===== verification/Json_Format.thy ===== *)
theory Json_Format
  imports Connector_State Checkpoint_Store
begin

text \<open>
  The JSON encoders of \<^verbatim>\<open>crates/rustium-format-json/src/lib.rs\<close>: the native document of an event, the
  Debezium envelope with its source block, the tombstone that follows a deletion, and the JSON schemas
  of keys and values that \<^verbatim>\<open>DebeziumJsonSchemaEncoder\<close> attaches.

  The printer of JSON values (which cannot fail on a \<^verbatim>\<open>serde_json::Value\<close>), the hexadecimal and base64
  printers, SHA-256 and the text of an instant (\<^verbatim>\<open>chrono\<close>) are parameters.
\<close>

section \<open>Configuration and parameters\<close>

record json_encoder_config =
  jc_topic_prefix :: string
  jc_unavailable_value :: string
  jc_tombstones_on_delete :: bool
  jc_heartbeat_topics_prefix :: string
  jc_heartbeat_topic_name :: "string option"

record json_env =
  jv_print :: "json \<Rightarrow> string"
  jv_hex :: "u8 list \<Rightarrow> string"
  jv_base64 :: "u8 list \<Rightarrow> string"
  jv_sha256 :: "u8 list \<Rightarrow> u8 list"
  jv_instant :: "instant \<Rightarrow> json"

text \<open>\<^verbatim>\<open>collect::<serde_json::Map<_, _>>()\<close>, and the millisecond of an instant.\<close>

definition json_map :: "(string \<times> json) list \<Rightarrow> json" where
  "json_map kvs = JObject (fold (\<lambda>(k, v). im_insert k v) kvs [])"

definition timestamp_millis :: "instant \<Rightarrow> int" where
  "timestamp_millis t = t div 1000000"

fun operation_code :: "operation \<Rightarrow> string" where
  "operation_code Read = ''r''"
| "operation_code Create = ''c''"
| "operation_code Update = ''u''"
| "operation_code Delete = ''d''"
| "operation_code Truncate = ''t''"
| "operation_code Message = ''m''"

fun operation_name :: "operation \<Rightarrow> string" where
  "operation_name Read = ''read''"
| "operation_name Create = ''create''"
| "operation_name Update = ''update''"
| "operation_name Delete = ''delete''"
| "operation_name Truncate = ''truncate''"
| "operation_name Message = ''message''"

definition is_heartbeat :: "change_event \<Rightarrow> bool" where
  "is_heartbeat e = (map_of (sm_attributes (ev_source e)) ''rustium.heartbeat'' = Some (JBool True))"

definition is_logical_decoding_message :: "change_event \<Rightarrow> bool" where
  "is_logical_decoding_message e =
     (map_of (sm_attributes (ev_source e)) ''rustium.logical_decoding_message'' = Some (JBool True))"

section \<open>Rows, keys and records\<close>

definition row_to_json :: "json_env \<Rightarrow> string \<Rightarrow> row \<Rightarrow> json" where
  "row_to_json env unavailable r = json_map (map (\<lambda>(n, v). (n, to_json (jv_hex env) unavailable v)) r)"

definition message_value :: "json_env \<Rightarrow> string \<Rightarrow> data_value \<Rightarrow> json" where
  "message_value env unavailable v =
     (case v of DvBytes bs \<Rightarrow> JString (jv_base64 env bs) | _ \<Rightarrow> to_json (jv_hex env) unavailable v)"

definition logical_message_to_json :: "json_env \<Rightarrow> string \<Rightarrow> row \<Rightarrow> json" where
  "logical_message_to_json env unavailable r =
     json_map (map (\<lambda>(n, v). (n, message_value env unavailable v)) r)"

definition event_key_fields :: "change_event \<Rightarrow> field_schema list" where
  "event_key_fields e = filter fs_primary_key (es_fields (ev_schema e))"

definition event_key :: "json_env \<Rightarrow> row \<Rightarrow> change_event \<Rightarrow> string \<Rightarrow> json option" where
  "event_key env r e unavailable =
     (let key = fold (\<lambda>f m. case map_of r (fs_name f) of
                               None \<Rightarrow> m
                             | Some v \<Rightarrow> im_insert (fs_name f) (to_json (jv_hex env) unavailable v) m)
                  (event_key_fields e) []
      in if key = [] then None else Some (JObject key))"

definition destination_of :: "json_encoder_config \<Rightarrow> change_event \<Rightarrow> string result" where
  "destination_of cfg e =
     (if is_heartbeat e
      then Ok (case jc_heartbeat_topic_name cfg of
                 Some t \<Rightarrow> t
               | None \<Rightarrow> jc_heartbeat_topics_prefix cfg @ ''.'' @ jc_topic_prefix cfg)
      else if is_logical_decoding_message e then Ok (jc_topic_prefix cfg @ ''.message'')
      else
        rbind (ok_or (Encoding ''event has no source table'') (sm_table (ev_source e))) (\<lambda>table.
          Ok (case sm_schema (ev_source e) of
                None \<Rightarrow> jc_topic_prefix cfg @ ''.'' @ sm_database (ev_source e) @ ''.'' @ table
              | Some schema \<Rightarrow>
                  jc_topic_prefix cfg @ ''.'' @ sm_database (ev_source e) @ ''.'' @ schema @ ''.''
                  @ table)))"

definition key_row :: "change_event \<Rightarrow> row option" where
  "key_row e = (case ev_after e of None \<Rightarrow> ev_before e | Some r \<Rightarrow> Some r)"

definition key_document :: "json_env \<Rightarrow> json_encoder_config \<Rightarrow> change_event \<Rightarrow> json option" where
  "key_document env cfg e =
     (if is_heartbeat e
      then Some (JObject [(''serverName'', JString (sm_connector_name (ev_source e)))])
      else Option.bind (key_row e) (\<lambda>r. event_key env r e (jc_unavailable_value cfg)))"

definition record_headers :: "change_event \<Rightarrow> (string \<times> string) list" where
  "record_headers e =
     (let h = bt_insert ''rustium.content.type'' ''application/json''
                (bt_insert ''rustium.event.id'' (ev_id e) [])
      in if is_heartbeat e then bt_insert ''rustium.record.type'' ''heartbeat'' h
         else if is_logical_decoding_message e
         then bt_insert ''rustium.record.type'' ''logical-decoding-message'' h
         else h)"

definition build_encoded ::
  "json_env \<Rightarrow> json_encoder_config \<Rightarrow> change_event \<Rightarrow> json \<Rightarrow> encoded_event result" where
  "build_encoded env cfg e payload =
     rbind (destination_of cfg e) (\<lambda>destination.
       Ok \<lparr>enc_id = ev_id e, enc_destination = destination,
           enc_key = map_option (\<lambda>k. bytes_of (jv_print env k)) (key_document env cfg e),
           enc_key_schema = None, enc_payload = Some (bytes_of (jv_print env payload)),
           enc_payload_schema = None, enc_headers = record_headers e\<rparr>)"

section \<open>The native document\<close>

definition metadata_to_json :: "source_metadata \<Rightarrow> json" where
  "metadata_to_json m =
     JObject [(''connector'', JString (sm_connector m)), (''connector_name'', JString (sm_connector_name m)),
              (''database'', JString (sm_database m)), (''schema'', put_opt JString (sm_schema m)),
              (''table'', put_opt JString (sm_table m)), (''snapshot'', JBool (sm_snapshot m)),
              (''version'', JString (sm_version m)), (''attributes'', put_btree id (sm_attributes m))]"

definition transaction_to_json :: "transaction_metadata \<Rightarrow> json" where
  "transaction_to_json t =
     JObject [(''id'', JString (tx_id t)), (''total_order'', put_opt json_uint (tx_total_order t)),
              (''collection_order'', put_opt json_uint (tx_collection_order t))]"

definition native_document :: "json_env \<Rightarrow> json_encoder_config \<Rightarrow> change_event \<Rightarrow> json" where
  "native_document env cfg e =
     JObject [(''specversion'', JString ''1.0''), (''id'', JString (ev_id e)),
              (''source'', metadata_to_json (ev_source e)),
              (''position'', position_to_json (ev_position e)),
              (''transaction'', put_opt transaction_to_json (ev_transaction e)),
              (''op'', JString (operation_name (ev_operation e))),
              (''before'', put_opt (row_to_json env (jc_unavailable_value cfg)) (ev_before e)),
              (''after'', put_opt (row_to_json env (jc_unavailable_value cfg)) (ev_after e)),
              (''schema'', event_schema_to_json (ev_schema e)),
              (''source_time'', put_opt (jv_instant env) (ev_source_time e)),
              (''observed_time'', jv_instant env (ev_observed_time e))]"

definition rustium_encode :: "json_env \<Rightarrow> json_encoder_config \<Rightarrow> change_event \<Rightarrow> encoded_event result" where
  "rustium_encode env cfg e = build_encoded env cfg e (native_document env cfg e)"

section \<open>The Debezium envelope\<close>

definition snapshot_marker :: "change_event \<Rightarrow> string" where
  "snapshot_marker e =
     (if map_of (sm_attributes (ev_source e)) ''rustium.snapshot.kind'' = Some (JString ''incremental'')
      then ''incremental''
      else if sm_snapshot (ev_source e) then ''true'' else ''false'')"

definition common_source :: "change_event \<Rightarrow> (string \<times> json) list" where
  "common_source e =
     [(''version'', JString (sm_version (ev_source e))),
      (''connector'', JString (sm_connector (ev_source e))),
      (''name'', JString (sm_connector_name (ev_source e))),
      (''ts_ms'', put_opt (\<lambda>t. json_int (timestamp_millis t)) (ev_source_time e)),
      (''snapshot'', JString (snapshot_marker e)),
      (''db'', JString (sm_database (ev_source e))),
      (''schema'', put_opt JString (sm_schema (ev_source e))),
      (''table'', put_opt JString (sm_table (ev_source e)))]"

fun position_block :: "json_env \<Rightarrow> source_position \<Rightarrow> (string \<times> json) list" where
  "position_block env (Postgres p) =
     [(''sequence'', JString (jv_print env (JArray
         [JString (show_word (case pg_commit_lsn p of Some l \<Rightarrow> l | None \<Rightarrow> pg_lsn p)),
          JString (show_word (pg_lsn p))]))),
      (''txId'', put_opt json_uint (pg_transaction_id p)), (''lsn'', json_uint (pg_lsn p)),
      (''xmin'', put_opt json_uint (pg_xmin p))]"
| "position_block env (MySql p) =
     [(''server_id'', json_uint (my_server_id p)), (''gtid'', put_opt JString (my_gtid_set p)),
      (''file'', JString (my_binlog_filename p)), (''pos'', json_uint (my_binlog_position p)),
      (''row'', json_uint (my_event_serial p)), (''thread'', JNull), (''query'', JNull)]"
| "position_block env (SqlServer p) =
     [(''change_lsn'', JString (ms_change_lsn p)), (''commit_lsn'', JString (ms_commit_lsn p)),
      (''event_serial_no'', json_uint (ms_event_serial p))]"
| "position_block env (Oracle p) =
     [(''scn'', json_uint (ora_scn p)), (''commit_scn'', put_opt json_uint (ora_commit_scn p)),
      (''txId'', put_opt JString (ora_transaction_id p)), (''rs_id'', put_opt JString (ora_rs_id p)),
      (''ssn'', put_opt json_uint (ora_ssn p)), (''event_serial_no'', json_uint (ora_event_serial p))]"
| "position_block env (MongoDb p) =
     [(''resume_token'', put_opt JString (mg_resume_token p)),
      (''cluster_time_seconds'', put_opt json_uint (mg_cluster_time_seconds p)),
      (''cluster_time_increment'', put_opt json_uint (mg_cluster_time_increment p)),
      (''event_serial_no'', json_uint (mg_event_serial p))]"
| "position_block env (Debezium p) =
     [(''source_offset'', JString (jv_print env (put_btree id (dz_source p)))),
      (''record_id'', JString (dz_record_id p)), (''event_serial_no'', json_uint (dz_event_serial p))]"

definition debezium_source :: "json_env \<Rightarrow> change_event \<Rightarrow> json" where
  "debezium_source env e =
     JObject (fold (\<lambda>(k, v). im_insert k v) (position_block env (ev_position e)) (common_source e))"

definition debezium_transaction :: "transaction_metadata \<Rightarrow> json" where
  "debezium_transaction t =
     JObject [(''id'', JString (tx_id t)), (''total_order'', put_opt json_uint (tx_total_order t)),
              (''data_collection_order'', put_opt json_uint (tx_collection_order t))]"

definition debezium_document :: "json_env \<Rightarrow> json_encoder_config \<Rightarrow> change_event \<Rightarrow> json result" where
  "debezium_document env cfg e =
     (let ts_ms = (''ts_ms'', json_int (timestamp_millis (ev_observed_time e)));
          unavailable = jc_unavailable_value cfg;
          source = (''source'', debezium_source env e);
          op = (''op'', JString (operation_code (ev_operation e)));
          transaction = (''transaction'', put_opt debezium_transaction (ev_transaction e))
      in
      if is_heartbeat e then Ok (JObject [ts_ms])
      else if is_logical_decoding_message e
      then rbind (ok_or (Encoding ''PostgreSQL logical decoding message has no content'') (ev_after e))
             (\<lambda>message. Ok (JObject
                [source, op, ts_ms, transaction,
                 (''message'', logical_message_to_json env unavailable message)]))
      else Ok (JObject
             [(''before'', put_opt (row_to_json env unavailable) (ev_before e)),
              (''after'', put_opt (row_to_json env unavailable) (ev_after e)),
              source, op, ts_ms, transaction]))"

definition debezium_encode :: "json_env \<Rightarrow> json_encoder_config \<Rightarrow> change_event \<Rightarrow> encoded_event result" where
  "debezium_encode env cfg e =
     rbind (debezium_document env cfg e) (\<lambda>payload. build_encoded env cfg e payload)"

definition tombstone_of :: "json_env \<Rightarrow> change_event \<Rightarrow> encoded_event \<Rightarrow> encoded_event" where
  "tombstone_of env e encoded =
     (let i = derived (jv_sha256 env) (jv_hex env) (ev_id e) ''debezium-tombstone''
      in encoded\<lparr>enc_id := i, enc_payload := None, enc_payload_schema := None,
                 enc_headers := bt_insert ''rustium.record.type'' ''tombstone''
                   (bt_insert ''rustium.event.id'' i (enc_headers encoded))\<rparr>)"

definition debezium_encode_batch ::
  "json_env \<Rightarrow> json_encoder_config \<Rightarrow> change_event \<Rightarrow> encoded_event list result" where
  "debezium_encode_batch env cfg e =
     rbind (debezium_encode env cfg e) (\<lambda>encoded.
       Ok (if ev_operation e \<noteq> Delete \<or> \<not> jc_tombstones_on_delete cfg then [encoded]
           else [encoded, tombstone_of env e encoded]))"

section \<open>JSON schemas\<close>

abbreviation type_schema :: "string \<Rightarrow> json" where
  "type_schema t \<equiv> JObject [(''type'', JString t)]"

abbreviation nullable_schema :: "string \<Rightarrow> json" where
  "nullable_schema t \<equiv> JObject [(''type'', JArray [JString t, JString ''null''])]"

definition object_schema :: "(string \<times> json) list \<Rightarrow> string list \<Rightarrow> (string \<times> json) list" where
  "object_schema properties required =
     [(''type'', JString ''object''), (''additionalProperties'', JBool False),
      (''properties'', JObject properties), (''required'', JArray (map JString required))]"

fun connector_fields :: "source_position \<Rightarrow> (string \<times> json) list" where
  "connector_fields (Postgres _) =
     [(''sequence'', type_schema ''string''), (''txId'', nullable_schema ''integer''),
      (''lsn'', type_schema ''integer''), (''xmin'', nullable_schema ''integer'')]"
| "connector_fields (MySql _) =
     [(''server_id'', type_schema ''integer''), (''gtid'', nullable_schema ''string''),
      (''file'', type_schema ''string''), (''pos'', type_schema ''integer''),
      (''row'', type_schema ''integer''), (''thread'', nullable_schema ''integer''),
      (''query'', nullable_schema ''string'')]"
| "connector_fields (SqlServer _) =
     [(''change_lsn'', type_schema ''string''), (''commit_lsn'', type_schema ''string''),
      (''event_serial_no'', type_schema ''integer'')]"
| "connector_fields (Oracle _) =
     [(''scn'', type_schema ''integer''), (''commit_scn'', nullable_schema ''integer''),
      (''txId'', nullable_schema ''string''), (''rs_id'', nullable_schema ''string''),
      (''ssn'', nullable_schema ''integer''), (''event_serial_no'', type_schema ''integer'')]"
| "connector_fields (MongoDb _) =
     [(''resume_token'', nullable_schema ''string''), (''cluster_time_seconds'', nullable_schema ''integer''),
      (''cluster_time_increment'', nullable_schema ''integer''),
      (''event_serial_no'', type_schema ''integer'')]"
| "connector_fields (Debezium _) =
     [(''source_offset'', type_schema ''string''), (''record_id'', type_schema ''string''),
      (''event_serial_no'', type_schema ''integer'')]"

definition common_properties :: "(string \<times> json) list" where
  "common_properties =
     [(''version'', type_schema ''string''), (''connector'', type_schema ''string''),
      (''name'', type_schema ''string''), (''ts_ms'', nullable_schema ''integer''),
      (''snapshot'', type_schema ''string''), (''db'', type_schema ''string''),
      (''schema'', nullable_schema ''string''), (''table'', nullable_schema ''string'')]"

definition json_source_schema :: "change_event \<Rightarrow> json" where
  "json_source_schema e =
     (let fields = connector_fields (ev_position e)
      in JObject (object_schema (fold (\<lambda>(k, v). im_insert k v) fields common_properties)
           (map fst common_properties @ map fst fields)))"

definition INTEGER_PREFIXES :: "string list" where
  "INTEGER_PREFIXES =
     [''tinyint'', ''smallint'', ''mediumint'', ''integer'', ''bigint'', ''serial'', ''year'', ''int2'',
      ''int4'', ''int8'']"

function json_base_type :: "string \<Rightarrow> json" where
  "json_base_type type_name =
     (let normalized = to_ascii_lowercase (trim type_name) in
      case strip_suffix ''[]'' normalized of
        Some element \<Rightarrow> JObject [(''type'', JString ''array''), (''items'', json_base_type element)]
      | None \<Rightarrow>
          if normalized = ''hstore'' \<or> prefix ''map'' normalized
          then JObject [(''type'', JString ''object''), (''additionalProperties'', nullable_schema ''string'')]
          else if normalized = ''json'' \<or> normalized = ''jsonb'' then JObject []
          else if normalized = ''bool'' \<or> normalized = ''boolean'' \<or> normalized = ''bit''
          then type_schema ''boolean''
          else if contains_text ''decimal'' normalized \<or> contains_text ''numeric'' normalized
               \<or> contains_text ''money'' normalized
          then type_schema ''string''
          else if list_ex (\<lambda>p. prefix p normalized) INTEGER_PREFIXES \<or> normalized = ''int''
          then type_schema ''integer''
          else if list_ex (\<lambda>p. prefix p normalized) [''real'', ''float'', ''double'']
          then nullable_schema ''number''
          else type_schema ''string'')"
  by auto
termination
proof (relation "measure length", goal_cases)
  case (2 type_name normalized element)
  then have "length element < length (to_ascii_lowercase (trim type_name))"
    by (auto dest: strip_suffix_length)
  with length_trim [of type_name] show ?case by (simp add: to_ascii_lowercase_def)
qed simp

declare json_base_type.simps [simp del]

definition json_field_schema :: "field_schema \<Rightarrow> string \<Rightarrow> bool \<Rightarrow> json" where
  "json_field_schema f unavailable is_key =
     (let variants = json_base_type (fs_type_name f)
            # (if is_key then [] else [JObject [(''type'', JString ''string''), (''const'', JString unavailable)]])
            @ (if fs_optional f then [type_schema ''null''] else [])
      in case variants of [v] \<Rightarrow> v | _ \<Rightarrow> JObject [(''anyOf'', JArray variants)])"

definition schema_title :: "change_event \<Rightarrow> string \<Rightarrow> string" where
  "schema_title e sfx =
     (let n = es_name (ev_schema e)
      in (case strip_suffix ''.Envelope'' n of Some b \<Rightarrow> b | None \<Rightarrow> n) @ ''.'' @ sfx)"

definition draft_07 :: "string \<times> json" where
  "draft_07 = (''$schema'', JString ''http://json-schema.org/draft-07/schema#'')"

definition schema_comment :: "change_event \<Rightarrow> string \<times> json" where
  "schema_comment e =
     (''$comment'', JString (''Rustium EventSchema version '' @ show_word (es_version (ev_schema e))))"

definition field_properties :: "json_encoder_config \<Rightarrow> bool \<Rightarrow> field_schema list \<Rightarrow> (string \<times> json) list" where
  "field_properties cfg is_key fs =
     fold (\<lambda>f. im_insert (fs_name f) (json_field_schema f (jc_unavailable_value cfg) is_key)) fs []"

definition json_row_schema :: "json_encoder_config \<Rightarrow> change_event \<Rightarrow> json" where
  "json_row_schema cfg e =
     JObject [(''title'', JString (schema_title e ''Value'')), (''type'', JString ''object''),
              (''additionalProperties'', JBool False),
              (''properties'', JObject (field_properties cfg False (es_fields (ev_schema e))))]"

definition transaction_schema :: json where
  "transaction_schema =
     JObject [(''anyOf'', JArray [type_schema ''null'', JObject (object_schema
        [(''id'', type_schema ''string''), (''total_order'', nullable_schema ''integer''),
         (''data_collection_order'', nullable_schema ''integer'')]
        [''id'', ''total_order'', ''data_collection_order''])])]"

definition op_schema :: "string list \<Rightarrow> json" where
  "op_schema codes = JObject [(''type'', JString ''string''), (''enum'', JArray (map JString codes))]"

definition key_schema_definition :: "json_encoder_config \<Rightarrow> change_event \<Rightarrow> json" where
  "key_schema_definition cfg e =
     (if is_heartbeat e
      then JObject (draft_07 # (''title'', JString (sm_connector_name (ev_source e) @ ''.HeartbeatKey''))
             # object_schema [(''serverName'', type_schema ''string'')] [''serverName''])
      else JObject (draft_07 # (''title'', JString (schema_title e ''Key''))
             # object_schema (field_properties cfg True (event_key_fields e)) (map fs_name (event_key_fields e))))"

definition payload_schema_definition :: "json_encoder_config \<Rightarrow> change_event \<Rightarrow> json" where
  "payload_schema_definition cfg e =
     (let envelope = (\<lambda>properties required. JObject (draft_07
             # (''title'', JString (schema_title e ''Envelope'')) # schema_comment e
             # object_schema properties required));
          source = (''source'', json_source_schema e);
          ts_ms = (''ts_ms'', type_schema ''integer'');
          transaction = (''transaction'', transaction_schema);
          nullable_row = JObject [(''anyOf'', JArray [type_schema ''null'', json_row_schema cfg e])]
      in
      if is_heartbeat e
      then JObject (draft_07 # (''title'', JString (sm_connector_name (ev_source e) @ ''.Heartbeat''))
             # object_schema [ts_ms] [''ts_ms''])
      else if is_logical_decoding_message e
      then envelope [source, (''op'', op_schema [''m'']), ts_ms, transaction,
                     (''message'', json_row_schema cfg e)]
             [''source'', ''op'', ''ts_ms'', ''transaction'', ''message'']
      else envelope [(''before'', nullable_row), (''after'', nullable_row), source,
                     (''op'', op_schema [''r'', ''c'', ''u'', ''d'', ''t'', ''m'']), ts_ms, transaction]
             [''before'', ''after'', ''source'', ''op'', ''ts_ms'', ''transaction''])"

definition wire_schema_of :: "json_env \<Rightarrow> string \<Rightarrow> json \<Rightarrow> wire_schema" where
  "wire_schema_of env subject schema =
     \<lparr>ws_subject = subject, ws_schema_type = WireJson, ws_definition = jv_print env schema\<rparr>"

definition json_key_schema :: "json_env \<Rightarrow> json_encoder_config \<Rightarrow> change_event \<Rightarrow> string \<Rightarrow> wire_schema" where
  "json_key_schema env cfg e destination =
     wire_schema_of env (destination @ ''-key'') (key_schema_definition cfg e)"

definition json_payload_schema :: "json_env \<Rightarrow> json_encoder_config \<Rightarrow> change_event \<Rightarrow> string \<Rightarrow> wire_schema" where
  "json_payload_schema env cfg e destination =
     wire_schema_of env (destination @ ''-value'') (payload_schema_definition cfg e)"

text \<open>The schemas are those of the first record, and every record that has a key or a payload gets them.\<close>

definition attach_schemas ::
  "json_env \<Rightarrow> json_encoder_config \<Rightarrow> change_event \<Rightarrow> encoded_event list \<Rightarrow> encoded_event list" where
  "attach_schemas env cfg e records =
     (case records of
        [] \<Rightarrow> []
      | first # _ \<Rightarrow>
          (let key_schema = (if enc_key first = None then None
                             else Some (json_key_schema env cfg e (enc_destination first)));
               payload_schema = json_payload_schema env cfg e (enc_destination first)
           in map (\<lambda>r. r\<lparr>enc_key_schema := (if enc_key r = None then enc_key_schema r else key_schema),
                         enc_payload_schema := (if enc_payload r = None then enc_payload_schema r
                                                else Some payload_schema),
                         enc_headers := bt_insert ''rustium.content.type''
                           ''application/json; framing=confluent-schema-registry'' (enc_headers r)\<rparr>)
                records))"

definition schema_encode :: "json_env \<Rightarrow> json_encoder_config \<Rightarrow> change_event \<Rightarrow> encoded_event result" where
  "schema_encode env cfg e =
     rbind (debezium_encode env cfg e) (\<lambda>r. Ok (hd (attach_schemas env cfg e [r])))"

definition schema_encode_batch ::
  "json_env \<Rightarrow> json_encoder_config \<Rightarrow> change_event \<Rightarrow> encoded_event list result" where
  "schema_encode_batch env cfg e =
     rbind (debezium_encode_batch env cfg e) (\<lambda>rs. Ok (attach_schemas env cfg e rs))"

end
