(* ===== verification/Json_Conformance.thy ===== *)
theory Json_Conformance
  imports Json_Format
begin

text \<open>
  What the JSON encoders owe to their readers. The specification is JSON Schema (draft 07) for the
  keywords the encoders use; the theorems say which records conform to the schema attached to them,
  how a tombstone relates to the record of its deletion, and where records go.
\<close>

section \<open>JSON Schema\<close>

fun has_type :: "string \<Rightarrow> json \<Rightarrow> bool" where
  "has_type t JNull = (t = ''null'')"
| "has_type t (JBool _) = (t = ''boolean'')"
| "has_type t (JNumber (Float _)) = (t = ''number'')"
| "has_type t (JNumber _) = (t = ''integer'' \<or> t = ''number'')"
| "has_type t (JString _) = (t = ''string'')"
| "has_type t (JArray _) = (t = ''array'')"
| "has_type t (JObject _) = (t = ''object'')"

fun type_allowed :: "json \<Rightarrow> json \<Rightarrow> bool" where
  "type_allowed (JString t) v = has_type t v"
| "type_allowed (JArray ts) v = list_ex (\<lambda>t. case t of JString n \<Rightarrow> has_type n v | _ \<Rightarrow> False) ts"
| "type_allowed _ v = False"

definition has_property :: "(string \<times> json) list \<Rightarrow> string \<Rightarrow> bool" where
  "has_property kws n =
     (case map_of kws ''properties'' of Some (JObject ps) \<Rightarrow> n \<in> fst ` set ps | _ \<Rightarrow> False)"

lemma size_member: "(k, s) \<in> set m \<Longrightarrow> size s < size (JObject m)"
proof -
  assume "(k, s) \<in> set m"
  then have "size s \<le> size_list (size_prod (\<lambda>x. 0) size) m"
    by (intro size_list_estimation' [where x = "(k, s)"]) auto
  then show ?thesis by simp
qed

lemma size_item: "t \<in> set ss \<Longrightarrow> size t < size (JArray ss)"
  by (auto intro!: size_list_estimation' le_imp_less_Suc)

text \<open>
  A keyword that does not apply to the kind of value, or that is not listed, holds. The schema of
  \<open>additionalProperties\<close> concerns the members that \<open>properties\<close> does not name.
\<close>

function validates :: "json \<Rightarrow> json \<Rightarrow> bool" where
  "validates (JObject kws) v =
     list_all (\<lambda>(k, s).
       if k = ''type'' then type_allowed s v
       else if k = ''enum'' then (case s of JArray xs \<Rightarrow> list_ex (\<lambda>x. json_eq x v) xs | _ \<Rightarrow> False)
       else if k = ''const'' then json_eq s v
       else if k = ''anyOf'' then (case s of JArray ss \<Rightarrow> list_ex (\<lambda>t. validates t v) ss | _ \<Rightarrow> False)
       else if k = ''items'' then (case v of JArray vs \<Rightarrow> list_all (validates s) vs | _ \<Rightarrow> True)
       else if k = ''required''
       then (case (s, v) of
               (JArray ns, JObject m) \<Rightarrow>
                 list_all (\<lambda>n. case n of JString t \<Rightarrow> t \<in> fst ` set m | _ \<Rightarrow> False) ns
             | _ \<Rightarrow> True)
       else if k = ''properties''
       then (case (s, v) of
               (JObject ps, JObject m) \<Rightarrow>
                 list_all (\<lambda>(n, t). case map_of m n of None \<Rightarrow> True | Some x \<Rightarrow> validates t x) ps
             | _ \<Rightarrow> True)
       else if k = ''additionalProperties''
       then (case v of
               JObject m \<Rightarrow> list_all (\<lambda>(n, x). has_property kws n \<or> validates s x) m
             | _ \<Rightarrow> True)
       else True) kws"
| "validates (JBool b) v = b"
| "validates JNull v = False"
| "validates (JNumber n) v = False"
| "validates (JString t) v = False"
| "validates (JArray xs) v = False"
  by pat_completeness auto
termination
  by (relation "measure (\<lambda>(s, v). size s)")
     (auto dest!: size_member size_item simp del: json.size)


declare validates.simps [simp del]

section \<open>What the schemas of the encoders accept\<close>

named_theorems conformance \<open>what a schema accepts\<close>

lemma validates_type [conformance]: "validates (type_schema t) v = has_type t v"
  by (simp add: validates.simps)

lemma validates_nullable [conformance]:
  "validates (nullable_schema t) v = (has_type t v \<or> has_type ''null'' v)"
  by (simp add: validates.simps)

lemma validates_any [conformance]:
  "validates (JObject [(''anyOf'', JArray ss)]) v = list_ex (\<lambda>t. validates t v) ss"
  by (simp add: validates.simps)

lemma validates_const [conformance]:
  "validates (JObject [(''type'', JString ''string''), (''const'', JString u)]) v = (v = JString u)"
  by (cases v) (auto simp: validates.simps)

lemma validates_op [conformance]:
  "validates (op_schema codes) (JString c) = (c \<in> set codes)"
  by (auto simp: op_schema_def validates.simps list_ex_iff)

lemma validates_true [conformance]: "validates (JObject []) v"
  by (simp add: validates.simps)

definition annotations :: "string set" where
  "annotations = {''$schema'', ''title'', ''$comment''}"

definition members_conform :: "(string \<times> json) list \<Rightarrow> (string \<times> json) list \<Rightarrow> bool" where
  "members_conform ps m =
     list_all (\<lambda>(n, t). case map_of m n of None \<Rightarrow> True | Some x \<Rightarrow> validates t x) ps"

lemma map_of_annotated:
  "fst ` set pre \<subseteq> annotations \<Longrightarrow> k \<notin> annotations \<Longrightarrow> map_of (pre @ m) k = map_of m k"
proof (induction pre)
  case (Cons a pre)
  then show ?case by (cases a) auto
qed simp

lemma validates_annotated:
  assumes "fst ` set pre \<subseteq> annotations"
  shows "validates (JObject (pre @ kws)) v = validates (JObject kws) v"
proof -
  have "has_property (pre @ kws) = has_property kws"
    unfolding has_property_def
    by (subst map_of_annotated [OF assms]) (simp_all add: annotations_def)
  then have props: "has_property (pre @ kws) n = has_property kws n" for n by simp
  have ann: "k = ''$schema'' \<or> k = ''title'' \<or> k = ''$comment''" if "(k, x) \<in> set pre" for k x
    using assms that by (force simp: annotations_def)
  show ?thesis
    unfolding validates.simps(1) list_all_append props
    by (rule iffI, erule conjunct2, rule conjI, unfold list_all_iff, clarify, drule ann,
        elim disjE, simp_all (no_asm_simp))
qed

lemma validates_object [conformance]:
  "validates (JObject (object_schema ps req)) (JObject m)
    \<longleftrightarrow> set req \<subseteq> fst ` set m \<and> fst ` set m \<subseteq> fst ` set ps \<and> members_conform ps m"
proof -
  have props: "has_property (object_schema ps req) n \<longleftrightarrow> n \<in> fst ` set ps" for n
    by (simp add: has_property_def object_schema_def)
  have "validates (JObject (object_schema ps req)) (JObject m)
      \<longleftrightarrow> list_all (\<lambda>(n, x). n \<in> fst ` set ps) m \<and> members_conform ps m
        \<and> list_all (\<lambda>n. n \<in> fst ` set m) req"
    unfolding validates.simps(1) props
    by (simp add: object_schema_def members_conform_def validates.simps(2) list.pred_map comp_def)
  then show ?thesis by (simp add: list_all_iff case_prod_beta image_subset_iff subset_iff) blast
qed

lemma members_conform_Nil [simp]: "members_conform [] m"
  by (simp add: members_conform_def)

lemma members_conform_Cons [simp]:
  "members_conform ((n, t) # ps) m
     = ((case map_of m n of None \<Rightarrow> True | Some x \<Rightarrow> validates t x) \<and> members_conform ps m)"
  by (simp add: members_conform_def)

lemma has_type_put_opt [simp]:
  "has_type t (put_opt f x) = (case x of None \<Rightarrow> t = ''null'' | Some y \<Rightarrow> has_type t (f y))"
  by (simp add: put_opt_def split: option.split)

lemma has_type_json_int [simp]:
  "has_type t (json_int i) = (t = ''integer'' \<or> t = ''number'')"
  by (simp add: json_int_def)

section \<open>The source block\<close>

lemma im_insert_absent: "k \<notin> fst ` set m \<Longrightarrow> im_insert k v m = m @ [(k, v)]"
  by (induction k v m rule: im_insert.induct) auto

lemma fold_im_insert_append:
  "distinct (map fst m @ map fst kvs) \<Longrightarrow> fold (\<lambda>(k, v). im_insert k v) kvs m = m @ kvs"
  by (induction kvs arbitrary: m) (auto simp: im_insert_absent)

lemma json_map_distinct: "distinct (map fst kvs) \<Longrightarrow> json_map kvs = JObject kvs"
  by (simp add: json_map_def fold_im_insert_append)

text \<open>The members of the source block are those its schema lists, in the same order.\<close>

lemma source_block_members:
  "map fst (common_source e) = map fst common_properties"
  "map fst (position_block env p) = map fst (connector_fields p)"
  "distinct (map fst common_properties @ map fst (connector_fields p))"
  by (simp_all add: common_source_def common_properties_def) (cases p; simp)+

lemma debezium_source_block:
  "debezium_source env e = JObject (common_source e @ position_block env (ev_position e))"
  unfolding debezium_source_def
  by (subst fold_im_insert_append) (simp_all add: source_block_members source_block_members [simplified])

lemma json_source_block:
  "json_source_schema e
     = JObject (object_schema (common_properties @ connector_fields (ev_position e))
         (map fst (common_properties @ connector_fields (ev_position e))))"
  unfolding json_source_schema_def Let_def
  by (subst fold_im_insert_append) (simp_all add: source_block_members [simplified])

lemma members_conform_zip:
  assumes "list_all2 (\<lambda>(k, t) (l, x). k = l \<and> validates t x) ps m" "distinct (map fst m)"
  shows "members_conform ps m"
  unfolding members_conform_def list_all_iff
proof clarify
  fix n t assume "(n, t) \<in> set ps"
  then obtain i where i: "i < length ps" "ps ! i = (n, t)" by (auto simp: in_set_conv_nth)
  with assms(1) obtain x where x: "m ! i = (n, x)" "validates t x" "i < length m"
    by (cases "m ! i") (auto simp: list_all2_conv_all_nth)
  then have "(n, x) \<in> set m" by (metis nth_mem)
  with assms(2) have "map_of m n = Some x" by simp
  with x(2) show "case map_of m n of None \<Rightarrow> True | Some x \<Rightarrow> validates t x" by simp
qed

lemma source_block_conforms: "validates (json_source_schema e) (debezium_source env e)"
proof -
  have common: "list_all2 (\<lambda>(k, t) (l, x). k = l \<and> validates t x) common_properties (common_source e)"
    by (simp add: common_properties_def common_source_def conformance split: option.split)
  have block: "list_all2 (\<lambda>(k, t) (l, x). k = l \<and> validates t x)
      (connector_fields p) (position_block env p)" for p
    by (cases p) (simp_all add: conformance split: option.split)
  have keys: "map fst (common_source e @ position_block env (ev_position e))
      = map fst (common_properties @ connector_fields (ev_position e))"
    by (simp add: source_block_members)
  have "members_conform (common_properties @ connector_fields (ev_position e))
      (common_source e @ position_block env (ev_position e))"
    using list_all2_appendI [OF common block]
    by (intro members_conform_zip) (simp_all only: keys, simp only: map_append source_block_members(3))
  moreover from keys have "fst ` set (common_source e @ position_block env (ev_position e))
      = set (map fst (common_properties @ connector_fields (ev_position e)))"
    by (metis set_map)
  ultimately show ?thesis
    unfolding json_source_block debezium_source_block validates_object by (simp add: image_Un)
qed

section \<open>Rows, keys and envelopes\<close>

text \<open>The rendering of the values of a row, and what conforms to the schema of a field.\<close>

definition rendering :: "json_env \<Rightarrow> json_encoder_config \<Rightarrow> change_event \<Rightarrow> data_value \<Rightarrow> json" where
  "rendering env cfg e =
     (if is_logical_decoding_message e then message_value env (jc_unavailable_value cfg)
      else to_json (jv_hex env) (jc_unavailable_value cfg))"

definition value_conforms :: "(data_value \<Rightarrow> json) \<Rightarrow> field_schema \<Rightarrow> data_value \<Rightarrow> bool" where
  "value_conforms render f v =
     (v = DvNull \<and> fs_optional f \<or> validates (json_base_type (fs_type_name f)) (render v))"

definition row_conforms :: "(data_value \<Rightarrow> json) \<Rightarrow> change_event \<Rightarrow> row \<Rightarrow> bool" where
  "row_conforms render e r =
     (distinct (map fst r)
      \<and> (\<forall>(n, v)\<in>set r. \<exists>f\<in>set (es_fields (ev_schema e)).
            fs_name f = n \<and> (v = DvUnavailable \<or> value_conforms render f v)))"

definition key_conforms :: "(data_value \<Rightarrow> json) \<Rightarrow> change_event \<Rightarrow> row \<Rightarrow> bool" where
  "key_conforms render e r =
     (\<forall>f\<in>set (event_key_fields e). \<exists>v. map_of r (fs_name f) = Some v \<and> value_conforms render f v)"

lemma validates_field_schema:
  "validates (json_field_schema f u is_key) j
     \<longleftrightarrow> validates (json_base_type (fs_type_name f)) j \<or> \<not> is_key \<and> j = JString u
        \<or> fs_optional f \<and> j = JNull"
proof -
  have null: "has_type ''null'' j \<longleftrightarrow> j = JNull"
  proof (cases j)
    case (JNumber n)
    then show ?thesis by (cases n) simp_all
  qed simp_all
  show ?thesis
    by (auto simp: json_field_schema_def Let_def conformance null)
qed

lemma field_properties_distinct:
  "distinct (map fs_name fs) \<Longrightarrow>
   field_properties cfg is_key fs
     = map (\<lambda>f. (fs_name f, json_field_schema f (jc_unavailable_value cfg) is_key)) fs"
proof -
  assume "distinct (map fs_name fs)"
  moreover have "field_properties cfg is_key fs
      = fold (\<lambda>(k, v). im_insert k v)
          (map (\<lambda>f. (fs_name f, json_field_schema f (jc_unavailable_value cfg) is_key)) fs) []"
    by (simp add: field_properties_def fold_map comp_def)
  ultimately show ?thesis by (simp add: fold_im_insert_append comp_def)
qed

lemma validates_row_schema:
  "validates (json_row_schema cfg e) (JObject m)
     \<longleftrightarrow> fst ` set m \<subseteq> fst ` set (field_properties cfg False (es_fields (ev_schema e)))
        \<and> members_conform (field_properties cfg False (es_fields (ev_schema e))) m"
proof -
  have "validates (json_row_schema cfg e) (JObject m)
      = validates (JObject (object_schema (field_properties cfg False (es_fields (ev_schema e))) []))
          (JObject m)"
    by (simp add: json_row_schema_def object_schema_def validates.simps(1) has_property_def)
  then show ?thesis by (simp add: validates_object)
qed

lemma row_document_conforms:
  assumes "distinct (map fs_name (es_fields (ev_schema e)))" "row_conforms render e r"
    and "render DvUnavailable = JString (jc_unavailable_value cfg)" "render DvNull = JNull"
  shows "validates (json_row_schema cfg e) (json_map (map (\<lambda>(n, v). (n, render v)) r))"
proof -
  let ?fs = "es_fields (ev_schema e)" and ?m = "map (\<lambda>(n, v). (n, render v)) r"
  have keys: "map fst ?m = map fst r" by (simp add: case_prod_beta comp_def)
  have dist: "distinct (map fst ?m)"
    using assms(2) unfolding keys by (simp add: row_conforms_def)
  have field: "validates (json_field_schema f (jc_unavailable_value cfg) False) x"
    if "f \<in> set ?fs" "map_of ?m (fs_name f) = Some x" for f x
  proof -
    from that(2) obtain v where v: "(fs_name f, v) \<in> set r" "x = render v"
      by (auto dest!: map_of_SomeD)
    with assms(2) obtain g where g: "g \<in> set ?fs" "fs_name g = fs_name f"
      "v = DvUnavailable \<or> value_conforms render g v"
      by (fastforce simp: row_conforms_def)
    with assms(1) that(1) have "g = f" by (auto simp: distinct_map inj_on_def)
    with g v assms(3,4) show ?thesis by (auto simp: validates_field_schema value_conforms_def)
  qed
  have "fst ` set ?m \<subseteq> fs_name ` set ?fs"
    using assms(2) by (fastforce simp: row_conforms_def)
  moreover have "members_conform (field_properties cfg False ?fs) ?m"
    using field by (simp add: members_conform_def field_properties_distinct [OF assms(1)] list_all_iff
        split: option.split)
  ultimately show ?thesis
    unfolding json_map_distinct [OF dist] validates_row_schema
    by (simp add: field_properties_distinct [OF assms(1)] image_image)
qed

lemma event_key_complete:
  assumes "distinct (map fs_name (event_key_fields e))"
    and "\<And>f. f \<in> set (event_key_fields e) \<Longrightarrow> map_of r (fs_name f) = Some (val f)"
  shows "event_key env r e u
    = (if event_key_fields e = [] then None
       else Some (JObject (map (\<lambda>f. (fs_name f, to_json (jv_hex env) u (val f))) (event_key_fields e))))"
proof -
  have "fold (\<lambda>f m. case map_of r (fs_name f) of None \<Rightarrow> m
             | Some v \<Rightarrow> im_insert (fs_name f) (to_json (jv_hex env) u v) m) (event_key_fields e) []
      = fold (\<lambda>f. im_insert (fs_name f) (to_json (jv_hex env) u (val f))) (event_key_fields e) []"
    by (rule fold_cong) (auto simp: assms(2))
  also have "\<dots> = fold (\<lambda>(k, v). im_insert k v)
      (map (\<lambda>f. (fs_name f, to_json (jv_hex env) u (val f))) (event_key_fields e)) []"
    by (simp add: fold_map comp_def)
  also have "\<dots> = map (\<lambda>f. (fs_name f, to_json (jv_hex env) u (val f))) (event_key_fields e)"
    using assms(1) by (simp add: fold_im_insert_append comp_def)
  finally show ?thesis by (simp add: event_key_def)
qed

lemma key_document_conforms:
  assumes names: "distinct (map fs_name (es_fields (ev_schema e)))"
    and rows: "\<And>r. key_row e = Some r \<Longrightarrow> \<not> is_heartbeat e
        \<Longrightarrow> key_conforms (to_json (jv_hex env) (jc_unavailable_value cfg)) e r"
    and doc: "key_document env cfg e = Some d"
  shows "validates (key_schema_definition cfg e) d"
proof (cases "is_heartbeat e")
  case True
  then show ?thesis
    using doc validates_annotated [of "[draft_07, (''title'', t)]" for t]
    by (auto simp: key_document_def key_schema_definition_def draft_07_def annotations_def conformance)
next
  case False
  let ?u = "jc_unavailable_value cfg"
  from False doc obtain r where r: "key_row e = Some r" "event_key env r e ?u = Some d"
    by (auto simp: key_document_def bind_eq_Some_conv)
  from rows [OF r(1) False] obtain val where
    val: "\<And>f. f \<in> set (event_key_fields e) \<Longrightarrow> map_of r (fs_name f) = Some (val f)
        \<and> value_conforms (to_json (jv_hex env) ?u) f (val f)"
    unfolding key_conforms_def by metis
  have ok: "validates (json_field_schema f ?u True) (to_json (jv_hex env) ?u (val f))"
    if "f \<in> set (event_key_fields e)" for f
    using val [OF that] by (auto simp: validates_field_schema value_conforms_def)
  have dist: "distinct (map fs_name (event_key_fields e))"
    using names by (simp add: event_key_fields_def distinct_map_filter)
  from r(2) event_key_complete [OF dist, of r val env ?u] val have
    d: "d = JObject (map (\<lambda>f. (fs_name f, to_json (jv_hex env) ?u (val f))) (event_key_fields e))"
    by (auto split: if_splits)
  have "members_conform (field_properties cfg True (event_key_fields e))
      (map (\<lambda>f. (fs_name f, to_json (jv_hex env) ?u (val f))) (event_key_fields e))"
    unfolding field_properties_distinct [OF dist]
  proof (rule members_conform_zip)
    show "list_all2 (\<lambda>(k, t) (l, x). k = l \<and> validates t x)
        (map (\<lambda>f. (fs_name f, json_field_schema f ?u True)) (event_key_fields e))
        (map (\<lambda>f. (fs_name f, to_json (jv_hex env) ?u (val f))) (event_key_fields e))"
      using ok by (simp add: list_all2_conv_all_nth)
  qed (simp add: comp_def dist)
  then have "validates (JObject (object_schema (field_properties cfg True (event_key_fields e))
      (map fs_name (event_key_fields e)))) d"
    by (simp add: d conformance field_properties_distinct [OF dist] image_image)
  then show ?thesis
    using False validates_annotated [of "[draft_07, (''title'', t)]" for t]
    by (simp add: key_schema_definition_def draft_07_def annotations_def)
qed

lemma transaction_conforms:
  "validates transaction_schema (put_opt debezium_transaction t)"
  by (cases t)
     (simp_all add: transaction_schema_def conformance put_opt_def debezium_transaction_def
       split: option.split)

lemma members_optional_row:
  "(\<And>r. x = Some r \<Longrightarrow> validates s (f r)) \<Longrightarrow>
   validates (JObject [(''anyOf'', JArray [type_schema ''null'', s])]) (put_opt f x)"
  by (cases x) (simp_all add: conformance put_opt_def)

section \<open>Properties\<close>

definition rows_conform :: "json_env \<Rightarrow> json_encoder_config \<Rightarrow> change_event \<Rightarrow> bool" where
  "rows_conform env cfg e =
     (distinct (map fs_name (es_fields (ev_schema e)))
      \<and> pred_option (row_conforms (rendering env cfg e) e) (ev_before e)
      \<and> pred_option (row_conforms (rendering env cfg e) e) (ev_after e)
      \<and> (is_heartbeat e
         \<or> pred_option (key_conforms (to_json (jv_hex env) (jc_unavailable_value cfg)) e) (key_row e)))"

lemma payload_document_conforms:
  assumes "debezium_document env cfg e = Ok d" "rows_conform env cfg e"
    and "is_logical_decoding_message e \<Longrightarrow> ev_operation e = Message"
  shows "validates (payload_schema_definition cfg e) d"
proof -
  let ?u = "jc_unavailable_value cfg"
  have names: "distinct (map fs_name (es_fields (ev_schema e)))"
    and before: "\<And>r. ev_before e = Some r \<Longrightarrow> row_conforms (rendering env cfg e) e r"
    and after: "\<And>r. ev_after e = Some r \<Longrightarrow> row_conforms (rendering env cfg e) e r"
    using assms(2) by (simp_all add: rows_conform_def)
  have title: "validates (JObject (draft_07 # (''title'', t) # kws)) v = validates (JObject kws) v"
    "validates (JObject (schema_comment e # kws)) v = validates (JObject kws) v" for t kws v
    using validates_annotated [of "[draft_07, (''title'', t)]" kws v]
      validates_annotated [of "[schema_comment e]" kws v]
    by (simp_all add: annotations_def draft_07_def schema_comment_def)
  have special: "rendering env cfg e DvUnavailable = JString ?u" "rendering env cfg e DvNull = JNull"
    by (simp_all add: rendering_def message_value_def)
  note row = row_document_conforms [OF names _ special]
  have code: "operation_code (ev_operation e) \<in> set [''r'', ''c'', ''u'', ''d'', ''t'', ''m'']"
    by (cases "ev_operation e") simp_all
  show ?thesis
  proof (cases "is_heartbeat e")
    case True
    with assms(1) show ?thesis
      by (auto simp: debezium_document_def payload_schema_definition_def title conformance Let_def)
  next
    case False
    show ?thesis
    proof (cases "is_logical_decoding_message e")
      case True
      with assms(1) False obtain message where "ev_after e = Some message"
        "d = JObject [(''source'', debezium_source env e), (''op'', JString (operation_code (ev_operation e))),
              (''ts_ms'', json_int (timestamp_millis (ev_observed_time e))),
              (''transaction'', put_opt debezium_transaction (ev_transaction e)),
              (''message'', logical_message_to_json env ?u message)]"
        by (auto simp: debezium_document_def rbind_Ok_iff Let_def)
      moreover from this(1) row [OF after]
      have "validates (json_row_schema cfg e) (logical_message_to_json env ?u message)"
        using True by (simp add: logical_message_to_json_def rendering_def)
      ultimately show ?thesis
        using False True assms(3) source_block_conforms [of e env] transaction_conforms
        by (simp add: payload_schema_definition_def title conformance Let_def)
    next
      case msg: False
      have nullable: "validates (JObject [(''anyOf'', JArray [type_schema ''null'', json_row_schema cfg e])])
          (put_opt (row_to_json env ?u) x)"
        if "\<And>r. x = Some r \<Longrightarrow> row_conforms (rendering env cfg e) e r" for x
        using that row msg by (intro members_optional_row) (auto simp: row_to_json_def rendering_def)
      from False msg assms(1) show ?thesis
        using nullable [OF before] nullable [OF after] source_block_conforms [of e env]
          transaction_conforms code
        by (auto simp: debezium_document_def payload_schema_definition_def title Let_def
            validates_object validates_op validates_type)
    qed
  qed
qed

lemma schema_encode_batch_records:
  assumes "schema_encode_batch env cfg e = Ok rs" "r \<in> set rs"
  obtains d dest where "debezium_document env cfg e = Ok d" "destination_of cfg e = Ok dest"
    "enc_destination r = dest"
    "enc_key r = map_option (\<lambda>k. bytes_of (jv_print env k)) (key_document env cfg e)"
    "enc_payload r = Some (bytes_of (jv_print env d)) \<or> enc_payload r = None"
    "enc_payload r \<noteq> None \<Longrightarrow> enc_payload_schema r = Some (json_payload_schema env cfg e dest)"
    "enc_key r \<noteq> None \<Longrightarrow> enc_key_schema r = Some (json_key_schema env cfg e dest)"
    "enc_payload r = None \<Longrightarrow> ev_operation e = Delete \<and> jc_tombstones_on_delete cfg"
proof -
  from assms(1) obtain d dest where d: "debezium_document env cfg e = Ok d" "destination_of cfg e = Ok dest"
    by (auto simp: schema_encode_batch_def debezium_encode_batch_def debezium_encode_def
        build_encoded_def rbind_Ok_iff)
  with assms show thesis
    by (intro that [of d dest])
       (auto simp: schema_encode_batch_def debezium_encode_batch_def debezium_encode_def
          build_encoded_def attach_schemas_def tombstone_of_def Let_def split: if_splits)
qed


definition sample_json_env :: json_env where
  "sample_json_env =
     \<lparr>jv_print = (\<lambda>_. ''doc''), jv_hex = (\<lambda>_. ''00''), jv_base64 = (\<lambda>_. ''AA''), jv_sha256 = (\<lambda>_. []),
      jv_instant = (\<lambda>_. JNull)\<rparr>"

definition sample_json_config :: json_encoder_config where
  "sample_json_config =
     \<lparr>jc_topic_prefix = ''shop'', jc_unavailable_value = ''__unavailable'', jc_tombstones_on_delete = True,
      jc_heartbeat_topics_prefix = ''hb'', jc_heartbeat_topic_name = None\<rparr>"

definition sample_change :: "operation \<Rightarrow> row option \<Rightarrow> row option \<Rightarrow> change_event" where
  "sample_change op old new =
     \<lparr>ev_id = ''e1'',
      ev_source = \<lparr>sm_connector = ''postgresql'', sm_connector_name = ''shop'', sm_database = ''db'',
        sm_schema = Some ''public'', sm_table = Some ''orders'', sm_snapshot = False, sm_version = ''1'',
        sm_attributes = []\<rparr>,
      ev_position = sample_postgres 7 1 False,
      ev_transaction = Some \<lparr>tx_id = ''9'', tx_total_order = Some 1, tx_collection_order = None\<rparr>,
      ev_operation = op, ev_before = old, ev_after = new,
      ev_schema = \<lparr>es_name = ''public.orders.Envelope'', es_version = 1,
        es_fields = [\<lparr>fs_name = ''id'', fs_type_name = ''integer'', fs_optional = False, fs_primary_key = True\<rparr>,
                     \<lparr>fs_name = ''note'', fs_type_name = ''text'', fs_optional = True, fs_primary_key = False\<rparr>]\<rparr>,
      ev_source_time = Some 5, ev_observed_time = 6000000\<rparr>"

definition sample_row1 :: row where
  "sample_row1 = [(''id'', DvInt32 4), (''note'', DvString ''n'')]"

lemma trim_type_names [simp]: "trim ''integer'' = ''integer''" "trim ''text'' = ''text''"
  by (simp_all add: trim_def utf8_chunks_ascii ws_chunk_def is_whitespace_def)

lemma base_type_samples:
  "json_base_type ''integer'' = type_schema ''integer''" "json_base_type ''text'' = type_schema ''string''"
  by (simp_all add: json_base_type.simps to_ascii_lowercase_def ascii_lower_def strip_suffix_def
      suffix_def INTEGER_PREFIXES_def)

lemma sample_rows_conform:
  "rows_conform env cfg (sample_change op (Some sample_row1) None)"
  "rows_conform env cfg (sample_change op None (Some sample_row1))"
  by (simp_all add: rows_conform_def sample_change_def row_conforms_def sample_row1_def key_conforms_def
      event_key_fields_def key_row_def value_conforms_def rendering_def is_heartbeat_def
      is_logical_decoding_message_def base_type_samples conformance)


text \<open>
  What a compacted topic keeps: the tombstone that follows the record of a deletion has the topic
  and the key of that record, and these are the topic and the key of every other record of the same
  row, whatever its operation; it has no payload and an identity and headers of its own.
\<close>

theorem tombstone_replaces_row:
  assumes "debezium_encode_batch env cfg e = Ok rs" "debezium_encode_batch env cfg del = Ok ds"
    and "ev_operation del = Delete" "jc_tombstones_on_delete cfg"
    and "\<forall>x\<in>{e, del}. \<not> is_heartbeat x \<and> \<not> is_logical_decoding_message x"
    and "sm_database (ev_source e) = sm_database (ev_source del)"
      "sm_schema (ev_source e) = sm_schema (ev_source del)" "sm_table (ev_source e) = sm_table (ev_source del)"
    and "map fs_name (event_key_fields e) = map fs_name (event_key_fields del)"
    and "key_row e = Some r" "key_row del = Some q" "\<forall>f\<in>set (event_key_fields del). map_of r (fs_name f) = map_of q (fs_name f)"
  shows "\<exists>x t. ds = [x, t] \<and> enc_payload x \<noteq> None \<and> enc_payload t = None
    \<and> map_of (enc_headers t) ''rustium.record.type'' = Some ''tombstone''
    \<and> enc_id t = derived (jv_sha256 env) (jv_hex env) (ev_id del) ''debezium-tombstone''
    \<and> (\<forall>y\<in>set (x # rs). enc_key y = enc_key t \<and> enc_destination y = enc_destination t)"
proof -
  have fold_eq: "fold (\<lambda>f m. case map_of r (fs_name f) of None \<Rightarrow> m
        | Some v \<Rightarrow> im_insert (fs_name f) (to_json h u v) m) (event_key_fields e) k
      = fold (\<lambda>n m. case map_of r n of None \<Rightarrow> m
        | Some v \<Rightarrow> im_insert n (to_json h u v) m) (map fs_name (event_key_fields e)) k" for h u k
    by (simp add: fold_map comp_def)
  have fold_del: "fold (\<lambda>f m. case map_of q (fs_name f) of None \<Rightarrow> m
        | Some v \<Rightarrow> im_insert (fs_name f) (to_json h u v) m) (event_key_fields del) k
      = fold (\<lambda>n m. case map_of r n of None \<Rightarrow> m
        | Some v \<Rightarrow> im_insert n (to_json h u v) m) (map fs_name (event_key_fields e)) k" for h u k
    unfolding assms(9) using assms(12)
    by (simp add: fold_map comp_def) (rule fold_cong, auto)
  have key: "key_document env cfg e = key_document env cfg del"
    using assms(5,10,11) by (simp add: key_document_def event_key_def Let_def fold_eq fold_del)
  have dest: "destination_of cfg e = destination_of cfg del"
    using assms(5-8)
    by (cases "sm_table (ev_source del)"; cases "sm_schema (ev_source del)")
       (simp_all add: destination_of_def)
  have heads: "bt_inv (record_headers del)"
    using assms(5) by (simp add: record_headers_def bt_inv_insert bt_inv_def)
  from assms(2-4) obtain x where ds: "ds = [x, tombstone_of env del x]" "debezium_encode env cfg del = Ok x"
    by (auto simp: debezium_encode_batch_def rbind_Ok_iff)
  from ds(2) obtain topic where topic: "destination_of cfg del = Ok topic"
    by (auto simp: debezium_encode_def build_encoded_def rbind_Ok_iff)
  have same: "enc_key y = map_option (\<lambda>k. bytes_of (jv_print env k)) (key_document env cfg del)
      \<and> enc_destination y = topic" if "y \<in> set (x # rs)" for y
    using that assms(1) ds(2) key dest topic
    by (auto simp: debezium_encode_batch_def debezium_encode_def build_encoded_def rbind_Ok_iff
        tombstone_of_def Let_def split: if_splits)
  have "enc_payload x \<noteq> None" "enc_headers x = record_headers del"
    using ds(2) by (auto simp: debezium_encode_def build_encoded_def rbind_Ok_iff)
  then show ?thesis
    using ds(1) same same [of x] heads
    by (auto simp: tombstone_of_def Let_def map_of_bt_insert bt_inv_insert)
qed

theorem tombstone_replaces_row_witness:
  "\<exists>x t ys. debezium_encode_batch sample_json_env sample_json_config
        (sample_change Delete (Some sample_row1) None) = Ok [x, t]
     \<and> debezium_encode_batch sample_json_env sample_json_config
        (sample_change Create None (Some sample_row1)) = Ok ys
     \<and> enc_payload t = None \<and> ys \<noteq> [] \<and> (\<forall>y\<in>set ys. enc_key y = enc_key t)"
proof -
  let ?e = "sample_change Create None (Some sample_row1)" and ?d = "sample_change Delete (Some sample_row1) None"
  have flags: "\<not> is_heartbeat x \<and> \<not> is_logical_decoding_message x" if "x \<in> {?e, ?d}" for x
    using that by (auto simp: sample_change_def is_heartbeat_def is_logical_decoding_message_def)
  have sel: "event_key_fields ?e = event_key_fields ?d" "ev_source ?e = ev_source ?d" "key_row ?e = Some sample_row1"
    "key_row ?d = Some sample_row1" "ev_operation ?d = Delete" "ev_operation ?e = Create"
    "jc_tombstones_on_delete sample_json_config"
    by (simp_all add: event_key_fields_def sample_change_def key_row_def sample_json_config_def)
  have ok: "\<exists>w. debezium_encode sample_json_env sample_json_config x = Ok w" if "x \<in> {?e, ?d}" for x
    using flags [OF that] that
    by (auto simp: debezium_encode_def debezium_document_def build_encoded_def destination_of_def Let_def)
       (simp_all add: sample_change_def)
  obtain w v where "debezium_encode sample_json_env sample_json_config ?e = Ok w"
    "debezium_encode sample_json_env sample_json_config ?d = Ok v"
    using ok [of ?e] ok [of ?d] by blast
  then obtain ys ds where run: "debezium_encode_batch sample_json_env sample_json_config ?e = Ok ys"
    "debezium_encode_batch sample_json_env sample_json_config ?d = Ok ds" "ys \<noteq> []"
    by (simp add: debezium_encode_batch_def)
  have "\<exists>x t. ds = [x, t] \<and> enc_payload x \<noteq> None \<and> enc_payload t = None
      \<and> map_of (enc_headers t) ''rustium.record.type'' = Some ''tombstone''
      \<and> enc_id t = derived (jv_sha256 sample_json_env) (jv_hex sample_json_env) (ev_id ?d) ''debezium-tombstone''
      \<and> (\<forall>y\<in>set (x # ys). enc_key y = enc_key t \<and> enc_destination y = enc_destination t)"
    by (rule tombstone_replaces_row [OF run(1,2) sel(5,7), of sample_row1 sample_row1])
       (simp_all add: sel flags)
  then show ?thesis using run by auto
qed

end
