(* ===== verification/Debezium_Bridge.thy ===== *)
theory Debezium_Bridge
  imports Checkpoint_Store
begin

text \<open>
  The Debezium bridge of \<^verbatim>\<open>crates/rustium-debezium/src/source.rs\<close>: Debezium events that arrive over HTTP
  or Kafka are decoded, sent to the runtime one by one, and answered or committed once the runtime has
  acknowledged their position.

  The bridge runs beside the runtime. What it observes of it, the values of the acknowledgement watch,
  cancellation and the expiry of a request's time, is a list of events that the waiting of the bridge
  consumes; a list that ends while it waits is a request that is still unanswered (or whose client has
  gone). The JSON parser and printer, SHA-256, the range of \<^verbatim>\<open>chrono\<close>'s instants, the Kafka client and
  the clock are parameters. Spawning the managed process, the HTTP server and its sockets are left out.
\<close>

section \<open>Parameters and state\<close>

datatype connector_kind = Mariadb | Db2 | Cassandra | Vitess | Spanner | Informix | CockroachDb | YashanDb

fun source_type :: "connector_kind \<Rightarrow> string" where
  "source_type Mariadb = ''mariadb''"
| "source_type Db2 = ''db2''"
| "source_type Cassandra = ''cassandra''"
| "source_type Vitess = ''vitess''"
| "source_type Spanner = ''spanner''"
| "source_type Informix = ''informix''"
| "source_type CockroachDb = ''cockroachdb''"
| "source_type YashanDb = ''yashandb''"

fun connector_class :: "connector_kind \<Rightarrow> string option" where
  "connector_class Mariadb = Some ''io.debezium.connector.mariadb.MariaDbConnector''"
| "connector_class Db2 = Some ''io.debezium.connector.db2.Db2Connector''"
| "connector_class Cassandra = None"
| "connector_class Vitess = Some ''io.debezium.connector.vitess.VitessConnector''"
| "connector_class Spanner = Some ''io.debezium.connector.spanner.SpannerConnector''"
| "connector_class Informix = Some ''io.debezium.connector.informix.InformixConnector''"
| "connector_class CockroachDb = Some ''io.debezium.connector.cockroachdb.CockroachDBConnector''"
| "connector_class YashanDb = Some ''io.debezium.connector.yashandb.YashanDbConnector''"

record bridge_env =
  bv_connector_name :: string
  bv_kind :: connector_kind
  bv_parse :: "string \<Rightarrow> string + json"
  bv_print :: "json \<Rightarrow> string"
  bv_sha256 :: "u8 list \<Rightarrow> u8 list"
  bv_hex :: "u8 list \<Rightarrow> string"
  bv_time_in_range :: "int \<Rightarrow> bool"
  bv_clock :: "nat \<Rightarrow> instant"
  bv_version :: string
  bv_output_open :: "nat \<Rightarrow> bool"

datatype ack_event =
    AckChanged "source_position option"
  | AckCancelled
  | AckClosed
  | AckTimedOut

text \<open>
  \<^verbatim>\<open>ProcessingState\<close>, the records sent so far, the value of the acknowledgement watch and what is to
  happen to it.
\<close>

record bridge_state =
  br_next_serial :: u64
  br_last_record_id :: "string option"
  br_pending :: "source_position option"
  br_snapshot_completed :: bool
  br_sent :: "source_record list"
  br_watch :: "source_position option"
  br_future :: "ack_event list"

record bridge_checkpoint =
  bc_event_serial :: u64
  bc_record_id :: "string option"
  bc_snapshot_completed :: bool

definition from_context :: "checkpoint option \<Rightarrow> connector_kind \<Rightarrow> bridge_checkpoint result" where
  "from_context cp kind =
     (case cp of
        None \<Rightarrow> Ok \<lparr>bc_event_serial = 0, bc_record_id = None, bc_snapshot_completed = False\<rparr>
      | Some c \<Rightarrow>
          (case cp_source_position c of
             Debezium p \<Rightarrow>
               if dz_connector p \<noteq> source_type kind
               then Err (State (source_type kind @ '' connector cannot resume from a ''
                      @ debug_str (dz_connector p) @ '' Debezium checkpoint''))
               else Ok \<lparr>bc_event_serial = dz_event_serial p, bc_record_id = Some (dz_record_id p),
                        bc_snapshot_completed = cp_snapshot_completed c\<rparr>
           | _ \<Rightarrow> Err (State (source_type kind
                     @ '' connector cannot resume from another source checkpoint''))))"

definition bridge_start ::
  "bridge_checkpoint \<Rightarrow> source_position option \<Rightarrow> ack_event list \<Rightarrow> bridge_state" where
  "bridge_start bc watch future =
     \<lparr>br_next_serial = bc_event_serial bc, br_last_record_id = bc_record_id bc, br_pending = None,
      br_snapshot_completed = bc_snapshot_completed bc, br_sent = [], br_watch = watch,
      br_future = future\<rparr>"

section \<open>Reading JSON\<close>

fun as_i64 :: "json \<Rightarrow> i64 option" where
  "as_i64 (JNumber (PosInt w)) = (if unat w < 2 ^ 63 then Some w else None)"
| "as_i64 (JNumber (NegInt w)) = Some w"
| "as_i64 _ = None"

fun as_u64 :: "json \<Rightarrow> u64 option" where
  "as_u64 (JNumber (PosInt w)) = Some w"
| "as_u64 _ = None"

fun number_value :: "json_number \<Rightarrow> data_value" where
  "number_value (PosInt w) = (if unat w < 2 ^ 63 then DvInt64 w else DvUInt64 w)"
| "number_value (NegInt w) = DvInt64 w"
| "number_value (Float f) = DvFloat64 f"

fun json_value :: "json \<Rightarrow> data_value" where
  "json_value JNull = DvNull"
| "json_value (JBool b) = DvBoolean b"
| "json_value (JNumber n) = number_value n"
| "json_value (JString s) = DvString s"
| "json_value (JArray xs) = DvArray (map json_value xs)"
| "json_value (JObject m) =
     DvMap (fold (\<lambda>(k, v). bt_insert k v) (map (\<lambda>(k, v). (k, json_value v)) m) [])"

definition row_from_json :: "json \<Rightarrow> row option" where
  "row_from_json j = map_option (map (\<lambda>(k, v). (k, json_value v))) (as_object j)"

text \<open>The data of a CloudEvent, the payload beside a schema, and documents inside a string: four levels at most.\<close>

definition inner_payload :: "json \<Rightarrow> json option" where
  "inner_payload v =
     (case (if json_get ''specversion'' v \<noteq> None then json_get ''data'' v else None) of
        Some d \<Rightarrow> Some d
      | None \<Rightarrow> if json_get ''schema'' v \<noteq> None then json_get ''payload'' v else None)"

fun unwrap_levels :: "bridge_env \<Rightarrow> nat \<Rightarrow> json \<Rightarrow> json result" where
  "unwrap_levels env 0 v = Err (Source ''Debezium event has too many nested data/payload envelopes'')"
| "unwrap_levels env (Suc n) v =
     (case v of
        JString t \<Rightarrow>
          (case bv_parse env t of
             Inl msg \<Rightarrow> Err (Source (''Debezium structured event data is not JSON: '' @ msg))
           | Inr w \<Rightarrow> unwrap_levels env n w)
      | _ \<Rightarrow> (case inner_payload v of Some w \<Rightarrow> unwrap_levels env n w | None \<Rightarrow> Ok v))"

definition unwrap_payload :: "bridge_env \<Rightarrow> json \<Rightarrow> json result" where
  "unwrap_payload env v = unwrap_levels env 4 v"

definition operation_of :: "json option \<Rightarrow> operation result" where
  "operation_of v =
     (case Option.bind v as_str of
        None \<Rightarrow> Ok Message
      | Some c \<Rightarrow>
          if c = ''r'' then Ok Read else if c = ''c'' then Ok Create else if c = ''u'' then Ok Update
          else if c = ''d'' then Ok Delete else if c = ''t'' then Ok Truncate
          else if c = ''m'' then Ok Message
          else Err (Source (''unsupported Debezium operation code '' @ debug_str c)))"

fun value_type :: "data_value \<Rightarrow> string" where
  "value_type DvNull = ''null''"
| "value_type (DvBoolean _) = ''boolean''"
| "value_type (DvInt32 _) = ''int32''"
| "value_type (DvInt64 _) = ''int64''"
| "value_type (DvUInt64 _) = ''uint64''"
| "value_type (DvFloat64 _) = ''double''"
| "value_type (DvDecimal _) = ''decimal''"
| "value_type (DvString _) = ''string''"
| "value_type (DvBytes _) = ''bytes''"
| "value_type (DvDate _) = ''date''"
| "value_type (DvTime _) = ''time''"
| "value_type (DvTimestamp _) = ''timestamp''"
| "value_type (DvUuid _) = ''uuid''"
| "value_type (DvJson _) = ''json''"
| "value_type (DvArray _) = ''array''"
| "value_type (DvMap _) = ''map''"
| "value_type DvUnavailable = ''unavailable''"

definition probable_key :: "string \<Rightarrow> bool" where
  "probable_key n =
     (let l = to_ascii_lowercase n in l = ''id'' \<or> l = ''_id'' \<or> suffix ''_id'' l)"

text \<open>Whether the record belongs to a snapshot, is its last one, belongs to an incremental snapshot.\<close>

definition bridge_snapshot_marker :: "(string \<times> json) list \<Rightarrow> bool \<times> bool \<times> bool" where
  "bridge_snapshot_marker source =
     (case map_of source ''snapshot'' of
        Some (JBool b) \<Rightarrow> (b, False, False)
      | Some (JString s) \<Rightarrow>
          if s = ''last'' then (True, True, False)
          else if s = ''incremental'' then (True, False, True)
          else if s = ''true'' then (True, False, False)
          else (False, False, False)
      | _ \<Rightarrow> (False, False, False))"

fun first_of :: "('a \<Rightarrow> 'b option) \<Rightarrow> 'a list \<Rightarrow> 'b option" where
  "first_of f [] = None"
| "first_of f (x # xs) = (case f x of None \<Rightarrow> first_of f xs | Some y \<Rightarrow> Some y)"

definition source_database :: "connector_kind \<Rightarrow> (string \<times> json) list \<Rightarrow> string" where
  "source_database kind source =
     (let candidates =
            (case kind of
               Cassandra \<Rightarrow> [''keyspace'', ''db'', ''cluster'']
             | Spanner \<Rightarrow> [''database_id'', ''db'']
             | _ \<Rightarrow> [''db'', ''database'', ''keyspace'', ''database_id'', ''cluster''])
      in case first_of (\<lambda>k. Option.bind (map_of source k) as_str) candidates of
           None \<Rightarrow> ''unknown'' | Some d \<Rightarrow> d)"

definition source_schema :: "connector_kind \<Rightarrow> (string \<times> json) list \<Rightarrow> string option" where
  "source_schema kind source =
     (if kind \<in> {Mariadb, Cassandra, Vitess, Spanner} then None
      else Option.bind (map_of source ''schema'') as_str)"

definition timestamp_of :: "bridge_env \<Rightarrow> int \<Rightarrow> instant option" where
  "timestamp_of env nanos = (if bv_time_in_range env (nanos div 1000000000) then Some nanos else None)"

definition source_time :: "bridge_env \<Rightarrow> (string \<times> json) list \<Rightarrow> instant option" where
  "source_time env source =
     (case Option.bind (map_of source ''ts_ns'') as_i64 of
        Some v \<Rightarrow> timestamp_of env (sint v)
      | None \<Rightarrow>
          (case Option.bind (map_of source ''ts_us'') as_i64 of
             Some v \<Rightarrow> timestamp_of env (sint v * 1000)
           | None \<Rightarrow>
               (case Option.bind (map_of source ''ts_ms'') as_i64 of
                  None \<Rightarrow> None
                | Some v \<Rightarrow>
                    if \<bar>sint v\<bar> > 100000000000000 then timestamp_of env (sint v * 1000)
                    else timestamp_of env (sint v * 1000000))))"

definition json_u64 :: "json option \<Rightarrow> u64 option" where
  "json_u64 v =
     (case v of
        None \<Rightarrow> None
      | Some j \<Rightarrow>
          (case as_u64 j of
             Some w \<Rightarrow> Some w
           | None \<Rightarrow>
               Option.bind (as_str j) (\<lambda>t. map_option of_nat (parse_unsigned 64 t))))"

definition json_text :: "bridge_env \<Rightarrow> json \<Rightarrow> string option" where
  "json_text env v =
     (case v of JNull \<Rightarrow> None | JString s \<Rightarrow> Some s | _ \<Rightarrow> Some (bv_print env v))"

definition bridge_transaction ::
  "bridge_env \<Rightarrow> json \<Rightarrow> (string \<times> json) list \<Rightarrow> transaction_metadata option" where
  "bridge_transaction env payload source =
     (case Option.bind (json_get ''transaction'' payload) as_object of
        Some t \<Rightarrow>
          map_option (\<lambda>i. \<lparr>tx_id = i, tx_total_order = json_u64 (map_of t ''total_order''),
                          tx_collection_order = json_u64 (map_of t ''data_collection_order'')\<rparr>)
            (Option.bind (map_of t ''id'') as_str)
      | None \<Rightarrow>
          map_option (\<lambda>i. \<lparr>tx_id = i, tx_total_order = None, tx_collection_order = None\<rparr>)
            (Option.bind (first_of (map_of source) [''txId'', ''server_transaction_id'', ''vgtid''])
               (json_text env)))"

definition topic_table :: "string \<Rightarrow> string option" where
  "topic_table topic =
     (let l = last (split_on (\<lambda>c. c = CHR ''.'') topic) in if l = [] then None else Some l)"

definition bridge_event_id :: "bridge_env \<Rightarrow> string \<Rightarrow> event_id" where
  "bridge_event_id env record_id =
     bv_hex env (bv_sha256 env (bytes_of (bv_connector_name env) @ [0] @ bytes_of record_id))"

definition document_record_id :: "bridge_env \<Rightarrow> json \<Rightarrow> string" where
  "document_record_id env d = ''sha256:'' @ bv_hex env (bv_sha256 env (bytes_of (bv_print env d)))"

section \<open>Decoding a document\<close>

definition bridge_boundary :: "json \<Rightarrow> bool \<Rightarrow> bool \<Rightarrow> record_boundary" where
  "bridge_boundary payload completes event_payload =
     (if Option.bind (json_get ''status'' payload) as_str = Some ''END'' then TransactionCommit
      else if completes then SnapshotComplete
      else if event_payload then DataBoundary
      else Heartbeat)"

definition bridge_record :: "change_event option \<Rightarrow> source_position \<Rightarrow> record_boundary \<Rightarrow> source_record" where
  "bridge_record event position boundary =
     \<lparr>sr_event = event, sr_position = position, sr_boundary = boundary, sr_connector_state = None,
      sr_signal_acks = []\<rparr>"

definition bridge_fields :: "row option \<Rightarrow> field_schema list" where
  "bridge_fields r =
     map (\<lambda>(n, v). \<lparr>fs_name = n, fs_type_name = value_type v, fs_optional = True,
                      fs_primary_key = probable_key n\<rparr>)
       (case r of None \<Rightarrow> [] | Some m \<Rightarrow> m)"

definition bridge_event ::
  "bridge_env \<Rightarrow> instant \<Rightarrow> json \<Rightarrow> (string \<times> json) list \<Rightarrow> string \<Rightarrow> source_position \<Rightarrow> string option \<Rightarrow> operation \<Rightarrow>
   change_event" where
  "bridge_event env now payload source record_id position topic_hint op =
     (let (snapshot, _, incremental) = bridge_snapshot_marker source;
          kind = bv_kind env;
          before = Option.bind (json_get ''before'' payload) row_from_json;
          schema_change = (json_get ''ddl'' payload \<noteq> None \<or> json_get ''tableChanges'' payload \<noteq> None);
          after = (case Option.bind (json_get ''after'' payload) row_from_json of
                     Some r \<Rightarrow> Some r
                   | None \<Rightarrow> if schema_change then Some [(''_debezium'', DvJson payload)] else None);
          table = (case (case Option.bind (map_of source ''table'') as_str of
                           Some t \<Rightarrow> Some t
                         | None \<Rightarrow> Option.bind topic_hint topic_table) of
                     Some t \<Rightarrow> t | None \<Rightarrow> ''_schema_changes'');
          attributes0 = [(''debezium.source'', JObject source)];
          attributes1 = (if incremental
                         then bt_insert ''rustium.snapshot.kind'' (JString ''incremental'') attributes0
                         else attributes0);
          attributes = (if before = None \<and> after = None
                        then bt_insert ''rustium.debezium.message'' (JBool True) attributes1
                        else attributes1)
      in \<lparr>ev_id = bridge_event_id env record_id,
          ev_source =
            \<lparr>sm_connector = source_type kind, sm_connector_name = bv_connector_name env,
             sm_database = source_database kind source, sm_schema = source_schema kind source,
             sm_table = Some table, sm_snapshot = snapshot, sm_version = bv_version env,
             sm_attributes = attributes\<rparr>,
          ev_position = position, ev_transaction = bridge_transaction env payload source,
          ev_operation = op, ev_before = before, ev_after = after,
          ev_schema =
            \<lparr>es_name = replace_char (CHR ''.'') ''_'' table @ ''.Envelope'', es_version = 1,
             es_fields = bridge_fields (case after of Some r \<Rightarrow> Some r | None \<Rightarrow> before)\<rparr>,
          ev_source_time = source_time env source, ev_observed_time = now\<rparr>)"

text \<open>The record, and whether it completes the snapshot.\<close>

definition decode_document ::
  "bridge_env \<Rightarrow> instant \<Rightarrow> json \<Rightarrow> string \<Rightarrow> u64 \<Rightarrow> string option \<Rightarrow> bool \<Rightarrow> (source_record \<times> bool) result" where
  "decode_document env now document record_id serial topic_hint snapshot_completed =
     rbind (unwrap_payload env document) (\<lambda>payload.
       let source = (case Option.bind (json_get ''source'' payload) as_object of None \<Rightarrow> [] | Some m \<Rightarrow> m);
           kind = bv_kind env;
           foreign = (case Option.bind (map_of source ''connector'') as_str of
                        Some c \<Rightarrow> if c \<noteq> source_type kind then Some c else None
                      | None \<Rightarrow> None)
       in case foreign of
            Some c \<Rightarrow> Err (Source (''expected '' @ source_type kind @ '' event, received connector ''
                        @ debug_str c))
          | None \<Rightarrow>
              (let (snapshot, snapshot_last, incremental) = bridge_snapshot_marker source;
                   position = Debezium
                     \<lparr>dz_connector = source_type kind,
                      dz_source = fold (\<lambda>(k, v). bt_insert k v) source [], dz_record_id = record_id,
                      dz_event_serial = serial, dz_snapshot = snapshot\<rparr>;
                   completes = (snapshot_last \<or> \<not> snapshot \<and> \<not> snapshot_completed);
                   event_payload = (json_get ''op'' payload \<noteq> None \<or> json_get ''ddl'' payload \<noteq> None
                                    \<or> json_get ''tableChanges'' payload \<noteq> None);
                   boundary = bridge_boundary payload completes event_payload
               in if \<not> event_payload then Ok (bridge_record None position boundary, completes)
                  else rbind (operation_of (json_get ''op'' payload)) (\<lambda>op.
                    Ok (bridge_record (Some (bridge_event env now payload source record_id position
                          topic_hint op)) position boundary, completes))))"

section \<open>Waiting for the runtime\<close>

text \<open>\<open>position == expected || position.is_after(expected)\<close>.\<close>

definition ack_covers :: "source_position option \<Rightarrow> source_position \<Rightarrow> bool" where
  "ack_covers w expected = (case w of None \<Rightarrow> False | Some p \<Rightarrow> position_eq p expected \<or> is_after p expected)"

definition ack_timeout_error :: "nat \<Rightarrow> rust_error" where
  "ack_timeout_error ms =
     Source (''Rustium did not durably acknowledge the Debezium event within '' @ show_nat ms @ '' ms'')"

fun wait_acks ::
  "nat option \<Rightarrow> source_position \<Rightarrow> source_position option \<Rightarrow> ack_event list \<Rightarrow>
   unit result option \<times> source_position option \<times> ack_event list" where
  "wait_acks timeout expected w [] = (if ack_covers w expected then Some (Ok ()) else None, w, [])"
| "wait_acks timeout expected w (e # es) =
     (if ack_covers w expected then (Some (Ok ()), w, e # es)
      else case e of
             AckChanged p \<Rightarrow> wait_acks timeout expected p es
           | AckCancelled \<Rightarrow> (Some (Err Cancelled), w, es)
           | AckClosed \<Rightarrow> (Some (Err Cancelled), w, es)
           | AckTimedOut \<Rightarrow>
               (case timeout of
                  None \<Rightarrow> wait_acks timeout expected w es
                | Some ms \<Rightarrow> (Some (Err (ack_timeout_error ms)), w, es)))"

text \<open>\<open>None\<close>: still waiting when the events end.\<close>

definition wait_for_ack ::
  "source_position \<Rightarrow> nat option \<Rightarrow> bridge_state \<Rightarrow> unit result option \<times> bridge_state" where
  "wait_for_ack expected timeout s =
     (case wait_acks timeout expected (br_watch s) (br_future s) of
        (r, w, es) \<Rightarrow> (r, s\<lparr>br_watch := w, br_future := es\<rparr>))"

section \<open>HTTP requests\<close>

record http_request =
  hr_headers :: "(string \<times> string) list"
  hr_body :: string

record http_config =
  hc_authentication_token :: "string option"
  hc_request_timeout_ms :: nat

datatype http_response = NoContent | Unauthorized | ShuttingDown | Unprocessable string

text \<open>\<^verbatim>\<open>HeaderValue::to_str\<close>: visible ASCII and the tabulator.\<close>

definition header_text :: "string \<Rightarrow> string option" where
  "header_text v =
     (if list_all (\<lambda>c. let n = of_char c :: nat in 32 \<le> n \<and> n < 127 \<or> n = 9) v then Some v else None)"

definition header_topic :: "(string \<times> string) list \<Rightarrow> string option" where
  "header_topic h =
     Option.bind (first_of (map_of h) [''ce-subject'', ''x-debezium-destination'', ''x-debezium-topic''])
       header_text"

definition header_record_id :: "(string \<times> string) list \<Rightarrow> string option" where
  "header_record_id h =
     (case Option.bind (first_of (map_of h) [''ce-id'', ''x-debezium-id'', ''x-rustium-event-id'']) header_text of
        Some v \<Rightarrow> if v = [] then None else Some v
      | None \<Rightarrow> None)"

definition authorized :: "(string \<times> string) list \<Rightarrow> string option \<Rightarrow> bool" where
  "authorized h token =
     (case token of
        None \<Rightarrow> True
      | Some t \<Rightarrow>
          Option.bind (map_of h ''authorization'') header_text = Some (''Bearer '' @ t)
          \<or> Option.bind (map_of h ''x-rustium-token'') header_text = Some t)"

definition send_to_runtime :: "bridge_env \<Rightarrow> source_record \<Rightarrow> (bridge_state, unit) stateful" where
  "send_to_runtime env r s =
     (if bv_output_open env (length (br_sent s)) then (Ok (), s\<lparr>br_sent := br_sent s @ [r]\<rparr>)
      else (Err Cancelled, s))"

text \<open>The answer \<open>None\<close> stands for a request that is not answered.\<close>

type_synonym bridge_step = "unit result option \<times> bridge_state"

definition settle :: "http_config \<Rightarrow> source_position \<Rightarrow> string \<Rightarrow> bridge_state \<Rightarrow> bridge_step" where
  "settle cfg position record_id s =
     (case wait_for_ack position (Some (hc_request_timeout_ms cfg)) s of
        (Some (Inr _), s1) \<Rightarrow> (Some (Ok ()), s1\<lparr>br_last_record_id := Some record_id, br_pending := None\<rparr>)
      | (r, s1) \<Rightarrow> (r, s1))"

definition resume_pending ::
  "http_config \<Rightarrow> source_position \<Rightarrow> string \<Rightarrow> bridge_state \<Rightarrow> bridge_step" where
  "resume_pending cfg pending record_id s =
     (case pending of
        Debezium p \<Rightarrow>
          if dz_record_id p \<noteq> record_id
          then (Some (Err (Source ''Debezium HTTP source sent a new record while the previous record is unacknowledged'')), s)
          else settle cfg pending record_id s
      | _ \<Rightarrow> (Some (Err (Invariant ''Debezium HTTP bridge pending a foreign position'')), s))"

definition send_document ::
  "bridge_env \<Rightarrow> http_config \<Rightarrow> string option \<Rightarrow> json \<Rightarrow> string \<Rightarrow> bridge_state \<Rightarrow> bridge_step" where
  "send_document env cfg topic_hint document record_id s0 =
     (let s = s0\<lparr>br_next_serial := br_next_serial s0 + 1\<rparr> in
      case decode_document env (bv_clock env (unat (br_next_serial s))) document record_id
             (br_next_serial s) topic_hint (br_snapshot_completed s) of
        Inl e \<Rightarrow> (Some (Err e), s)
      | Inr (record, completes) \<Rightarrow>
          (let s1 = (if completes then s\<lparr>br_snapshot_completed := True\<rparr> else s) in
           case send_to_runtime env record s1 of
             (Inl e, s2) \<Rightarrow> (Some (Err e), s2)
           | (Inr _, s2) \<Rightarrow>
               settle cfg (sr_position record) record_id (s2\<lparr>br_pending := Some (sr_position record)\<rparr>)))"

definition process_document ::
  "bridge_env \<Rightarrow> http_config \<Rightarrow> string option \<Rightarrow> json \<Rightarrow> string \<Rightarrow> bridge_state \<Rightarrow> bridge_step" where
  "process_document env cfg topic_hint document record_id s =
     (if br_last_record_id s = Some record_id then (Some (Ok ()), s)
      else case br_pending s of
             Some pending \<Rightarrow> resume_pending cfg pending record_id s
           | None \<Rightarrow> send_document env cfg topic_hint document record_id s)"

definition record_id_at :: "bridge_env \<Rightarrow> string option \<Rightarrow> nat \<Rightarrow> json \<Rightarrow> string" where
  "record_id_at env base_id i document =
     (case base_id of
        None \<Rightarrow> document_record_id env document
      | Some b \<Rightarrow> if i = 0 then b else b @ '':'' @ show_nat i)"

fun process_documents ::
  "bridge_env \<Rightarrow> http_config \<Rightarrow> string option \<Rightarrow> string option \<Rightarrow> nat \<Rightarrow> json list \<Rightarrow> bridge_state \<Rightarrow> bridge_step" where
  "process_documents env cfg base_id topic_hint i [] s = (Some (Ok ()), s)"
| "process_documents env cfg base_id topic_hint i (d # ds) s =
     (case process_document env cfg topic_hint d (record_id_at env base_id i d) s of
        (Some (Inr _), s1) \<Rightarrow> process_documents env cfg base_id topic_hint (i + 1) ds s1
      | (r, s1) \<Rightarrow> (r, s1))"

definition body_documents :: "bridge_env \<Rightarrow> string \<Rightarrow> json list result" where
  "body_documents env body =
     (if body = [] \<or> body = ''null'' then Ok []
      else case bv_parse env body of
             Inl msg \<Rightarrow> Err (Source (''Debezium HTTP body is not JSON: '' @ msg))
           | Inr (JArray ds) \<Rightarrow> Ok ds
           | Inr d \<Rightarrow> Ok [d])"

definition process_http :: "bridge_env \<Rightarrow> http_config \<Rightarrow> http_request \<Rightarrow> bridge_state \<Rightarrow> bridge_step" where
  "process_http env cfg req s =
     (case body_documents env (hr_body req) of
        Inl e \<Rightarrow> (Some (Err e), s)
      | Inr ds \<Rightarrow>
          process_documents env cfg (header_record_id (hr_headers req)) (header_topic (hr_headers req)) 0 ds s)"

definition ingest_http ::
  "bridge_env \<Rightarrow> (rust_error \<Rightarrow> string) \<Rightarrow> http_config \<Rightarrow> http_request \<Rightarrow> bridge_state \<Rightarrow>
   http_response option \<times> bridge_state" where
  "ingest_http env show_error cfg req s =
     (if \<not> authorized (hr_headers req) (hc_authentication_token cfg) then (Some Unauthorized, s)
      else case process_http env cfg req s of
             (None, s1) \<Rightarrow> (None, s1)
           | (Some (Inr _), s1) \<Rightarrow> (Some NoContent, s1)
           | (Some (Inl Cancelled), s1) \<Rightarrow> (Some ShuttingDown, s1)
           | (Some (Inl e), s1) \<Rightarrow> (Some (Unprocessable (''invalid Debezium event: '' @ show_error e)), s1))"

text \<open>Requests are processed one at a time, under the lock of the processing state.\<close>

fun serve ::
  "bridge_env \<Rightarrow> (rust_error \<Rightarrow> string) \<Rightarrow> http_config \<Rightarrow> http_request list \<Rightarrow> bridge_state \<Rightarrow>
   http_response option list \<times> bridge_state" where
  "serve env show_error cfg [] s = ([], s)"
| "serve env show_error cfg (q # qs) s =
     (case ingest_http env show_error cfg q s of
        (r, s1) \<Rightarrow> (case serve env show_error cfg qs s1 of (rs, s2) \<Rightarrow> (r # rs, s2)))"

section \<open>Kafka\<close>

record kafka_message =
  km_topic :: string
  km_partition :: int
  km_offset :: int
  km_payload :: "string option"

datatype kafka_event =
    KafkaCancelled
  | KafkaIdle
  | KafkaFailed string
  | KafkaReceived kafka_message

record kafka_state =
  ks_bridge :: bridge_state
  ks_commits :: "(string \<times> int \<times> int) list"

definition kafka_record_id :: "kafka_message \<Rightarrow> string" where
  "kafka_record_id m =
     ''kafka:'' @ km_topic m @ '':'' @ show_int (km_partition m) @ '':'' @ show_int (km_offset m)"

text \<open>\<open>bv_commit\<close> answers the commit of an offset; the number of commits so far is its argument.\<close>

definition commit_kafka ::
  "(nat \<Rightarrow> string option) \<Rightarrow> kafka_message \<Rightarrow> (kafka_state, unit) stateful" where
  "commit_kafka commit m k =
     (case commit (length (ks_commits k)) of
        Some msg \<Rightarrow> (Err (Source (''commit Kafka bridge offset: '' @ msg)), k)
      | None \<Rightarrow> (Ok (), k\<lparr>ks_commits := ks_commits k @ [(km_topic m, km_partition m, km_offset m + 1)]\<rparr>))"

definition kafka_record ::
  "bridge_env \<Rightarrow> kafka_message \<Rightarrow> string \<Rightarrow> bridge_state \<Rightarrow> bridge_step" where
  "kafka_record env m payload s0 =
     (case bv_parse env payload of
        Inl msg \<Rightarrow> (Some (Err (Source (''Debezium Kafka bridge payload is not JSON: '' @ msg))), s0)
      | Inr document \<Rightarrow>
          (let s = s0\<lparr>br_next_serial := br_next_serial s0 + 1\<rparr> in
           case decode_document env (bv_clock env (unat (br_next_serial s))) document (kafka_record_id m)
                  (br_next_serial s) (Some (km_topic m)) (br_snapshot_completed s) of
             Inl e \<Rightarrow> (Some (Err e), s)
           | Inr (record, completes) \<Rightarrow>
               (let s1 = (if completes then s\<lparr>br_snapshot_completed := True\<rparr> else s) in
                case send_to_runtime env record s1 of
                  (Inl e, s2) \<Rightarrow> (Some (Err e), s2)
                | (Inr _, s2) \<Rightarrow>
                    (case wait_for_ack (sr_position record) None s2 of
                       (Some (Inr _), s3) \<Rightarrow>
                         (Some (Ok ()), s3\<lparr>br_last_record_id := Some (kafka_record_id m)\<rparr>)
                     | (r, s3) \<Rightarrow> (r, s3)))))"

definition kafka_step ::
  "bridge_env \<Rightarrow> (nat \<Rightarrow> string option) \<Rightarrow> kafka_message \<Rightarrow> kafka_state \<Rightarrow> unit result option \<times> kafka_state" where
  "kafka_step env commit m k =
     (case (case km_payload m of
              Some p \<Rightarrow>
                if br_last_record_id (ks_bridge k) \<noteq> Some (kafka_record_id m) \<and> p \<noteq> []
                then kafka_record env m p (ks_bridge k) else (Some (Ok ()), ks_bridge k)
            | None \<Rightarrow> (Some (Ok ()), ks_bridge k)) of
        (Some (Inr _), s) \<Rightarrow>
          (case commit_kafka commit m (k\<lparr>ks_bridge := s\<rparr>) of (r, k1) \<Rightarrow> (Some r, k1))
      | (r, s) \<Rightarrow> (r, k\<lparr>ks_bridge := s\<rparr>))"

fun run_kafka ::
  "bridge_env \<Rightarrow> (nat \<Rightarrow> string option) \<Rightarrow> kafka_event list \<Rightarrow> kafka_state \<Rightarrow> unit result option \<times> kafka_state" where
  "run_kafka env commit [] k = (None, k)"
| "run_kafka env commit (e # es) k =
     (case e of
        KafkaCancelled \<Rightarrow> (Some (Ok ()), k)
      | KafkaIdle \<Rightarrow> run_kafka env commit es k
      | KafkaFailed msg \<Rightarrow> (Some (Err (Source (''Debezium Kafka bridge receive failed: '' @ msg))), k)
      | KafkaReceived m \<Rightarrow>
          (case kafka_step env commit m k of
             (Some (Inr _), k1) \<Rightarrow> run_kafka env commit es k1
           | (r, k1) \<Rightarrow> (r, k1)))"

section \<open>The managed configuration\<close>

definition properties_key :: "string \<Rightarrow> string" where
  "properties_key v =
     replace_char (CHR '':'') [CHR 0x5C, CHR '':''] (replace_char (CHR ''='') [CHR 0x5C, CHR ''='']
       (replace_char (CHR 0x5C) [CHR 0x5C, CHR 0x5C] v))"

definition properties_value :: "string \<Rightarrow> string" where
  "properties_value v =
     replace_char (CHR 0x0D) [CHR 0x5C, CHR ''r''] (replace_char (CHR 0x0A) [CHR 0x5C, CHR ''n'']
       (replace_char (CHR 0x5C) [CHR 0x5C, CHR 0x5C] v))"

definition owned_properties :: "string list" where
  "owned_properties =
     [''connector.class'', ''key.converter'', ''value.converter'', ''key.converter.schemas.enable'',
      ''value.converter.schemas.enable'', ''offset.storage'', ''offset.storage.file.filename'',
      ''offset.flush.interval.ms'', ''schema.history.internal'',
      ''schema.history.internal.file.filename'']"

definition managed_config_lines ::
  "string \<Rightarrow> (string \<times> string) list \<Rightarrow> string \<Rightarrow> string \<Rightarrow> string \<Rightarrow> string list" where
  "managed_config_lines class properties offset_file schema_history_file endpoint =
     [''debezium.sink.type=http'', ''debezium.sink.http.url='' @ properties_value endpoint,
      ''debezium.sink.http.batch.enabled=false'', ''debezium.format.key=json'',
      ''debezium.format.key.schemas.enable=false'', ''debezium.format.value=json'',
      ''debezium.format.value.schemas.enable=false'',
      ''debezium.source.connector.class='' @ properties_value class,
      ''debezium.source.offset.storage=org.apache.kafka.connect.storage.FileOffsetBackingStore'',
      ''debezium.source.offset.storage.file.filename='' @ properties_value offset_file,
      ''debezium.source.offset.flush.interval.ms=0'',
      ''debezium.source.schema.history.internal=io.debezium.storage.file.history.FileSchemaHistory'',
      ''debezium.source.schema.history.internal.file.filename='' @ properties_value schema_history_file]
     @ map (\<lambda>(k, v). ''debezium.source.'' @ properties_key k @ ''='' @ properties_value v)
         (filter (\<lambda>(k, v). k \<notin> set owned_properties) properties)
     @ [[]]"

text \<open>The text written to the generated file.\<close>

definition write_managed_config ::
  "connector_kind \<Rightarrow> (string \<times> string) list \<Rightarrow> string \<Rightarrow> string \<Rightarrow> string \<Rightarrow> string result" where
  "write_managed_config kind properties offset_file schema_history_file endpoint =
     rbind (ok_or (Configuration (source_type kind @ '' does not run through Debezium Server''))
              (connector_class kind)) (\<lambda>class.
       Ok (lines_text (managed_config_lines class properties offset_file schema_history_file endpoint)))"

definition sanitize_filename :: "string \<Rightarrow> string" where
  "sanitize_filename v =
     concat (map (\<lambda>chunk. case chunk of
         [c] \<Rightarrow> (let n = of_char c :: nat in
                 if 48 \<le> n \<and> n \<le> 57 \<or> 65 \<le> n \<and> n \<le> 90 \<or> 97 \<le> n \<and> n \<le> 122 \<or> c = CHR ''-'' \<or> c = CHR ''_''
                 then [c] else ''_'')
       | _ \<Rightarrow> ''_'') (utf8_chunks v))"

end
