(* ===== verification/Bridge_Delivery.thy ===== *)
theory Bridge_Delivery
  imports Debezium_Bridge
begin

text \<open>
  What the Debezium bridge promises to the side that feeds it: when a request is answered or an offset
  committed, its records have been sent and acknowledged in the order of positions, and a client that
  repeats a record until it is answered has it sent once. Two theorems say where the promise ends: a
  batch that timed out behind its second document, and incremental snapshots.
\<close>

section \<open>Waiting\<close>

definition watch_values :: "bridge_state \<Rightarrow> source_position option set" where
  "watch_values s = insert (br_watch s) {p. AckChanged p \<in> set (br_future s)}"

definition record_id_of :: "source_record \<Rightarrow> string option" where
  "record_id_of r = (case sr_position r of Debezium p \<Rightarrow> Some (dz_record_id p) | _ \<Rightarrow> None)"

definition record_settled :: "source_position option set \<Rightarrow> source_record list \<Rightarrow> string \<Rightarrow> bool" where
  "record_settled W sent i = (\<exists>r\<in>set sent. record_id_of r = Some i \<and> (\<exists>w\<in>W. ack_covers w (sr_position r)))"

lemma settled_append: "record_settled W sent i \<Longrightarrow> record_settled W (sent @ rs) i"
  by (auto simp: record_settled_def)

lemma wait_acks_sound:
  assumes "wait_acks timeout p w es = (r, w', es')"
  shows "insert w' {q. AckChanged q \<in> set es'} \<subseteq> insert w {q. AckChanged q \<in> set es}
    \<and> (r = Some (Ok ()) \<longrightarrow> ack_covers w' p)"
  using assms
proof (induction timeout p w es rule: wait_acks.induct)
  case (2 timeout p w e es)
  then show ?case
    by (cases e) (fastforce split: if_splits option.splits)+
qed (auto split: if_splits)

lemma wait_for_ack_sound:
  assumes "wait_for_ack p timeout s = (r, s')"
  shows "watch_values s' \<subseteq> watch_values s" "r = Some (Ok ()) \<Longrightarrow> ack_covers (br_watch s') p"
    "\<exists>w es. s' = s\<lparr>br_watch := w, br_future := es\<rparr>"
  using assms wait_acks_sound [of timeout p "br_watch s" "br_future s"]
  by (auto simp: wait_for_ack_def watch_values_def split: prod.splits)

section \<open>The invariant of the processing state\<close>

definition bridge_inv ::
  "source_position option set \<Rightarrow> string option \<Rightarrow> bridge_state \<Rightarrow> bool" where
  "bridge_inv W id0 s =
     (watch_values s \<subseteq> W
      \<and> (\<forall>i. br_last_record_id s = Some i \<longrightarrow> id0 = Some i \<or> record_settled W (br_sent s) i)
      \<and> (\<forall>p. br_pending s = Some p \<longrightarrow> (\<exists>r\<in>set (br_sent s). sr_position r = p)))"

lemma decode_document_position:
  assumes "decode_document env now d i serial topic completed = Ok (r, c)"
  obtains p where "sr_position r = Debezium p" "dz_record_id p = i" "dz_event_serial p = serial"
    "record_id_of r = Some i"
  using assms
  by (fastforce simp: decode_document_def rbind_Ok_iff bridge_record_def record_id_of_def Let_def
      split: option.splits if_splits prod.splits)

lemma settle_inv:
  assumes "settle cfg p i s = (r, s')" "bridge_inv W id0 s"
    and "\<exists>x\<in>set (br_sent s). sr_position x = p \<and> record_id_of x = Some i"
  shows "bridge_inv W id0 s' \<and> br_sent s' = br_sent s \<and> (r = Some (Ok ()) \<longrightarrow> br_last_record_id s' = Some i)
    \<and> (r = Some (Ok ()) \<longrightarrow> br_pending s' = None)
    \<and> (r \<noteq> Some (Ok ()) \<longrightarrow> br_pending s' = br_pending s \<and> br_last_record_id s' = br_last_record_id s)"
proof -
  obtain a t where w: "wait_for_ack p (Some (hc_request_timeout_ms cfg)) s = (a, t)" by fastforce
  note sound = wait_for_ack_sound [OF w]
  from sound(3) obtain v es where t: "t = s\<lparr>br_watch := v, br_future := es\<rparr>" by blast
  have W: "watch_values t \<subseteq> W" using sound(1) assms(2) by (auto simp: bridge_inv_def)
  show ?thesis
  proof (cases "a = Some (Ok ())")
    case True
    have "ack_covers (br_watch t) p" by (rule sound(2) [OF True])
    moreover have "br_watch t \<in> W" using W by (auto simp: watch_values_def)
    ultimately have "record_settled W (br_sent s) i" using assms(3) by (auto simp: record_settled_def)
    with True assms(1) W show ?thesis by (auto simp: settle_def w t bridge_inv_def watch_values_def)
  next
    case False
    then have "r = a \<and> s' = t"
      using assms(1) by (auto simp: settle_def w split: option.splits sum.splits)
    with False assms(2) W show ?thesis by (auto simp: t bridge_inv_def)
  qed
qed

text \<open>A document: what is sent, and what an answer of success means.\<close>

lemma process_document_inv:
  assumes "process_document env cfg topic d i s = (r, s')" "bridge_inv W id0 s"
  shows "bridge_inv W id0 s' \<and> (r = Some (Ok ()) \<longrightarrow> br_last_record_id s' = Some i)
    \<and> (\<exists>xs. br_sent s' = br_sent s @ xs \<and> length xs \<le> 1 \<and> (\<forall>x\<in>set xs. record_id_of x = Some i)
         \<and> (xs \<noteq> [] \<longrightarrow> br_last_record_id s \<noteq> Some i \<and> br_pending s = None)
         \<and> (\<forall>x\<in>set xs. br_pending s' = Some (sr_position x) \<or> br_last_record_id s' = Some i)
         \<and> (xs = [] \<longrightarrow> br_last_record_id s' = Some i
              \<or> br_pending s' = br_pending s \<and> br_last_record_id s' = br_last_record_id s))"
proof (cases "br_last_record_id s = Some i")
  case True
  with assms show ?thesis by (auto simp: process_document_def)
next
  case fresh: False
  show ?thesis
  proof (cases "br_pending s")
    case (Some p)
    have run: "resume_pending cfg p i s = (r, s')"
      using assms(1) fresh Some by (simp add: process_document_def)
    from assms(2) Some obtain x where x: "x \<in> set (br_sent s)" "sr_position x = p"
      by (auto simp: bridge_inv_def)
    show ?thesis
    proof (cases "record_id_of x = Some i")
      case True
      then have "settle cfg p i s = (r, s')"
        using run x(2) by (auto simp: resume_pending_def record_id_of_def split: source_position.splits)
      moreover have "\<exists>y\<in>set (br_sent s). sr_position y = p \<and> record_id_of y = Some i"
        using x True by blast
      ultimately have "bridge_inv W id0 s' \<and> br_sent s' = br_sent s
          \<and> (r = Some (Ok ()) \<longrightarrow> br_last_record_id s' = Some i)
          \<and> (r \<noteq> Some (Ok ()) \<longrightarrow> br_pending s' = br_pending s \<and> br_last_record_id s' = br_last_record_id s)"
        using settle_inv [OF _ assms(2)] by blast
      then show ?thesis by (intro conjI exI [of _ "[]"]) auto
    next
      case False
      with run x(2) assms(2) show ?thesis
        by (auto simp: resume_pending_def record_id_of_def split: source_position.splits if_splits)
    qed
  next
    case None
    define u where "u = s\<lparr>br_next_serial := br_next_serial s + 1\<rparr>"
    have u: "bridge_inv W id0 u" using assms(2) by (simp add: u_def bridge_inv_def watch_values_def)
    have run: "send_document env cfg topic d i s = (r, s')"
      using assms(1) fresh None by (simp add: process_document_def)
    show ?thesis
    proof (cases "decode_document env (bv_clock env (unat (br_next_serial u))) d i (br_next_serial u) topic
        (br_snapshot_completed u)")
      case (Inl e)
      then have "r = Some (Err e) \<and> s' = u" using run by (simp add: send_document_def u_def Let_def)
      with u show ?thesis by (simp add: u_def)
    next
      case (Inr y)
      obtain x c where y: "y = (x, c)" by (cases y)
      with Inr have rid: "record_id_of x = Some i" by (auto elim: decode_document_position)
      define v where "v = (if c then u\<lparr>br_snapshot_completed := True\<rparr> else u)"
      have v: "bridge_inv W id0 v" "br_sent v = br_sent s" "br_last_record_id v = br_last_record_id s"
        "br_pending v = br_pending s"
        using u by (auto simp: v_def u_def bridge_inv_def watch_values_def)
      show ?thesis
      proof (cases "bv_output_open env (length (br_sent s))")
        case False
        with run Inr y v(2) have "r = Some (Err Cancelled) \<and> s' = v"
          by (simp add: send_document_def u_def [symmetric] v_def [symmetric] send_to_runtime_def Let_def)
        with v show ?thesis by auto
      next
        case True
        define t where "t = v\<lparr>br_sent := br_sent v @ [x], br_pending := Some (sr_position x)\<rparr>"
        have run': "settle cfg (sr_position x) i t = (r, s')"
          using run Inr y v(2) True
          by (simp add: send_document_def u_def [symmetric] v_def [symmetric] send_to_runtime_def Let_def t_def)
        have "bridge_inv W id0 t"
          using v(1) by (auto simp: t_def bridge_inv_def watch_values_def record_settled_def)
        from settle_inv [OF run' this] rid have
          "bridge_inv W id0 s' \<and> br_sent s' = br_sent t \<and> (r = Some (Ok ()) \<longrightarrow> br_last_record_id s' = Some i)
           \<and> (br_pending s' = Some (sr_position x) \<or> br_last_record_id s' = Some i)"
          by (auto simp: t_def)
        with v(2) rid fresh None show ?thesis by (auto simp: t_def)
      qed
    qed
  qed
qed

lemma process_documents_inv:
  assumes "process_documents env cfg base topic n ds s = (r, s')" "bridge_inv W id0 s"
  shows "bridge_inv W id0 s' \<and> prefix (br_sent s) (br_sent s')
    \<and> (r = Some (Ok ()) \<longrightarrow> (\<forall>k<length ds. let i = record_id_at env base (n + k) (ds ! k) in
         id0 = Some i \<or> record_settled W (br_sent s') i))"
  using assms
proof (induction ds arbitrary: n s)
  case (Cons d ds)
  let ?i = "record_id_at env base n d"
  obtain a t where doc: "process_document env cfg topic d ?i s = (a, t)" by fastforce
  from process_document_inv [OF doc Cons.prems(2)] have
    t: "bridge_inv W id0 t" "prefix (br_sent s) (br_sent t)"
      "a = Some (Ok ()) \<Longrightarrow> id0 = Some ?i \<or> record_settled W (br_sent t) ?i"
    by (auto simp: bridge_inv_def prefix_def)
  show ?case
  proof (cases "a = Some (Ok ())")
    case False
    then have "r = a \<and> s' = t" using Cons.prems(1) doc by (auto split: option.splits sum.splits)
    with False t show ?thesis by simp
  next
    case True
    with Cons.prems(1) doc have run: "process_documents env cfg base topic (n + 1) ds t = (r, s')" by simp
    note IH = Cons.IH [OF run t(1)]
    from IH t(2) obtain xs where xs: "br_sent s' = br_sent t @ xs" by (auto simp: prefix_def)
    have first: "id0 = Some ?i \<or> record_settled W (br_sent s') ?i"
      using t(3) [OF True] settled_append [of W "br_sent t" ?i xs] xs by auto
    have "id0 = Some (record_id_at env base (n + k) ((d # ds) ! k))
        \<or> record_settled W (br_sent s') (record_id_at env base (n + k) ((d # ds) ! k))"
      if "r = Some (Ok ())" "k < length (d # ds)" for k
      using that first IH by (cases k) (auto simp: Let_def)
    with IH t(2) show ?thesis by (auto simp: Let_def intro: prefix_order.trans)
  qed
qed simp

lemma ingest_http_inv:
  assumes "ingest_http env show_error cfg q s = (r, s')" "bridge_inv W id0 s"
  shows "bridge_inv W id0 s' \<and> prefix (br_sent s) (br_sent s')
    \<and> (r = Some NoContent \<longrightarrow> (\<exists>ds. body_documents env (hr_body q) = Ok ds
         \<and> (\<forall>k<length ds. let i = record_id_at env (header_record_id (hr_headers q)) k (ds ! k) in
              id0 = Some i \<or> record_settled W (br_sent s') i)))"
proof (cases "authorized (hr_headers q) (hc_authentication_token cfg)")
  case False
  with assms show ?thesis by (auto simp: ingest_http_def)
next
  case True
  obtain a t where run: "process_http env cfg q s = (a, t)" by fastforce
  have s': "s' = t" "r = Some NoContent \<longleftrightarrow> a = Some (Ok ())"
    using assms(1) True run by (auto simp: ingest_http_def split: option.splits sum.splits rust_error.splits)
  show ?thesis
  proof (cases "body_documents env (hr_body q)")
    case (Inl e)
    with run assms(2) s' show ?thesis by (auto simp: process_http_def)
  next
    case (Inr ds)
    with run have "process_documents env cfg (header_record_id (hr_headers q))
        (header_topic (hr_headers q)) 0 ds s = (a, t)" by (simp add: process_http_def)
    from process_documents_inv [OF this assms(2)] s' Inr show ?thesis by simp
  qed
qed

lemma serve_inv:
  assumes "serve env show_error cfg qs s = (rs, s')" "bridge_inv W id0 s"
  shows "bridge_inv W id0 s' \<and> prefix (br_sent s) (br_sent s') \<and> length rs = length qs
    \<and> (\<forall>j<length qs. rs ! j = Some NoContent \<longrightarrow> (\<exists>ds. body_documents env (hr_body (qs ! j)) = Ok ds
         \<and> (\<forall>k<length ds. let i = record_id_at env (header_record_id (hr_headers (qs ! j))) k (ds ! k) in
              id0 = Some i \<or> record_settled W (br_sent s') i)))"
  using assms
proof (induction qs arbitrary: s rs)
  case (Cons q qs)
  obtain a t where q: "ingest_http env show_error cfg q s = (a, t)" by fastforce
  obtain as where rest: "serve env show_error cfg qs t = (as, s')" "rs = a # as"
    using Cons.prems(1) q by (auto split: prod.splits)
  note first = ingest_http_inv [OF q Cons.prems(2)]
  note IH = Cons.IH [OF rest(1) conjunct1 [OF first]]
  from IH obtain xs where xs: "br_sent s' = br_sent t @ xs" by (auto simp: prefix_def)
  have "\<exists>ds. body_documents env (hr_body ((q # qs) ! j)) = Ok ds
       \<and> (\<forall>k<length ds. let i = record_id_at env (header_record_id (hr_headers ((q # qs) ! j))) k (ds ! k) in
            id0 = Some i \<or> record_settled W (br_sent s') i)"
    if "j < length (q # qs)" "rs ! j = Some NoContent" for j
  proof (cases j)
    case 0
    with that first rest(2) obtain ds where ds: "body_documents env (hr_body q) = Ok ds"
      "\<forall>k<length ds. let i = record_id_at env (header_record_id (hr_headers q)) k (ds ! k) in
              id0 = Some i \<or> record_settled W (br_sent t) i" by auto
    with 0 show ?thesis by (auto simp: Let_def xs intro: settled_append)
  next
    case (Suc m)
    with that IH rest(2) show ?thesis by simp
  qed
  with IH first rest(2) show ?case by (auto intro: prefix_order.trans)
qed simp

section \<open>Sample requests\<close>

definition sample_document :: json where
  "sample_document =
     JObject [(''after'', JObject [(''id'', JNumber (PosInt 1))]), (''op'', JString ''c''),
       (''source'', JObject [(''table'', JString ''t'')])]"

definition sample_snapshot_document :: json where
  "sample_snapshot_document =
     JObject [(''after'', JObject [(''id'', JNumber (PosInt 1))]), (''op'', JString ''r''),
       (''source'', JObject [(''snapshot'', JString ''incremental'')])]"

definition sample_bridge_env :: bridge_env where
  "sample_bridge_env =
     \<lparr>bv_connector_name = ''b'', bv_kind = Mariadb,
      bv_parse = (\<lambda>t. if t = ''x'' then Inr sample_document
                      else if t = ''xx'' then Inr (JArray [sample_document, sample_document, sample_document])
                      else if t = ''i'' then Inr sample_snapshot_document else Inl ''expected value''),
      bv_print = (\<lambda>j. ''{}''), bv_sha256 = (\<lambda>bs. take 4 bs), bv_hex = (\<lambda>bs. replicate (length bs) (CHR ''0'')),
      bv_time_in_range = (\<lambda>t. True), bv_clock = int, bv_version = ''0.9'', bv_output_open = (\<lambda>n. True)\<rparr>"

definition sample_position :: "string \<Rightarrow> u64 \<Rightarrow> source_position" where
  "sample_position i n =
     Debezium \<lparr>dz_connector = ''mariadb'', dz_source = [(''table'', JString ''t'')], dz_record_id = i,
               dz_event_serial = n, dz_snapshot = False\<rparr>"

definition sample_http_config :: http_config where
  "sample_http_config = \<lparr>hc_authentication_token = None, hc_request_timeout_ms = 30000\<rparr>"

definition sample_request :: "string \<Rightarrow> string \<Rightarrow> http_request" where
  "sample_request i body = \<lparr>hr_headers = [(''ce-id'', i)], hr_body = body\<rparr>"

definition sample_bridge_checkpoint :: bridge_checkpoint where
  "sample_bridge_checkpoint = \<lparr>bc_event_serial = 0, bc_record_id = None, bc_snapshot_completed = True\<rparr>"

lemmas sample_bridge =
  sample_document_def sample_snapshot_document_def sample_bridge_env_def sample_position_def
  sample_http_config_def sample_request_def sample_bridge_checkpoint_def

lemma sample_unwrap: "unwrap_payload sample_bridge_env sample_document = Ok sample_document"
  "unwrap_payload sample_bridge_env sample_snapshot_document = Ok sample_snapshot_document"
  by (simp_all add: unwrap_payload_def eval_nat_numeral inner_payload_def json_get_def sample_bridge)

lemma sample_decode:
  "\<exists>r. decode_document sample_bridge_env now sample_document i n topic True = Ok (r, False)
     \<and> sr_position r = sample_position i n \<and> record_id_of r = Some i"
  by (simp add: decode_document_def sample_unwrap rbind_def)
     (simp add: sample_bridge json_get_def as_object_def as_str_def bridge_snapshot_marker_def Let_def
       operation_of_def bridge_record_def record_id_of_def)

lemma sample_parse:
  "body_documents sample_bridge_env ''x'' = Ok [sample_document]"
  "body_documents sample_bridge_env ''xx'' = Ok [sample_document, sample_document, sample_document]"
  by (simp_all add: body_documents_def sample_bridge)

lemma sample_record_id: "header_record_id (hr_headers (sample_request ''a'' b)) = Some ''a''"
  by (simp add: sample_request_def header_record_id_def header_text_def)

lemma sample_open: "bv_output_open sample_bridge_env k" "authorized h (hc_authentication_token sample_http_config)"
  by (simp_all add: sample_bridge authorized_def)

lemma sample_covers: "ack_covers (Some (sample_position i n)) (sample_position i n)"
  by (simp add: ack_covers_def sample_position_def source_map_eq_def)

lemma sample_wait:
  "wait_acks t (sample_position i n) None (AckChanged (Some (sample_position i n)) # es)
     = (Some (Ok ()), Some (sample_position i n), es)"
  using sample_covers [of i n] by (cases es) (simp_all add: ack_covers_def [of None])

lemma sample_answered:
  assumes "br_pending s = None" "br_last_record_id s \<noteq> Some ''a''" "br_snapshot_completed s" "br_watch s = None"
    "br_future s = AckChanged (Some (sample_position ''a'' (br_next_serial s + 1))) # es"
  shows "\<exists>s'. ingest_http sample_bridge_env show_error sample_http_config (sample_request ''a'' ''x'') s
    = (Some NoContent, s')"
proof -
  from sample_decode [of "bv_clock sample_bridge_env (unat (br_next_serial s + 1))" "''a''" "br_next_serial s + 1"
      "header_topic (hr_headers (sample_request ''a'' ''x''))"]
  obtain r where r: "decode_document sample_bridge_env (bv_clock sample_bridge_env (unat (br_next_serial s + 1)))
    sample_document ''a'' (br_next_serial s + 1) (header_topic (hr_headers (sample_request ''a'' ''x''))) True
      = Ok (r, False)"
    "sr_position r = sample_position ''a'' (br_next_serial s + 1)" by blast
  have "hr_body (sample_request ''a'' ''x'') = ''x''" by (simp add: sample_request_def)
  with r assms show ?thesis
    by (simp add: ingest_http_def process_http_def sample_parse sample_record_id record_id_at_def sample_open
        process_document_def send_document_def send_to_runtime_def settle_def wait_for_ack_def sample_wait
        del: wait_acks.simps)
qed

section \<open>Properties\<close>

lemma bridge_start_inv:
  "bridge_inv (watch_values (bridge_start bc watch future)) (bc_record_id bc) (bridge_start bc watch future)"
  by (simp add: bridge_inv_def bridge_start_def)

text \<open>
  C26. The HTTP bridge as a synchronous boundary: of every request that is answered with success, each
  document is the record the checkpoint ends with, or has been sent to the runtime, and the watch of
  acknowledged positions has held a position that is the record's own or lies after it. This holds for
  any requests, with batches, repetitions, failures and timeouts.
\<close>

theorem answered_records_acknowledged:
  assumes "serve env show_error cfg qs (bridge_start bc watch future) = (rs, s')"
    and "j < length qs" "rs ! j = Some NoContent"
  shows "\<exists>ds. body_documents env (hr_body (qs ! j)) = Ok ds \<and> (\<forall>k<length ds.
      let i = record_id_at env (header_record_id (hr_headers (qs ! j))) k (ds ! k) in
      bc_record_id bc = Some i
      \<or> (\<exists>r\<in>set (br_sent s'). record_id_of r = Some i
          \<and> (\<exists>p. (Some p = watch \<or> AckChanged (Some p) \<in> set future)
                \<and> (position_eq p (sr_position r) \<or> is_after p (sr_position r)))))"
proof -
  let ?W = "watch_values (bridge_start bc watch future)"
  have "\<exists>p. (Some p = watch \<or> AckChanged (Some p) \<in> set future)
      \<and> (position_eq p q \<or> is_after p q)" if "w \<in> ?W" "ack_covers w q" for w q
    using that by (auto simp: watch_values_def bridge_start_def ack_covers_def split: option.splits)
  then have "record_settled ?W (br_sent s') i \<Longrightarrow> \<exists>r\<in>set (br_sent s'). record_id_of r = Some i
      \<and> (\<exists>p. (Some p = watch \<or> AckChanged (Some p) \<in> set future)
            \<and> (position_eq p (sr_position r) \<or> is_after p (sr_position r)))" for i
    by (fastforce simp: record_settled_def)
  note acknowledged = this
  from serve_inv [OF assms(1) bridge_start_inv] assms(2,3) obtain ds where
    "body_documents env (hr_body (qs ! j)) = Ok ds"
    "\<forall>k<length ds. let i = record_id_at env (header_record_id (hr_headers (qs ! j))) k (ds ! k) in
        bc_record_id bc = Some i \<or> record_settled ?W (br_sent s') i" by blast
  then show ?thesis
    using acknowledged unfolding Let_def by (intro exI [of _ ds]) blast
qed

theorem answered_records_acknowledged_witness:
  "\<exists>s'. serve sample_bridge_env (\<lambda>e. ''e'') sample_http_config [sample_request ''a'' ''x'']
       (bridge_start sample_bridge_checkpoint None [AckChanged (Some (sample_position ''a'' 1))]) = ([Some NoContent], s')
     \<and> Some ''a'' \<in> record_id_of ` set (br_sent s')"
proof -
  let ?s = "bridge_start sample_bridge_checkpoint None [AckChanged (Some (sample_position ''a'' 1))]"
  from sample_answered [of ?s "[]" "\<lambda>e. ''e''"] obtain s' where
    "serve sample_bridge_env (\<lambda>e. ''e'') sample_http_config [sample_request ''a'' ''x''] ?s = ([Some NoContent], s')"
    by (auto simp: bridge_start_def sample_bridge_checkpoint_def)
  moreover from answered_records_acknowledged [OF this, of 0]
  have "Some ''a'' \<in> record_id_of ` set (br_sent s')"
    using sample_parse(1) by (auto simp: sample_request_def record_id_at_def header_record_id_def header_text_def
        sample_bridge_checkpoint_def intro: rev_image_eqI)
  ultimately show ?thesis by blast
qed

section \<open>One record per request\<close>

definition single_request :: "bridge_env \<Rightarrow> http_request \<Rightarrow> string \<Rightarrow> bool" where
  "single_request env q i =
     ((\<exists>d. body_documents env (hr_body q) = Ok [d]) \<and> header_record_id (hr_headers q) = Some i)"

definition once_inv :: "string set \<Rightarrow> string option \<Rightarrow> bridge_state \<Rightarrow> bool" where
  "once_inv past cur s =
     (distinct (map record_id_of (br_sent s)) \<and> record_id_of ` set (br_sent s) \<subseteq> Some ` past
      \<and> (\<forall>i. cur = Some i \<and> Some i \<in> record_id_of ` set (br_sent s) \<longrightarrow>
           br_last_record_id s = Some i \<or> br_pending s \<noteq> None))"

lemma ingest_single_once:
  assumes "ingest_http env show_error cfg q s = (r, s')" "single_request env q i"
    and "bridge_inv W id0 s" "once_inv past cur s" "cur = Some i \<or> i \<notin> past"
  shows "once_inv (insert i past) (Some i) s'"
proof (cases "authorized (hr_headers q) (hc_authentication_token cfg)")
  case False
  with assms(1,4,5) show ?thesis by (auto simp: ingest_http_def once_inv_def)
next
  case True
  from assms(2) obtain d where d: "body_documents env (hr_body q) = Ok [d]"
    "header_record_id (hr_headers q) = Some i" by (auto simp: single_request_def)
  obtain a where run: "process_document env cfg (header_topic (hr_headers q)) d i s = (a, s')"
    using assms(1) True d
    by (auto simp: ingest_http_def process_http_def record_id_at_def split: option.splits sum.splits
        prod.splits rust_error.splits)
  from process_document_inv [OF run assms(3)] obtain xs where xs: "br_sent s' = br_sent s @ xs"
    "length xs \<le> 1" "\<forall>x\<in>set xs. record_id_of x = Some i"
    "xs \<noteq> [] \<longrightarrow> br_last_record_id s \<noteq> Some i \<and> br_pending s = None"
    "\<forall>x\<in>set xs. br_pending s' = Some (sr_position x) \<or> br_last_record_id s' = Some i"
    "xs = [] \<longrightarrow> br_last_record_id s' = Some i
       \<or> br_pending s' = br_pending s \<and> br_last_record_id s' = br_last_record_id s" by blast
  show ?thesis
  proof (cases xs)
    case Nil
    with xs assms(4,5) show ?thesis by (auto simp: once_inv_def)
  next
    case (Cons x ys)
    with xs(2) have "xs = [x]" by simp
    with xs assms(4,5) show ?thesis by (auto simp: once_inv_def)
  qed
qed

lemma remdups_adj_in_turn:
  assumes "distinct (remdups_adj (xs @ [y]))"
  shows "distinct (remdups_adj xs) \<and> (xs \<noteq> [] \<and> last xs = y \<or> y \<notin> set xs)"
proof (cases xs rule: rev_cases)
  case (snoc zs z)
  with assms show ?thesis by (auto simp: remdups_adj_append_two split: if_splits)
qed simp

lemma serve_append:
  "serve env show_error cfg (qs @ ps) s =
     (case serve env show_error cfg qs s of
        (rs, t) \<Rightarrow> (case serve env show_error cfg ps t of (rs', u) \<Rightarrow> (rs @ rs', u)))"
  by (induction qs arbitrary: s) (auto split: prod.splits)

text \<open>
  C27. A client that sends one record per request and repeats it, under the same identity, until it goes
  on to the next has every record sent to the runtime at most once, in the order of the requests,
  whatever times out, fails or is repeated: the state of the bridge knows the last record and the one
  that is still pending.
\<close>

theorem repeated_requests_send_once:
  assumes "list_all2 (single_request env) qs ids" "distinct (remdups_adj ids)"
    and "serve env show_error cfg qs (bridge_start bc watch future) = (rs, s')"
  shows "distinct (map record_id_of (br_sent s')) \<and> record_id_of ` set (br_sent s') \<subseteq> Some ` set ids"
proof -
  let ?s = "bridge_start bc watch future"
  let ?W = "watch_values ?s"
  have "once_inv (set ids) (if ids = [] then None else Some (last ids)) (snd (serve env show_error cfg qs ?s))"
    using assms(1,2)
  proof (induction ids arbitrary: qs rule: rev_induct)
    case Nil
    then show ?case by (simp add: once_inv_def bridge_start_def)
  next
    case (snoc i ids)
    from snoc.prems(1) obtain q ps where qs: "qs = ps @ [q]" "list_all2 (single_request env) ps ids"
      "single_request env q i" by (auto simp: list_all2_append2 list_all2_Cons2)
    obtain as t where t: "serve env show_error cfg ps ?s = (as, t)" by fastforce
    obtain r u where u: "ingest_http env show_error cfg q t = (r, u)" by fastforce
    from remdups_adj_in_turn [OF snoc.prems(2)] have turn: "distinct (remdups_adj ids)"
      "(if ids = [] then None else Some (last ids)) = Some i \<or> i \<notin> set ids" by auto
    have "once_inv (set ids) (if ids = [] then None else Some (last ids)) t"
      using snoc.IH [OF qs(2) turn(1)] t by simp
    from ingest_single_once [OF u qs(3) _ this turn(2)] serve_inv [OF t bridge_start_inv]
    have "once_inv (insert i (set ids)) (Some i) u" by blast
    moreover have "snd (serve env show_error cfg qs ?s) = u"
      by (simp add: qs(1) serve_append t u)
    ultimately show ?case by simp
  qed
  with assms(3) show ?thesis by (simp add: once_inv_def)
qed

theorem repeated_requests_send_once_witness:
  "\<exists>rs s'. serve sample_bridge_env (\<lambda>e. ''e'') sample_http_config
       [sample_request ''a'' ''x'', sample_request ''a'' ''x'']
       (bridge_start sample_bridge_checkpoint None [AckTimedOut, AckChanged (Some (sample_position ''a'' 1))]) = (rs, s')
     \<and> distinct (map record_id_of (br_sent s'))"
proof -
  let ?s = "bridge_start sample_bridge_checkpoint None [AckTimedOut, AckChanged (Some (sample_position ''a'' 1))]"
  let ?qs = "[sample_request ''a'' ''x'', sample_request ''a'' ''x'']"
  obtain rs s' where run: "serve sample_bridge_env (\<lambda>e. ''e'') sample_http_config ?qs ?s = (rs, s')" by fastforce
  have "single_request sample_bridge_env (sample_request ''a'' ''x'') ''a''"
    using sample_parse(1) sample_record_id [of "''x''"] by (auto simp: single_request_def sample_request_def)
  then have "list_all2 (single_request sample_bridge_env) ?qs [''a'', ''a'']" by simp
  from repeated_requests_send_once [OF this _ run] run show ?thesis by simp
qed



text \<open>
  C29. Incremental snapshots have no boundary: once the runtime has acknowledged a record of the stream,
  a record of an incremental snapshot is answered at once, before it is delivered anywhere. Positions
  of a snapshot lie before all positions of the stream, so the acknowledgement the watch already holds
  counts as a later one.
\<close>

theorem incremental_record_answered_early:
  assumes "decode_document env (bv_clock env (unat (br_next_serial s + 1))) d i (br_next_serial s + 1) topic
      (br_snapshot_completed s) = Ok (r, c)"
    and "sr_position r = Debezium p" "dz_snapshot p"
    and "br_watch s = Some (Debezium w)" "\<not> dz_snapshot w" "dz_connector w = source_type (bv_kind env)"
    and "br_last_record_id s \<noteq> Some i" "br_pending s = None" "bv_output_open env (length (br_sent s))"
  shows "\<exists>s'. process_document env cfg topic d i s = (Some (Ok ()), s') \<and> br_sent s' = br_sent s @ [r]
    \<and> br_watch s' = br_watch s \<and> br_future s' = br_future s
    \<and> \<not> position_eq (Debezium w) (sr_position r)"
proof -
  have "dz_connector p = source_type (bv_kind env)"
    using assms(1,2) by (fastforce simp: decode_document_def rbind_Ok_iff bridge_record_def Let_def
        split: option.splits if_splits prod.splits)
  with assms(2-6) have "ack_covers (br_watch s) (sr_position r)"
    by (simp add: ack_covers_def debezium_sort_key_def less_prod_def)
  then have "wait_acks (Some ms) (sr_position r) (br_watch s) (br_future s)
      = (Some (Ok ()), br_watch s, br_future s)" for ms
    by (cases "br_future s") simp_all
  then show ?thesis
    using assms
    by (auto simp: process_document_def send_document_def send_to_runtime_def settle_def wait_for_ack_def
        Let_def)
qed

theorem incremental_record_answered_early_witness:
  "\<exists>s' r. process_document sample_bridge_env sample_http_config None sample_snapshot_document ''b''
       (bridge_start sample_bridge_checkpoint (Some (sample_position ''a'' 1)) []) = (Some (Ok ()), s')
     \<and> br_sent s' = [r] \<and> br_watch s' = Some (sample_position ''a'' 1)"
proof -
  let ?s = "bridge_start sample_bridge_checkpoint (Some (sample_position ''a'' 1)) []"
  have "\<exists>r p. decode_document sample_bridge_env now sample_snapshot_document i n topic True = Ok (r, False)
     \<and> sr_position r = Debezium p \<and> dz_snapshot p" for now i n topic
    by (simp add: decode_document_def sample_unwrap rbind_def)
       (simp add: sample_bridge json_get_def as_object_def as_str_def bridge_snapshot_marker_def Let_def
         operation_of_def bridge_record_def)
  then obtain r p where r: "decode_document sample_bridge_env (bv_clock sample_bridge_env (unat (br_next_serial ?s + 1)))
      sample_snapshot_document ''b'' (br_next_serial ?s + 1) None (br_snapshot_completed ?s) = Ok (r, False)"
    "sr_position r = Debezium p" "dz_snapshot p"
    by (fastforce simp: bridge_start_def sample_bridge_checkpoint_def)
  from incremental_record_answered_early [OF r, of _ sample_http_config] show ?thesis
    by (simp add: bridge_start_def sample_bridge_checkpoint_def sample_position_def sample_open)
       (auto simp: sample_bridge_env_def)
qed

section \<open>Kafka\<close>

definition committed_ok ::
  "source_position option set \<Rightarrow> string option \<Rightarrow> kafka_event list \<Rightarrow> kafka_state \<Rightarrow> bool" where
  "committed_ok W id0 es k =
     (\<forall>t q n. (t, q, n) \<in> set (ks_commits k) \<longrightarrow>
        (\<exists>m. KafkaReceived m \<in> set es \<and> t = km_topic m \<and> q = km_partition m \<and> n = km_offset m + 1
           \<and> (km_payload m \<in> {None, Some []} \<or> id0 = Some (kafka_record_id m)
              \<or> record_settled W (br_sent (ks_bridge k)) (kafka_record_id m))))"

lemma kafka_record_inv:
  assumes "kafka_record env m payload s = (r, s')" "bridge_inv W id0 s" "br_pending s = None"
  shows "bridge_inv W id0 s' \<and> br_pending s' = None \<and> prefix (br_sent s) (br_sent s')
    \<and> (r = Some (Ok ()) \<longrightarrow> record_settled W (br_sent s') (kafka_record_id m))"
proof (cases "bv_parse env payload")
  case (Inl msg)
  with assms(1) have "r \<noteq> Some (Ok ())" "s' = s" by (auto simp: kafka_record_def)
  with assms(2,3) show ?thesis by simp
next
  case (Inr d)
  define u where "u = s\<lparr>br_next_serial := br_next_serial s + 1\<rparr>"
  let ?dec = "decode_document env (bv_clock env (unat (br_next_serial u))) d (kafka_record_id m)
      (br_next_serial u) (Some (km_topic m)) (br_snapshot_completed u)"
  show ?thesis
  proof (cases ?dec)
    case (Inl e)
    with assms \<open>bv_parse env payload = Inr d\<close> show ?thesis
      by (auto simp: kafka_record_def u_def Let_def bridge_inv_def watch_values_def)
  next
    case (Inr y)
    obtain x c where y: "y = (x, c)" by (cases y)
    with Inr have rid: "record_id_of x = Some (kafka_record_id m)" by (auto elim: decode_document_position)
    define v where "v = (if c then u\<lparr>br_snapshot_completed := True\<rparr> else u)"
    have v: "bridge_inv W id0 v" "br_sent v = br_sent s" "br_pending v = None"
      using assms(2,3) by (auto simp: v_def u_def bridge_inv_def watch_values_def)
    note unfolded = assms(1) \<open>bv_parse env payload = Inr d\<close> Inr y
    show ?thesis
    proof (cases "bv_output_open env (length (br_sent s))")
      case False
      with unfolded v(2) have "r = Some (Err Cancelled) \<and> s' = v"
        by (simp add: kafka_record_def u_def [symmetric] v_def [symmetric] send_to_runtime_def Let_def)
      with v show ?thesis by simp
    next
      case True
      define t where "t = v\<lparr>br_sent := br_sent v @ [x]\<rparr>"
      obtain a z where w: "wait_for_ack (sr_position x) None t = (a, z)" by fastforce
      note sound = wait_for_ack_sound [OF w]
      from sound(3) obtain b es where z: "z = t\<lparr>br_watch := b, br_future := es\<rparr>" by blast
      have inv: "bridge_inv W id0 z" "br_pending z = None" "br_sent z = br_sent s @ [x]"
        using v sound(1) by (auto simp: z t_def bridge_inv_def watch_values_def record_settled_def)
      have out: "r = a \<and> s' = (if a = Some (Ok ()) then z\<lparr>br_last_record_id := Some (kafka_record_id m)\<rparr> else z)"
        using unfolded True v(2) w [unfolded t_def v(2)]
        by (cases a rule: option.exhaust [case_names None Some])
          (auto simp: kafka_record_def u_def [symmetric] v_def [symmetric] send_to_runtime_def Let_def
            split: sum.splits)
      show ?thesis
      proof (cases "a = Some (Ok ())")
        case False
        with out inv show ?thesis by simp
      next
        case ok: True
        have "br_watch z \<in> W" using inv(1) by (auto simp: bridge_inv_def watch_values_def)
        with sound(2) [OF ok] rid have "record_settled W (br_sent z) (kafka_record_id m)"
          unfolding record_settled_def inv(3) by auto
        with out inv ok show ?thesis by (auto simp: bridge_inv_def watch_values_def)
      qed
    qed
  qed
qed

lemma run_kafka_commits:
  assumes "run_kafka env commit es k = (r, k')" "bridge_inv W id0 (ks_bridge k)" "br_pending (ks_bridge k) = None"
    and "committed_ok W id0 (past @ es) k"
  shows "committed_ok W id0 (past @ es) k'"
  using assms
proof (induction es arbitrary: k past)
  case (Cons e es)
  show ?case
  proof (cases e)
    case (KafkaReceived m)
    define x where "x = (case km_payload m of
              Some p \<Rightarrow>
                if br_last_record_id (ks_bridge k) \<noteq> Some (kafka_record_id m) \<and> p \<noteq> []
                then kafka_record env m p (ks_bridge k) else (Some (Ok ()), ks_bridge k)
            | None \<Rightarrow> (Some (Ok ()), ks_bridge k))"
    obtain a s where x: "x = (a, s)" by (cases x)
    have s: "bridge_inv W id0 s \<and> br_pending s = None \<and> prefix (br_sent (ks_bridge k)) (br_sent s)
      \<and> (a = Some (Ok ()) \<longrightarrow> km_payload m \<in> {None, Some []} \<or> id0 = Some (kafka_record_id m)
           \<or> record_settled W (br_sent s) (kafka_record_id m))"
    proof (cases "\<exists>p. km_payload m = Some p \<and> br_last_record_id (ks_bridge k) \<noteq> Some (kafka_record_id m) \<and> p \<noteq> []")
      case True
      then obtain p where "kafka_record env m p (ks_bridge k) = (a, s)"
        using x by (auto simp: x_def)
      from kafka_record_inv [OF this Cons.prems(2,3)] show ?thesis by simp
    next
      case False
      then have "a = Some (Ok ())" "s = ks_bridge k"
        using x by (auto simp: x_def split: option.splits if_splits)
      with False Cons.prems(2,3) show ?thesis
        by (cases "km_payload m") (auto simp: bridge_inv_def)
    qed
    have keep: "committed_ok W id0 (past @ e # es) (k\<lparr>ks_bridge := s\<rparr>)"
      unfolding committed_ok_def
    proof (intro allI impI, goal_cases)
      case (1 t q n)
      then have "(t, q, n) \<in> set (ks_commits k)" by simp
      with Cons.prems(4) obtain m' where m': "KafkaReceived m' \<in> set (past @ e # es)" "t = km_topic m'"
        "q = km_partition m'" "n = km_offset m' + 1"
        "km_payload m' \<in> {None, Some []} \<or> id0 = Some (kafka_record_id m')
           \<or> record_settled W (br_sent (ks_bridge k)) (kafka_record_id m')"
        unfolding committed_ok_def by metis
      from s obtain xs where "br_sent s = br_sent (ks_bridge k) @ xs" by (auto simp: prefix_def)
      with m' show ?case by (intro exI [of _ m']) (auto intro: settled_append)
    qed
    show ?thesis
    proof (cases "a = Some (Ok ())")
      case False
      then have "k' = k\<lparr>ks_bridge := s\<rparr>"
        using Cons.prems(1) KafkaReceived x
        by (auto simp: kafka_step_def x_def [symmetric] split: option.splits sum.splits)
      with keep show ?thesis by simp
    next
      case True
      have new: "committed_ok W id0 (past @ e # es)
          (k\<lparr>ks_bridge := s, ks_commits := ks_commits k @ [(km_topic m, km_partition m, km_offset m + 1)]\<rparr>)"
        unfolding committed_ok_def
      proof (intro allI impI, goal_cases)
        case (1 t q n)
        then consider "(t, q, n) \<in> set (ks_commits (k\<lparr>ks_bridge := s\<rparr>))"
          | "t = km_topic m" "q = km_partition m" "n = km_offset m + 1" by auto
        then show ?case
        proof cases
          case 1
          with keep show ?thesis unfolding committed_ok_def by auto
        next
          case 2
          with s True KafkaReceived show ?thesis by (intro exI [of _ m]) auto
        qed
      qed
      show ?thesis
      proof (cases "commit (length (ks_commits k))")
        case (Some msg)
        then have "k' = k\<lparr>ks_bridge := s\<rparr>"
          using Cons.prems(1) KafkaReceived x True
          by (auto simp: kafka_step_def x_def [symmetric] commit_kafka_def)
        with keep show ?thesis by simp
      next
        case None
        let ?k = "k\<lparr>ks_bridge := s, ks_commits := ks_commits k @ [(km_topic m, km_partition m, km_offset m + 1)]\<rparr>"
        from None have "run_kafka env commit es ?k = (r, k')"
          using Cons.prems(1) KafkaReceived x True
          by (auto simp: kafka_step_def x_def [symmetric] commit_kafka_def)
        from Cons.IH [OF this, of "past @ [e]"] s new show ?thesis by simp
      qed
    qed
  next
    case KafkaIdle
    with Cons.prems Cons.IH [of k "past @ [e]"] show ?thesis by simp
  qed (use Cons.prems in auto)
qed simp

text \<open>
  C30. An offset is committed only behind its record: whatever the messages, acknowledgements and
  failures, every committed offset follows a message that was received and that holds no payload, is
  the record the checkpoint ends with, or was sent to the runtime and acknowledged by the watch.
\<close>

theorem kafka_commits_acknowledged:
  assumes "run_kafka env commit es \<lparr>ks_bridge = bridge_start bc watch future, ks_commits = []\<rparr> = (r, k)"
    and "(t, q, n) \<in> set (ks_commits k)"
  shows "\<exists>m. KafkaReceived m \<in> set es \<and> t = km_topic m \<and> q = km_partition m \<and> n = km_offset m + 1
    \<and> (km_payload m \<in> {None, Some []} \<or> bc_record_id bc = Some (kafka_record_id m)
       \<or> record_settled (watch_values (bridge_start bc watch future)) (br_sent (ks_bridge k)) (kafka_record_id m))"
  using run_kafka_commits [OF assms(1), of _ _ "[]"] bridge_start_inv [of bc watch future] assms(2)
  by (simp add: committed_ok_def) (simp add: bridge_start_def)

theorem kafka_commits_acknowledged_witness:
  "\<exists>r k. run_kafka sample_bridge_env (\<lambda>n. None) [KafkaReceived \<lparr>km_topic = ''t'', km_partition = 0, km_offset = 5, km_payload = Some ''x''\<rparr>]
       \<lparr>ks_bridge = bridge_start sample_bridge_checkpoint None
          [AckChanged (Some (sample_position ''kafka:t:0:5'' 1))], ks_commits = []\<rparr> = (r, k)
     \<and> ks_commits k = [(''t'', 0, 6)] \<and> Some ''kafka:t:0:5'' \<in> record_id_of ` set (br_sent (ks_bridge k))"
proof -
  let ?m = "\<lparr>km_topic = ''t'', km_partition = 0, km_offset = 5, km_payload = Some ''x''\<rparr>"
  let ?b = "bridge_start sample_bridge_checkpoint None [AckChanged (Some (sample_position ''kafka:t:0:5'' 1))]"
  have i: "kafka_record_id ?m = ''kafka:t:0:5''" by (simp add: kafka_record_id_def show_int_def show_nat.simps digit_char_def) code_simp
  have x: "bv_parse sample_bridge_env ''x'' = Inr sample_document" by (simp add: sample_bridge_env_def)
  obtain r where r: "decode_document sample_bridge_env (bv_clock sample_bridge_env 1) sample_document ''kafka:t:0:5'' 1
      (Some ''t'') True = Ok (r, False)" "sr_position r = sample_position ''kafka:t:0:5'' 1"
    using sample_decode by blast
  have "\<exists>z. kafka_record sample_bridge_env ?m ''x'' ?b = (Some (Ok ()), z)"
    unfolding kafka_record_def x i using r
    by (simp add: bridge_start_def sample_bridge_checkpoint_def send_to_runtime_def sample_open wait_for_ack_def
        sample_wait del: wait_acks.simps)
  then obtain z where z: "kafka_record sample_bridge_env ?m ''x'' ?b = (Some (Ok ()), z)" by blast
  obtain a k where run: "run_kafka sample_bridge_env (\<lambda>n. None) [KafkaReceived ?m] \<lparr>ks_bridge = ?b, ks_commits = []\<rparr> = (a, k)"
    by fastforce
  have "br_last_record_id ?b = None" by (simp add: bridge_start_def sample_bridge_checkpoint_def)
  with z run have k: "ks_commits k = [(''t'', 0, 6)]"
    by (auto simp: kafka_step_def commit_kafka_def)
  from kafka_commits_acknowledged [OF run, of "''t''" 0 6] k i have
    "record_settled (watch_values ?b) (br_sent (ks_bridge k)) ''kafka:t:0:5''"
    by (simp add: sample_bridge_checkpoint_def)
  with run k show ?thesis by (auto simp: record_settled_def intro: rev_image_eqI)
qed

end
