(* ===== verification/My_Values.thy ===== *)
theory My_Values
  imports Connector_State
begin

text \<open>
  The values of the MySQL connector (\<^verbatim>\<open>crates/rustium-mysql/src/source.rs\<close>): the conversion of what
  the client library and the binary log deliver, the members of \<^verbatim>\<open>enum\<close> and \<^verbatim>\<open>set\<close> types, and the
  partial updates of JSON columns. The parsers of JSON and of floating point numbers, the widening of a
  \<^verbatim>\<open>f32\<close> and the text of an instant are parameters.

  The parsers read the bytes of a text. The characters they look for are ASCII, and the bytes of any other
  character are passed on one by one, which gives the same text as reading characters.
\<close>

section \<open>Values of the client library\<close>

datatype my_value =
    MvNull
  | MvInt i64
  | MvUInt u64
  | MvFloat u32
  | MvDouble f64
  | MvBytes "u8 list"
  | MvDate my_date
  | MvTime my_time

datatype json_diff_operation = DiffReplace | DiffInsert | DiffRemove

record json_diff =
  jd_path :: string
  jd_operation :: json_diff_operation
  jd_value :: "json option"

text \<open>The binary JSON of a column is \<open>None\<close> where the library cannot convert it.\<close>

datatype my_binlog_value =
    BvValue my_value
  | BvJsonb "json option"
  | BvJsonDiff "json_diff list"

record my_value_env =
  mv_widen :: "u32 \<Rightarrow> f64"
  mv_parse_f64 :: "string \<Rightarrow> f64 option"
  mv_parse_json :: "string \<Rightarrow> json option"
  mv_timestamp :: "int \<Rightarrow> string option"

definition text_of :: "u8 list \<Rightarrow> string" where
  "text_of bs = map (\<lambda>b. char_of (unat b)) bs"

definition from_utf8 :: "u8 list \<Rightarrow> string option" where
  "from_utf8 bs = (if utf8_valid (text_of bs) then Some (text_of bs) else None)"

section \<open>Type names\<close>

definition my_base_type :: "string \<Rightarrow> string" where
  "my_base_type type_name = trim (hd (split_on (\<lambda>c. c = CHR ''('' \<or> c = CHR '' '') type_name))"

definition SPATIAL_TYPES :: "string list" where
  "SPATIAL_TYPES =
     [''geometry'', ''point'', ''linestring'', ''polygon'', ''multipoint'', ''multilinestring'',
      ''multipolygon'', ''geometrycollection'']"

definition is_mysql_spatial_type :: "string \<Rightarrow> bool" where
  "is_mysql_spatial_type type_name = (my_base_type type_name \<in> set SPATIAL_TYPES)"

definition is_tinyint1 :: "string \<Rightarrow> bool" where
  "is_tinyint1 type_name = prefix ''tinyint(1)'' (to_ascii_lowercase type_name)"

definition my_ascii_ws :: "char \<Rightarrow> bool" where
  "my_ascii_ws c = (c \<in> {CHR 0x20, CHR 0x09, CHR 0x0A, CHR 0x0C, CHR 0x0D})"

text \<open>The rest of a quoted member, after its opening quote.\<close>

fun member_value :: "string \<Rightarrow> (string \<times> string) option" where
  "member_value [] = None"
| "member_value (c # s) =
     (if c = CHR 0x5C
      then (case s of [] \<Rightarrow> None | d # r \<Rightarrow> map_option (\<lambda>(v, rest). (d # v, rest)) (member_value r))
      else if c = CHR 0x27
      then (case s of
              d # r \<Rightarrow>
                if d = CHR 0x27 then map_option (\<lambda>(v, rest). (CHR 0x27 # v, rest)) (member_value r)
                else Some ([], s)
            | [] \<Rightarrow> Some ([], s))
      else map_option (\<lambda>(v, rest). (c # v, rest)) (member_value s))"

lemma length_member_value: "member_value s = Some (v, rest) \<Longrightarrow> length rest < length s"
proof (induction s arbitrary: v rule: member_value.induct)
  case (2 c s)
  note step = member_value.simps(2) [of c s]
  show ?case
  proof (cases "c = CHR 0x5C")
    case True
    with 2(4) obtain d r w where "s = d # r" "member_value r = Some (w, rest)"
      by (cases s) auto
    with 2(1) [OF True] show ?thesis by fastforce
  next
    case plain: False
    show ?thesis
    proof (cases "c = CHR 0x27")
      case True
      show ?thesis
      proof (cases s)
        case Nil
        with 2(4) True show ?thesis by simp
      next
        case (Cons d r)
        show ?thesis
        proof (cases "d = CHR 0x27")
          case quote: True
          with 2(4) True Cons obtain w where "member_value r = Some (w, rest)" by auto
          with 2(2) [OF plain True Cons quote] Cons show ?thesis by fastforce
        next
          case False
          with 2(4) True Cons show ?thesis by simp
        qed
      qed
    next
      case False
      with 2(4) plain obtain w where "member_value s = Some (w, rest)" by auto
      with 2(3) [OF plain False] show ?thesis by fastforce
    qed
  qed
qed simp

function member_list :: "string \<Rightarrow> string list option" where
  "member_list s =
     (case dropWhile my_ascii_ws s of
        [] \<Rightarrow> None
      | q # r \<Rightarrow>
          if q \<noteq> CHR 0x27 then None
          else (case member_value r of
                  None \<Rightarrow> None
                | Some (v, t) \<Rightarrow>
                    (case dropWhile my_ascii_ws t of
                       [] \<Rightarrow> Some [v]
                     | c # u \<Rightarrow> if c = CHR '','' then map_option (\<lambda>vs. v # vs) (member_list u) else None)))"
  by pat_completeness auto
termination
proof (relation "measure length", goal_cases)
  case (2 s q r x v t c u)
  then have "length (c # u) \<le> length t" "length (q # r) \<le> length s"
    by (metis length_dropWhile_le)+
  moreover have "length t < length r" using 2 length_member_value by blast
  ultimately show ?case by simp
qed simp

declare member_list.simps [simp del]

definition mysql_type_members :: "string \<Rightarrow> string list option" where
  "mysql_type_members type_name =
     Option.bind (split_once CHR ''('' type_name)
       (\<lambda>(_, t). Option.bind (strip_suffix '')'' t) member_list)"

definition mysql_enum_label :: "string \<Rightarrow> u64 \<Rightarrow> data_value" where
  "mysql_enum_label type_name index =
     DvString
       (case (if index = 0 then None
              else Option.bind (mysql_type_members type_name)
                     (\<lambda>ms. if unat index - 1 < length ms then Some (ms ! (unat index - 1)) else None)) of
          None \<Rightarrow> [] | Some l \<Rightarrow> l)"

text \<open>A shift takes its distance modulo the width.\<close>

definition mysql_set_label :: "string \<Rightarrow> u64 \<Rightarrow> data_value" where
  "mysql_set_label type_name bits =
     (let members = (case mysql_type_members type_name of None \<Rightarrow> [] | Some ms \<Rightarrow> ms)
      in DvString (join_with '',''
           (map snd (filter (\<lambda>(i, _). drop_bit (i mod 64) bits AND 1 = 1) (enumerate 0 members)))))"

section \<open>Dates, times, numbers\<close>

definition show_padded :: "nat \<Rightarrow> nat \<Rightarrow> string" where
  "show_padded width n = pad_zero width (show_nat n)"

definition my_date_text :: "my_date \<Rightarrow> string" where
  "my_date_text d =
     show_padded 4 (unat (md_year d)) @ ''-'' @ show_padded 2 (unat (md_month d)) @ ''-''
     @ show_padded 2 (unat (md_day d))"

definition format_mysql_datetime :: "my_date \<Rightarrow> string" where
  "format_mysql_datetime d =
     my_date_text d @ '' '' @ show_padded 2 (unat (md_hour d)) @ '':'' @ show_padded 2 (unat (md_minute d))
     @ '':'' @ show_padded 2 (unat (md_second d))
     @ (if md_micros d = 0 then [] else ''.'' @ show_padded 6 (unat (md_micros d)))"

text \<open>The sum of the hours wraps in a \<^verbatim>\<open>u32\<close>.\<close>

definition my_time_text :: "my_time \<Rightarrow> string" where
  "my_time_text t =
     (let total_hours = sat_mul (mt_days t) 24 + ucast (mt_hours t)
      in (if mt_negative t then ''-'' else []) @ show_padded 2 (unat total_hours) @ '':''
         @ show_padded 2 (unat (mt_minutes t)) @ '':'' @ show_padded 2 (unat (mt_seconds t))
         @ (if mt_micros t = 0 then [] else ''.'' @ show_padded 6 (unat (mt_micros t))))"

definition mysql_timestamp :: "my_value_env \<Rightarrow> string \<Rightarrow> string option" where
  "mysql_timestamp env v =
     (let (seconds_text, fraction) = (case split_once CHR ''.'' v of Some p \<Rightarrow> p | None \<Rightarrow> (v, []));
          taken = take_chars 6 fraction;
          micros_text = taken @ replicate (6 - length taken) (CHR ''0'')
      in Option.bind (parse_signed 64 seconds_text) (\<lambda>seconds.
         Option.bind (parse_unsigned 32 micros_text) (\<lambda>micros.
         map_option (\<lambda>t. if micros = 0 then t else t @ ''.'' @ show_padded 6 micros)
           (mv_timestamp env seconds))))"

definition or_string :: "string \<Rightarrow> ('a \<Rightarrow> data_value) \<Rightarrow> 'a option \<Rightarrow> data_value" where
  "or_string v f r = (case r of None \<Rightarrow> DvString v | Some x \<Rightarrow> f x)"

definition convert_integer :: "string \<Rightarrow> data_value \<Rightarrow> string \<Rightarrow> data_value" where
  "convert_integer type_name otherwise v =
     (if contains_text ''unsigned'' (to_ascii_lowercase type_name)
      then or_string v (\<lambda>n. DvUInt64 (of_nat n)) (parse_unsigned 64 v)
      else otherwise)"

definition set_mask :: "u8 list \<Rightarrow> u64" where
  "set_mask bs = fold (\<lambda>(i, b) m. m OR push_bit (i * 8) (ucast b)) (enumerate 0 (take 8 bs)) 0"

definition is_set_text :: "string \<Rightarrow> string \<Rightarrow> bool" where
  "is_set_text type_name t =
     (case mysql_type_members type_name of
        None \<Rightarrow> False
      | Some members \<Rightarrow> t = [] \<or> list_all (\<lambda>m. m \<in> set members) (split_on (\<lambda>c. c = CHR '','') t))"

definition BINARY_TYPES :: "string list" where
  "BINARY_TYPES = [''binary'', ''varbinary'', ''tinyblob'', ''blob'', ''mediumblob'', ''longblob'', ''bit'']"

definition convert_text :: "my_value_env \<Rightarrow> string \<Rightarrow> string \<Rightarrow> data_value" where
  "convert_text env v type_name =
     (let base = my_base_type type_name in
      if is_tinyint1 type_name
      then or_string v (\<lambda>i. DvBoolean (i \<noteq> 0)) (parse_signed 64 v)
      else if base \<in> {''tinyint'', ''smallint'', ''mediumint'', ''int'', ''integer''}
      then convert_integer type_name (or_string v (\<lambda>i. DvInt32 (of_int i)) (parse_signed 32 v)) v
      else if base = ''bigint''
      then convert_integer type_name (or_string v (\<lambda>i. DvInt64 (of_int i)) (parse_signed 64 v)) v
      else if base \<in> {''float'', ''double'', ''real''}
      then or_string v DvFloat64 (mv_parse_f64 env v)
      else if base = ''decimal'' \<or> base = ''numeric'' then DvDecimal v
      else if base = ''json'' then or_string v DvJson (mv_parse_json env v)
      else if base = ''date'' then DvDate v
      else if base = ''time'' then DvTime v
      else if base = ''datetime'' then DvTimestamp v
      else if base = ''timestamp''
      then DvTimestamp (case mysql_timestamp env v of None \<Rightarrow> v | Some t \<Rightarrow> t)
      else DvString v)"

definition convert_bytes :: "my_value_env \<Rightarrow> u8 list \<Rightarrow> string \<Rightarrow> data_value" where
  "convert_bytes env bs type_name =
     (let base = my_base_type type_name in
      if base = ''enum'' then (case from_utf8 bs of None \<Rightarrow> DvBytes bs | Some t \<Rightarrow> DvString t)
      else if base = ''set''
      then (case from_utf8 bs of
              Some t \<Rightarrow> if is_set_text type_name t then DvString t else mysql_set_label type_name (set_mask bs)
            | None \<Rightarrow> mysql_set_label type_name (set_mask bs))
      else if is_mysql_spatial_type type_name \<or> base \<in> set BINARY_TYPES then DvBytes bs
      else (case from_utf8 bs of None \<Rightarrow> DvBytes bs | Some v \<Rightarrow> convert_text env v type_name))"

text \<open>\<^verbatim>\<open>u64::try_from(value).unwrap_or_default()\<close>.\<close>

definition non_negative :: "i64 \<Rightarrow> u64" where
  "non_negative i = (if sint i < 0 then 0 else i)"

fun my_convert_value :: "my_value_env \<Rightarrow> my_value \<Rightarrow> string \<Rightarrow> data_value" where
  "my_convert_value env MvNull type_name = DvNull"
| "my_convert_value env (MvInt i) type_name =
     (if my_base_type type_name = ''enum'' then mysql_enum_label type_name (non_negative i)
      else if my_base_type type_name = ''set'' then mysql_set_label type_name (non_negative i)
      else if is_tinyint1 type_name then DvBoolean (i \<noteq> 0)
      else if - (2 ^ 31) \<le> sint i \<and> sint i < 2 ^ 31 then DvInt32 (scast i)
      else DvInt64 i)"
| "my_convert_value env (MvUInt u) type_name =
     (if my_base_type type_name = ''enum'' then mysql_enum_label type_name u
      else if my_base_type type_name = ''set'' then mysql_set_label type_name u
      else DvUInt64 u)"
| "my_convert_value env (MvFloat f) type_name = DvFloat64 (mv_widen env f)"
| "my_convert_value env (MvDouble f) type_name = DvFloat64 f"
| "my_convert_value env (MvBytes bs) type_name = convert_bytes env bs type_name"
| "my_convert_value env (MvDate d) type_name =
     (if md_hour d = 0 \<and> md_minute d = 0 \<and> md_second d = 0 \<and> md_micros d = 0
         \<and> my_base_type type_name = ''date''
      then DvDate (my_date_text d) else DvTimestamp (format_mysql_datetime d))"
| "my_convert_value env (MvTime t) type_name = DvTime (my_time_text t)"

section \<open>Partial updates of JSON\<close>

datatype json_path_segment = PathKey string | PathIndex nat

text \<open>A quoted key, after its opening quote; a text that ends first closes it.\<close>

fun path_quoted :: "string \<Rightarrow> (string \<times> string) option" where
  "path_quoted [] = Some ([], [])"
| "path_quoted (c # s) =
     (if c = CHR 0x22 then Some ([], s)
      else if c = CHR 0x5C
      then (case s of [] \<Rightarrow> None | d # r \<Rightarrow> map_option (\<lambda>(k, rest). (d # k, rest)) (path_quoted r))
      else map_option (\<lambda>(k, rest). (c # k, rest)) (path_quoted s))"

definition path_key :: "string \<Rightarrow> (string \<times> string) option" where
  "path_key s =
     (case s of
        d # r \<Rightarrow>
          if d = CHR 0x22 then path_quoted r
          else Some (takeWhile (\<lambda>c. c \<noteq> CHR ''.'' \<and> c \<noteq> CHR ''['') s, dropWhile (\<lambda>c. c \<noteq> CHR ''.'' \<and> c \<noteq> CHR ''['') s)
      | [] \<Rightarrow> Some ([], []))"

text \<open>
  What stands between brackets. The text of a single quotation mark, which no server writes, would make
  the code panic where it cuts the quotes off.
\<close>

definition path_bracket :: "string \<Rightarrow> json_path_segment option" where
  "path_bracket v =
     (if list_all (\<lambda>c. digit_val c \<noteq> None) v then map_option PathIndex (parse_unsigned 64 v)
      else if hd v = CHR 0x22 \<and> last v = CHR 0x22 then Some (PathKey (butlast (tl v)))
      else None)"

lemma length_path_quoted: "path_quoted s = Some (k, rest) \<Longrightarrow> length rest \<le> length s"
proof (induction s arbitrary: k rule: path_quoted.induct)
  case (2 c s)
  show ?case
  proof (cases "c = CHR 0x22")
    case True
    with 2(3) show ?thesis by simp
  next
    case plain: False
    show ?thesis
    proof (cases "c = CHR 0x5C")
      case True
      with 2(3) plain obtain d r w where "s = d # r" "path_quoted r = Some (w, rest)"
        by (cases s) auto
      with 2(1) [OF plain True] show ?thesis by fastforce
    next
      case False
      with 2(3) plain obtain w where "path_quoted s = Some (w, rest)" by auto
      with 2(2) [OF plain False] show ?thesis by fastforce
    qed
  qed
qed simp

lemma length_path_key: "path_key s = Some (k, rest) \<Longrightarrow> length rest \<le> length s"
  by (auto simp: path_key_def split: list.splits if_splits dest: length_path_quoted
      intro: le_trans [OF length_dropWhile_le])

function path_segments :: "string \<Rightarrow> json_path_segment list option" where
  "path_segments [] = Some []"
| "path_segments (c # s) =
     (if c = CHR ''.''
      then (case path_key s of
              None \<Rightarrow> None
            | Some (k, rest) \<Rightarrow>
                if k = [] then None else map_option (\<lambda>ps. PathKey k # ps) (path_segments rest))
      else if c = CHR ''[''
      then (case path_bracket (takeWhile (\<lambda>d. d \<noteq> CHR '']'') s) of
              None \<Rightarrow> None
            | Some p \<Rightarrow> map_option (\<lambda>ps. p # ps) (path_segments (drop 1 (dropWhile (\<lambda>d. d \<noteq> CHR '']'') s))))
      else None)"
  by pat_completeness auto
termination
proof (relation "measure length", goal_cases)
  case (2 c s x k rest)
  then have "length rest \<le> length s" by (auto dest: length_path_key)
  then show ?case by simp
next
  case (3 c s p)
  have "length (drop 1 (dropWhile (\<lambda>d. d \<noteq> CHR '']'') s)) \<le> length (dropWhile (\<lambda>d. d \<noteq> CHR '']'') s)"
    by simp
  also have "\<dots> \<le> length s" by (rule length_dropWhile_le)
  finally show ?case by simp
qed simp

declare path_segments.simps(2) [simp del]

definition parse_json_path :: "string \<Rightarrow> json_path_segment list option" where
  "parse_json_path s =
     (case s of c # r \<Rightarrow> if c = CHR ''$'' then path_segments r else None | [] \<Rightarrow> None)"

text \<open>\<open>None\<close>: the path does not apply; the value is left as it is.\<close>

fun set_json_path :: "json \<Rightarrow> json_path_segment list \<Rightarrow> json \<Rightarrow> bool \<Rightarrow> json option" where
  "set_json_path v [] replacement allow_insert = Some replacement"
| "set_json_path v (PathKey k # rest) replacement allow_insert =
     (case v of
        JObject m \<Rightarrow>
          if rest = []
          then (if (map_of m k \<noteq> None) = allow_insert then None else Some (JObject (bt_insert k replacement m)))
          else (case map_of m k of
                  None \<Rightarrow> None
                | Some w \<Rightarrow>
                    map_option (\<lambda>w'. JObject (bt_insert k w' m)) (set_json_path w rest replacement allow_insert))
      | _ \<Rightarrow> None)"
| "set_json_path v (PathIndex i # rest) replacement allow_insert =
     (case v of
        JArray xs \<Rightarrow>
          if rest = []
          then (if allow_insert
                then (if length xs < i then None else Some (JArray (take i xs @ replacement # drop i xs)))
                else if i < length xs then Some (JArray (xs[i := replacement])) else None)
          else if i < length xs
          then map_option (\<lambda>w'. JArray (xs[i := w'])) (set_json_path (xs ! i) rest replacement allow_insert)
          else None
      | _ \<Rightarrow> None)"

fun remove_json_path :: "json \<Rightarrow> json_path_segment list \<Rightarrow> json option" where
  "remove_json_path v [] = None"
| "remove_json_path v (PathKey k # rest) =
     (case v of
        JObject m \<Rightarrow>
          (case map_of m k of
             None \<Rightarrow> None
           | Some w \<Rightarrow>
               if rest = [] then Some (JObject (im_remove k m))
               else map_option (\<lambda>w'. JObject (bt_insert k w' m)) (remove_json_path w rest))
      | _ \<Rightarrow> None)"
| "remove_json_path v (PathIndex i # rest) =
     (case v of
        JArray xs \<Rightarrow>
          if length xs \<le> i then None
          else if rest = [] then Some (JArray (take i xs @ drop (i + 1) xs))
          else map_option (\<lambda>w'. JArray (xs[i := w'])) (remove_json_path (xs ! i) rest)
      | _ \<Rightarrow> None)"

definition apply_json_diff :: "json_diff \<Rightarrow> json \<Rightarrow> json option" where
  "apply_json_diff d v =
     Option.bind (parse_json_path (jd_path d)) (\<lambda>path.
       case jd_operation d of
         DiffReplace \<Rightarrow> Option.bind (jd_value d) (\<lambda>r. set_json_path v path r False)
       | DiffInsert \<Rightarrow> Option.bind (jd_value d) (\<lambda>r. set_json_path v path r True)
       | DiffRemove \<Rightarrow> remove_json_path v path)"

fun apply_diffs :: "json_diff list \<Rightarrow> json \<Rightarrow> json option" where
  "apply_diffs [] v = Some v"
| "apply_diffs (d # ds) v = Option.bind (apply_json_diff d v) (apply_diffs ds)"

definition apply_json_diffs :: "data_value option \<Rightarrow> json_diff list \<Rightarrow> data_value" where
  "apply_json_diffs base diffs =
     (case base of
        Some (DvJson v) \<Rightarrow> (case apply_diffs diffs v of None \<Rightarrow> DvUnavailable | Some w \<Rightarrow> DvJson w)
      | _ \<Rightarrow> DvUnavailable)"

section \<open>Rows\<close>

fun convert_binlog_value ::
  "my_value_env \<Rightarrow> my_binlog_value \<Rightarrow> string \<Rightarrow> data_value option \<Rightarrow> data_value" where
  "convert_binlog_value env (BvValue v) type_name base = my_convert_value env v type_name"
| "convert_binlog_value env (BvJsonb v) type_name base =
     (case v of None \<Rightarrow> DvUnavailable | Some j \<Rightarrow> DvJson j)"
| "convert_binlog_value env (BvJsonDiff diffs) type_name base = apply_json_diffs base diffs"

text \<open>
  A row of the binary log: the name of each column and its value, \<open>None\<close> where the row image leaves the
  column out. Without column names in the log a name is \<^verbatim>\<open>@\<close> and the index of the column.
\<close>

type_synonym binlog_row = "(string \<times> my_binlog_value option) list"

definition column_index :: "string \<Rightarrow> nat option" where
  "column_index name = Option.bind (strip_prefix ''@'' name) (parse_unsigned 64)"

definition column_field :: "event_schema \<Rightarrow> string \<Rightarrow> field_schema option" where
  "column_field schema name =
     (case Option.bind (column_index name)
             (\<lambda>i. if i < length (es_fields schema) then Some (es_fields schema ! i) else None) of
        Some f \<Rightarrow> Some f
      | None \<Rightarrow> find (\<lambda>f. fs_name f = name) (es_fields schema))"

text \<open>Collecting into an \<^verbatim>\<open>IndexMap\<close>.\<close>

definition im_collect :: "('k \<times> 'v) list \<Rightarrow> ('k \<times> 'v) list" where
  "im_collect kvs = fold (\<lambda>(k, v). im_insert k v) kvs []"

definition convert_binlog_row ::
  "my_value_env \<Rightarrow> binlog_row \<Rightarrow> event_schema \<Rightarrow> row option \<Rightarrow> row" where
  "convert_binlog_row env r schema base =
     im_collect (List.map_filter (\<lambda>(name, value).
       Option.bind (column_field schema name) (\<lambda>f.
         map_option (\<lambda>v. (fs_name f, convert_binlog_value env v (fs_type_name f)
                            (Option.bind base (\<lambda>b. map_of b (fs_name f))))) value)) r)"

definition convert_snapshot_row :: "my_value_env \<Rightarrow> my_value list \<Rightarrow> event_schema \<Rightarrow> row result" where
  "convert_snapshot_row env values schema =
     (if length values \<noteq> length (es_fields schema)
      then Err (Source (''snapshot row has '' @ show_nat (length values) @ '' values but schema has ''
             @ show_nat (length (es_fields schema)) @ '' fields''))
      else Ok (im_collect (map (\<lambda>(v, f). (fs_name f, my_convert_value env v (fs_type_name f)))
                 (zip values (es_fields schema)))))"

definition my_fill_unavailable :: "row option \<Rightarrow> event_schema \<Rightarrow> row \<Rightarrow> row" where
  "my_fill_unavailable fallback schema r =
     fold (\<lambda>f r. if map_of r (fs_name f) = None
                  then im_insert (fs_name f)
                         (case Option.bind fallback (\<lambda>b. map_of b (fs_name f)) of
                            None \<Rightarrow> DvUnavailable | Some v \<Rightarrow> v) r
                  else r)
       (es_fields schema) r"

section \<open>Members of enum and set types\<close>

text \<open>
  A column type as the information schema prints it: quotes doubled, backslashes escaped. (It also writes
  line ends and the zero character as escapes with a letter, which the code does not translate back.)
\<close>

definition print_member :: "string \<Rightarrow> string" where
  "print_member m =
     [CHR 0x27] @ concat (map (\<lambda>c. if c = CHR 0x27 then [c, c]
                                 else if c = CHR 0x5C then [c, c] else [c]) m) @ [CHR 0x27]"

definition print_members :: "string \<Rightarrow> string list \<Rightarrow> string" where
  "print_members kind ms = kind @ ''('' @ join_with '','' (map print_member ms) @ '')''"

lemma member_value_print:
  assumes "case rest of [] \<Rightarrow> True | c # _ \<Rightarrow> c \<noteq> CHR 0x27"
  shows "member_value (concat (map (\<lambda>c. if c = CHR 0x27 then [c, c]
            else if c = CHR 0x5C then [c, c] else [c]) m) @ CHR 0x27 # rest) = Some (m, rest)"
  using assms by (induction m) (auto split: list.splits)

lemma member_list_step:
  assumes "case rest of [] \<Rightarrow> True | c # _ \<Rightarrow> c \<noteq> CHR 0x27"
  shows "member_list (print_member m @ rest) =
    (case dropWhile my_ascii_ws rest of
       [] \<Rightarrow> Some [m]
     | c # u \<Rightarrow> if c = CHR '','' then map_option (\<lambda>vs. m # vs) (member_list u) else None)"
  using member_value_print [OF assms, of m]
  by (subst member_list.simps) (simp add: print_member_def my_ascii_ws_def)

lemma member_list_print:
  assumes "ms \<noteq> []"
  shows "member_list (join_with '','' (map print_member ms)) = Some ms"
  using assms
proof (induction ms rule: list_nonempty_induct)
  case (single m)
  show ?case
    using member_list_step [of "[]" m] by simp
next
  case (cons m ms)
  let ?rest = "'','' @ join_with '','' (map print_member ms)"
  have "join_with '','' (map print_member (m # ms)) = print_member m @ ?rest"
    using cons(1) by (cases ms) simp_all
  then show ?case
    using member_list_step [of ?rest m] cons(2) by (simp add: my_ascii_ws_def)
qed

lemma mysql_type_members_print:
  assumes "ms \<noteq> []" "CHR ''('' \<notin> set kind"
  shows "mysql_type_members (print_members kind ms) = Some ms"
proof -
  have "split_once CHR ''('' (print_members kind ms)
      = Some (kind, join_with '','' (map print_member ms) @ '')'')"
    using assms(2) by (simp add: print_members_def split_once_append)
  then show ?thesis
    using member_list_print [OF assms(1)] by (simp add: mysql_type_members_def)
qed

lemma base_type_print:
  "my_base_type (print_members ''enum'' ms) = ''enum''" "my_base_type (print_members ''set'' ms) = ''set''"
  by (simp_all add: my_base_type_def print_members_def trim_def utf8_cont_def ws_chunk_def is_whitespace_def split: list.splits)

definition selected_members :: "u64 \<Rightarrow> string list \<Rightarrow> string list" where
  "selected_members w ms = map (\<lambda>i. ms ! i) (filter (bit w) [0..<length ms])"

lemma set_label_selected:
  assumes "mysql_type_members t = Some ms" "length ms \<le> 64"
  shows "mysql_set_label t w = DvString (join_with '','' (selected_members w ms))"
proof -
  have bits: "drop_bit (i mod 64) w AND 1 = 1 \<longleftrightarrow> bit w i" if "i < length ms" for i
    using that assms(2) by (simp add: and_one_eq bit_iff_odd_drop_bit odd_iff_mod_2_eq_one)
  have "enumerate 0 ms = map (\<lambda>i. (i, ms ! i)) [0..<length ms]"
    by (rule nth_equalityI) (auto simp: nth_enumerate_eq)
  then have "map snd (filter (\<lambda>(i, _). drop_bit (i mod 64) w AND 1 = 1) (enumerate 0 ms)) = selected_members w ms"
    by (simp add: selected_members_def filter_map comp_def)
       (rule map_cong, rule filter_cong, auto simp: bits)
  with assms(1) show ?thesis by (simp add: mysql_set_label_def)
qed



section \<open>JSON paths\<close>

definition print_segment :: "json_path_segment \<Rightarrow> string" where
  "print_segment p =
     (case p of
        PathKey k \<Rightarrow> [CHR ''.'', CHR 0x22]
          @ concat (map (\<lambda>c. if c = CHR 0x22 \<or> c = CHR 0x5C then [CHR 0x5C, c] else [c]) k) @ [CHR 0x22]
      | PathIndex i \<Rightarrow> ''['' @ show_nat i @ '']'')"

definition print_path :: "json_path_segment list \<Rightarrow> string" where
  "print_path ps = ''$'' @ concat (map print_segment ps)"

definition segment_ok :: "json_path_segment \<Rightarrow> bool" where
  "segment_ok p = (case p of PathKey k \<Rightarrow> k \<noteq> [] | PathIndex i \<Rightarrow> i < 2 ^ 64)"

fun json_at :: "json_path_segment list \<Rightarrow> json \<Rightarrow> json option" where
  "json_at [] v = Some v"
| "json_at (PathKey k # ps) v =
     (case v of JObject m \<Rightarrow> Option.bind (map_of m k) (json_at ps) | _ \<Rightarrow> None)"
| "json_at (PathIndex i # ps) v =
     (case v of JArray xs \<Rightarrow> if i < length xs then json_at ps (xs ! i) else None | _ \<Rightarrow> None)"

lemma path_quoted_print:
  "path_quoted (concat (map (\<lambda>c. if c = CHR 0x22 \<or> c = CHR 0x5C then [CHR 0x5C, c] else [c]) k)
     @ CHR 0x22 # rest) = Some (k, rest)"
  by (induction k) auto

lemma show_nat_no_bracket: "d \<in> set (show_nat i) \<Longrightarrow> d \<noteq> CHR '']''"
  using show_nat_digits [of d i] by (auto simp: digit_val_def)

lemma path_segments_print:
  assumes "\<forall>p\<in>set ps. segment_ok p"
  shows "path_segments (concat (map print_segment ps)) = Some ps"
  using assms
proof (induction ps)
  case (Cons p ps)
  show ?case
  proof (cases p)
    case (PathKey k)
    with Cons path_quoted_print [of k "concat (map print_segment ps)"] show ?thesis
      by (simp add: print_segment_def [of "PathKey k"] path_segments.simps(2) path_key_def segment_ok_def)
  next
    case (PathIndex i)
    have take: "takeWhile (\<lambda>d. d \<noteq> CHR '']'') (show_nat i @ CHR '']'' # r) = show_nat i"
      "dropWhile (\<lambda>d. d \<noteq> CHR '']'') (show_nat i @ CHR '']'' # r) = CHR '']'' # r" for r
      using show_nat_no_bracket [of _ i] by (auto simp: takeWhile_append2 dropWhile_append2)
    have "path_bracket (show_nat i) = Some (PathIndex i)"
      using Cons.prems PathIndex show_nat_digits [of _ i]
      by (auto simp: path_bracket_def list_all_iff segment_ok_def parse_unsigned_show_nat)
    with Cons PathIndex show ?thesis
      by (simp add: print_segment_def [of "PathIndex i"] path_segments.simps(2) take)
  qed
qed simp

lemma parse_json_path_print:
  "\<forall>p\<in>set ps. segment_ok p \<Longrightarrow> parse_json_path (print_path ps) = Some ps"
  by (simp add: parse_json_path_def print_path_def path_segments_print)

lemma map_of_bt_insert_any: "map_of (bt_insert k v m) = (map_of m)(k \<mapsto> v)"
  by (induction k v m rule: bt_insert.induct) (auto simp: fun_upd_twist)

lemma set_json_path_replaced:
  assumes "json_at ps v \<noteq> None"
  shows "\<exists>w. set_json_path v ps r False = Some w \<and> json_at ps w = Some r
    \<and> (\<forall>qs. \<not> prefix ps qs \<and> \<not> prefix qs ps \<longrightarrow> json_at qs w = json_at qs v)"
  using assms
proof (induction ps arbitrary: v)
  case (Cons p ps)
  show ?case
  proof (cases p)
    case (PathKey k)
    with Cons.prems obtain m u where v: "v = JObject m" "map_of m k = Some u" "json_at ps u \<noteq> None"
      by (cases v) (auto simp: bind_eq_Some_conv)
    from Cons.IH [OF v(3)] obtain w where w: "set_json_path u ps r False = Some w" "json_at ps w = Some r"
      "\<forall>qs. \<not> prefix ps qs \<and> \<not> prefix qs ps \<longrightarrow> json_at qs w = json_at qs u" by blast
    have set: "set_json_path v (p # ps) r False = Some (JObject (bt_insert k w m))"
      using v w(1) PathKey by (cases ps) auto
    have "json_at qs (JObject (bt_insert k w m)) = json_at qs v"
      if "\<not> prefix (p # ps) qs \<and> \<not> prefix qs (p # ps)" for qs
    proof (cases qs)
      case (Cons q qs')
      with that v w(3) PathKey show ?thesis
        by (cases q) (auto simp: map_of_bt_insert_any)
    qed (use that in simp)
    with set w(2) PathKey show ?thesis by (auto simp: map_of_bt_insert_any)
  next
    case (PathIndex i)
    with Cons.prems obtain xs where v: "v = JArray xs" "i < length xs" "json_at ps (xs ! i) \<noteq> None"
      by (cases v) (auto split: if_splits)
    from Cons.IH [OF v(3)] obtain w where w: "set_json_path (xs ! i) ps r False = Some w" "json_at ps w = Some r"
      "\<forall>qs. \<not> prefix ps qs \<and> \<not> prefix qs ps \<longrightarrow> json_at qs w = json_at qs (xs ! i)" by blast
    have set: "set_json_path v (p # ps) r False = Some (JArray (xs[i := w]))"
      using v w(1) PathIndex by (cases ps) auto
    have "json_at qs (JArray (xs[i := w])) = json_at qs v"
      if "\<not> prefix (p # ps) qs \<and> \<not> prefix qs (p # ps)" for qs
    proof (cases qs)
      case (Cons q qs')
      with that v w(3) PathIndex show ?thesis
        by (cases q) (auto simp: nth_list_update)
    qed (use that in simp)
    with set v(2) w(2) PathIndex show ?thesis by auto
  qed
qed simp

text \<open>
  C32. A partial update of a JSON column replaces exactly the value its path addresses: the path that the
  server writes is read back, the new value stands where the old one was, and what stands at every other
  path, neither above nor below it, is what stood there before.
\<close>

theorem json_update_replaces_path:
  assumes "\<forall>p\<in>set ps. segment_ok p" "json_at ps v \<noteq> None"
  shows "\<exists>w. convert_binlog_value env
        (BvJsonDiff [\<lparr>jd_path = print_path ps, jd_operation = DiffReplace, jd_value = Some r\<rparr>])
        type_name (Some (DvJson v)) = DvJson w
    \<and> json_at ps w = Some r
    \<and> (\<forall>qs. \<not> prefix ps qs \<and> \<not> prefix qs ps \<longrightarrow> json_at qs w = json_at qs v)"
  using set_json_path_replaced [OF assms(2), of r] assms(1)
  by (auto simp: apply_json_diffs_def apply_json_diff_def parse_json_path_print)

theorem json_update_replaces_path_witness:
  "\<forall>env. \<exists>w. convert_binlog_value env
        (BvJsonDiff [\<lparr>jd_path = print_path [PathKey ''a'', PathIndex 1], jd_operation = DiffReplace,
                       jd_value = Some JNull\<rparr>])
        ''json'' (Some (DvJson (JObject [(''a'', JArray [JBool False, JBool True])]))) = DvJson w
     \<and> json_at [PathKey ''a'', PathIndex 1] w = Some JNull
     \<and> json_at [PathKey ''a'', PathIndex 0] w = Some (JBool False)"
proof
  fix env
  let ?ps = "[PathKey ''a'', PathIndex 1]" and ?v = "JObject [(''a'', JArray [JBool False, JBool True])]"
  have "\<forall>p\<in>set ?ps. segment_ok p" "json_at ?ps ?v \<noteq> None" by (simp_all add: segment_ok_def)
  from json_update_replaces_path [OF this, of env JNull "''json''"] obtain w where
    "convert_binlog_value env
        (BvJsonDiff [\<lparr>jd_path = print_path ?ps, jd_operation = DiffReplace, jd_value = Some JNull\<rparr>])
        ''json'' (Some (DvJson ?v)) = DvJson w" "json_at ?ps w = Some JNull"
    "\<forall>qs. \<not> prefix ?ps qs \<and> \<not> prefix qs ?ps \<longrightarrow> json_at qs w = json_at qs ?v" by blast
  moreover have "\<not> prefix ?ps [PathKey ''a'', PathIndex 0] \<and> \<not> prefix [PathKey ''a'', PathIndex 0] ?ps"
    by simp
  moreover have "json_at [PathKey ''a'', PathIndex 0] ?v = Some (JBool False)" by simp
  ultimately show "\<exists>w. convert_binlog_value env
        (BvJsonDiff [\<lparr>jd_path = print_path ?ps, jd_operation = DiffReplace, jd_value = Some JNull\<rparr>])
        ''json'' (Some (DvJson ?v)) = DvJson w
     \<and> json_at ?ps w = Some JNull \<and> json_at [PathKey ''a'', PathIndex 0] w = Some (JBool False)"
    by metis
qed

end
