(* ===== verification/My_Ddl.thy ===== *)
theory My_Ddl
  imports My_Values Column_Transform
begin

text \<open>
  How the MySQL connector follows schema changes (\<^verbatim>\<open>apply_ddl\<close> of
  \<^verbatim>\<open>crates/rustium-mysql/src/schema_history.rs\<close>): the statements of the binary log are applied to the
  schemas it keeps. The SQL parser and its tokenizer are parameters; their results are data types with the
  constructors that the code tells apart, and the text that the library prints for a data type or a name
  is part of the value.
\<close>

section \<open>Configuration\<close>

record my_config =
  myc_databases :: "string list"
  myc_tables :: table_selection
  myc_signal_data_collection :: "string option"
  myc_signal_enabled_channels :: "string list"
  myc_gtid_source_includes :: "string list"
  myc_gtid_source_excludes :: "string list"
  myc_gtid_source_filter_dml_events :: bool
  myc_schema_history_skip_unparseable_ddl :: bool
  myc_incremental_snapshot_chunk_size :: nat
  myc_heartbeat_action_query :: "string option"

section \<open>Syntax\<close>

record object_name =
  on_parts :: "string option list"
  on_text :: string

datatype my_data_type = UnspecifiedType | TypeText string

datatype column_option = OptionNull | OptionNotNull | OptionPrimaryKey | OptionOther

record column_def =
  cd_name :: string
  cd_data_type :: my_data_type
  cd_options :: "column_option list"

datatype key_column = KeyIdentifier string | KeyExpression string

datatype table_constraint = PrimaryKeyConstraint "key_column list" | OtherConstraint

datatype my_column_position = PositionFirst | PositionAfter string

datatype alter_column_operation =
    SetNotNull
  | DropNotNull
  | SetDataType my_data_type
  | OtherColumnOperation

datatype alter_operation =
    AddColumn bool column_def "my_column_position option"
  | DropColumn "string list" bool
  | RenameColumn string string
  | ChangeColumn string string my_data_type "column_option list" "my_column_position option"
  | ModifyColumn string my_data_type "column_option list" "my_column_position option"
  | AddConstraint table_constraint
  | DropPrimaryKey
  | AlterColumn string alter_column_operation
  | RenameTableTo object_name
  | OtherAlterOperation

record create_table =
  ct_name :: object_name
  ct_if_not_exists :: bool
  ct_like :: "object_name option"
  ct_columns :: "column_def list"
  ct_has_query :: bool
  ct_constraints :: "table_constraint list"

datatype ddl_statement =
    CreateTable create_table
  | AlterTable object_name "alter_operation list"
  | DropTables "object_name list" bool
  | RenameTables "(object_name \<times> object_name) list"
  | TruncateTable
  | OtherStatement string

datatype ddl_keyword = KwAlter | KwTable | KwRename | KwIndex | KwKey | KwTo | KwNone

datatype ddl_token = TokWhitespace | TokWord ddl_keyword | TokPeriod | TokSemiColon | TokOther

record ddl_env =
  dd_tokenize :: "string \<Rightarrow> ddl_token list option"
  dd_parse :: "string \<Rightarrow> string + ddl_statement list"
  dd_regex :: regex_engine
  dd_connector_name :: string

type_synonym my_schema_map = "(table_key \<times> my_table_schema) list"

section \<open>Tables and columns\<close>

definition tracks_database :: "my_config \<Rightarrow> string \<Rightarrow> bool" where
  "tracks_database cfg database \<longleftrightarrow>
     database \<notin> {''information_schema'', ''mysql'', ''performance_schema'', ''sys''}
     \<and> (myc_databases cfg = [] \<or> database \<in> set (myc_databases cfg))"

definition tracks_table :: "ddl_env \<Rightarrow> my_config \<Rightarrow> table_key \<Rightarrow> bool" where
  "tracks_table env cfg key \<longleftrightarrow>
     tracks_database cfg (fst key) \<and> table_includes (dd_regex env) (myc_tables cfg) (fst key) (snd key)"

definition unknown_table :: "table_key \<Rightarrow> rust_error" where
  "unknown_table key = Source (''MySQL schema history has no table '' @ fst key @ ''.'' @ snd key)"

definition unknown_column :: "table_key \<Rightarrow> string \<Rightarrow> rust_error" where
  "unknown_column key column =
     Source (''MySQL schema history has no column '' @ fst key @ ''.'' @ snd key @ ''.'' @ column)"

definition event_schema_name :: "ddl_env \<Rightarrow> table_key \<Rightarrow> string" where
  "event_schema_name env key = dd_connector_name env @ ''.'' @ fst key @ ''.'' @ snd key @ ''.Envelope''"

definition ddl_type_name :: "my_data_type \<Rightarrow> string result" where
  "ddl_type_name t =
     (case t of
        UnspecifiedType \<Rightarrow> Err (Source ''MySQL schema history encountered a column without a data type'')
      | TypeText s \<Rightarrow> Ok (to_ascii_lowercase s))"

definition ddl_table_key :: "object_name \<Rightarrow> string \<Rightarrow> table_key result" where
  "ddl_table_key name current_database =
     rbind (collect_results
              (ok_or (Source (''unsupported dynamic MySQL object name '' @ on_text name))) (on_parts name))
       (\<lambda>parts. case parts of
          [table] \<Rightarrow>
            if current_database \<noteq> [] then Ok (current_database, table)
            else Err (Source (''MySQL DDL table '' @ debug_str table @ '' has no database context''))
        | [database, table] \<Rightarrow> Ok (database, table)
        | _ \<Rightarrow> Err (Source (''unsupported MySQL table name '' @ on_text name)))"

text \<open>The options in their order: nullability, and whether the column is a key.\<close>

definition column_flags :: "column_option list \<Rightarrow> bool \<Rightarrow> bool \<times> bool" where
  "column_flags options primary_key =
     (let (nullable, key) = fold (\<lambda>opt (nullable, key). case opt of
              OptionNull \<Rightarrow> (True, key)
            | OptionNotNull \<Rightarrow> (False, key)
            | OptionPrimaryKey \<Rightarrow> (False, True)
            | OptionOther \<Rightarrow> (nullable, key)) options (True, primary_key)
      in (nullable \<and> \<not> key, key))"

definition field_from_parts ::
  "string \<Rightarrow> my_data_type \<Rightarrow> column_option list \<Rightarrow> bool \<Rightarrow> field_schema result" where
  "field_from_parts name data_type options preserve_primary_key =
     rbind (ddl_type_name data_type) (\<lambda>t.
       let (nullable, key) = column_flags options preserve_primary_key
       in Ok \<lparr>fs_name = name, fs_type_name = t, fs_optional = nullable, fs_primary_key = key\<rparr>)"

definition field_from_column_def :: "column_def \<Rightarrow> field_schema result" where
  "field_from_column_def c = field_from_parts (cd_name c) (cd_data_type c) (cd_options c) False"

text \<open>The first field of a name, changed.\<close>

fun update_field :: "string \<Rightarrow> (field_schema \<Rightarrow> field_schema) \<Rightarrow> field_schema list \<Rightarrow> field_schema list option" where
  "update_field name f [] = None"
| "update_field name f (x # xs) =
     (if fs_name x = name then Some (f x # xs) else map_option (\<lambda>ys. x # ys) (update_field name f xs))"

definition find_field_mut ::
  "table_key \<Rightarrow> string \<Rightarrow> (field_schema \<Rightarrow> field_schema) \<Rightarrow> field_schema list \<Rightarrow> field_schema list result" where
  "find_field_mut key name f cols = ok_or (unknown_column key name) (update_field name f cols)"

definition primary_key_names :: "table_constraint list \<Rightarrow> string list result" where
  "primary_key_names constraints =
     map_sum id concat (collect_results (\<lambda>c.
       case c of
         OtherConstraint \<Rightarrow> Ok []
       | PrimaryKeyConstraint columns \<Rightarrow>
           collect_results (\<lambda>k.
             case k of
               KeyIdentifier n \<Rightarrow> Ok n
             | KeyExpression e \<Rightarrow> Err (Source (''unsupported expression in MySQL primary key: '' @ e))) columns)
       constraints)"

text \<open>
  The names form a hash set; the order in which it is iterated shows only in which of several unknown
  columns is reported.
\<close>

fun mark_primary_keys :: "string list \<Rightarrow> field_schema list \<Rightarrow> field_schema list result" where
  "mark_primary_keys [] cols = Ok cols"
| "mark_primary_keys (n # ns) cols =
     rbind (ok_or (Source (''MySQL primary key references unknown column '' @ n))
              (update_field n (\<lambda>f. f\<lparr>fs_primary_key := True, fs_optional := False\<rparr>) cols))
       (mark_primary_keys ns)"

definition apply_primary_key_constraints ::
  "table_constraint list \<Rightarrow> field_schema list \<Rightarrow> field_schema list result" where
  "apply_primary_key_constraints constraints cols =
     rbind (primary_key_names constraints) (\<lambda>names. mark_primary_keys (remdups names) cols)"

fun position_of :: "string \<Rightarrow> field_schema list \<Rightarrow> nat option" where
  "position_of name [] = None"
| "position_of name (f # fs) = (if fs_name f = name then Some 0 else map_option Suc (position_of name fs))"

definition insert_at :: "nat \<Rightarrow> 'a \<Rightarrow> 'a list \<Rightarrow> 'a list" where
  "insert_at i x xs = take i xs @ x # drop i xs"

definition remove_at :: "nat \<Rightarrow> 'a list \<Rightarrow> 'a list" where
  "remove_at i xs = take i xs @ drop (i + 1) xs"

definition insert_field ::
  "field_schema \<Rightarrow> my_column_position option \<Rightarrow> field_schema list \<Rightarrow> field_schema list result" where
  "insert_field f position cols =
     (case position of
        None \<Rightarrow> Ok (insert_at (length cols) f cols)
      | Some PositionFirst \<Rightarrow> Ok (insert_at 0 f cols)
      | Some (PositionAfter column) \<Rightarrow>
          rbind (ok_or (Source (''MySQL column position references unknown column '' @ column))
                   (position_of column cols)) (\<lambda>i. Ok (insert_at (i + 1) f cols)))"

definition remove_field :: "string \<Rightarrow> field_schema list \<Rightarrow> field_schema list option" where
  "remove_field name cols = map_option (\<lambda>i. remove_at i cols) (position_of name cols)"

definition replace_field ::
  "table_key \<Rightarrow> string \<Rightarrow> string \<Rightarrow> my_data_type \<Rightarrow> column_option list \<Rightarrow> my_column_position option \<Rightarrow>
   field_schema list \<Rightarrow> field_schema list result" where
  "replace_field key old_name new_name data_type options position cols =
     rbind (ok_or (unknown_column key old_name) (position_of old_name cols)) (\<lambda>i.
     rbind (field_from_parts new_name data_type options (fs_primary_key (cols ! i))) (\<lambda>f.
       case position of
         Some p \<Rightarrow> insert_field f (Some p) (remove_at i cols)
       | None \<Rightarrow> Ok (insert_at (min i (length cols - 1)) f (remove_at i cols))))"

section \<open>Statements\<close>

definition already_contains :: "table_key \<Rightarrow> rust_error" where
  "already_contains key =
     Source (''MySQL schema history already contains table '' @ fst key @ ''.'' @ snd key)"

definition rename_over :: "table_key \<Rightarrow> table_key \<Rightarrow> rust_error" where
  "rename_over old new =
     Source (''MySQL schema history cannot rename '' @ fst old @ ''.'' @ snd old @ '' over existing table ''
       @ fst new @ ''.'' @ snd new)"

text \<open>The table under another name.\<close>

definition moved_table :: "ddl_env \<Rightarrow> table_key \<Rightarrow> u32 \<Rightarrow> my_table_schema \<Rightarrow> my_table_schema" where
  "moved_table env key version t =
     \<lparr>mts_database = fst key, mts_table = snd key,
      mts_event_schema = (mts_event_schema t)\<lparr>es_name := event_schema_name env key, es_version := version\<rparr>\<rparr>"

definition created_table ::
  "ddl_env \<Rightarrow> my_schema_map \<Rightarrow> create_table \<Rightarrow> string \<Rightarrow> table_key \<Rightarrow> my_table_schema result" where
  "created_table env schemas create current_database key =
     (case ct_like create of
        Some like \<Rightarrow>
          rbind (ddl_table_key like current_database) (\<lambda>source_key.
          rbind (ok_or (unknown_table source_key) (map_of schemas source_key)) (\<lambda>t.
            Ok (moved_table env key 1 t)))
      | None \<Rightarrow>
          if ct_columns create = [] \<or> ct_has_query create
          then Err (Source (''cannot reconstruct MySQL schema for CREATE TABLE '' @ on_text (ct_name create)
                 @ '' without explicit columns''))
          else
            rbind (collect_results field_from_column_def (ct_columns create)) (\<lambda>cols.
            rbind (apply_primary_key_constraints (ct_constraints create) cols) (\<lambda>cols.
              Ok \<lparr>mts_database = fst key, mts_table = snd key,
                  mts_event_schema = \<lparr>es_name = event_schema_name env key, es_version = 1,
                                      es_fields = cols\<rparr>\<rparr>)))"

definition apply_create_table ::
  "ddl_env \<Rightarrow> my_config \<Rightarrow> my_schema_map \<Rightarrow> create_table \<Rightarrow> string \<Rightarrow> (my_schema_map \<times> bool) result" where
  "apply_create_table env cfg schemas create current_database =
     rbind (ddl_table_key (ct_name create) current_database) (\<lambda>key.
       if \<not> tracks_table env cfg key then Ok (schemas, False)
       else if map_of schemas key \<noteq> None
       then (if ct_if_not_exists create then Ok (schemas, False) else Err (already_contains key))
       else rbind (created_table env schemas create current_database key) (\<lambda>t.
              Ok (im_insert key t schemas, True)))"

fun drop_columns :: "table_key \<Rightarrow> string list \<Rightarrow> bool \<Rightarrow> field_schema list \<Rightarrow> field_schema list result" where
  "drop_columns key [] if_exists cols = Ok cols"
| "drop_columns key (n # ns) if_exists cols =
     (case remove_field n cols of
        Some cols' \<Rightarrow> drop_columns key ns if_exists cols'
      | None \<Rightarrow>
          if if_exists then drop_columns key ns if_exists cols else Err (unknown_column key n))"

definition alter_fields :: "table_key \<Rightarrow> alter_operation \<Rightarrow> field_schema list \<Rightarrow> field_schema list result" where
  "alter_fields key op cols =
     (case op of
        AddColumn if_not_exists c position \<Rightarrow>
          rbind (field_from_column_def c) (\<lambda>f.
            if list_ex (\<lambda>g. fs_name g = fs_name f) cols
            then (if if_not_exists then Ok cols
                  else Err (Source (''MySQL schema history cannot add duplicate column '' @ fst key @ ''.''
                         @ snd key @ ''.'' @ fs_name f)))
            else insert_field f position cols)
      | DropColumn names if_exists \<Rightarrow> drop_columns key names if_exists cols
      | RenameColumn old new \<Rightarrow> find_field_mut key old (\<lambda>f. f\<lparr>fs_name := new\<rparr>) cols
      | ChangeColumn old new data_type options position \<Rightarrow>
          replace_field key old new data_type options position cols
      | ModifyColumn name data_type options position \<Rightarrow>
          replace_field key name name data_type options position cols
      | AddConstraint c \<Rightarrow> apply_primary_key_constraints [c] cols
      | DropPrimaryKey \<Rightarrow> Ok (map (\<lambda>f. f\<lparr>fs_primary_key := False\<rparr>) cols)
      | AlterColumn name column_op \<Rightarrow>
          rbind (find_field_mut key name id cols) (\<lambda>_.
            case column_op of
              SetNotNull \<Rightarrow> find_field_mut key name (\<lambda>f. f\<lparr>fs_optional := False\<rparr>) cols
            | DropNotNull \<Rightarrow> find_field_mut key name (\<lambda>f. f\<lparr>fs_optional := True\<rparr>) cols
            | SetDataType data_type \<Rightarrow>
                rbind (ddl_type_name data_type) (\<lambda>t.
                  find_field_mut key name (\<lambda>f. f\<lparr>fs_type_name := t\<rparr>) cols)
            | OtherColumnOperation \<Rightarrow> Ok cols)
      | RenameTableTo name \<Rightarrow> Ok cols
      | OtherAlterOperation \<Rightarrow> Ok cols)"

text \<open>The operations in their order, with the key the table has reached.\<close>

fun alter_table ::
  "ddl_env \<Rightarrow> string \<Rightarrow> alter_operation list \<Rightarrow> table_key \<Rightarrow> my_table_schema \<Rightarrow>
   (table_key \<times> my_table_schema) result" where
  "alter_table env current_database [] key t = Ok (key, t)"
| "alter_table env current_database (op # ops) key t =
     rbind (alter_fields key op (es_fields (mts_event_schema t))) (\<lambda>cols.
     let t' = t\<lparr>mts_event_schema := (mts_event_schema t)\<lparr>es_fields := cols\<rparr>\<rparr> in
     case op of
       RenameTableTo name \<Rightarrow>
         rbind (ddl_table_key name current_database) (\<lambda>target.
           alter_table env current_database ops target
             (moved_table env target (es_version (mts_event_schema t')) t'))
     | _ \<Rightarrow> alter_table env current_database ops key t')"

definition apply_alter_table ::
  "ddl_env \<Rightarrow> my_config \<Rightarrow> my_schema_map \<Rightarrow> object_name \<Rightarrow> alter_operation list \<Rightarrow> string \<Rightarrow>
   (my_schema_map \<times> bool) result" where
  "apply_alter_table env cfg schemas name ops current_database =
     rbind (ddl_table_key name current_database) (\<lambda>key.
       if \<not> tracks_table env cfg key then Ok (schemas, False)
       else
         rbind (ok_or (unknown_table key) (map_of schemas key)) (\<lambda>original.
         rbind (alter_table env current_database ops key original) (\<lambda>(target, t).
           let rest = im_remove key schemas;
               altered = (mts_event_schema t \<noteq> mts_event_schema original);
               changed = (altered \<or> target \<noteq> key);
               t' = (if altered
                     then t\<lparr>mts_event_schema := (mts_event_schema t)
                              \<lparr>es_version := sat_add (es_version (mts_event_schema original)) 1\<rparr>\<rparr>
                     else t)
           in if \<not> tracks_table env cfg target then Ok (rest, changed)
              else if target \<noteq> key \<and> map_of rest target \<noteq> None then Err (rename_over key target)
              else Ok (im_insert target t' rest, changed))))"

definition rename_table ::
  "ddl_env \<Rightarrow> my_config \<Rightarrow> my_schema_map \<Rightarrow> table_key \<Rightarrow> table_key \<Rightarrow> (my_schema_map \<times> bool) result" where
  "rename_table env cfg schemas old new =
     (if \<not> tracks_table env cfg old then Ok (schemas, False)
      else
        rbind (ok_or (unknown_table old) (map_of schemas old)) (\<lambda>t.
          let rest = im_remove old schemas in
          if tracks_table env cfg new \<and> map_of rest new \<noteq> None then Err (rename_over old new)
          else
            (let t' = moved_table env new (sat_add (es_version (mts_event_schema t)) 1) t
             in Ok (if tracks_table env cfg new then im_insert new t' rest else rest, True))))"

fun drop_tables ::
  "ddl_env \<Rightarrow> my_config \<Rightarrow> my_schema_map \<Rightarrow> object_name list \<Rightarrow> bool \<Rightarrow> string \<Rightarrow> bool \<Rightarrow>
   (my_schema_map \<times> bool) result" where
  "drop_tables env cfg schemas [] if_exists current_database changed = Ok (schemas, changed)"
| "drop_tables env cfg schemas (n # ns) if_exists current_database changed =
     rbind (ddl_table_key n current_database) (\<lambda>key.
       if \<not> tracks_table env cfg key then drop_tables env cfg schemas ns if_exists current_database changed
       else if map_of schemas key = None \<and> \<not> if_exists then Err (unknown_table key)
       else drop_tables env cfg (im_remove key schemas) ns if_exists current_database
              (changed \<or> map_of schemas key \<noteq> None))"

fun rename_tables ::
  "ddl_env \<Rightarrow> my_config \<Rightarrow> my_schema_map \<Rightarrow> (object_name \<times> object_name) list \<Rightarrow> string \<Rightarrow> bool \<Rightarrow>
   (my_schema_map \<times> bool) result" where
  "rename_tables env cfg schemas [] current_database changed = Ok (schemas, changed)"
| "rename_tables env cfg schemas ((old, new) # rs) current_database changed =
     rbind (ddl_table_key old current_database) (\<lambda>old_key.
     rbind (ddl_table_key new current_database) (\<lambda>new_key.
     rbind (rename_table env cfg schemas old_key new_key) (\<lambda>(schemas', c).
       rename_tables env cfg schemas' rs current_database (changed \<or> c))))"

fun apply_statement ::
  "ddl_env \<Rightarrow> my_config \<Rightarrow> my_schema_map \<Rightarrow> ddl_statement \<Rightarrow> string \<Rightarrow> (my_schema_map \<times> bool) result" where
  "apply_statement env cfg schemas (CreateTable create) current_database =
     apply_create_table env cfg schemas create current_database"
| "apply_statement env cfg schemas (AlterTable name ops) current_database =
     apply_alter_table env cfg schemas name ops current_database"
| "apply_statement env cfg schemas (DropTables names if_exists) current_database =
     drop_tables env cfg schemas names if_exists current_database False"
| "apply_statement env cfg schemas (RenameTables renames) current_database =
     rename_tables env cfg schemas renames current_database False"
| "apply_statement env cfg schemas TruncateTable current_database = Ok (schemas, False)"
| "apply_statement env cfg schemas (OtherStatement s) current_database =
     Err (Source (''unsupported MySQL schema change statement: '' @ s))"

fun apply_statements ::
  "ddl_env \<Rightarrow> my_config \<Rightarrow> my_schema_map \<Rightarrow> ddl_statement list \<Rightarrow> string \<Rightarrow> bool \<Rightarrow>
   (my_schema_map \<times> bool) result" where
  "apply_statements env cfg schemas [] current_database changed = Ok (schemas, changed)"
| "apply_statements env cfg schemas (s # ss) current_database changed =
     rbind (apply_statement env cfg schemas s current_database) (\<lambda>(schemas', c).
       apply_statements env cfg schemas' ss current_database (changed \<or> c))"

definition renames_index :: "ddl_token list \<Rightarrow> bool" where
  "renames_index tokens =
     (case tokens of
        [TokWord r, TokWord i, TokWord _, TokWord t, TokWord _] \<Rightarrow>
          r = KwRename \<and> (i = KwIndex \<or> i = KwKey) \<and> t = KwTo
      | _ \<Rightarrow> False)"

definition is_standalone_rename_index_ddl :: "ddl_env \<Rightarrow> string \<Rightarrow> bool" where
  "is_standalone_rename_index_ddl env ddl =
     (case dd_tokenize env ddl of
        None \<Rightarrow> False
      | Some all \<Rightarrow>
          (let visible = filter (\<lambda>t. t \<noteq> TokWhitespace) all;
               tokens = (if visible \<noteq> [] \<and> last visible = TokSemiColon then butlast visible else visible)
           in case tokens of
                TokWord a # TokWord t # TokWord _ # rest \<Rightarrow>
                  a = KwAlter \<and> t = KwTable
                  \<and> (case rest of
                       TokPeriod # TokWord _ # others \<Rightarrow> renames_index others
                     | _ \<Rightarrow> renames_index rest)
              | _ \<Rightarrow> False))"

text \<open>The statements are applied to a copy; an error leaves the schemas as they are.\<close>

definition apply_ddl ::
  "ddl_env \<Rightarrow> my_config \<Rightarrow> string \<Rightarrow> string \<Rightarrow> (my_schema_map, bool) stateful" where
  "apply_ddl env cfg ddl current_database schemas =
     (if is_standalone_rename_index_ddl env ddl then (Ok False, schemas)
      else
        (case dd_parse env ddl of
           Inl msg \<Rightarrow> (Err (Source (''could not parse MySQL DDL '' @ debug_str ddl @ '': '' @ msg)), schemas)
         | Inr statements \<Rightarrow>
             (case apply_statements env cfg schemas statements current_database False of
                Inl e \<Rightarrow> (Err e, schemas)
              | Inr (staged, changed) \<Rightarrow> (Ok changed, staged))))"

section \<open>The history stays consistent\<close>

lemma tables_inv_insert:
  "tables_inv my_table_key m \<Longrightarrow> my_table_key t = k \<Longrightarrow> tables_inv my_table_key (im_insert k t m)"
proof (induction k t m rule: im_insert.induct)
  case (2 k v k' v' m)
  then show ?case by (auto simp: tables_inv_def im_inv_def list_all_iff)
qed (simp add: tables_inv_def im_inv_def)

lemma tables_inv_remove: "tables_inv key m \<Longrightarrow> tables_inv key (im_remove k m)"
  using set_im_remove_subset [of k m] by (auto simp: tables_inv_def list_all_iff)

lemma moved_table_key [simp]: "my_table_key (moved_table env key v t) = key"
  by (simp add: moved_table_def my_table_key_def)

lemma created_table_key:
  "created_table env schemas create db key = Ok t \<Longrightarrow> my_table_key t = key"
  by (auto simp: created_table_def rbind_Ok_iff my_table_key_def moved_table_def
      split: option.splits if_splits)

lemma alter_table_step:
  "alter_table env db (op # ops) key t = Ok r \<longleftrightarrow>
     (\<exists>cols. alter_fields key op (es_fields (mts_event_schema t)) = Ok cols
       \<and> (let t' = t\<lparr>mts_event_schema := (mts_event_schema t)\<lparr>es_fields := cols\<rparr>\<rparr> in
          case op of
            RenameTableTo name \<Rightarrow>
              (\<exists>target. ddl_table_key name db = Ok target
                \<and> alter_table env db ops target (moved_table env target (es_version (mts_event_schema t')) t') = Ok r)
          | _ \<Rightarrow> alter_table env db ops key t' = Ok r))"
  by (cases op) (auto simp: rbind_Ok_iff Let_def)

lemma alter_table_key:
  assumes "alter_table env db ops key t = Ok (key', t')" "my_table_key t = key"
  shows "my_table_key t' = key'"
  using assms
proof (induction ops arbitrary: key t)
  case (Cons op ops)
  have same: "my_table_key (t\<lparr>mts_event_schema := e\<rparr>) = key" for e
    using Cons.prems(2) by (simp add: my_table_key_def)
  show ?case
    using Cons.prems(1) unfolding alter_table_step Let_def
    by (cases op) (auto intro: Cons.IH [OF _ same] Cons.IH [OF _ moved_table_key])
qed simp

lemma drop_tables_inv:
  "drop_tables env cfg m names e db c = Ok (m', c') \<Longrightarrow> tables_inv my_table_key m \<Longrightarrow> tables_inv my_table_key m'"
  by (induction names arbitrary: m c)
     (auto simp: rbind_Ok_iff intro: tables_inv_remove split: if_splits)

lemma rename_table_inv:
  assumes "rename_table env cfg m old new = Ok (m', c)" "tables_inv my_table_key m"
  shows "tables_inv my_table_key m'"
  using assms tables_inv_remove [OF assms(2), of old]
  by (auto simp: rename_table_def rbind_Ok_iff Let_def intro: tables_inv_insert split: if_splits)

lemma rename_tables_inv:
  "rename_tables env cfg m rs db c = Ok (m', c') \<Longrightarrow> tables_inv my_table_key m \<Longrightarrow> tables_inv my_table_key m'"
proof (induction rs arbitrary: m c)
  case (Cons r rs)
  obtain old new where r: "r = (old, new)" by (cases r)
  with Cons.prems(1) obtain ok nk n d where "rename_table env cfg m ok nk = Ok (n, d)"
    "rename_tables env cfg n rs db (c \<or> d) = Ok (m', c')" by (auto simp: rbind_Ok_iff)
  with Cons.IH rename_table_inv Cons.prems(2) show ?case by blast
qed simp

lemma apply_alter_table_inv:
  assumes "apply_alter_table env cfg m name ops db = Ok (m', c)" "tables_inv my_table_key m"
  shows "tables_inv my_table_key m'"
proof -
  from assms(1) obtain key where key: "ddl_table_key name db = Ok key"
    by (auto simp: apply_alter_table_def rbind_Ok_iff)
  show ?thesis
  proof (cases "tracks_table env cfg key")
    case False
    with assms key show ?thesis by (simp add: apply_alter_table_def)
  next
    case True
    with assms(1) key obtain t target t' where t: "map_of m key = Some t"
      "alter_table env db ops key t = Ok (target, t')"
      by (auto simp: apply_alter_table_def rbind_Ok_iff)
    have "my_table_key t = key"
      using assms(2) map_of_SomeD [OF t(1)] by (auto simp: tables_inv_def list_all_iff)
    then have k: "my_table_key t' = target" by (rule alter_table_key [OF t(2)])
    then have "my_table_key (t'\<lparr>mts_event_schema := e\<rparr>) = target" for e by (simp add: my_table_key_def)
    with k tables_inv_remove [OF assms(2), of key] assms(1) key True t show ?thesis
      by (auto simp: apply_alter_table_def Let_def intro: tables_inv_insert split: if_splits)
  qed
qed

lemma apply_statement_inv:
  assumes "apply_statement env cfg m s db = Ok (m', c)" "tables_inv my_table_key m"
  shows "tables_inv my_table_key m'"
proof (cases s)
  case (CreateTable create)
  with assms show ?thesis
    by (auto simp: apply_create_table_def rbind_Ok_iff
        intro: tables_inv_insert dest: created_table_key split: if_splits)
next
  case (AlterTable name ops)
  with assms show ?thesis by (auto intro: apply_alter_table_inv)
next
  case (DropTables names if_exists)
  with assms show ?thesis by (auto intro: drop_tables_inv)
next
  case (RenameTables renames)
  with assms show ?thesis by (auto intro: rename_tables_inv)
qed (use assms in auto)

lemma apply_statements_inv:
  "apply_statements env cfg m ss db c = Ok (m', c') \<Longrightarrow> tables_inv my_table_key m \<Longrightarrow> tables_inv my_table_key m'"
proof (induction ss arbitrary: m c)
  case (Cons s ss)
  then obtain n d where "apply_statement env cfg m s db = Ok (n, d)"
    "apply_statements env cfg n ss db (c \<or> d) = Ok (m', c')" by (auto simp: rbind_Ok_iff)
  with Cons.IH apply_statement_inv Cons.prems(2) show ?case by blast
qed simp

lemma apply_ddl_inv:
  assumes "apply_ddl env cfg ddl db m = (r, m')" "tables_inv my_table_key m"
  shows "tables_inv my_table_key m' \<and> (is_ok r \<or> m' = m)"
  using assms apply_statements_inv [OF _ assms(2)]
  by (auto simp: apply_ddl_def split: if_splits sum.splits prod.splits)

text \<open>A history of statements, each with the database it was run in; one that fails is skipped.\<close>

definition apply_ddls :: "ddl_env \<Rightarrow> my_config \<Rightarrow> (string \<times> string) list \<Rightarrow> my_schema_map \<Rightarrow> my_schema_map" where
  "apply_ddls env cfg ddls m = fold (\<lambda>(ddl, db) m. snd (apply_ddl env cfg ddl db m)) ddls m"

lemma apply_ddls_inv:
  "tables_inv my_table_key m \<Longrightarrow> tables_inv my_table_key (apply_ddls env cfg ddls m)"
  unfolding apply_ddls_def
proof (induction ddls arbitrary: m)
  case (Cons d ddls)
  obtain ddl db where "d = (ddl, db)" by (cases d)
  moreover have "tables_inv my_table_key (snd (apply_ddl env cfg ddl db m))"
    using apply_ddl_inv [of env cfg ddl db m] Cons.prems by (metis prod.collapse)
  ultimately show ?case using Cons.IH by simp
qed simp

section \<open>Sample statements\<close>

definition sample_ddl_env :: ddl_env where
  "sample_ddl_env =
     \<lparr>dd_tokenize = (\<lambda>t. None),
      dd_parse = (\<lambda>t. if t = ''swap''
        then Inr [RenameTables
          [(\<lparr>on_parts = [Some ''orders''], on_text = ''orders''\<rparr>, \<lparr>on_parts = [Some ''_orders_del''], on_text = ''_orders_del''\<rparr>),
           (\<lparr>on_parts = [Some ''_orders_gho''], on_text = ''_orders_gho''\<rparr>, \<lparr>on_parts = [Some ''orders''], on_text = ''orders''\<rparr>)]]
        else Inl ''unexpected token''),
      dd_regex = (\<lambda>ci p. Some (\<lambda>t. anchored t = p)), dd_connector_name = ''c''\<rparr>"

definition sample_my_config :: my_config where
  "sample_my_config =
     \<lparr>myc_databases = [''shop''], myc_tables = \<lparr>ts_include = [''shop.orders''], ts_exclude = []\<rparr>,
      myc_signal_data_collection = None, myc_signal_enabled_channels = [], myc_gtid_source_includes = [],
      myc_gtid_source_excludes = [], myc_gtid_source_filter_dml_events = True,
      myc_schema_history_skip_unparseable_ddl = False, myc_incremental_snapshot_chunk_size = 2,
      myc_heartbeat_action_query = None\<rparr>"

definition sample_my_table :: "string \<Rightarrow> my_table_schema" where
  "sample_my_table t =
     \<lparr>mts_database = ''shop'', mts_table = t,
      mts_event_schema = \<lparr>es_name = ''c.shop.'' @ t @ ''.Envelope'', es_version = 1,
        es_fields = [\<lparr>fs_name = ''id'', fs_type_name = ''int'', fs_optional = False, fs_primary_key = True\<rparr>]\<rparr>\<rparr>"

lemma sample_tracks:
  "tracks_table sample_ddl_env sample_my_config (''shop'', ''orders'')"
  "\<not> tracks_table sample_ddl_env sample_my_config (''shop'', ''_orders_del'')"
  "\<not> tracks_table sample_ddl_env sample_my_config (''shop'', ''_orders_gho'')"
  by (simp_all add: tracks_table_def tracks_database_def sample_ddl_env_def sample_my_config_def table_includes_def
      regex_matches_def anchored_def)

text \<open>
  C33. The schemas survive a restart after any history of schema changes: whatever statements are applied,
  in whatever order, with whatever failures, the state that the connector puts into a checkpoint is decoded
  to the same schemas, the same progress and the same completed signals.
\<close>

theorem ddl_history_restored:
  assumes "tables_inv my_table_key m" "pred_option my_progress_wf progress"
  shows "\<exists>s. my_decode_connector_state json_error
        (my_encode_connector_state (apply_ddls env cfg ddls m) progress completed) = Ok s
     \<and> map_of (ycs_schemas s) = map_of (apply_ddls env cfg ddls m)
     \<and> ycs_incremental_snapshot s = progress \<and> ycs_completed_signal_ids s = completed"
proof -
  let ?s = "\<lparr>ycs_schemas = apply_ddls env cfg ddls m, ycs_incremental_snapshot = progress,
             ycs_completed_signal_ids = completed\<rparr>"
  have "my_state_wf ?s"
    using apply_ddls_inv [OF assms(1)] assms(2) by (simp add: my_state_wf_def)
  from my_decode_encode [OF this, of json_error] show ?thesis
    using map_of_sorted_tables [OF apply_ddls_inv [OF assms(1), of env cfg ddls]] by simp
qed

theorem ddl_history_restored_witness:
  "\<exists>s. my_decode_connector_state (\<lambda>j. [])
        (my_encode_connector_state
          (apply_ddls sample_ddl_env sample_my_config [(''swap'', ''shop'')] [((''shop'', ''orders''), sample_my_table ''orders'')])
          None [''done'']) = Ok s
     \<and> ycs_completed_signal_ids s = [''done'']"
proof -
  have "tables_inv my_table_key [((''shop'', ''orders''), sample_my_table ''orders'')]"
    by (simp add: tables_inv_def im_inv_def my_table_key_def sample_my_table_def)
  from ddl_history_restored [OF this, of None "\<lambda>j. []" sample_ddl_env sample_my_config
      "[(''swap'', ''shop'')]" "[''done'']"] show ?thesis by auto
qed

section \<open>Renaming\<close>

text \<open>
  C34. A migration that swaps a table with a copy (\<^verbatim>\<open>RENAME TABLE t TO old, copy TO t\<close>), as the common
  tools for online schema changes do it: when the copy is tracked, its schema becomes that of the table.
  When the table selection names only the table itself, the first rename drops its schema and the second is
  ignored, so that the table is unknown from then on, although it is selected.
\<close>

theorem table_swap_needs_tracked_copy:
  assumes "\<not> is_standalone_rename_index_ddl env ddl"
    and "dd_parse env ddl = Inr [RenameTables [(n, old_name), (copy_name, n)]]"
    and "ddl_table_key n db = Ok table" "ddl_table_key old_name db = Ok old" "ddl_table_key copy_name db = Ok copy"
    and "distinct [table, old, copy]" "tracks_table env cfg table" "\<not> tracks_table env cfg old"
    and "im_inv m" "map_of m table = Some t" "tracks_table env cfg copy \<longrightarrow> map_of m copy = Some c"
  shows "fst (apply_ddl env cfg ddl db m) = Ok True
    \<and> map_of (snd (apply_ddl env cfg ddl db m)) table =
        (if tracks_table env cfg copy
         then Some (moved_table env table (sat_add (es_version (mts_event_schema c)) 1) c) else None)"
proof -
  let ?m = "im_remove table m"
  have first: "rename_table env cfg m table old = Ok (?m, True)"
    using assms(7,8,10) by (simp add: rename_table_def Let_def)
  have gone: "map_of ?m table = None" "map_of ?m copy = map_of m copy" "im_inv ?m"
    using assms(6,9) by (auto simp: map_of_im_remove)
  show ?thesis
  proof (cases "tracks_table env cfg copy")
    case True
    then have "rename_table env cfg ?m copy table
        = Ok (im_insert table (moved_table env table (sat_add (es_version (mts_event_schema c)) 1) c)
            (im_remove copy ?m), True)"
      using assms(7,11) gone by (simp add: rename_table_def Let_def map_of_im_remove)
    with True first assms show ?thesis by (simp add: apply_ddl_def)
  next
    case False
    then have "rename_table env cfg ?m copy table = Ok (?m, False)" by (simp add: rename_table_def)
    with False first gone assms show ?thesis by (simp add: apply_ddl_def)
  qed
qed

theorem table_swap_needs_tracked_copy_witness:
  "fst (apply_ddl sample_ddl_env sample_my_config ''swap'' ''shop''
        [((''shop'', ''orders''), sample_my_table ''orders'')]) = Ok True
   \<and> map_of (snd (apply_ddl sample_ddl_env sample_my_config ''swap'' ''shop''
        [((''shop'', ''orders''), sample_my_table ''orders'')])) (''shop'', ''orders'') = None"
proof -
  let ?name = "\<lambda>t. \<lparr>on_parts = [Some t], on_text = t\<rparr>"
  have parse: "dd_parse sample_ddl_env ''swap'' = Inr [RenameTables [(?name ''orders'', ?name ''_orders_del''),
      (?name ''_orders_gho'', ?name ''orders'')]]"
    "\<not> is_standalone_rename_index_ddl sample_ddl_env ''swap''"
    by (simp_all add: sample_ddl_env_def is_standalone_rename_index_ddl_def)
  have key: "ddl_table_key (?name t) ''shop'' = Ok (''shop'', t)" for t
    by (simp add: ddl_table_key_def)
  from table_swap_needs_tracked_copy [OF parse(2,1) key key key _ sample_tracks(1,2),
      of "[((''shop'', ''orders''), sample_my_table ''orders'')]" "sample_my_table ''orders''"] sample_tracks(3)
  show ?thesis by (simp add: im_inv_def)
qed

section \<open>Labels\<close>

text \<open>Lowering a type name leaves its punctuation as it is.\<close>

lemma ascii_lower_eq:
  assumes "(of_char d :: nat) < 65"
  shows "ascii_lower c = d \<longleftrightarrow> c = d"
proof
  assume eq: "ascii_lower c = d"
  have "\<not> (65 \<le> (of_char c :: nat) \<and> (of_char c :: nat) \<le> 90)"
  proof
    assume "65 \<le> (of_char c :: nat) \<and> (of_char c :: nat) \<le> 90"
    then have "(of_char (ascii_lower c) :: nat) = of_char c + 32" by (simp add: ascii_lower_def Let_def)
    with eq assms \<open>65 \<le> (of_char c :: nat) \<and> (of_char c :: nat) \<le> 90\<close> show False by simp
  qed
  with eq show "c = d" by (simp add: ascii_lower_def Let_def split: if_splits)
qed (use assms in \<open>simp add: ascii_lower_def Let_def\<close>)

lemma ascii_lower_backslash [simp]: "ascii_lower c = CHR 0x5C \<longleftrightarrow> c = CHR 0x5C"
proof
  assume eq: "ascii_lower c = CHR 0x5C"
  show "c = CHR 0x5C"
  proof (cases "65 \<le> (of_char c :: nat) \<and> (of_char c :: nat) \<le> 90")
    case True
    then have "(of_char (ascii_lower c) :: nat) = of_char c + 32" by (simp add: ascii_lower_def Let_def)
    with eq True show ?thesis by simp
  qed (use eq in \<open>simp add: ascii_lower_def Let_def split: if_splits\<close>)
qed (simp add: ascii_lower_def Let_def)

lemma ascii_lower_punctuation [simp]:
  "ascii_lower c = CHR 0x27 \<longleftrightarrow> c = CHR 0x27"
  "ascii_lower c = CHR '','' \<longleftrightarrow> c = CHR '',''" "ascii_lower c = CHR ''('' \<longleftrightarrow> c = CHR ''(''"
  "ascii_lower c = CHR '')'' \<longleftrightarrow> c = CHR '')''" "my_ascii_ws (ascii_lower c) = my_ascii_ws c"
  by (simp_all add: ascii_lower_eq my_ascii_ws_def)

lemma ascii_lower_quote [simp]: "ascii_lower (CHR 0x27) = CHR 0x27"
  by (simp add: ascii_lower_eq)

lemma member_value_lower:
  "member_value (map ascii_lower s)
     = map_option (\<lambda>(v, rest). (map ascii_lower v, map ascii_lower rest)) (member_value s)"
proof (induction s rule: member_value.induct)
  case (2 c s)
  show ?case
  proof (cases "c = CHR 0x5C")
    case True
    with 2(1) show ?thesis
      by (cases s) (simp_all add: option.map_comp comp_def case_prod_beta)
  next
    case plain: False
    show ?thesis
    proof (cases "c = CHR 0x27")
      case True
      show ?thesis
      proof (cases s)
        case (Cons d r)
        with 2(2) [OF plain True Cons] True show ?thesis
          by (simp add: option.map_comp comp_def case_prod_beta ascii_lower_eq)
      qed (use True in simp)
    next
      case False
      with 2(3) [OF plain False] plain show ?thesis
        by (simp add: option.map_comp comp_def case_prod_beta)
    qed
  qed
qed simp

lemma member_list_lower:
  "member_list (map ascii_lower s) = map_option (map (map ascii_lower)) (member_list s)"
proof (induction s rule: member_list.induct)
  case (1 s)
  have ws: "dropWhile my_ascii_ws (map ascii_lower t) = map ascii_lower (dropWhile my_ascii_ws t)" for t
    by (simp add: dropWhile_map comp_def)
  show ?case
  proof (cases "dropWhile my_ascii_ws s")
    case Nil
    then show ?thesis by (simp only: member_list.simps [of s] member_list.simps [of "map ascii_lower s"] ws) simp
  next
    case (Cons q r)
    show ?thesis
    proof (cases "q = CHR 0x27 \<and> member_value r \<noteq> None")
      case False
      with Cons show ?thesis
        by (simp only: member_list.simps [of s] member_list.simps [of "map ascii_lower s"] ws)
          (auto simp: member_value_lower split: option.splits)
    next
      case True
      then obtain v t where v: "q = CHR 0x27" "member_value r = Some (v, t)" by auto
      show ?thesis
      proof (cases "dropWhile my_ascii_ws t")
        case Nil
        with Cons v show ?thesis
          by (simp only: member_list.simps [of s] member_list.simps [of "map ascii_lower s"] ws)
            (simp add: ws member_value_lower del: dropWhile_eq_Nil_conv)
      next
        case t: (Cons c u)
        show ?thesis
        proof (cases "c = CHR '',''")
          case True
          have "member_list (map ascii_lower u) = map_option (map (map ascii_lower)) (member_list u)"
            by (rule 1 [OF Cons _ v(2) refl t True]) (use v in simp)
          with True Cons v t show ?thesis
            by (simp only: member_list.simps [of s] member_list.simps [of "map ascii_lower s"] ws)
              (simp add: ws member_value_lower option.map_comp comp_def)
        next
          case False
          with Cons v t show ?thesis
            by (simp only: member_list.simps [of s] member_list.simps [of "map ascii_lower s"] ws)
            (simp add: ws member_value_lower del: dropWhile_eq_Nil_conv)
        qed
      qed
    qed
  qed
qed

lemma split_once_lower:
  "split_once CHR ''('' (map ascii_lower s)
     = map_option (\<lambda>(a, b). (map ascii_lower a, map ascii_lower b)) (split_once CHR ''('' s)"
  by (induction s) (auto simp: option.map_comp comp_def case_prod_beta)

lemma strip_close_lower:
  "strip_suffix '')'' (map ascii_lower s) = map_option (map ascii_lower) (strip_suffix '')'' s)"
  by (cases s rule: rev_cases) (auto simp: strip_suffix_def eq_commute [of "CHR '')''"])

lemma mysql_type_members_lower:
  "mysql_type_members (to_ascii_lowercase s) = map_option (map to_ascii_lowercase) (mysql_type_members s)"
  by (cases "split_once CHR ''('' s"; cases "strip_suffix '')'' (snd (the (split_once CHR ''('' s)))")
     (auto simp: mysql_type_members_def to_ascii_lowercase_def [abs_def] split_once_lower strip_close_lower
       member_list_lower split: prod.splits)

text \<open>
  C35. A column that a schema change adds loses the case of its labels: the type name is lowered as a whole,
  and an enumeration value is delivered as the member of its number in lower case, where the initial
  snapshot and the schemas it reads keep the case that the server stores.
\<close>

theorem ddl_lowers_enum_labels:
  assumes "mysql_type_members s = Some ms" "my_base_type (to_ascii_lowercase s) = ''enum''"
    and "alter_fields key (AddColumn False \<lparr>cd_name = n, cd_data_type = TypeText s, cd_options = opts\<rparr> None) cols
      = Ok cols'"
    and "1 \<le> i" "i \<le> length ms" "i < 2 ^ 63"
  shows "cols' \<noteq> [] \<and> fs_name (last cols') = n
    \<and> my_convert_value env (MvInt (of_nat i)) (fs_type_name (last cols'))
        = DvString (to_ascii_lowercase (ms ! (i - 1)))"
proof -
  have last: "fs_name (last cols') = n \<and> fs_type_name (last cols') = to_ascii_lowercase s \<and> cols' \<noteq> []"
    using assms(3) by (auto simp: alter_fields_def field_from_column_def_def field_from_parts_def rbind_Ok_iff
        ddl_type_name_def insert_field_def insert_at_def Let_def split: prod.splits if_splits)
  have "unat (of_nat i :: u64) = i" "sint (of_nat i :: u64) = int i" "(of_nat i :: u64) \<noteq> 0" "i - 1 < length ms"
    using assms(4-6) by (simp_all add: unsigned_of_nat take_bit_nat_eq_self signed_of_nat
        signed_take_bit_int_eq_self word_unat_eq_iff)
  then have "my_convert_value env (MvInt (of_nat i)) (to_ascii_lowercase s) = DvString (to_ascii_lowercase (ms ! (i - 1)))"
    using assms(1,2) mysql_type_members_lower [of s]
    by (simp add: mysql_enum_label_def non_negative_def)
  with last show ?thesis by (simp del: my_convert_value.simps)
qed

theorem ddl_lowers_enum_labels_witness:
  "\<exists>f. alter_fields (''shop'', ''orders'')
      (AddColumn False \<lparr>cd_name = ''state'', cd_data_type = TypeText (print_members ''enum'' [''Open'', ''Closed'']), cd_options = []\<rparr> None) []
      = Ok [f]
    \<and> (\<forall>env. my_convert_value env (MvInt 1) (fs_type_name f) = DvString ''open'')"
proof -
  let ?s = "print_members ''enum'' [''Open'', ''Closed'']"
  let ?op = "AddColumn False \<lparr>cd_name = ''state'', cd_data_type = TypeText ?s, cd_options = []\<rparr> None"
  let ?f = "\<lparr>fs_name = ''state'', fs_type_name = to_ascii_lowercase ?s, fs_optional = True, fs_primary_key = False\<rparr>"
  have run: "alter_fields (''shop'', ''orders'') ?op [] = Ok [?f]"
    by (simp add: alter_fields_def field_from_column_def_def field_from_parts_def ddl_type_name_def column_flags_def
        insert_field_def insert_at_def)
  have members: "mysql_type_members ?s = Some [''Open'', ''Closed'']" by (rule mysql_type_members_print) simp_all
  have base: "my_base_type (to_ascii_lowercase ?s) = ''enum''"
    by (simp add: my_base_type_def print_members_def to_ascii_lowercase_def ascii_lower_def trim_def utf8_cont_def
        ws_chunk_def is_whitespace_def split: list.splits)
  have "my_convert_value env (MvInt (of_nat 1)) (fs_type_name (last [?f])) = DvString (to_ascii_lowercase ([''Open'', ''Closed''] ! (1 - 1)))" for env
    using ddl_lowers_enum_labels [OF members base run, of 1 env] by (simp del: my_convert_value.simps)
  moreover have "to_ascii_lowercase ''Open'' = ''open''" by code_simp
  ultimately show ?thesis by (intro exI [of _ ?f] conjI run) (simp del: my_convert_value.simps)
qed

end
