(* ===== verification/My_Stream.thy ===== *)
theory My_Stream
  imports My_Ddl
begin

text \<open>
  The stream of the MySQL binary log (\<^verbatim>\<open>StreamingState\<close> of \<^verbatim>\<open>crates/rustium-mysql/src/source.rs\<close>): positions,
  transactions and the conversion of each event into records, and the filter of GTID sources. The events
  are what the client library hands over; a row event comes with the name that the library's cache of table
  maps gives for its table.
\<close>

section \<open>Events, environment and state\<close>

datatype rows_kind =
    WriteRowsV1
  | WriteRows
  | UpdateRowsV1
  | UpdateRows
  | PartialUpdateRows
  | DeleteRowsV1
  | DeleteRows

text \<open>The pairs of row images; a pair the library cannot read is an error text.\<close>

record rows_event =
  re_kind :: rows_kind
  re_table_id :: u64
  re_table :: "table_key option"
  re_pairs :: "(string + binlog_row option \<times> binlog_row option) list"

record gtid_event =
  ge_sid :: "u8 list"
  ge_gno :: u64
  ge_tag :: "string option"

datatype binlog_data =
    RotateData string
  | TableMapData u64
  | GtidData gtid_event
  | RowsData rows_event
  | XidData u64
  | QueryData string string
  | OtherData

record binlog_event =
  be_log_pos :: u32
  be_event_size :: u32
  be_timestamp :: u32
  be_server_id :: u32
  be_data :: "string + binlog_data option"

record my_env =
  me_values :: my_value_env
  me_ddl :: ddl_env
  me_regex :: regex_engine
  me_regex_error :: "string \<Rightarrow> string"
  me_digests :: digests
  me_sha256 :: "u8 list \<Rightarrow> u8 list"
  me_hex :: "u8 list \<Rightarrow> string"
  me_to_vec :: "source_position \<Rightarrow> u8 list"
  me_uuid_text :: "u8 list \<Rightarrow> string"
  me_parse_sid :: "string \<Rightarrow> string + u8 list"
  me_version :: string
  me_connector_name :: string
  me_transformer :: column_transformer

record my_transaction =
  myt_id :: string
  myt_source_time :: "instant option"
  myt_total_order :: u64
  myt_collection_order :: "(table_key \<times> u64) list"
  myt_ignore_dml :: bool

record my_stream =
  mst_filename :: string
  mst_schemas :: my_schema_map
  mst_anchors :: "(u64 \<times> u64) list"
  mst_transaction :: "my_transaction option"
  mst_previous :: "(string \<times> u64) option"
  mst_event_serial :: u64
  mst_resume :: "source_position option"

record binlog_coordinates =
  bl_filename :: string
  bl_position :: u64
  bl_gtid_set :: "string option"
  bl_gtid_set_is_complete :: bool
  bl_source_server_id :: u32

section \<open>Sources of transactions\<close>

record gtid_source_filter =
  gf_patterns :: "(string \<Rightarrow> bool) list"
  gf_include :: bool

definition gtid_pattern :: "string \<Rightarrow> string" where
  "gtid_pattern p = [CHR 0x5C, CHR ''A''] @ ''(?:'' @ p @ '')'' @ [CHR 0x5C, CHR ''z'']"

definition gtid_filter_from_config :: "my_env \<Rightarrow> my_config \<Rightarrow> gtid_source_filter option result" where
  "gtid_filter_from_config env cfg =
     (let compile = (\<lambda>p. ok_or (Configuration (''invalid MySQL GTID source filter '' @ debug_str p @ '': ''
                                    @ me_regex_error env p)) (me_regex env True (gtid_pattern p)))
      in if myc_gtid_source_includes cfg \<noteq> []
         then rbind (collect_results compile (myc_gtid_source_includes cfg))
                (\<lambda>ps. Ok (Some \<lparr>gf_patterns = ps, gf_include = True\<rparr>))
         else if myc_gtid_source_excludes cfg \<noteq> []
         then rbind (collect_results compile (myc_gtid_source_excludes cfg))
                (\<lambda>ps. Ok (Some \<lparr>gf_patterns = ps, gf_include = False\<rparr>))
         else Ok None)"

definition gtid_matches :: "gtid_source_filter \<Rightarrow> string \<Rightarrow> bool" where
  "gtid_matches f source_uuid =
     (let matched = list_ex (\<lambda>m. m source_uuid) (gf_patterns f)
      in if gf_include f then matched else \<not> matched)"

text \<open>The entries of an executed set whose source the filter matches, each with its source.\<close>

definition filter_sids :: "my_env \<Rightarrow> gtid_source_filter \<Rightarrow> string \<Rightarrow> (string \<times> u8 list) list result" where
  "filter_sids env f gtid_set =
     rbind (collect_results (\<lambda>entry.
              case me_parse_sid env (trim entry) of
                Inl msg \<Rightarrow> Err (Source (''invalid MySQL gtid_executed entry '' @ debug_str entry @ '': '' @ msg))
              | Inr uuid \<Rightarrow> Ok (trim entry, uuid))
            (filter (\<lambda>e. trim e \<noteq> []) (split_on (\<lambda>c. c = CHR '','') gtid_set)))
       (\<lambda>sids. Ok (filter (\<lambda>(_, uuid). gtid_matches f (me_uuid_text env uuid)) sids))"

section \<open>Positions\<close>

definition mysql_source_position ::
  "string \<Rightarrow> u64 \<Rightarrow> string option \<Rightarrow> u32 \<Rightarrow> u64 \<Rightarrow> bool \<Rightarrow> source_position" where
  "mysql_source_position filename position gtid_set server_id event_serial snapshot =
     MySql \<lparr>my_binlog_filename = filename, my_binlog_position = position, my_gtid_set = gtid_set,
            my_server_id = server_id, my_event_serial = event_serial, my_snapshot = snapshot\<rparr>"

definition my_source_metadata ::
  "my_env \<Rightarrow> string \<Rightarrow> string \<Rightarrow> bool \<Rightarrow> u32 \<Rightarrow> source_metadata" where
  "my_source_metadata env database table snapshot server_id =
     \<lparr>sm_connector = ''mysql'', sm_connector_name = me_connector_name env, sm_database = database,
      sm_schema = None, sm_table = Some table, sm_snapshot = snapshot, sm_version = me_version env,
      sm_attributes = [(''server_id'', json_uint server_id)]\<rparr>"

definition mysql_source_time :: "u32 \<Rightarrow> instant option" where
  "mysql_source_time ts = (if ts = 0 then None else Some (int (unat ts) * 1000000000))"

definition my_event_id :: "my_env \<Rightarrow> string \<Rightarrow> source_position \<Rightarrow> string \<Rightarrow> u64 \<Rightarrow> event_id" where
  "my_event_id env database position coll ordinal =
     deterministic (me_sha256 env) (me_hex env) (me_to_vec env) (me_connector_name env) database position
       coll ordinal"

definition my_transaction_new :: "string \<Rightarrow> instant option \<Rightarrow> bool \<Rightarrow> my_transaction" where
  "my_transaction_new i time ignore_dml =
     \<lparr>myt_id = i, myt_source_time = time, myt_total_order = 0, myt_collection_order = [],
      myt_ignore_dml = ignore_dml\<rparr>"

definition transaction_from_resume :: "source_position option \<Rightarrow> my_transaction option" where
  "transaction_from_resume resume =
     (case resume of
        Some (MySql p) \<Rightarrow>
          if my_snapshot p then None
          else map_option (\<lambda>gtid. my_transaction_new gtid None False) (my_gtid_set p)
      | _ \<Rightarrow> None)"

definition binlog_coordinates_from_position :: "source_position \<Rightarrow> binlog_coordinates option" where
  "binlog_coordinates_from_position position =
     (case position of
        MySql p \<Rightarrow>
          Some \<lparr>bl_filename = my_binlog_filename p, bl_position = my_binlog_position p,
                bl_gtid_set = my_gtid_set p, bl_gtid_set_is_complete = my_snapshot p,
                bl_source_server_id = my_server_id p\<rparr>
      | _ \<Rightarrow> None)"

definition my_stream_new :: "string \<Rightarrow> my_schema_map \<Rightarrow> source_position option \<Rightarrow> my_stream" where
  "my_stream_new filename schemas resume =
     \<lparr>mst_filename = filename, mst_schemas = schemas, mst_anchors = [],
      mst_transaction = transaction_from_resume resume, mst_previous = None, mst_event_serial = 0,
      mst_resume = resume\<rparr>"

definition my_rewind :: "binlog_coordinates \<Rightarrow> source_position option \<Rightarrow> my_stream \<Rightarrow> my_stream" where
  "my_rewind coordinates resume st =
     st\<lparr>mst_filename := bl_filename coordinates, mst_anchors := [],
        mst_transaction := transaction_from_resume resume, mst_previous := None, mst_event_serial := 0,
        mst_resume := resume\<rparr>"

definition my_rotate :: "string \<Rightarrow> my_stream \<Rightarrow> my_stream" where
  "my_rotate filename st =
     st\<lparr>mst_filename := filename, mst_anchors := [], mst_previous := None, mst_event_serial := 0\<rparr>"

definition register_table_map :: "u64 \<Rightarrow> u64 \<Rightarrow> my_stream \<Rightarrow> my_stream" where
  "register_table_map table_id event_start st =
     st\<lparr>mst_anchors := im_insert table_id event_start (mst_anchors st)\<rparr>"

definition begin_gtid :: "my_env \<Rightarrow> gtid_event \<Rightarrow> instant option \<Rightarrow> bool \<Rightarrow> my_stream \<Rightarrow> my_stream" where
  "begin_gtid env e source_time ignore_dml st =
     (let sid = me_uuid_text env (ge_sid e);
          i = (case ge_tag e of
                 None \<Rightarrow> sid @ '':'' @ show_word (ge_gno e)
               | Some tag \<Rightarrow> sid @ '':'' @ tag @ '':'' @ show_word (ge_gno e))
      in st\<lparr>mst_transaction := Some (my_transaction_new i source_time ignore_dml)\<rparr>)"

definition my_next_serial :: "u64 \<Rightarrow> my_stream \<Rightarrow> u64 \<times> my_stream" where
  "my_next_serial position st =
     (let key = (mst_filename st, position);
          st' = (if mst_previous st = Some key
                 then st\<lparr>mst_event_serial := mst_event_serial st + 1\<rparr>
                 else st\<lparr>mst_previous := Some key, mst_event_serial := 1\<rparr>)
      in (mst_event_serial st', st'))"

definition my_should_skip :: "source_position \<Rightarrow> my_stream \<Rightarrow> bool \<times> my_stream" where
  "my_should_skip position st =
     (case mst_resume st of
        None \<Rightarrow> (False, st)
      | Some resume \<Rightarrow>
          if is_at_or_before position resume then (True, st) else (False, st\<lparr>mst_resume := None\<rparr>))"

section \<open>Tables\<close>

definition signal_table_key :: "my_config \<Rightarrow> table_key option" where
  "signal_table_key cfg =
     Option.bind (myc_signal_data_collection cfg) (\<lambda>c.
     Option.bind (split_once CHR ''.'' (trim c)) (\<lambda>(database, table).
       if database = [] \<or> table = [] then None else Some (database, table)))"

definition is_business_table :: "regex_engine \<Rightarrow> my_config \<Rightarrow> table_key \<Rightarrow> bool" where
  "is_business_table build cfg key \<longleftrightarrow>
     table_includes build (myc_tables cfg) (fst key) (snd key)
     \<and> (myc_databases cfg = [] \<or> fst key \<in> set (myc_databases cfg))
     \<and> signal_table_key cfg \<noteq> Some key"

definition my_signal_channel_enabled :: "my_config \<Rightarrow> string \<Rightarrow> bool" where
  "my_signal_channel_enabled cfg channel \<longleftrightarrow> channel \<in> set (myc_signal_enabled_channels cfg)"

definition my_signal_text_type :: "string \<Rightarrow> bool" where
  "my_signal_text_type type_name =
     (my_base_type (to_ascii_lowercase type_name)
      \<in> {''char'', ''varchar'', ''tinytext'', ''text'', ''mediumtext'', ''longtext''})"

definition validate_signal_schema :: "my_table_schema \<Rightarrow> unit result" where
  "validate_signal_schema t =
     (let cols = es_fields (mts_event_schema t); expected = [''id'', ''type'', ''data''] in
      if length cols \<noteq> length expected
         \<or> list_ex (\<lambda>(f, e). to_ascii_lowercase (fs_name f) \<noteq> e \<or> \<not> my_signal_text_type (fs_type_name f))
             (zip cols expected)
      then Err (Configuration (''MySQL signal table '' @ mts_database t @ ''.'' @ mts_table t
             @ '' must contain exactly text-compatible id, type, and data columns in that order''))
      else Ok ())"

definition is_schema_change :: "string \<Rightarrow> bool" where
  "is_schema_change query =
     (let q = to_ascii_uppercase (trim_start query)
      in list_ex (\<lambda>p. prefix p q)
           [''ALTER TABLE'', ''CREATE TABLE'', ''DROP TABLE'', ''RENAME TABLE'', ''TRUNCATE TABLE''])"

definition rows_operation :: "rows_kind \<Rightarrow> operation" where
  "rows_operation k =
     (case k of
        WriteRowsV1 \<Rightarrow> Create | WriteRows \<Rightarrow> Create
      | UpdateRowsV1 \<Rightarrow> Update | UpdateRows \<Rightarrow> Update | PartialUpdateRows \<Rightarrow> Update
      | DeleteRowsV1 \<Rightarrow> Delete | DeleteRows \<Rightarrow> Delete)"

section \<open>Records\<close>

definition my_transform_event ::
  "digests \<Rightarrow> column_transformer \<Rightarrow> my_table_schema \<Rightarrow> change_event \<Rightarrow> change_event" where
  "my_transform_event D transformer t e = transform_event D transformer (mts_database t) (mts_table t) [] e"

definition my_transform_row :: "digests \<Rightarrow> column_transformer \<Rightarrow> my_table_schema \<Rightarrow> row \<Rightarrow> row" where
  "my_transform_row D transformer t r =
     transform_row D transformer (mts_database t) (mts_table t) (mts_event_schema t) [] r"

text \<open>The next place in the open transaction, over all and within one table.\<close>

definition my_count_record :: "table_key \<Rightarrow> my_stream \<Rightarrow> transaction_metadata option \<times> my_stream" where
  "my_count_record key st =
     (case mst_transaction st of
        None \<Rightarrow> (None, st)
      | Some t \<Rightarrow>
          (let total = myt_total_order t + 1;
               order = (case map_of (myt_collection_order t) key of None \<Rightarrow> 0 | Some n \<Rightarrow> n) + 1
           in (Some \<lparr>tx_id = myt_id t, tx_total_order = Some total, tx_collection_order = Some order\<rparr>,
               st\<lparr>mst_transaction := Some (t\<lparr>myt_total_order := total,
                    myt_collection_order := im_insert key order (myt_collection_order t)\<rparr>)\<rparr>)))"

definition my_row_images ::
  "my_env \<Rightarrow> event_schema \<Rightarrow> binlog_row option \<times> binlog_row option \<Rightarrow> row option \<times> row option" where
  "my_row_images env schema images =
     (let before = map_option (\<lambda>r. convert_binlog_row (me_values env) r schema None) (fst images);
          after = map_option (\<lambda>r. convert_binlog_row (me_values env) r schema before) (snd images);
          before' = map_option (my_fill_unavailable None schema) before
      in (before', map_option (my_fill_unavailable before' schema) after))"

definition my_row_event ::
  "my_env \<Rightarrow> instant \<Rightarrow> my_table_schema \<Rightarrow> table_key \<Rightarrow> operation \<Rightarrow> u32 \<Rightarrow>
   binlog_row option \<times> binlog_row option \<Rightarrow> source_position \<Rightarrow> u64 \<Rightarrow> transaction_metadata option \<Rightarrow>
   instant option \<Rightarrow> change_event" where
  "my_row_event env now schema key op server_id images position serial transaction source_time =
     (let (before, after) = my_row_images env (mts_event_schema schema) images in
      my_transform_event (me_digests env) (me_transformer env) schema
        \<lparr>ev_id = my_event_id env (fst key) position (fst key @ ''.'' @ snd key) serial,
         ev_source = my_source_metadata env (fst key) (snd key) False server_id,
         ev_position = position, ev_transaction = transaction, ev_operation = op, ev_before = before,
         ev_after = after, ev_schema = mts_event_schema schema, ev_source_time = source_time,
         ev_observed_time = now\<rparr>)"

definition my_row_record ::
  "my_env \<Rightarrow> instant \<Rightarrow> my_table_schema \<Rightarrow> table_key \<Rightarrow> operation \<Rightarrow> u64 \<Rightarrow> u32 \<Rightarrow> instant option \<Rightarrow>
   string + binlog_row option \<times> binlog_row option \<Rightarrow> (my_stream, source_record option) stateful" where
  "my_row_record env now schema key op anchor server_id source_time pair st =
     (case pair of
        Inl msg \<Rightarrow> (Err (Source msg), st)
      | Inr images \<Rightarrow>
          (let (serial, st) = my_next_serial anchor st;
               position = mysql_source_position (mst_filename st) anchor
                            (map_option myt_id (mst_transaction st)) server_id serial False;
               (transaction, st) = my_count_record key st;
               time = (case Option.bind (mst_transaction st) myt_source_time of
                         None \<Rightarrow> source_time | Some t \<Rightarrow> Some t);
               (skip, st) = my_should_skip position st
           in (Ok (if skip then None
                   else Some (record_data (my_row_event env now schema key op server_id images position
                          serial transaction time))), st)))"

definition unknown_stream_table :: "table_key \<Rightarrow> rust_error" where
  "unknown_stream_table key =
     Source (''received an event for unknown MySQL table '' @ fst key @ ''.'' @ snd key)"

definition ensure_transaction :: "string \<Rightarrow> instant option \<Rightarrow> my_stream \<Rightarrow> my_stream" where
  "ensure_transaction i source_time st =
     (let t = (case mst_transaction st of None \<Rightarrow> my_transaction_new i source_time False | Some t \<Rightarrow> t)
      in st\<lparr>mst_transaction := Some (if myt_source_time t = None then t\<lparr>myt_source_time := source_time\<rparr>
                                     else t)\<rparr>)"

definition fallback_transaction_id :: "my_stream \<Rightarrow> u64 \<Rightarrow> string" where
  "fallback_transaction_id st position = mst_filename st @ '':'' @ show_word position"

fun emitted :: "'a option list \<Rightarrow> 'a list" where
  "emitted [] = []"
| "emitted (None # xs) = emitted xs"
| "emitted (Some x # xs) = x # emitted xs"

definition convert_rows ::
  "my_env \<Rightarrow> my_config \<Rightarrow> instant \<Rightarrow> rows_event \<Rightarrow> table_key \<Rightarrow> u64 \<Rightarrow> u32 \<Rightarrow> instant option \<Rightarrow>
   (my_stream, source_record list) stateful" where
  "convert_rows env cfg now rows key event_start server_id source_time st =
     (if \<not> is_business_table (me_regex env) cfg key then (Ok [], st)
      else if (case mst_transaction st of None \<Rightarrow> False | Some t \<Rightarrow> myt_ignore_dml t) then (Ok [], st)
      else
        (case map_of (mst_schemas st) key of
           None \<Rightarrow> (Err (unknown_stream_table key), st)
         | Some schema \<Rightarrow>
             (let anchor = (case map_of (mst_anchors st) (re_table_id rows) of
                              None \<Rightarrow> event_start | Some a \<Rightarrow> a)
              in sbind (scollect (my_row_record env now schema key (rows_operation (re_kind rows)) anchor
                                    server_id source_time) (re_pairs rows))
                   (\<lambda>rs. sreturn (emitted rs))
                   (ensure_transaction (fallback_transaction_id st anchor) source_time st))))"

definition my_boundary_record :: "source_position \<Rightarrow> source_record" where
  "my_boundary_record position =
     \<lparr>sr_event = None, sr_position = position, sr_boundary = TransactionCommit, sr_connector_state = None,
      sr_signal_acks = []\<rparr>"

definition my_commit_record ::
  "u64 \<Rightarrow> u32 \<Rightarrow> string option \<Rightarrow> my_stream \<Rightarrow> source_record option \<times> my_stream" where
  "my_commit_record event_start server_id fallback_id st =
     (let gtid = (case map_option myt_id (mst_transaction st) of None \<Rightarrow> fallback_id | Some i \<Rightarrow> Some i);
          (serial, st) = my_next_serial event_start st;
          position = mysql_source_position (mst_filename st) event_start gtid server_id serial False;
          (skip, st) = my_should_skip position (st\<lparr>mst_transaction := None\<rparr>)
      in (if skip then None else Some (my_boundary_record position), st))"

definition handle_query ::
  "string \<Rightarrow> u64 \<Rightarrow> u32 \<Rightarrow> instant option \<Rightarrow> my_stream \<Rightarrow> source_record option \<times> my_stream" where
  "handle_query query event_start server_id source_time st =
     (let normalized = to_ascii_uppercase (trim_end_matches (CHR '';'') (trim query)) in
      if normalized = ''BEGIN'' \<or> normalized = ''START TRANSACTION''
      then (None, ensure_transaction (fallback_transaction_id st event_start) source_time st)
      else if normalized = ''ROLLBACK'' then (None, st\<lparr>mst_transaction := None\<rparr>)
      else if normalized = ''COMMIT'' \<or> is_schema_change query
      then my_commit_record event_start server_id None st
      else (None, st))"

section \<open>Events\<close>

definition event_start :: "binlog_event \<Rightarrow> u64" where
  "event_start e =
     (let end_pos = ucast (be_log_pos e); size = ucast (be_event_size e)
      in if end_pos < size then 0 else end_pos - size)"

definition missing_table_map :: "my_stream \<Rightarrow> rows_event \<Rightarrow> u64 \<Rightarrow> rust_error" where
  "missing_table_map st rows start =
     Source (''missing TABLE_MAP_EVENT for MySQL table id '' @ show_word (re_table_id rows) @ '' at ''
       @ mst_filename st @ '':'' @ show_word start)"

definition ignores_dml :: "my_env \<Rightarrow> my_config \<Rightarrow> gtid_source_filter option \<Rightarrow> gtid_event \<Rightarrow> bool" where
  "ignores_dml env cfg filt e \<longleftrightarrow>
     myc_gtid_source_filter_dml_events cfg
     \<and> (case filt of None \<Rightarrow> False | Some f \<Rightarrow> \<not> gtid_matches f (me_uuid_text env (ge_sid e)))"

text \<open>The records of an event, apart from signals, the incremental snapshot and schema changes.\<close>

definition stream_data ::
  "my_env \<Rightarrow> my_config \<Rightarrow> gtid_source_filter option \<Rightarrow> instant \<Rightarrow> binlog_event \<Rightarrow> binlog_data \<Rightarrow>
   (my_stream, source_record list) stateful" where
  "stream_data env cfg filt now e data st =
     (let start = event_start e; time = mysql_source_time (be_timestamp e); server = be_server_id e in
      case data of
        RotateData filename \<Rightarrow> (Ok [], my_rotate filename st)
      | TableMapData table_id \<Rightarrow> (Ok [], register_table_map table_id start st)
      | GtidData g \<Rightarrow> (Ok [], begin_gtid env g time (ignores_dml env cfg filt g) st)
      | RowsData rows \<Rightarrow>
          (case re_table rows of
             None \<Rightarrow> (Err (missing_table_map st rows start), st)
           | Some key \<Rightarrow> convert_rows env cfg now rows key start server time st)
      | XidData xid \<Rightarrow>
          (let (r, st) = my_commit_record start server (Some (show_word xid)) st
           in (Ok (case r of None \<Rightarrow> [] | Some x \<Rightarrow> [x]), st))
      | QueryData query database \<Rightarrow>
          (let (r, st) = handle_query query start server time st
           in (Ok (case r of None \<Rightarrow> [] | Some x \<Rightarrow> [x]), st))
      | OtherData \<Rightarrow> (Ok [], st))"

definition stream_event ::
  "my_env \<Rightarrow> my_config \<Rightarrow> gtid_source_filter option \<Rightarrow> instant \<Rightarrow> binlog_event \<Rightarrow>
   (my_stream, source_record list) stateful" where
  "stream_event env cfg filt now e st =
     (case be_data e of
        Inl msg \<Rightarrow> (Err (Source msg), st)
      | Inr None \<Rightarrow> (Ok [], st)
      | Inr (Some data) \<Rightarrow> stream_data env cfg filt now e data st)"

text \<open>The records of a run over a list of events; the clock gives the time when each event arrives.\<close>

fun stream_all ::
  "my_env \<Rightarrow> my_config \<Rightarrow> gtid_source_filter option \<Rightarrow> (nat \<Rightarrow> instant) \<Rightarrow> binlog_event list \<Rightarrow>
   (my_stream, source_record list) stateful" where
  "stream_all env cfg filt clock [] = sreturn []"
| "stream_all env cfg filt clock (e # es) =
     sbind (stream_event env cfg filt (clock (length es)) e) (\<lambda>rs.
     sbind (stream_all env cfg filt clock es) (\<lambda>ss. sreturn (rs @ ss)))"

section \<open>A run and its repetition\<close>

text \<open>
  What a repetition of the stream reproduces of a record: everything but the times and the place in the
  transaction, which a run that starts inside a transaction cannot know.
\<close>

definition event_core :: "change_event \<Rightarrow> change_event" where
  "event_core e = e\<lparr>ev_transaction := None, ev_source_time := None, ev_observed_time := 0\<rparr>"

definition record_core :: "source_record \<Rightarrow> source_record" where
  "record_core r = r\<lparr>sr_event := map_option event_core (sr_event r)\<rparr>"

definition passed :: "source_position option \<Rightarrow> source_record list \<Rightarrow> source_record list" where
  "passed res rs =
     (case res of None \<Rightarrow> rs | Some p \<Rightarrow> dropWhile (\<lambda>r. is_at_or_before (sr_position r) p) rs)"

definition resume_after :: "source_position option \<Rightarrow> source_record list \<Rightarrow> source_position option" where
  "resume_after res rs =
     (case res of
        None \<Rightarrow> None
      | Some p \<Rightarrow> if list_all (\<lambda>r. is_at_or_before (sr_position r) p) rs then Some p else None)"

lemma passed_append: "passed res (rs @ ss) = passed res rs @ passed (resume_after res rs) ss"
  by (induction rs) (auto simp: passed_def resume_after_def split: option.splits)

lemma resume_after_append: "resume_after res (rs @ ss) = resume_after (resume_after res rs) ss"
  by (auto simp: resume_after_def split: option.splits)

lemma passed_Nil [simp]: "passed res [] = []" "resume_after res [] = res"
  by (auto simp: passed_def resume_after_def split: option.splits)

definition same_transaction :: "my_transaction option \<Rightarrow> my_transaction option \<Rightarrow> bool" where
  "same_transaction t t' \<longleftrightarrow>
     map_option (\<lambda>t. (myt_id t, myt_ignore_dml t)) t = map_option (\<lambda>t. (myt_id t, myt_ignore_dml t)) t'"

definition same_serial :: "u64 set \<Rightarrow> my_stream \<Rightarrow> my_stream \<Rightarrow> bool" where
  "same_serial S st st' \<longleftrightarrow>
     mst_previous st = mst_previous st' \<and> mst_event_serial st = mst_event_serial st'
     \<or> mst_previous st' = None \<and> (\<forall>q\<in>S. mst_previous st \<noteq> Some (mst_filename st, q))"

text \<open>
  The state of a run and of its repetition, which began later with the events at the positions \<open>S\<close>: they
  agree but for the resume position, the counts of the transaction, and the table maps from before.
\<close>

definition repeats :: "u64 set \<Rightarrow> my_stream \<Rightarrow> my_stream \<Rightarrow> bool" where
  "repeats S st st' \<longleftrightarrow>
     mst_filename st = mst_filename st' \<and> mst_schemas st = mst_schemas st'
     \<and> map_of (mst_anchors st') \<subseteq>\<^sub>m map_of (mst_anchors st) \<and> ran (map_of (mst_anchors st')) \<subseteq> S
     \<and> same_transaction (mst_transaction st) (mst_transaction st') \<and> same_serial S st st'
     \<and> mst_resume st = None"

definition repeated ::
  "u64 set \<Rightarrow> (my_stream, source_record list) stateful \<Rightarrow> (my_stream, source_record list) stateful \<Rightarrow> bool" where
  "repeated S f f' \<longleftrightarrow>
     (\<forall>st st' rs t. repeats S st st' \<longrightarrow> f st = (Ok rs, t) \<longrightarrow>
        (\<exists>ss t'. f' st' = (Ok ss, t') \<and> map record_core ss = map record_core (passed (mst_resume st') rs)
           \<and> repeats S t t' \<and> mst_resume t' = resume_after (mst_resume st') rs))"

lemma repeatedD:
  "repeated S f f' \<Longrightarrow> repeats S st st' \<Longrightarrow> f st = (Ok rs, t) \<Longrightarrow>
   \<exists>ss t'. f' st' = (Ok ss, t') \<and> map record_core ss = map record_core (passed (mst_resume st') rs)
     \<and> repeats S t t' \<and> mst_resume t' = resume_after (mst_resume st') rs"
  unfolding repeated_def by blast

lemma same_transaction_simps [simp]:
  "same_transaction None None" "\<not> same_transaction None (Some t)" "\<not> same_transaction (Some t) None"
  "same_transaction (Some t) (Some t') \<longleftrightarrow> myt_id t = myt_id t' \<and> myt_ignore_dml t = myt_ignore_dml t'"
  by (auto simp: same_transaction_def)

lemma repeats_resume: "repeats S st st' \<Longrightarrow> repeats S st (st'\<lparr>mst_resume := r\<rparr>)"
  by (auto simp: repeats_def same_serial_def)

lemma repeats_filename: "repeats S st st' \<Longrightarrow> mst_filename st' = mst_filename st"
  by (simp add: repeats_def)

lemma next_serial_repeats:
  assumes "repeats S st st'" "a \<in> S" "my_next_serial a st = (n, t)"
  shows "\<exists>t'. my_next_serial a st' = (n, t') \<and> repeats S t t' \<and> mst_resume t' = mst_resume st'
    \<and> mst_transaction t = mst_transaction st \<and> mst_transaction t' = mst_transaction st'"
proof -
  let ?key = "(mst_filename st, a)"
  have same: "(mst_previous st = Some ?key) = (mst_previous st' = Some ?key)"
    "mst_previous st = Some ?key \<Longrightarrow> mst_event_serial st = mst_event_serial st'"
    using assms(1,2) by (auto simp: repeats_def same_serial_def)
  let ?n = "if mst_previous st = Some ?key then mst_event_serial st + 1 else 1"
  have "n = ?n \<and> t = st\<lparr>mst_previous := Some ?key, mst_event_serial := ?n\<rparr>"
    using assms(3) by (auto simp: my_next_serial_def Let_def split: if_splits)
  moreover have "my_next_serial a st' = (?n, st'\<lparr>mst_previous := Some ?key, mst_event_serial := ?n\<rparr>)"
    using same repeats_filename [OF assms(1)] by (auto simp: my_next_serial_def Let_def)
  ultimately show ?thesis
    using assms(1) by (intro exI [of _ "st'\<lparr>mst_previous := Some ?key, mst_event_serial := ?n\<rparr>"])
      (simp add: repeats_def same_serial_def)
qed

lemma should_skip_repeats:
  assumes "repeats S st st'" "my_should_skip pos st = (b, t)" "sr_position r = pos"
  shows "\<not> b \<and> t = st \<and> (\<exists>c t'. my_should_skip pos st' = (c, t') \<and> repeats S t t'
    \<and> passed (mst_resume st') [r] = (if c then [] else [r]) \<and> mst_resume t' = resume_after (mst_resume st') [r])"
  using assms repeats_resume [OF assms(1)]
  by (auto simp: my_should_skip_def repeats_def passed_def resume_after_def same_serial_def split: option.splits)

lemma count_record_repeats:
  assumes "repeats S st st'" "my_count_record key st = (m, t)"
  shows "\<exists>m' t'. my_count_record key st' = (m', t') \<and> repeats S t t' \<and> mst_resume t' = mst_resume st'
    \<and> mst_filename t = mst_filename st"
  using assms
  by (auto simp: my_count_record_def repeats_def same_serial_def same_transaction_def Let_def split: option.splits)

lemma transaction_id_repeats:
  "repeats S st st' \<Longrightarrow> map_option myt_id (mst_transaction st) = map_option myt_id (mst_transaction st')"
  by (cases "mst_transaction st"; cases "mst_transaction st'") (auto simp: repeats_def)

lemma core_row_event:
  "record_core (record_data (my_row_event env now schema key op server images pos n m time))
    = record_core (record_data (my_row_event env now' schema key op server images pos n m' time'))"
  by (simp add: record_core_def record_data_def my_row_event_def event_core_def my_transform_event_def
      transform_event_def transform_event_tables_def split: prod.splits)

lemma position_row_event:
  "sr_position (record_data (my_row_event env now schema key op server images pos n m time)) = pos"
  by (simp add: record_data_def my_row_event_def my_transform_event_def transform_event_def
      transform_event_tables_def split: prod.splits)

lemma row_record_repeats:
  assumes "repeats S st st'" "a \<in> S" "my_row_record env now schema key op a server time pair st = (Ok x, t)"
  shows "\<exists>r y t'. x = Some r \<and> my_row_record env now' schema key op a server time pair st' = (Ok y, t')
    \<and> map record_core (emitted [y]) = map record_core (passed (mst_resume st') [r])
    \<and> repeats S t t' \<and> mst_resume t' = resume_after (mst_resume st') [r]"
proof -
  from assms(3) obtain images where pair: "pair = Inr images" by (cases pair) (auto simp: my_row_record_def)
  obtain n u where u: "my_next_serial a st = (n, u)" by fastforce
  from next_serial_repeats [OF assms(1,2) u] obtain u' where
    u': "my_next_serial a st' = (n, u')" "repeats S u u'" "mst_resume u' = mst_resume st'" by blast
  obtain m v where v: "my_count_record key u = (m, v)" by fastforce
  from count_record_repeats [OF u'(2) v] obtain m' v' where
    v': "my_count_record key u' = (m', v')" "repeats S v v'" "mst_resume v' = mst_resume u'" by blast
  have names: "mst_filename u = mst_filename u'"
    "map_option myt_id (mst_transaction u) = map_option myt_id (mst_transaction u')"
    using u'(2) transaction_id_repeats [OF u'(2)] by (simp_all add: repeats_def)
  let ?pos = "mysql_source_position (mst_filename u') a (map_option myt_id (mst_transaction u')) server n False"
  let ?time = "\<lambda>s. (case Option.bind (mst_transaction s) myt_source_time of None \<Rightarrow> time | Some t \<Rightarrow> Some t)"
  let ?r = "record_data (my_row_event env now schema key op server images ?pos n m (?time v))"
  let ?r' = "record_data (my_row_event env now' schema key op server images ?pos n m' (?time v'))"
  obtain b w where w: "my_should_skip ?pos v = (b, w)" by fastforce
  from should_skip_repeats [OF v'(2) w, of ?r] obtain c w' where
    w': "\<not> b" "w = v" "my_should_skip ?pos v' = (c, w')" "repeats S w w'"
      "passed (mst_resume v') [?r] = (if c then [] else [?r])" "mst_resume w' = resume_after (mst_resume v') [?r]"
    by (auto simp: position_row_event)
  have "x = Some ?r \<and> t = w"
    using assms(3) u v w w'(1) names by (simp add: my_row_record_def pair)
  moreover have "my_row_record env now' schema key op a server time pair st' = (Ok (if c then None else Some ?r'), w')"
    using u'(1) v'(1) w'(3) by (simp add: my_row_record_def pair)
  moreover have "record_core ?r' = record_core ?r" by (rule core_row_event)
  ultimately show ?thesis
    using w'(4-6) v'(3) u'(3) by (intro exI [of _ ?r]) auto
qed

lemma rows_repeat:
  assumes "a \<in> S"
  shows "repeats S st st' \<Longrightarrow>
    scollect (my_row_record env now schema key op a server time) pairs st = (Ok xs, t) \<Longrightarrow>
    \<exists>ys t'. scollect (my_row_record env now' schema key op a server time) pairs st' = (Ok ys, t')
      \<and> map record_core (emitted ys) = map record_core (passed (mst_resume st') (emitted xs))
      \<and> repeats S t t' \<and> mst_resume t' = resume_after (mst_resume st') (emitted xs)"
proof (induction pairs arbitrary: st st' xs t)
  case Nil
  then show ?case by simp
next
  case (Cons pair pairs)
  from Cons.prems(2) obtain x u zs where u: "my_row_record env now schema key op a server time pair st = (Ok x, u)"
    "scollect (my_row_record env now schema key op a server time) pairs u = (Ok zs, t)" "xs = x # zs"
    by (auto simp: sbind_Ok_iff)
  from row_record_repeats [OF Cons.prems(1) assms u(1), of now'] obtain r y u' where
    u': "x = Some r" "my_row_record env now' schema key op a server time pair st' = (Ok y, u')"
      "map record_core (emitted [y]) = map record_core (passed (mst_resume st') [r])"
      "repeats S u u'" "mst_resume u' = resume_after (mst_resume st') [r]" by blast
  from Cons.IH [OF u'(4) u(2)] obtain ys t' where
    t': "scollect (my_row_record env now' schema key op a server time) pairs u' = (Ok ys, t')"
      "map record_core (emitted ys) = map record_core (passed (mst_resume u') (emitted zs))"
      "repeats S t t'" "mst_resume t' = resume_after (mst_resume u') (emitted zs)" by blast
  have "emitted (y # ys) = emitted [y] @ emitted ys"
    "emitted xs = [r] @ emitted zs"
    by (cases y) (simp_all add: u(3) u'(1))
  with u'(2,3,5) t' passed_append [of "mst_resume st'" "[r]" "emitted zs"]
    resume_after_append [of "mst_resume st'" "[r]" "emitted zs"] show ?case
    by (intro exI [of _ "y # ys"]) simp
qed

lemma commit_record_repeats:
  assumes "repeats S st st'" "a \<in> S" "my_commit_record a server i st = (x, t)"
  shows "\<exists>y t'. my_commit_record a server i st' = (y, t')
    \<and> (case y of None \<Rightarrow> [] | Some r \<Rightarrow> [r]) = passed (mst_resume st') (case x of None \<Rightarrow> [] | Some r \<Rightarrow> [r])
    \<and> repeats S t t' \<and> mst_resume t' = resume_after (mst_resume st') (case x of None \<Rightarrow> [] | Some r \<Rightarrow> [r])"
proof -
  obtain n u where u: "my_next_serial a st = (n, u)" by fastforce
  from next_serial_repeats [OF assms(1,2) u] obtain u' where
    u': "my_next_serial a st' = (n, u')" "repeats S u u'" "mst_resume u' = mst_resume st'" by blast
  have v: "repeats S (u\<lparr>mst_transaction := None\<rparr>) (u'\<lparr>mst_transaction := None\<rparr>)"
    using u'(2) repeats_filename [OF u'(2)] by (simp add: repeats_def same_serial_def)
  have names: "mst_filename u = mst_filename u'"
    "map_option myt_id (mst_transaction st) = map_option myt_id (mst_transaction st')"
    using u'(2) transaction_id_repeats [OF assms(1)] by (simp_all add: repeats_def)
  define pos where "pos = mysql_source_position (mst_filename u') a
      (case map_option myt_id (mst_transaction st') of None \<Rightarrow> i | Some j \<Rightarrow> Some j) server n False"
  obtain b w where w: "my_should_skip pos (u\<lparr>mst_transaction := None\<rparr>) = (b, w)" by fastforce
  from should_skip_repeats [OF v w, of "my_boundary_record pos"] obtain c w' where
    w': "\<not> b" "my_should_skip pos (u'\<lparr>mst_transaction := None\<rparr>) = (c, w')" "repeats S w w'"
      "passed (mst_resume u') [my_boundary_record pos] = (if c then [] else [my_boundary_record pos])"
      "mst_resume w' = resume_after (mst_resume u') [my_boundary_record pos]"
    by (auto simp: my_boundary_record_def)
  have "x = Some (my_boundary_record pos) \<and> t = w"
    using assms(3) u w w'(1) names by (simp add: my_commit_record_def pos_def)
  moreover have "my_commit_record a server i st' = (if c then None else Some (my_boundary_record pos), w')"
    using u'(1) w'(2) by (simp add: my_commit_record_def pos_def)
  ultimately show ?thesis using w'(3-5) u'(3) by simp
qed

lemma ensure_transaction_repeats:
  "repeats S st st' \<Longrightarrow> repeats S (ensure_transaction i time st) (ensure_transaction i time st')"
  by (cases "mst_transaction st"; cases "mst_transaction st'")
     (auto simp: ensure_transaction_def repeats_def same_serial_def my_transaction_new_def Let_def)

lemma convert_rows_repeats:
  assumes "repeats S st st'" "convert_rows env cfg now rows key start server time st = (Ok rs, t)"
    and "re_table_id rows \<in> dom (map_of (mst_anchors st'))"
  shows "\<exists>ss t'. convert_rows env cfg now' rows key start server time st' = (Ok ss, t')
    \<and> map record_core ss = map record_core (passed (mst_resume st') rs)
    \<and> repeats S t t' \<and> mst_resume t' = resume_after (mst_resume st') rs"
proof -
  from assms(3) obtain a where a: "map_of (mst_anchors st') (re_table_id rows) = Some a" by blast
  with assms(1) have anchor: "map_of (mst_anchors st) (re_table_id rows) = Some a" "a \<in> S"
    by (auto simp: repeats_def map_le_def dom_def ran_def)
  have ignore: "(case mst_transaction st of None \<Rightarrow> False | Some t \<Rightarrow> myt_ignore_dml t)
      = (case mst_transaction st' of None \<Rightarrow> False | Some t \<Rightarrow> myt_ignore_dml t)"
    using assms(1) by (cases "mst_transaction st"; cases "mst_transaction st'") (auto simp: repeats_def)
  have same: "mst_schemas st = mst_schemas st'" "fallback_transaction_id st a = fallback_transaction_id st' a"
    using assms(1) by (simp_all add: repeats_def fallback_transaction_id_def)
  show ?thesis
  proof (cases "is_business_table (me_regex env) cfg key
      \<and> \<not> (case mst_transaction st' of None \<Rightarrow> False | Some t \<Rightarrow> myt_ignore_dml t)")
    case False
    with assms(1,2) ignore show ?thesis by (auto simp: convert_rows_def)
  next
    case True
    with assms(2) ignore obtain schema where schema: "map_of (mst_schemas st') key = Some schema"
      by (auto simp: convert_rows_def same split: option.splits)
    let ?st = "ensure_transaction (fallback_transaction_id st' a) time st"
      and ?st' = "ensure_transaction (fallback_transaction_id st' a) time st'"
    from True assms(2) ignore schema anchor(1) obtain xs where
      xs: "scollect (my_row_record env now schema key (rows_operation (re_kind rows)) a server time)
        (re_pairs rows) ?st = (Ok xs, t)" "rs = emitted xs"
      by (auto simp: convert_rows_def same sbind_Ok_iff)
    have resume: "mst_resume ?st' = mst_resume st'" by (simp add: ensure_transaction_def Let_def)
    from rows_repeat [OF anchor(2) ensure_transaction_repeats [OF assms(1)] xs(1), of now'] obtain ys t' where
      "scollect (my_row_record env now' schema key (rows_operation (re_kind rows)) a server time)
        (re_pairs rows) ?st' = (Ok ys, t')"
      "map record_core (emitted ys) = map record_core (passed (mst_resume st') (emitted xs))"
      "repeats S t t'" "mst_resume t' = resume_after (mst_resume st') (emitted xs)" by (auto simp: resume)
    with True schema a xs(2) show ?thesis
      by (auto simp: convert_rows_def sbind_def)
  qed
qed

text \<open>Every row event follows the map of its table; a rotation of the log forgets the maps.\<close>

fun self_contained :: "u64 set \<Rightarrow> binlog_event list \<Rightarrow> bool" where
  "self_contained D [] = True"
| "self_contained D (e # es) =
     (case be_data e of
        Inr (Some (TableMapData i)) \<Rightarrow> self_contained (insert i D) es
      | Inr (Some (RotateData f)) \<Rightarrow> self_contained {} es
      | Inr (Some (RowsData rows)) \<Rightarrow> re_table_id rows \<in> D \<and> self_contained D es
      | _ \<Rightarrow> self_contained D es)"

text \<open>The maps that an event leaves.\<close>

definition maps_after :: "binlog_event \<Rightarrow> u64 set \<Rightarrow> u64 set" where
  "maps_after e D =
     (case be_data e of
        Inr (Some (TableMapData i)) \<Rightarrow> insert i D
      | Inr (Some (RotateData f)) \<Rightarrow> {}
      | _ \<Rightarrow> D)"

definition mapped :: "my_stream \<Rightarrow> u64 set" where
  "mapped st = dom (map_of (mst_anchors st))"

lemma mapped_simps [simp]:
  "mapped (st\<lparr>mst_transaction := t\<rparr>) = mapped st" "mapped (st\<lparr>mst_resume := r\<rparr>) = mapped st"
  "mapped (st\<lparr>mst_previous := q, mst_event_serial := n\<rparr>) = mapped st"
  "mapped (st\<lparr>mst_event_serial := n\<rparr>) = mapped st" "mapped (st\<lparr>mst_previous := q\<rparr>) = mapped st"
  "mapped (register_table_map i a st) = insert i (mapped st)" "mapped (my_rotate f st) = {}"
  by (auto simp: mapped_def register_table_map_def my_rotate_def)

lemma mapped_serial: "my_next_serial a st = (n, t) \<Longrightarrow> mapped t = mapped st"
  by (auto simp: my_next_serial_def Let_def split: if_splits)

lemma mapped_skip: "my_should_skip pos st = (b, t) \<Longrightarrow> mapped t = mapped st"
  by (auto simp: my_should_skip_def split: option.splits if_splits)

lemma mapped_count: "my_count_record key st = (m, t) \<Longrightarrow> mapped t = mapped st"
  by (auto simp: my_count_record_def Let_def split: option.splits)

lemma mapped_commit: "my_commit_record a server i st = (x, t) \<Longrightarrow> mapped t = mapped st"
  by (auto simp: my_commit_record_def Let_def dest!: mapped_serial mapped_skip split: prod.splits)

lemma mapped_row: "my_row_record env now schema key op a server time pair st = (x, t) \<Longrightarrow> mapped t = mapped st"
  by (auto simp: my_row_record_def Let_def dest!: mapped_serial mapped_skip mapped_count split: prod.splits sum.splits)

lemma mapped_rows:
  "scollect (my_row_record env now schema key op a server time) pairs st = (x, t) \<Longrightarrow> mapped t = mapped st"
proof (induction pairs arbitrary: st x t)
  case (Cons pair pairs)
  obtain y u where u: "my_row_record env now schema key op a server time pair st = (y, u)" by fastforce
  show ?case
  proof (cases y)
    case (Inl e)
    with Cons.prems u have "t = u" by (simp add: sbind_def)
    with mapped_row [OF u] show ?thesis by simp
  next
    case (Inr z)
    obtain w v where v: "scollect (my_row_record env now schema key op a server time) pairs u = (w, v)" by fastforce
    have "t = v" using Cons.prems u Inr v by (cases w) (auto simp: sbind_def)
    with Cons.IH [OF v] mapped_row [OF u] show ?thesis by simp
  qed
qed simp

lemma mapped_convert_rows:
  assumes "convert_rows env cfg now rows key start server time st = (x, t)"
  shows "mapped t = mapped st"
proof -
  have "mapped (ensure_transaction i time st) = mapped st" for i by (simp add: ensure_transaction_def Let_def)
  with assms mapped_rows show ?thesis
    by (auto simp: convert_rows_def sbind_def split: if_splits option.splits prod.splits sum.splits)
qed

lemma mapped_query: "handle_query q a server time st = (x, t) \<Longrightarrow> mapped t = mapped st"
  by (auto simp: handle_query_def ensure_transaction_def Let_def dest: mapped_commit split: if_splits)

lemma mapped_event:
  assumes "stream_event env cfg filt now e st = (Ok rs, t)"
  shows "mapped t = maps_after e (mapped st)"
  using assms
  by (auto simp: stream_event_def stream_data_def maps_after_def begin_gtid_def Let_def
      split: sum.splits option.splits binlog_data.splits prod.splits
      dest: mapped_convert_rows mapped_commit mapped_query)

lemma self_contained_Cons:
  "self_contained D (e # es) \<Longrightarrow> self_contained (maps_after e D) es"
  "self_contained D (e # es) \<Longrightarrow> be_data e = Inr (Some (RowsData rows)) \<Longrightarrow> re_table_id rows \<in> D"
  by (auto simp: maps_after_def split: sum.splits option.splits binlog_data.splits)

lemma begin_gtid_repeats: "repeats S st st' \<Longrightarrow> repeats S (begin_gtid env g time b st) (begin_gtid env g time' b st')"
  by (auto simp: begin_gtid_def repeats_def same_serial_def my_transaction_new_def Let_def)

lemma rotate_repeats: "repeats S st st' \<Longrightarrow> repeats S (my_rotate f st) (my_rotate f st')"
  by (auto simp: my_rotate_def repeats_def same_serial_def)

lemma table_map_repeats:
  assumes "repeats S st st'" "a \<in> S"
  shows "repeats S (register_table_map i a st) (register_table_map i a st')"
proof -
  have "map_of (mst_anchors st') \<subseteq>\<^sub>m map_of (mst_anchors st)" "ran (map_of (mst_anchors st')) \<subseteq> S"
    using assms(1) by (simp_all add: repeats_def)
  then have "(map_of (mst_anchors st'))(i \<mapsto> a) \<subseteq>\<^sub>m (map_of (mst_anchors st))(i \<mapsto> a)"
    "ran ((map_of (mst_anchors st'))(i \<mapsto> a)) \<subseteq> S"
    using assms(2) by (auto simp: map_le_def ran_def)
  with assms(1) show ?thesis by (auto simp: register_table_map_def repeats_def same_serial_def)
qed

lemma drop_transaction_repeats:
  "repeats S st st' \<Longrightarrow> repeats S (st\<lparr>mst_transaction := None\<rparr>) (st'\<lparr>mst_transaction := None\<rparr>)"
  by (auto simp: repeats_def same_serial_def)

lemma query_repeats:
  assumes "repeats S st st'" "a \<in> S" "handle_query q a server time st = (x, t)"
  shows "\<exists>y t'. handle_query q a server time st' = (y, t')
    \<and> (case y of None \<Rightarrow> [] | Some r \<Rightarrow> [r]) = passed (mst_resume st') (case x of None \<Rightarrow> [] | Some r \<Rightarrow> [r])
    \<and> repeats S t t' \<and> mst_resume t' = resume_after (mst_resume st') (case x of None \<Rightarrow> [] | Some r \<Rightarrow> [r])"
proof -
  let ?q = "to_ascii_uppercase (trim_end_matches (CHR '';'') (trim q))"
  have i: "fallback_transaction_id st a = fallback_transaction_id st' a"
    using assms(1) by (simp add: fallback_transaction_id_def repeats_def)
  have r: "mst_resume (ensure_transaction j time st') = mst_resume st'" for j
    by (simp add: ensure_transaction_def Let_def)
  consider "?q = ''BEGIN'' \<or> ?q = ''START TRANSACTION''" | "?q = ''ROLLBACK''"
    | "?q \<notin> {''BEGIN'', ''START TRANSACTION'', ''ROLLBACK''}" "?q = ''COMMIT'' \<or> is_schema_change q"
    | "?q \<notin> {''BEGIN'', ''START TRANSACTION'', ''ROLLBACK'', ''COMMIT''}" "\<not> is_schema_change q"
    by blast
  then show ?thesis
  proof cases
    case 1
    with assms(3) ensure_transaction_repeats [OF assms(1)] show ?thesis
      by (auto simp: handle_query_def i r)
  next
    case 2
    with assms(3) drop_transaction_repeats [OF assms(1)] show ?thesis by (auto simp: handle_query_def)
  next
    case 3
    then have "handle_query q a server time u = my_commit_record a server None u" for u
      by (auto simp: handle_query_def)
    with commit_record_repeats [OF assms(1,2)] assms(3) show ?thesis by metis
  next
    case 4
    with assms(1,3) show ?thesis by (auto simp: handle_query_def)
  qed
qed

lemma stream_data_repeats:
  assumes "repeats S st st'" "event_start e \<in> S" "stream_data env cfg filt now e data st = (Ok rs, t)"
    and "\<And>rows. data = RowsData rows \<Longrightarrow> re_table_id rows \<in> mapped st'"
  shows "\<exists>ss t'. stream_data env cfg filt now' e data st' = (Ok ss, t')
    \<and> map record_core ss = map record_core (passed (mst_resume st') rs)
    \<and> repeats S t t' \<and> mst_resume t' = resume_after (mst_resume st') rs"
proof (cases data)
  case (RotateData f)
  with assms(3) rotate_repeats [OF assms(1), of f] show ?thesis
    by (auto simp: stream_data_def my_rotate_def)
next
  case (TableMapData i)
  with assms(3) table_map_repeats [OF assms(1,2), of i] show ?thesis
    by (auto simp: stream_data_def register_table_map_def)
next
  case (GtidData g)
  with assms(3) begin_gtid_repeats [OF assms(1)] show ?thesis
    by (auto simp: stream_data_def begin_gtid_def Let_def)
next
  case (RowsData rows)
  with assms(3) obtain key where "re_table rows = Some key"
    "convert_rows env cfg now rows key (event_start e) (be_server_id e) (mysql_source_time (be_timestamp e)) st
      = (Ok rs, t)"
    by (auto simp: stream_data_def Let_def split: option.splits)
  with RowsData convert_rows_repeats [OF assms(1), of env cfg now rows key "event_start e" "be_server_id e"
      "mysql_source_time (be_timestamp e)" rs t now'] assms(4) [OF RowsData] show ?thesis
    by (auto simp: stream_data_def mapped_def)
next
  case (XidData xid)
  obtain x u where u: "my_commit_record (event_start e) (be_server_id e) (Some (show_word xid)) st = (x, u)"
    by fastforce
  from commit_record_repeats [OF assms(1,2) u] obtain y t' where t':
    "my_commit_record (event_start e) (be_server_id e) (Some (show_word xid)) st' = (y, t')"
    "(case y of None \<Rightarrow> [] | Some r \<Rightarrow> [r]) = passed (mst_resume st') (case x of None \<Rightarrow> [] | Some r \<Rightarrow> [r])"
    "repeats S u t'" "mst_resume t' = resume_after (mst_resume st') (case x of None \<Rightarrow> [] | Some r \<Rightarrow> [r])" by blast
  with XidData assms(3) u show ?thesis by (auto simp: stream_data_def)
next
  case (QueryData q db)
  obtain x u where u: "handle_query q (event_start e) (be_server_id e) (mysql_source_time (be_timestamp e)) st = (x, u)"
    by fastforce
  from query_repeats [OF assms(1,2) u] obtain y t' where t':
    "handle_query q (event_start e) (be_server_id e) (mysql_source_time (be_timestamp e)) st' = (y, t')"
    "(case y of None \<Rightarrow> [] | Some r \<Rightarrow> [r]) = passed (mst_resume st') (case x of None \<Rightarrow> [] | Some r \<Rightarrow> [r])"
    "repeats S u t'" "mst_resume t' = resume_after (mst_resume st') (case x of None \<Rightarrow> [] | Some r \<Rightarrow> [r])" by blast
  with QueryData assms(3) u show ?thesis by (auto simp: stream_data_def)
next
  case OtherData
  with assms(1,3) show ?thesis by (auto simp: stream_data_def)
qed

lemma stream_all_repeats:
  "repeats S st st' \<Longrightarrow> event_start ` set es \<subseteq> S \<Longrightarrow> self_contained (mapped st') es \<Longrightarrow>
   stream_all env cfg filt clock es st = (Ok rs, t) \<Longrightarrow>
   \<exists>ss t'. stream_all env cfg filt clock' es st' = (Ok ss, t')
     \<and> map record_core ss = map record_core (passed (mst_resume st') rs)"
proof (induction es arbitrary: st st' rs t)
  case Nil
  then show ?case by simp
next
  case (Cons e es)
  from Cons.prems(4) obtain rs1 u rs2 where run: "stream_event env cfg filt (clock (length es)) e st = (Ok rs1, u)"
    "stream_all env cfg filt clock es u = (Ok rs2, t)" "rs = rs1 @ rs2"
    by (auto simp: sbind_Ok_iff)
  have "\<exists>ss t'. stream_event env cfg filt (clock' (length es)) e st' = (Ok ss, t')
    \<and> map record_core ss = map record_core (passed (mst_resume st') rs1)
    \<and> repeats S u t' \<and> mst_resume t' = resume_after (mst_resume st') rs1"
  proof (cases "be_data e")
    case (Inr data)
    show ?thesis
    proof (cases data)
      case None
      with Inr Cons.prems(1) run(1) show ?thesis by (auto simp: stream_event_def)
    next
      case (Some d)
      have "re_table_id rows \<in> mapped st'" if "d = RowsData rows" for rows
        using self_contained_Cons(2) [OF Cons.prems(3)] Inr Some that by simp
      with stream_data_repeats [OF Cons.prems(1), of e env cfg filt "clock (length es)" d rs1 u
          "clock' (length es)"] run(1) Inr Some Cons.prems(2)
      show ?thesis by (simp add: stream_event_def)
    qed
  qed (use run(1) in \<open>simp add: stream_event_def\<close>)
  then obtain ss u' where u': "stream_event env cfg filt (clock' (length es)) e st' = (Ok ss, u')"
    "map record_core ss = map record_core (passed (mst_resume st') rs1)"
    "repeats S u u'" "mst_resume u' = resume_after (mst_resume st') rs1" by blast
  have "self_contained (mapped u') es"
    using self_contained_Cons(1) [OF Cons.prems(3)] mapped_event [OF u'(1)] by simp
  from Cons.IH [OF u'(3) _ this run(2)] Cons.prems(2) obtain ss2 t' where
    "stream_all env cfg filt clock' es u' = (Ok ss2, t')"
    "map record_core ss2 = map record_core (passed (mst_resume u') rs2)" by auto
  with u'(1,2,4) run(3) show ?case
    by (intro exI [of _ "ss @ ss2"]) (simp add: passed_append)
qed

text \<open>The order of positions along a run leaves exactly the records after the one the run resumes from.\<close>

lemma passed_increasing:
  assumes "sorted_wrt (\<lambda>r s. is_after (sr_position s) (sr_position r)) rs" "k < length rs"
    and "position_wf (sr_position (rs ! k))"
  shows "passed (Some (sr_position (rs ! k))) rs = drop (k + 1) rs"
proof -
  let ?P = "\<lambda>r. is_at_or_before (sr_position r) (sr_position (rs ! k))"
  have "?P (rs ! i)" if "i \<le> k" for i
    using sorted_wrt_nth_less [OF assms(1), of i k] assms(2,3) that
    by (cases "i = k") (auto simp: is_at_or_before_def)
  then have "\<forall>r\<in>set (take (k + 1) rs). ?P r" by (auto simp: in_set_conv_nth)
  then have "dropWhile ?P (take (k + 1) rs @ drop (k + 1) rs) = dropWhile ?P (drop (k + 1) rs)"
    by (intro dropWhile_append2) simp
  moreover have "dropWhile ?P (drop (k + 1) rs) = drop (k + 1) rs"
  proof (cases "k + 1 < length rs")
    case True
    then have "\<not> ?P (rs ! (k + 1))"
      using sorted_wrt_nth_less [OF assms(1), of k "k + 1"] is_at_or_before_not_after by auto
    with True show ?thesis by (subst (1 2) Cons_nth_drop_Suc [symmetric]) simp_all
  qed simp
  ultimately show ?thesis by (simp add: passed_def)
qed


section \<open>A sample log\<close>

definition sample_my_env :: my_env where
  "sample_my_env =
     \<lparr>me_values = \<lparr>mv_widen = (\<lambda>_. 0), mv_parse_f64 = (\<lambda>_. None), mv_parse_json = (\<lambda>_. None),
                    mv_timestamp = (\<lambda>_. None)\<rparr>,
      me_ddl = sample_ddl_env, me_regex = (\<lambda>ci p. Some (\<lambda>t. anchored t = p)), me_regex_error = (\<lambda>p. p),
      me_digests = (\<lambda>_ _. []), me_sha256 = (\<lambda>bs. bs), me_hex = text_of, me_to_vec = (\<lambda>_. []),
      me_uuid_text = text_of, me_parse_sid = Inl, me_version = ''1'', me_connector_name = ''c'',
      me_transformer = []\<rparr>"

definition sample_all_tables :: my_config where
  "sample_all_tables = sample_my_config\<lparr>myc_tables := \<lparr>ts_include = [], ts_exclude = []\<rparr>\<rparr>"

definition sample_binlog_event :: "u32 \<Rightarrow> binlog_data \<Rightarrow> binlog_event" where
  "sample_binlog_event start data =
     \<lparr>be_log_pos = start + 20, be_event_size = 20, be_timestamp = 0, be_server_id = 1, be_data = Inr (Some data)\<rparr>"

definition sample_rows :: "u64 \<Rightarrow> string \<Rightarrow> i64 list \<Rightarrow> rows_event" where
  "sample_rows i t ks =
     \<lparr>re_kind = WriteRows, re_table_id = i, re_table = Some (''shop'', t),
      re_pairs = map (\<lambda>k. Inr (None, Some [(''id'', Some (BvValue (MvInt k)))])) ks\<rparr>"

text \<open>A stream inside the transaction \<open>g:7\<close>.\<close>

definition sample_my_stream :: my_stream where
  "sample_my_stream =
     \<lparr>mst_filename = ''binlog.1'', mst_schemas = map (\<lambda>t. ((''shop'', t), sample_my_table t)) [''orders'', ''audit''],
      mst_anchors = [], mst_transaction = Some (my_transaction_new ''g:7'' None False), mst_previous = None,
      mst_event_serial = 0, mst_resume = None\<rparr>"

definition sample_two_rows :: "binlog_event list" where
  "sample_two_rows =
     [sample_binlog_event 100 (TableMapData 1), sample_binlog_event 120 (RowsData (sample_rows 1 ''orders'' [1, 2])),
      sample_binlog_event 140 (XidData 9)]"

definition sample_two_tables :: "binlog_event list" where
  "sample_two_tables =
     [sample_binlog_event 100 (TableMapData 1), sample_binlog_event 120 (TableMapData 2),
      sample_binlog_event 140 (RowsData (sample_rows 1 ''orders'' [1])),
      sample_binlog_event 160 (RowsData (sample_rows 2 ''audit'' [1])),
      sample_binlog_event 180 (RowsData (sample_rows 1 ''orders'' [2]))]"

definition sample_log_position :: "u64 \<Rightarrow> u64 \<Rightarrow> mysql_position" where
  "sample_log_position start serial =
     \<lparr>my_binlog_filename = ''binlog.1'', my_binlog_position = start, my_gtid_set = Some ''g:7'', my_server_id = 1,
      my_event_serial = serial, my_snapshot = False\<rparr>"

lemma sample_selected:
  "is_business_table (me_regex sample_my_env) sample_all_tables (''shop'', t)"
  by (simp add: is_business_table_def sample_all_tables_def sample_my_config_def table_includes_def signal_table_key_def)

lemma sample_event_start:
  "event_start (sample_binlog_event 100 d) = 100" "event_start (sample_binlog_event 120 d) = 120"
  "event_start (sample_binlog_event 140 d) = 140" "event_start (sample_binlog_event 160 d) = 160"
  "event_start (sample_binlog_event 180 d) = 180"
  by (simp_all add: event_start_def sample_binlog_event_def)

lemma sample_source_position:
  "mysql_source_position ''binlog.1'' start (Some ''g:7'') 1 serial False = MySql (sample_log_position start serial)"
  by (simp add: mysql_source_position_def sample_log_position_def)

lemmas sample_run_simps = stream_event_def stream_data_def convert_rows_def my_row_record_def my_next_serial_def
  my_count_record_def my_should_skip_def ensure_transaction_def my_commit_record_def register_table_map_def
  sample_event_start sample_selected sample_rows_def sample_my_stream_def my_transaction_new_def sbind_def

lemma sample_event_data [simp]:
  "be_data (sample_binlog_event start d) = Inr (Some d)" "be_server_id (sample_binlog_event start d) = 1"
  "be_timestamp (sample_binlog_event start d) = 0"
  by (simp_all add: sample_binlog_event_def)

lemma sample_two_rows_run:
  "\<exists>rs t. stream_all sample_my_env sample_all_tables None clock sample_two_rows sample_my_stream = (Ok rs, t)
     \<and> map sr_position rs = map MySql [sample_log_position 100 1, sample_log_position 100 2, sample_log_position 140 1]"
  by (simp add: sample_two_rows_def sample_run_simps Let_def position_row_event sample_source_position
      my_boundary_record_def)

lemma sample_two_tables_run:
  "\<exists>rs t. stream_all sample_my_env sample_all_tables None clock sample_two_tables sample_my_stream = (Ok rs, t)
     \<and> map sr_position rs = map MySql [sample_log_position 100 1, sample_log_position 120 1, sample_log_position 100 1]"
  by (simp add: sample_two_tables_def sample_run_simps Let_def position_row_event sample_source_position)


section \<open>Statements that change several tables\<close>

text \<open>
  What the client library hands over of a log that is read on a new connection: a row event whose table map
  was not read on this connection has no table.
\<close>

fun reread :: "u64 set \<Rightarrow> binlog_event list \<Rightarrow> binlog_event list" where
  "reread D [] = []"
| "reread D (e # es) =
     (case be_data e of
        Inr (Some (RowsData rows)) \<Rightarrow>
          e\<lparr>be_data := Inr (Some (RowsData (rows\<lparr>re_table := (if re_table_id rows \<in> D then re_table rows
                                                               else None)\<rparr>)))\<rparr>
      | _ \<Rightarrow> e) # reread (maps_after e D) es"

lemma stream_all_Err:
  "stream_event env cfg filt (clock (length es)) e st = (Err x, t) \<Longrightarrow> stream_all env cfg filt clock (e # es) st = (Err x, t)"
  by simp



text \<open>One row of a selected table, inside a transaction.\<close>

definition one_row :: "rows_kind \<Rightarrow> u64 \<Rightarrow> table_key \<Rightarrow> binlog_row option \<times> binlog_row option \<Rightarrow> rows_event" where
  "one_row kind i key images = \<lparr>re_kind = kind, re_table_id = i, re_table = Some key, re_pairs = [Inr images]\<rparr>"

definition in_transaction :: "string \<Rightarrow> my_stream \<Rightarrow> bool" where
  "in_transaction i st \<longleftrightarrow>
     mst_resume st = None \<and> (\<exists>x. mst_transaction st = Some x \<and> myt_id x = i \<and> \<not> myt_ignore_dml x)"

lemma convert_one_row:
  assumes "is_business_table (me_regex env) cfg key" "map_of (mst_schemas st) key = Some schema"
    and "map_of (mst_anchors st) i = Some a" "in_transaction g st"
  shows "\<exists>n m tm t. convert_rows env cfg now (one_row kind i key images) key start server time st
      = (Ok [record_data (my_row_event env now schema key (rows_operation kind) server images
          (mysql_source_position (mst_filename st) a (Some g) server n False) n m tm)], t)
    \<and> n = (if mst_previous st = Some (mst_filename st, a) then mst_event_serial st + 1 else 1)
    \<and> mst_previous t = Some (mst_filename st, a) \<and> mst_filename t = mst_filename st
    \<and> mst_schemas t = mst_schemas st \<and> mst_anchors t = mst_anchors st \<and> in_transaction g t"
  using assms
  by (auto simp: convert_rows_def one_row_def in_transaction_def ensure_transaction_def my_row_record_def
      my_next_serial_def my_count_record_def my_should_skip_def sbind_def Let_def)
    ((intro exI, rule refl)+)

lemma event_id_my_row_event [simp]:
  "ev_id (my_row_event env now schema key op server images pos n m time)
     = my_event_id env (fst key) pos (fst key @ ''.'' @ snd key) n"
  "ev_operation (my_row_event env now schema key op server images pos n m time) = op"
  by (simp_all add: my_row_event_def my_transform_event_def transform_event_def transform_event_tables_def
      split: prod.splits)

text \<open>
  C39. Rows of two tables that alternate within a statement lose their identity. The serial number starts
  anew whenever the position changes, and rows of one table keep the position of its table map: the first
  row of a table and the first one after a row of another table get the same position and the same event
  identity, although they are different changes.
\<close>

theorem interleaved_rows_share_identity:
  assumes "is_business_table (me_regex env) cfg key" "map_of (mst_schemas st) key = Some schema"
    and "is_business_table (me_regex env) cfg key'" "map_of (mst_schemas st) key' = Some schema'"
    and "map_of (mst_anchors st) i = Some a" "map_of (mst_anchors st) j = Some b" "a \<noteq> b"
    and "in_transaction g st" "mst_previous st \<noteq> Some (mst_filename st, a)"
    and "be_data e1 = Inr (Some (RowsData (one_row k1 i key images1)))"
    and "be_data e2 = Inr (Some (RowsData (one_row k2 j key' images2)))"
    and "be_data e3 = Inr (Some (RowsData (one_row k3 i key images3)))"
    and "be_server_id e1 = be_server_id e3"
  shows "\<exists>x y z r t. stream_all env cfg filt clock [e1, e2, e3] st = (Ok [record_data x, r, record_data z], t)
    \<and> ev_id x = ev_id z \<and> ev_position x = ev_position z
    \<and> ev_operation x = rows_operation k1 \<and> ev_operation z = rows_operation k3"
proof -
  have step: "stream_event env cfg filt now e u = convert_rows env cfg now (one_row k l c images) c (event_start e)
      (be_server_id e) (mysql_source_time (be_timestamp e)) u"
    if "be_data e = Inr (Some (RowsData (one_row k l c images)))" for e now u k l c images
    using that by (simp add: stream_event_def stream_data_def one_row_def Let_def)
  obtain n1 m1 tm1 u where u: "stream_event env cfg filt (clock 2) e1 st
      = (Ok [record_data (my_row_event env (clock 2) schema key (rows_operation k1) (be_server_id e1) images1
          (mysql_source_position (mst_filename st) a (Some g) (be_server_id e1) n1 False) n1 m1 tm1)], u)"
    "n1 = 1" "mst_filename u = mst_filename st" "mst_schemas u = mst_schemas st" "mst_anchors u = mst_anchors st"
    "in_transaction g u"
    unfolding step [OF assms(10)] using convert_one_row [OF assms(1,2,5,8)] assms(9) by (metis (lifting))
  have known: "map_of (mst_schemas u) key' = Some schema'" "map_of (mst_anchors u) j = Some b"
    using assms(4,6) u(4,5) by simp_all
  obtain r v where v: "stream_event env cfg filt (clock 1) e2 u = (Ok [r], v)"
    "mst_previous v = Some (mst_filename st, b)" "mst_filename v = mst_filename st" "mst_schemas v = mst_schemas st"
    "mst_anchors v = mst_anchors st" "in_transaction g v"
    unfolding step [OF assms(11)] using convert_one_row [OF assms(3) known u(6)] u(3-5) by (metis (lifting))
  have known': "map_of (mst_schemas v) key = Some schema" "map_of (mst_anchors v) i = Some a"
    using assms(2,5) v(4,5) by simp_all
  obtain n3 m3 tm3 w where w: "stream_event env cfg filt (clock 0) e3 v
      = (Ok [record_data (my_row_event env (clock 0) schema key (rows_operation k3) (be_server_id e3) images3
          (mysql_source_position (mst_filename st) a (Some g) (be_server_id e3) n3 False) n3 m3 tm3)], w)" "n3 = 1"
    unfolding step [OF assms(12)] using convert_one_row [OF assms(1) known' v(6)] v(2,3) assms(7)
    by (metis (lifting) option.inject prod.inject)
  show ?thesis
    using u(1,2) v(1) w assms(13) position_row_event
    by (auto simp: sbind_def numeral_2_eq_2 record_data_def)
qed

theorem interleaved_rows_share_identity_witness:
  "\<exists>x y r t. stream_all sample_my_env sample_all_tables None (\<lambda>_. 0) (drop 2 sample_two_tables)
       (sample_my_stream\<lparr>mst_anchors := [(1, 100), (2, 120)]\<rparr>) = (Ok [record_data x, r, record_data y], t)
     \<and> ev_id x = ev_id y \<and> ev_position x = ev_position y"
proof -
  let ?st = "sample_my_stream\<lparr>mst_anchors := [(1, 100), (2, 120)]\<rparr>"
  have tables: "map_of (mst_schemas ?st) (''shop'', ''orders'') = Some (sample_my_table ''orders'')"
    "map_of (mst_schemas ?st) (''shop'', ''audit'') = Some (sample_my_table ''audit'')"
    "map_of (mst_anchors ?st) 1 = Some 100" "map_of (mst_anchors ?st) 2 = Some 120" "(100 :: u64) \<noteq> 120"
    "in_transaction ''g:7'' ?st" "mst_previous ?st \<noteq> Some (mst_filename ?st, 100)"
    by (simp_all add: sample_my_stream_def in_transaction_def my_transaction_new_def)
  have rows: "drop 2 sample_two_tables = [sample_binlog_event 140 (RowsData (sample_rows 1 ''orders'' [1])),
      sample_binlog_event 160 (RowsData (sample_rows 2 ''audit'' [1])),
      sample_binlog_event 180 (RowsData (sample_rows 1 ''orders'' [2]))]" by (simp add: sample_two_tables_def)
  have one: "be_data (sample_binlog_event start (RowsData (sample_rows i n [k])))
      = Inr (Some (RowsData (one_row WriteRows i (''shop'', n) (None, Some [(''id'', Some (BvValue (MvInt k)))]))))"
    for start i n k by (simp add: sample_rows_def one_row_def)
  show ?thesis
    unfolding rows using interleaved_rows_share_identity [OF sample_selected tables(1) sample_selected tables(2-7)
        one one one] by fastforce
qed

end
