(* ===== verification/My_Snapshot.thy ===== *)
theory My_Snapshot
  imports My_Stream Core_Signal
begin

text \<open>
  Incremental snapshots of MySQL (\<^verbatim>\<open>MySqlIncrementalSnapshot\<close> and its helpers in
  \<^verbatim>\<open>crates/rustium-mysql/src/source.rs\<close>): signals, chunks read between two coordinates of the binary log,
  and the window in which rows of the stream displace rows of the chunk. The connection is a parameter: a
  query with its arguments is answered with rows of values or an error text.
\<close>

section \<open>Environment\<close>

record ('c, 'w) my_io =
  io_connect :: "'w \<Rightarrow> 'c result \<times> 'w"
  io_query :: "'c \<Rightarrow> string \<Rightarrow> my_value list \<Rightarrow> 'w \<Rightarrow> (string + my_value list list) \<times> 'w"
  io_disconnect :: "'c \<Rightarrow> 'w \<Rightarrow> (string + unit) \<times> 'w"
  io_string :: "my_value \<Rightarrow> string"
  io_u64 :: "my_value \<Rightarrow> u64"
  io_receiver :: "nat \<Rightarrow> bool"
  io_parse :: "string \<Rightarrow> string + json"
  io_print :: "json \<Rightarrow> string"
  io_utf8_error :: "u8 list \<Rightarrow> string"

type_synonym my_key = "my_key_value list"

record binlog_cursor =
  cu_filename :: string
  cu_position :: u64

definition cursor_key :: "binlog_cursor \<Rightarrow> string \<times> u64" where
  "cursor_key c = (cu_filename c, cu_position c)"

definition cursor_of :: "binlog_coordinates \<Rightarrow> binlog_cursor" where
  "cursor_of c = \<lparr>cu_filename = bl_filename c, cu_position = bl_position c\<rparr>"

definition my_query ::
  "('c, 'w) my_io \<Rightarrow> 'c \<Rightarrow> string \<Rightarrow> my_value list \<Rightarrow> ('w, my_value list list) stateful" where
  "my_query io c query params w =
     (case io_query io c query params w of
        (Inl msg, w1) \<Rightarrow> (Err (Source msg), w1)
      | (Inr rows, w1) \<Rightarrow> (Ok rows, w1))"

definition my_disconnect :: "('c, 'w) my_io \<Rightarrow> 'c \<Rightarrow> ('w, unit) stateful" where
  "my_disconnect io c w =
     (case io_disconnect io c w of (Inl msg, w1) \<Rightarrow> (Err (Source msg), w1) | (Inr _, w1) \<Rightarrow> (Ok (), w1))"

definition non_empty :: "string option \<Rightarrow> string option" where
  "non_empty t = (case t of Some s \<Rightarrow> if s = [] then None else Some s | None \<Rightarrow> None)"

text \<open>The executed set, in the row of the status or by a query of its own.\<close>

definition executed_gtid_set :: "('c, 'w) my_io \<Rightarrow> 'c \<Rightarrow> my_value list \<Rightarrow> ('w, string option) stateful" where
  "executed_gtid_set io c row =
     (if 4 < length row then sreturn (non_empty (Some (io_string io (row ! 4))))
      else
        sbind (my_query io c ''SELECT @@GLOBAL.gtid_executed'' []) (\<lambda>res.
          sreturn (non_empty (case res of (v # _) # _ \<Rightarrow> Some (io_string io v) | _ \<Rightarrow> None))))"

definition current_binlog_coordinates ::
  "('c, 'w) my_io \<Rightarrow> 'c \<Rightarrow> u32 \<Rightarrow> ('w, binlog_coordinates) stateful" where
  "current_binlog_coordinates io c source_server_id =
     sbind (\<lambda>w. case io_query io c ''SHOW BINARY LOG STATUS'' [] w of
                  (Inr rows, w1) \<Rightarrow> (Ok rows, w1)
                | (Inl _, w1) \<Rightarrow> my_query io c ''SHOW MASTER STATUS'' [] w1) (\<lambda>rows.
     case rows of
       [] \<Rightarrow> slift (Err (Source ''MySQL returned no current binary log status''))
     | row # _ \<Rightarrow>
         if row = [] then slift (Err (Source ''MySQL binary log status has no filename''))
         else if length row < 2 then slift (Err (Source ''MySQL binary log status has no position''))
         else
           sbind (executed_gtid_set io c row) (\<lambda>gtid_set.
             sreturn \<lparr>bl_filename = io_string io (row ! 0), bl_position = io_u64 io (row ! 1),
                      bl_gtid_set = gtid_set, bl_gtid_set_is_complete = True,
                      bl_source_server_id = source_server_id\<rparr>))"

section \<open>Signals\<close>

datatype my_signal =
    MyExecute string "string list" "(string \<times> string) list"
  | MyStop string "string list"
  | MyPause string
  | MyResume string
  | MyUnsupported string string

definition my_data_collections :: "json \<Rightarrow> string list" where
  "my_data_collections data =
     (case json_get ''data-collections'' data of Some (JArray xs) \<Rightarrow> List.map_filter as_str xs | _ \<Rightarrow> [])"

definition check_pattern :: "my_env \<Rightarrow> string \<Rightarrow> string \<Rightarrow> unit result" where
  "check_pattern env context p =
     rbind (ok_or (Source (context @ debug_str p @ '': '' @ me_regex_error env p)) (me_regex env False p)) (\<lambda>_. Ok ())"

definition signal_condition :: "my_env \<Rightarrow> string \<Rightarrow> json \<Rightarrow> (string \<times> string) result" where
  "signal_condition env i v =
     (let context = ''MySQL execute-snapshot signal '' @ debug_str i;
          missing = Source (context @ '' has an invalid additional-condition'')
      in rbind (ok_or missing (Option.bind (json_get ''data-collection'' v) as_str)) (\<lambda>coll.
         rbind (ok_or missing (Option.bind (json_get ''filter'' v) as_str)) (\<lambda>flt.
         rbind (check_pattern env (context @ '' has invalid additional-condition collection '') coll) (\<lambda>_.
           Ok (coll, flt)))))"

definition parse_snapshot_signal :: "my_env \<Rightarrow> string \<Rightarrow> string \<Rightarrow> json \<Rightarrow> my_signal result" where
  "parse_snapshot_signal env i signal_type data =
     (let context = ''MySQL execute-snapshot signal '' @ debug_str i; collections = my_data_collections data in
      if signal_type = ''execute-snapshot''
      then
        if (case Option.bind (json_get ''type'' data) as_str of
              None \<Rightarrow> False | Some k \<Rightarrow> \<not> eq_ignore_ascii_case k ''incremental'')
        then Err (Source (context @ '' supports only type=incremental''))
        else if collections = [] then Err (Source (context @ '' has no data-collections''))
        else
          rbind (collect_results (check_pattern env (context @ '' has invalid data-collection pattern '')) collections)
            (\<lambda>_. rbind (case json_get ''additional-conditions'' data of
                          Some (JArray vs) \<Rightarrow> collect_results (signal_condition env i) vs
                        | _ \<Rightarrow> Ok []) (\<lambda>cs.
               Ok (MyExecute i collections (fold (\<lambda>(c, f). bt_insert c f) cs []))))
      else if signal_type = ''stop-snapshot'' then Ok (MyStop i collections)
      else if signal_type = ''pause-snapshot'' then Ok (MyPause i)
      else if signal_type = ''resume-snapshot'' then Ok (MyResume i)
      else Ok (MyUnsupported i signal_type))"

definition my_external_record :: "my_env \<Rightarrow> signal_record \<Rightarrow> my_signal result" where
  "my_external_record env r =
     (if trim (sg_id r) = [] \<or> trim (sg_type r) = []
      then Err (Source ''MySQL external signal requires non-empty id and type'')
      else parse_snapshot_signal env (sg_id r) (sg_type r) (sg_data r))"

definition my_signal_text :: "my_env \<Rightarrow> ('c, 'w) my_io \<Rightarrow> row \<Rightarrow> string \<Rightarrow> string result" where
  "my_signal_text env io row name =
     (case map_of row name of
        Some (DvString s) \<Rightarrow> Ok s
      | Some (DvJson j) \<Rightarrow> Ok (io_print io j)
      | Some (DvBytes bs) \<Rightarrow>
          ok_or (Source (''MySQL signal column '' @ name @ '' is not UTF-8: '' @ io_utf8_error io bs)) (from_utf8 bs)
      | Some v \<Rightarrow> Ok (io_print io (to_json (me_hex env) ''__rustium_unavailable'' v))
      | None \<Rightarrow> Err (Source (''MySQL signal table is missing column '' @ debug_str name)))"

definition my_parse_row :: "my_env \<Rightarrow> ('c, 'w) my_io \<Rightarrow> row \<Rightarrow> my_signal result" where
  "my_parse_row env io row =
     rbind (my_signal_text env io row ''id'') (\<lambda>i. rbind (my_signal_text env io row ''type'') (\<lambda>t.
     rbind (my_signal_text env io row ''data'') (\<lambda>d.
       case io_parse io d of
         Inl msg \<Rightarrow> Err (Source (''MySQL signal '' @ debug_str i @ '' has invalid JSON data: '' @ msg))
       | Inr j \<Rightarrow> parse_snapshot_signal env i t j)))"

section \<open>Keys\<close>

definition key_comparison :: "string list \<Rightarrow> string \<Rightarrow> string" where
  "key_comparison columns op =
     (if length columns = 1 then hd columns @ '' '' @ op @ '' ?''
      else ''('' @ join_with '', '' columns @ '') '' @ op @ '' (''
           @ join_with '', '' (replicate (length columns) ''?'') @ '')'')"

definition validate_key_width :: "string list \<Rightarrow> my_key \<Rightarrow> string \<Rightarrow> unit result" where
  "validate_key_width columns key boundary =
     (if length columns \<noteq> length key
      then Err (State (''MySQL incremental snapshot '' @ boundary @ '' key has '' @ show_nat (length key)
             @ '' values for '' @ show_nat (length columns) @ '' primary-key columns''))
      else Ok ())"

fun mysql_key_from_value :: "my_value \<Rightarrow> my_key_value result" where
  "mysql_key_from_value MvNull = Err (Source ''MySQL incremental snapshot primary key contains NULL'')"
| "mysql_key_from_value (MvInt i) = Ok (KvInt i)"
| "mysql_key_from_value (MvUInt u) = Ok (KvUInt u)"
| "mysql_key_from_value (MvFloat f) = Ok (KvFloat f)"
| "mysql_key_from_value (MvDouble f) = Ok (KvDouble f)"
| "mysql_key_from_value (MvBytes bs) = Ok (KvBytes bs)"
| "mysql_key_from_value (MvDate d) = Ok (KvDate d)"
| "mysql_key_from_value (MvTime t) = Ok (KvTime t)"

fun mysql_key_to_value :: "my_key_value \<Rightarrow> my_value" where
  "mysql_key_to_value (KvInt i) = MvInt i"
| "mysql_key_to_value (KvUInt u) = MvUInt u"
| "mysql_key_to_value (KvFloat f) = MvFloat f"
| "mysql_key_to_value (KvDouble f) = MvDouble f"
| "mysql_key_to_value (KvBytes bs) = MvBytes bs"
| "mysql_key_to_value (KvDate d) = MvDate d"
| "mysql_key_to_value (KvTime t) = MvTime t"

definition mysql_key_from_row :: "my_value list \<Rightarrow> nat list \<Rightarrow> my_key result" where
  "mysql_key_from_row row indices =
     collect_results (\<lambda>i. if i < length row then mysql_key_from_value (row ! i)
       else Err (Source (''MySQL incremental snapshot row has no primary-key column at index '' @ show_nat i))) indices"

text \<open>The value of a key column in a row of the binary log, by its index or its name.\<close>

definition names_field :: "nat \<Rightarrow> field_schema \<Rightarrow> string \<Rightarrow> bool" where
  "names_field index f name \<longleftrightarrow>
     (case column_index name of None \<Rightarrow> name = fs_name f | Some i \<Rightarrow> i = index)"

fun key_column_value :: "nat \<Rightarrow> field_schema \<Rightarrow> binlog_row \<Rightarrow> my_binlog_value option" where
  "key_column_value index f [] = None"
| "key_column_value index f ((name, value) # cols) =
     (if names_field index f name \<and> value \<noteq> None then value else key_column_value index f cols)"

fun binlog_key_columns :: "(nat \<times> field_schema) list \<Rightarrow> binlog_row \<Rightarrow> my_key option result" where
  "binlog_key_columns [] row = Ok (Some [])"
| "binlog_key_columns ((i, f) # fs) row =
     (if \<not> fs_primary_key f then binlog_key_columns fs row
      else
        (case key_column_value i f row of
           None \<Rightarrow> Ok None
         | Some (BvValue v) \<Rightarrow>
             rbind (mysql_key_from_value v) (\<lambda>k.
             rbind (binlog_key_columns fs row) (\<lambda>ks. Ok (map_option (\<lambda>ks. k # ks) ks)))
         | Some _ \<Rightarrow>
             Err (Source (''MySQL incremental snapshot primary-key column '' @ debug_str (fs_name f)
                    @ '' has an unsupported binlog value''))))"

definition mysql_key_from_binlog_row :: "binlog_row \<Rightarrow> event_schema \<Rightarrow> my_key option result" where
  "mysql_key_from_binlog_row row schema =
     rbind (binlog_key_columns (enumerate 0 (es_fields schema)) row) (\<lambda>key.
       if key = Some [] then Err (Source ''MySQL incremental snapshot table has no primary-key fields'')
       else Ok key)"

definition my_quote_identifier :: "string \<Rightarrow> string" where
  "my_quote_identifier identifier =
     CHR 0x60 # concat (map (\<lambda>c. if c = CHR 0x60 then [c, c] else [c]) identifier) @ [CHR 0x60]"

section \<open>Chunks\<close>

record my_chunk =
  mc_rows :: "(my_value list \<times> my_key) list"
  mc_maximum_key :: "my_key option"
  mc_low :: binlog_cursor
  mc_high :: binlog_cursor

definition my_collection_name :: "my_table_schema \<Rightarrow> string" where
  "my_collection_name t = mts_database t @ ''.'' @ mts_table t"

definition my_qualified :: "my_table_schema \<Rightarrow> string" where
  "my_qualified t = my_quote_identifier (mts_database t) @ ''.'' @ my_quote_identifier (mts_table t)"

text \<open>The first condition, in the order of the patterns, whose pattern matches; a broken pattern matches nothing.\<close>

definition chunk_condition :: "my_env \<Rightarrow> my_table_schema \<Rightarrow> my_progress \<Rightarrow> string option" where
  "chunk_condition env t p =
     map_option snd (find (\<lambda>(pattern, _). regex_matches (me_regex env) pattern (my_collection_name t))
       (yp_additional_conditions p))"

definition maximum_key_query :: "my_table_schema \<Rightarrow> string list \<Rightarrow> string option \<Rightarrow> string" where
  "maximum_key_query t columns condition =
     ''SELECT '' @ join_with '', '' columns @ '' FROM '' @ my_qualified t
     @ (case condition of None \<Rightarrow> [] | Some c \<Rightarrow> '' WHERE ('' @ c @ '')'')
     @ '' ORDER BY '' @ join_with '', '' (map (\<lambda>c. c @ '' DESC'') columns) @ '' LIMIT 1''"

definition chunk_query :: "my_table_schema \<Rightarrow> string list \<Rightarrow> string list \<Rightarrow> nat \<Rightarrow> string" where
  "chunk_query t columns predicates limit =
     ''SELECT * FROM '' @ my_qualified t @ '' WHERE '' @ join_with '' AND '' predicates
     @ '' ORDER BY '' @ join_with '', '' columns @ '' LIMIT '' @ show_nat limit"

text \<open>The predicates of a chunk and their arguments.\<close>

definition chunk_bounds ::
  "string list \<Rightarrow> string option \<Rightarrow> my_key option \<Rightarrow> my_key \<Rightarrow> (string list \<times> my_value list) result" where
  "chunk_bounds columns condition last_key maximum_key =
     rbind (case last_key of
              None \<Rightarrow> Ok ([], [])
            | Some k \<Rightarrow>
                rbind (validate_key_width columns k ''last'')
                  (\<lambda>_. Ok ([key_comparison columns ''>''], map mysql_key_to_value k))) (\<lambda>(above, above_args).
     rbind (validate_key_width columns maximum_key ''maximum'') (\<lambda>_.
       Ok ((case condition of None \<Rightarrow> [] | Some c \<Rightarrow> [''('' @ c @ '')'']) @ above @ [key_comparison columns ''<=''],
           above_args @ map mysql_key_to_value maximum_key)))"

definition key_indices :: "my_table_schema \<Rightarrow> nat list" where
  "key_indices t = map fst (filter (\<lambda>(_, f). fs_primary_key f) (enumerate 0 (es_fields (mts_event_schema t))))"

definition key_columns :: "my_table_schema \<Rightarrow> string list" where
  "key_columns t = map (my_quote_identifier \<circ> fs_name) (filter fs_primary_key (es_fields (mts_event_schema t)))"

definition chunk_maximum_key ::
  "my_env \<Rightarrow> ('c, 'w) my_io \<Rightarrow> 'c \<Rightarrow> my_table_schema \<Rightarrow> my_progress \<Rightarrow> ('w, my_key option) stateful" where
  "chunk_maximum_key env io c t p =
     (case yp_maximum_key p of
        Some k \<Rightarrow> sreturn (Some k)
      | None \<Rightarrow>
          sbind (my_query io c (maximum_key_query t (key_columns t) (chunk_condition env t p)) []) (\<lambda>res.
            slift (case res of
                     [] \<Rightarrow> Ok None
                   | row # _ \<Rightarrow> rbind (collect_results mysql_key_from_value row) (\<lambda>k. Ok (Some k)))))"

definition chunk_rows ::
  "my_env \<Rightarrow> my_config \<Rightarrow> ('c, 'w) my_io \<Rightarrow> 'c \<Rightarrow> my_table_schema \<Rightarrow> my_progress \<Rightarrow> my_key option \<Rightarrow>
   ('w, (my_value list \<times> my_key) list) stateful" where
  "chunk_rows env cfg io c t p maximum_key =
     (case maximum_key of
        None \<Rightarrow> sreturn []
      | Some k \<Rightarrow>
          sbind (slift (chunk_bounds (key_columns t) (chunk_condition env t p) (yp_last_key p) k))
            (\<lambda>(predicates, params).
          sbind (my_query io c (chunk_query t (key_columns t) predicates (myc_incremental_snapshot_chunk_size cfg))
                   params) (\<lambda>rows.
            slift (collect_results (\<lambda>row. rbind (mysql_key_from_row row (key_indices t)) (\<lambda>key. Ok (row, key))) rows))))"

definition read_incremental_chunk ::
  "my_env \<Rightarrow> my_config \<Rightarrow> ('c, 'w) my_io \<Rightarrow> u32 \<Rightarrow> my_table_schema \<Rightarrow> my_progress \<Rightarrow> ('w, my_chunk) stateful" where
  "read_incremental_chunk env cfg io source_server_id t p =
     (if key_columns t = []
      then slift (Err (Source (''MySQL incremental snapshot table '' @ my_collection_name t
                         @ '' requires a primary key'')))
      else
        sbind (io_connect io) (\<lambda>c.
        sbind (current_binlog_coordinates io c source_server_id) (\<lambda>low.
        sbind (chunk_maximum_key env io c t p) (\<lambda>maximum_key.
        sbind (chunk_rows env cfg io c t p maximum_key) (\<lambda>rows.
        sbind (current_binlog_coordinates io c source_server_id) (\<lambda>high.
        sbind (my_disconnect io c) (\<lambda>_.
          sreturn \<lparr>mc_rows = rows, mc_maximum_key = maximum_key, mc_low = cursor_of low,
                   mc_high = cursor_of high\<rparr>)))))))"

section \<open>The controller\<close>

definition MAX_MY_COMPLETED_SIGNAL_IDS :: nat where
  "MAX_MY_COMPLETED_SIGNAL_IDS = 1024"

record my_window =
  mw_collection :: string
  mw_schema :: my_table_schema
  mw_low :: binlog_cursor
  mw_high :: binlog_cursor
  mw_rows :: "(row \<times> my_key) list"
  mw_remaining_keys :: "my_key set"
  mw_maximum_key :: "my_key option"
  mw_last_key :: "my_key option"
  mw_row_count :: nat

record my_incremental =
  mi_progress :: "my_progress option"
  mi_window :: "my_window option"
  mi_event_serial :: u64
  mi_completed :: "string list"
  mi_state_dirty :: bool

definition my_incremental_new :: "my_progress option \<Rightarrow> string list \<Rightarrow> my_incremental" where
  "my_incremental_new progress completed =
     \<lparr>mi_progress = progress, mi_window = None, mi_event_serial = 0, mi_completed = completed,
      mi_state_dirty = False\<rparr>"

definition my_is_active :: "my_incremental \<Rightarrow> bool" where
  "my_is_active c \<longleftrightarrow>
     (case mi_progress c of None \<Rightarrow> False | Some p \<Rightarrow> \<not> yp_paused p) \<and> mi_window c = None"

definition observes_collection :: "table_key \<Rightarrow> my_incremental \<Rightarrow> bool" where
  "observes_collection key c \<longleftrightarrow>
     (case mi_window c of None \<Rightarrow> False | Some w \<Rightarrow> mw_collection w = fst key @ ''.'' @ snd key)"

definition discard_window :: "my_incremental \<Rightarrow> my_incremental" where
  "discard_window c = c\<lparr>mi_window := None\<rparr>"

definition window_reached :: "binlog_cursor \<Rightarrow> my_incremental \<Rightarrow> bool" where
  "window_reached cursor c \<longleftrightarrow>
     (case mi_window c of None \<Rightarrow> False | Some w \<Rightarrow> cursor_key (mw_high w) \<le> cursor_key cursor)"

definition mark_checkpointed :: "my_incremental \<Rightarrow> my_incremental" where
  "mark_checkpointed c = c\<lparr>mi_state_dirty := False\<rparr>"

definition my_remember_completed :: "string \<Rightarrow> my_incremental \<Rightarrow> my_incremental" where
  "my_remember_completed i c =
     (let ids = remove1 i (mi_completed c) @ [i]
      in c\<lparr>mi_completed := (if MAX_MY_COMPLETED_SIGNAL_IDS < length ids then tl ids else ids)\<rparr>)"

definition my_collection_patterns ::
  "my_env \<Rightarrow> string \<Rightarrow> string list \<Rightarrow> (string \<Rightarrow> bool) list result" where
  "my_collection_patterns env context patterns =
     collect_results (\<lambda>p. ok_or (Source (''invalid MySQL '' @ context @ '' collection pattern '' @ debug_str p
         @ '': '' @ me_regex_error env p)) (me_regex env False (anchored p))) patterns"

definition collection_matches_any :: "string \<Rightarrow> (string \<Rightarrow> bool) list \<Rightarrow> bool" where
  "collection_matches_any coll patterns \<longleftrightarrow> list_ex (\<lambda>m. m coll) patterns"

definition schema_for_collection :: "my_schema_map \<Rightarrow> string \<Rightarrow> my_table_schema option" where
  "schema_for_collection schemas coll = find (\<lambda>t. my_collection_name t = coll) (map snd schemas)"

definition my_expand_collections ::
  "my_env \<Rightarrow> my_config \<Rightarrow> my_schema_map \<Rightarrow> string list \<Rightarrow> string list result" where
  "my_expand_collections env cfg schemas patterns =
     rbind (my_collection_patterns env ''incremental snapshot'' patterns) (\<lambda>ps.
       let collections = remdups_adj (sort (filter (\<lambda>coll. collection_matches_any coll ps)
             (map my_collection_name (filter (\<lambda>t. signal_table_key cfg \<noteq> Some (my_table_key t)) (map snd schemas)))))
       in if collections = []
          then Err (Source ''MySQL incremental snapshot patterns select no captured tables'')
          else Ok collections)"

text \<open>The progress without the collections that match, or none when nothing is left to read.\<close>

definition stop_collections :: "(string \<Rightarrow> bool) \<Rightarrow> my_progress \<Rightarrow> my_progress" where
  "stop_collections m p =
     (let colls = yp_data_collections p; cur = yp_current_collection p;
          p1 = p\<lparr>yp_data_collections := filter (\<lambda>c. \<not> m c) colls,
                 yp_current_collection := length (filter (\<lambda>c. \<not> m c) (take cur colls))\<rparr>
      in if cur < length colls \<and> m (colls ! cur)
         then p1\<lparr>yp_offset := 0, yp_last_key := None, yp_maximum_key := None\<rparr> else p1)"

definition my_stop_snapshot :: "my_env \<Rightarrow> string list \<Rightarrow> my_incremental \<Rightarrow> unit result \<times> my_incremental" where
  "my_stop_snapshot env collections c =
     (case mi_progress c of
        None \<Rightarrow> (Ok (), c)
      | Some p \<Rightarrow>
          (let c0 = c\<lparr>mi_progress := None\<rparr> in
           if collections = []
           then (Ok (), (my_remember_completed (yp_signal_id p) (discard_window c0))\<lparr>mi_state_dirty := True\<rparr>)
           else
             (case my_collection_patterns env ''snapshot control'' collections of
                Inl e \<Rightarrow> (Err e, c0)
              | Inr ps \<Rightarrow>
                  (let p' = stop_collections (\<lambda>coll. collection_matches_any coll ps) p
                   in if length (yp_data_collections p') = length (yp_data_collections p) then (Ok (), c)
                      else if length (yp_data_collections p') \<le> yp_current_collection p'
                      then (Ok (), (my_remember_completed (yp_signal_id p) (discard_window c0))\<lparr>mi_state_dirty := True\<rparr>)
                      else (Ok (), (discard_window c0)\<lparr>mi_progress := Some p', mi_state_dirty := True\<rparr>)))))"

definition my_handle_signal ::
  "my_env \<Rightarrow> my_config \<Rightarrow> my_schema_map \<Rightarrow> my_signal \<Rightarrow> my_incremental \<Rightarrow> unit result \<times> my_incremental" where
  "my_handle_signal env cfg schemas signal c =
     (case signal of
        MyExecute i collections conditions \<Rightarrow>
          if i \<in> set (mi_completed c) \<or> (case mi_progress c of None \<Rightarrow> False | Some p \<Rightarrow> yp_signal_id p = i)
          then (Ok (), c)
          else if mi_progress c \<noteq> None then (Ok (), c)
          else
            (case my_expand_collections env cfg schemas collections of
               Inl e \<Rightarrow> (Err e, c)
             | Inr expanded \<Rightarrow>
                 (Ok (), c\<lparr>mi_progress :=
                     Some \<lparr>yp_signal_id = i, yp_data_collections = expanded,
                           yp_additional_conditions = conditions, yp_current_collection = 0, yp_offset = 0,
                           yp_last_key = None, yp_maximum_key = None, yp_chunk_sequence = 1, yp_paused = False\<rparr>,
                   mi_state_dirty := True\<rparr>))
      | MyStop i collections \<Rightarrow> my_stop_snapshot env collections c
      | MyPause i \<Rightarrow>
          (Ok (), (case mi_progress c of
                     Some p \<Rightarrow> if yp_paused p then c
                                else c\<lparr>mi_progress := Some (p\<lparr>yp_paused := True\<rparr>), mi_state_dirty := True\<rparr>
                   | None \<Rightarrow> c))
      | MyResume i \<Rightarrow>
          (Ok (), (case mi_progress c of
                     Some p \<Rightarrow> if \<not> yp_paused p then c
                                else c\<lparr>mi_progress := Some (p\<lparr>yp_paused := False\<rparr>), mi_state_dirty := True\<rparr>
                   | None \<Rightarrow> c))
      | MyUnsupported i t \<Rightarrow> (Ok (), c))"

section \<open>Windows\<close>

definition outside_collections :: "my_progress \<Rightarrow> rust_error" where
  "outside_collections p =
     State (''MySQL incremental snapshot collection index '' @ show_nat (yp_current_collection p)
       @ '' is outside '' @ show_nat (length (yp_data_collections p)) @ '' collections'')"

text \<open>A row of a chunk as it is delivered.\<close>

definition window_row :: "my_env \<Rightarrow> my_table_schema \<Rightarrow> my_value list \<times> my_key \<Rightarrow> (row \<times> my_key) result" where
  "window_row env t = (\<lambda>(values, key).
     rbind (convert_snapshot_row (me_values env) values (mts_event_schema t))
       (\<lambda>r. Ok (my_transform_row (me_digests env) (me_transformer env) t r, key)))"

definition open_window ::
  "my_env \<Rightarrow> string \<Rightarrow> my_table_schema \<Rightarrow> my_chunk \<Rightarrow> my_window result" where
  "open_window env coll t chunk =
     rbind (collect_results (window_row env t) (mc_rows chunk)) (\<lambda>rows.
       Ok \<lparr>mw_collection = coll, mw_schema = t, mw_low = mc_low chunk, mw_high = mc_high chunk,
           mw_rows = rows, mw_remaining_keys = snd ` set (mc_rows chunk), mw_maximum_key = mc_maximum_key chunk,
           mw_last_key = (if mc_rows chunk = [] then None else Some (snd (last (mc_rows chunk)))),
           mw_row_count = length (mc_rows chunk)\<rparr>)"

definition start_next_chunk ::
  "my_env \<Rightarrow> my_config \<Rightarrow> ('c, 'w) my_io \<Rightarrow> u32 \<Rightarrow> my_schema_map \<Rightarrow> (my_incremental \<times> 'w, unit) stateful" where
  "start_next_chunk env cfg io source_server_id schemas = (\<lambda>(c, w).
     (if mi_window c \<noteq> None then (Ok (), (c, w))
      else
        (case mi_progress c of
           None \<Rightarrow> (Ok (), (c, w))
         | Some p \<Rightarrow>
             if yp_paused p then (Ok (), (c, w))
             else if length (yp_data_collections p) \<le> yp_current_collection p
             then (Err (outside_collections p), (c, w))
             else
               (let coll = yp_data_collections p ! yp_current_collection p in
                case schema_for_collection schemas coll of
                  None \<Rightarrow>
                    (Err (Source (''MySQL incremental snapshot collection '' @ debug_str coll @ '' is not captured'')),
                     (c, w))
                | Some t \<Rightarrow>
                    (case read_incremental_chunk env cfg io source_server_id t p w of
                       (Inl e, w1) \<Rightarrow> (Err e, (c, w1))
                     | (Inr chunk, w1) \<Rightarrow>
                         (case open_window env coll t chunk of
                            Inl e \<Rightarrow> (Err e, (c, w1))
                          | Inr win \<Rightarrow> (Ok (), (c\<lparr>mi_window := Some win\<rparr>, w1))))))))"

text \<open>The keys of the rows of an event, before and after.\<close>

fun observed_images :: "event_schema \<Rightarrow> binlog_row option list \<Rightarrow> (my_key set, unit) stateful" where
  "observed_images schema [] ks = (Ok (), ks)"
| "observed_images schema (None # rs) ks = observed_images schema rs ks"
| "observed_images schema (Some r # rs) ks =
     (case mysql_key_from_binlog_row r schema of
        Inl e \<Rightarrow> (Err e, ks)
      | Inr None \<Rightarrow> observed_images schema rs ks
      | Inr (Some k) \<Rightarrow> observed_images schema rs (ks - {k}))"

fun observed_pairs ::
  "event_schema \<Rightarrow> (string + binlog_row option \<times> binlog_row option) list \<Rightarrow> (my_key set, unit) stateful" where
  "observed_pairs schema [] = sreturn ()"
| "observed_pairs schema (Inl msg # ps) = slift (Err (Source msg))"
| "observed_pairs schema (Inr (before, after) # ps) =
     sbind (observed_images schema [before, after]) (\<lambda>_. observed_pairs schema ps)"

definition observe_rows ::
  "table_key \<Rightarrow> binlog_cursor \<Rightarrow> rows_event \<Rightarrow> event_schema \<Rightarrow> (my_incremental, unit) stateful" where
  "observe_rows key cursor rows schema c =
     (case mi_window c of
        None \<Rightarrow> (Ok (), c)
      | Some w \<Rightarrow>
          if mw_collection w \<noteq> fst key @ ''.'' @ snd key \<or> cursor_key cursor \<le> cursor_key (mw_low w)
             \<or> cursor_key (mw_high w) < cursor_key cursor
          then (Ok (), c)
          else
            (case observed_pairs schema (re_pairs rows) (mw_remaining_keys w) of
               (res, ks) \<Rightarrow> (res, c\<lparr>mi_window := Some (w\<lparr>mw_remaining_keys := ks\<rparr>)\<rparr>)))"

definition incremental_position :: "source_position \<Rightarrow> u64 \<Rightarrow> source_position result" where
  "incremental_position base serial =
     (case base of
        MySql p \<Rightarrow> Ok (MySql (p\<lparr>my_event_serial := sat_add (my_event_serial p) serial, my_snapshot := False\<rparr>))
      | _ \<Rightarrow> Err (State ''MySQL incremental snapshot requires a MySQL position''))"

definition window_event ::
  "my_env \<Rightarrow> instant \<Rightarrow> my_window \<Rightarrow> source_position \<Rightarrow> u64 \<Rightarrow> row \<Rightarrow> change_event" where
  "window_event env now w position serial r =
     \<lparr>ev_id = my_event_id env (mts_database (mw_schema w)) position (mw_collection w) serial,
      ev_source =
        \<lparr>sm_connector = ''mysql'', sm_connector_name = me_connector_name env,
         sm_database = mts_database (mw_schema w), sm_schema = None, sm_table = Some (mts_table (mw_schema w)),
         sm_snapshot = True, sm_version = me_version env,
         sm_attributes = [(''rustium.snapshot.kind'', JString ''incremental'')]\<rparr>,
      ev_position = position, ev_transaction = None, ev_operation = Read, ev_before = None, ev_after = Some r,
      ev_schema = mts_event_schema (mw_schema w), ev_source_time = None, ev_observed_time = now\<rparr>"

text \<open>The output of the connector: the records that went into the channel to the runtime.\<close>

definition my_send :: "('c, 'w) my_io \<Rightarrow> source_record \<Rightarrow> ('s \<times> source_record list, unit) stateful" where
  "my_send io r = (\<lambda>(s, sent).
     if io_receiver io (length sent) then (Ok (), (s, sent @ [r])) else (Err Cancelled, (s, sent)))"

fun send_window ::
  "my_env \<Rightarrow> ('c, 'w) my_io \<Rightarrow> (nat \<Rightarrow> instant) \<Rightarrow> source_position \<Rightarrow> my_window \<Rightarrow> (row \<times> my_key) list \<Rightarrow>
   (my_incremental \<times> source_record list, unit) stateful" where
  "send_window env io clock base w [] s = (Ok (), s)"
| "send_window env io clock base w ((r, key) # rows) (c, sent) =
     (if key \<notin> mw_remaining_keys w then send_window env io clock base w rows (c, sent)
      else
        (let serial = sat_add (mi_event_serial c) 1; c1 = c\<lparr>mi_event_serial := serial\<rparr> in
         case incremental_position base serial of
           Inl e \<Rightarrow> (Err e, (c1, sent))
         | Inr position \<Rightarrow>
             sbind (my_send io (record_data (window_event env (clock (length sent)) w position serial r)))
               (\<lambda>_. send_window env io clock base w rows) (c1, sent)))"

text \<open>The progress after a window: the next chunk, the next collection, or none.\<close>

definition next_progress :: "my_config \<Rightarrow> my_window \<Rightarrow> my_progress \<Rightarrow> my_progress" where
  "next_progress cfg w p =
     (let maximum_key = (case yp_maximum_key p of None \<Rightarrow> mw_maximum_key w | Some k \<Rightarrow> Some k);
          complete = (maximum_key = None \<or> mw_last_key w = maximum_key
                      \<or> mw_row_count w < myc_incremental_snapshot_chunk_size cfg)
      in p\<lparr>yp_offset := 0, yp_chunk_sequence := sat_add (yp_chunk_sequence p) 1,
           yp_maximum_key := (if complete then None else maximum_key),
           yp_last_key := (if complete then None else mw_last_key w),
           yp_current_collection := (if complete then min (yp_current_collection p + 1) (2 ^ 64 - 1)
                                     else yp_current_collection p)\<rparr>)"

definition advance_incremental :: "my_config \<Rightarrow> my_window \<Rightarrow> my_progress \<Rightarrow> my_incremental \<Rightarrow> my_incremental" where
  "advance_incremental cfg w p c =
     (let next = next_progress cfg w p
      in if length (yp_data_collections next) \<le> yp_current_collection next
         then (my_remember_completed (yp_signal_id next) c)\<lparr>mi_progress := None\<rparr>
         else c\<lparr>mi_progress := Some next\<rparr>)"

definition window_checkpoint :: "my_schema_map \<Rightarrow> source_position \<Rightarrow> my_incremental \<Rightarrow> source_record" where
  "window_checkpoint schemas position c =
     (my_boundary_record position)\<lparr>sr_connector_state :=
        Some (my_encode_connector_state schemas (mi_progress c) (mi_completed c))\<rparr>"

definition finish_window ::
  "my_env \<Rightarrow> my_config \<Rightarrow> ('c, 'w) my_io \<Rightarrow> (nat \<Rightarrow> instant) \<Rightarrow> my_schema_map \<Rightarrow> source_position \<Rightarrow>
   (my_incremental \<times> source_record list, source_position) stateful" where
  "finish_window env cfg io clock schemas base = (\<lambda>(c, sent).
     (case mi_window c of
        None \<Rightarrow> (Err (State ''MySQL incremental snapshot has no pending window''), (c, sent))
      | Some w \<Rightarrow>
          (let c0 = c\<lparr>mi_window := None\<rparr> in
           case mi_progress c of
             None \<Rightarrow> (Err (State ''MySQL incremental snapshot window has no progress''), (c0, sent))
           | Some p \<Rightarrow>
               sbind (send_window env io clock base w (mw_rows w)) (\<lambda>_ (c1, sent1).
                 (let c2 = advance_incremental cfg w p c1;
                      serial = sat_add (mi_event_serial c2) 1;
                      c3 = c2\<lparr>mi_event_serial := serial\<rparr>
                  in case incremental_position base serial of
                       Inl e \<Rightarrow> (Err e, (c3, sent1))
                     | Inr position \<Rightarrow>
                         sbind (my_send io (window_checkpoint schemas position c3))
                           (\<lambda>_ (c4, sent2). (Ok position, (mark_checkpointed c4, sent2))) (c3, sent1)))
                 (c0, sent))))"

section \<open>The controller over a run\<close>

text \<open>
  While a collection is being read there is one, a window belongs to it, only keys of the chunk are left in
  the window, and no signal is both running and completed.
\<close>

definition my_incremental_inv :: "my_incremental \<Rightarrow> bool" where
  "my_incremental_inv c \<longleftrightarrow>
     (case mi_progress c of
        None \<Rightarrow> mi_window c = None
      | Some p \<Rightarrow>
          yp_current_collection p < length (yp_data_collections p) \<and> yp_signal_id p \<notin> set (mi_completed c)
          \<and> (\<forall>w. mi_window c = Some w \<longrightarrow>
               mw_collection w = yp_data_collections p ! yp_current_collection p
               \<and> mw_remaining_keys w \<subseteq> snd ` set (mw_rows w) \<and> mw_row_count w = length (mw_rows w)))
     \<and> distinct (mi_completed c) \<and> length (mi_completed c) \<le> MAX_MY_COMPLETED_SIGNAL_IDS"

inductive my_controller_step ::
  "my_env \<Rightarrow> my_config \<Rightarrow> ('c, 'w) my_io \<Rightarrow> my_incremental \<Rightarrow> my_incremental \<Rightarrow> bool"
  for env cfg io where
  step_signal: "my_handle_signal env cfg schemas signal c = (Ok (), c') \<Longrightarrow> my_controller_step env cfg io c c'"
| step_chunk: "start_next_chunk env cfg io server schemas (c, w) = (Ok (), (c', w')) \<Longrightarrow>
    my_controller_step env cfg io c c'"
| step_observe: "observe_rows key cursor rows schema c = (Ok (), c') \<Longrightarrow> my_controller_step env cfg io c c'"
| step_finish: "finish_window env cfg io clock schemas base (c, sent) = (Ok position, (c', sent')) \<Longrightarrow>
    my_controller_step env cfg io c c'"
| step_checkpoint: "my_controller_step env cfg io c (mark_checkpointed c)"
| step_reconnect: "my_controller_step env cfg io c (discard_window c)"

inductive my_controller_reach ::
  "my_env \<Rightarrow> my_config \<Rightarrow> ('c, 'w) my_io \<Rightarrow> my_incremental \<Rightarrow> my_incremental \<Rightarrow> bool"
  for env cfg io c0 where
  reach_start: "my_controller_reach env cfg io c0 c0"
| reach_step: "my_controller_reach env cfg io c0 c \<Longrightarrow> my_controller_step env cfg io c c' \<Longrightarrow>
    my_controller_reach env cfg io c0 c'"

lemma remembered:
  "distinct ids \<Longrightarrow> length ids \<le> MAX_MY_COMPLETED_SIGNAL_IDS \<Longrightarrow>
   distinct (mi_completed (my_remember_completed i (c\<lparr>mi_completed := ids\<rparr>)))
   \<and> length (mi_completed (my_remember_completed i (c\<lparr>mi_completed := ids\<rparr>))) \<le> MAX_MY_COMPLETED_SIGNAL_IDS"
  by (auto simp: my_remember_completed_def Let_def length_remove1 distinct_tl MAX_MY_COMPLETED_SIGNAL_IDS_def)

lemma remember_completed_inv:
  assumes "distinct (mi_completed c)" "length (mi_completed c) \<le> MAX_MY_COMPLETED_SIGNAL_IDS" "mi_window c = None"
    "mi_progress c = None"
  shows "my_incremental_inv ((my_remember_completed i c)\<lparr>mi_state_dirty := b\<rparr>)"
  using assms remembered [OF assms(1,2), of i c]
  by (simp add: my_incremental_inv_def) (simp add: my_remember_completed_def Let_def)

lemma remember_completed_simps:
  "i \<in> set (mi_completed (my_remember_completed i c))" "mi_progress (my_remember_completed i c) = mi_progress c"
  by (auto simp: my_remember_completed_def MAX_MY_COMPLETED_SIGNAL_IDS_def Let_def tl_append split: list.splits)

lemma stop_collections_pending:
  "drop (yp_current_collection (stop_collections m p)) (yp_data_collections (stop_collections m p))
     = filter (\<lambda>c. \<not> m c) (drop (yp_current_collection p) (yp_data_collections p))"
proof -
  have "yp_data_collections (stop_collections m p) = filter (\<lambda>c. \<not> m c) (yp_data_collections p)"
    "yp_current_collection (stop_collections m p)
      = length (filter (\<lambda>c. \<not> m c) (take (yp_current_collection p) (yp_data_collections p)))"
    by (simp_all add: stop_collections_def Let_def)
  moreover have "filter (\<lambda>c. \<not> m c) (yp_data_collections p)
      = filter (\<lambda>c. \<not> m c) (take (yp_current_collection p) (yp_data_collections p))
        @ filter (\<lambda>c. \<not> m c) (drop (yp_current_collection p) (yp_data_collections p))"
    by (metis append_take_drop_id filter_append)
  ultimately show ?thesis by simp
qed

lemma stop_collections_id: "yp_signal_id (stop_collections m p) = yp_signal_id p"
  by (simp add: stop_collections_def Let_def)

lemma stop_snapshot_inv:
  assumes "my_incremental_inv c" "my_stop_snapshot env colls c = (Ok (), c')"
  shows "my_incremental_inv c'"
proof (cases "mi_progress c")
  case None
  with assms show ?thesis by (simp add: my_stop_snapshot_def)
next
  case (Some p)
  let ?c0 = "discard_window (c\<lparr>mi_progress := None\<rparr>)"
  have finished: "my_incremental_inv ((my_remember_completed (yp_signal_id p) ?c0)\<lparr>mi_state_dirty := True\<rparr>)"
    using assms(1) by (intro remember_completed_inv) (simp_all add: my_incremental_inv_def discard_window_def)
  show ?thesis
  proof (cases "colls = []")
    case True
    with assms(2) Some finished show ?thesis by (simp add: my_stop_snapshot_def Let_def)
  next
    case False
    with assms(2) Some obtain ps where ps: "my_collection_patterns env ''snapshot control'' colls = Ok ps"
      by (auto simp: my_stop_snapshot_def Let_def split: sum.splits)
    let ?p = "stop_collections (\<lambda>coll. collection_matches_any coll ps) p"
    consider "c' = c" | "c' = (my_remember_completed (yp_signal_id p) ?c0)\<lparr>mi_state_dirty := True\<rparr>"
      | "yp_current_collection ?p < length (yp_data_collections ?p)" "c' = ?c0\<lparr>mi_progress := Some ?p, mi_state_dirty := True\<rparr>"
      using assms(2) Some False ps by (auto simp: my_stop_snapshot_def Let_def split: if_splits)
    then show ?thesis
    proof cases
      case 3
      with assms(1) Some show ?thesis by (simp add: my_incremental_inv_def discard_window_def stop_collections_id)
    qed (use assms(1) finished in auto)
  qed
qed

lemma expand_collections_neq_Nil: "my_expand_collections env cfg schemas ps = Ok colls \<Longrightarrow> colls \<noteq> []"
  by (auto simp: my_expand_collections_def rbind_Ok_iff Let_def split: if_splits)

lemma my_handle_signal_inv:
  assumes "my_incremental_inv c" "my_handle_signal env cfg schemas signal c = (Ok (), c')"
  shows "my_incremental_inv c'"
proof (cases signal)
  case (MyStop i colls)
  with assms stop_snapshot_inv show ?thesis by (simp add: my_handle_signal_def)
next
  case (MyExecute i colls conds)
  with assms expand_collections_neq_Nil show ?thesis
    by (auto simp: my_handle_signal_def my_incremental_inv_def split: if_splits option.splits sum.splits)
qed (use assms in \<open>auto simp: my_handle_signal_def my_incremental_inv_def split: option.splits if_splits\<close>)

lemma window_rows_keys:
  assumes "collect_results (window_row env t) rows = Ok rs"
  shows "map snd rs = map snd rows"
proof -
  from assms have "list_all2 (\<lambda>x y. window_row env t x = Ok y) rows rs"
    by (simp add: collect_results_Ok_iff)
  then show ?thesis
    by (induction rule: list_all2_induct) (auto simp: window_row_def rbind_Ok_iff split: prod.splits)
qed

lemma open_window_keys:
  assumes "open_window env coll t chunk = Ok w"
  shows "mw_collection w = coll \<and> mw_remaining_keys w = snd ` set (mw_rows w) \<and> mw_row_count w = length (mw_rows w)
    \<and> mw_low w = mc_low chunk \<and> mw_high w = mc_high chunk \<and> mw_schema w = t"
proof -
  from assms obtain rs where rs: "collect_results (window_row env t) (mc_rows chunk) = Ok rs" "mw_rows w = rs"
    "mw_remaining_keys w = snd ` set (mc_rows chunk)" "mw_row_count w = length (mc_rows chunk)" "mw_collection w = coll"
    "mw_low w = mc_low chunk" "mw_high w = mc_high chunk" "mw_schema w = t"
    by (auto simp: open_window_def rbind_Ok_iff)
  from window_rows_keys [OF rs(1)] have "snd ` set rs = snd ` set (mc_rows chunk)" "length rs = length (mc_rows chunk)"
    by (metis list.set_map, metis length_map)
  with rs show ?thesis by simp
qed

lemma start_next_chunk_window:
  assumes "start_next_chunk env cfg io server schemas (c, w) = (Ok (), (c', w'))"
  shows "c' = c \<or> (\<exists>p t chunk win. mi_window c = None \<and> mi_progress c = Some p
    \<and> yp_current_collection p < length (yp_data_collections p)
    \<and> read_incremental_chunk env cfg io server t p w = (Ok chunk, w')
    \<and> open_window env (yp_data_collections p ! yp_current_collection p) t chunk = Ok win
    \<and> c' = c\<lparr>mi_window := Some win\<rparr>)"
  using assms
  by (auto simp: start_next_chunk_def Let_def split: if_splits option.splits sum.splits prod.splits)

lemma start_next_chunk_inv:
  assumes "my_incremental_inv c" "start_next_chunk env cfg io server schemas (c, w) = (Ok (), (c', w'))"
  shows "my_incremental_inv c'"
  using start_next_chunk_window [OF assms(2)] assms(1) open_window_keys
  by (fastforce simp: my_incremental_inv_def)

lemma observed_images_subset: "observed_images schema rs ks = (r, ks') \<Longrightarrow> ks' \<subseteq> ks"
  by (induction schema rs ks arbitrary: r ks' rule: observed_images.induct)
     (auto split: sum.splits option.splits, blast+)

lemma observed_pairs_subset: "observed_pairs schema ps ks = (r, ks') \<Longrightarrow> ks' \<subseteq> ks"
proof (induction schema ps arbitrary: ks r ks' rule: observed_pairs.induct)
  case (3 schema before after ps)
  obtain y us where us: "observed_images schema [before, after] ks = (y, us)" by fastforce
  with 3 observed_images_subset [OF us] show ?case
    by (cases y) (auto simp: sbind_def split: prod.splits, blast+)
qed auto

lemma observe_rows_inv:
  assumes "my_incremental_inv c" "observe_rows key cursor rows schema c = (r, c')"
  shows "my_incremental_inv c'"
proof (cases "mi_window c")
  case None
  with assms show ?thesis by (simp add: observe_rows_def)
next
  case (Some w)
  obtain res ks where ks: "observed_pairs schema (re_pairs rows) (mw_remaining_keys w) = (res, ks)" by fastforce
  from assms(1) Some obtain p where p: "mi_progress c = Some p"
    by (auto simp: my_incremental_inv_def split: option.splits)
  with assms(1) Some have "mw_remaining_keys w \<subseteq> snd ` set (mw_rows w)" by (simp add: my_incremental_inv_def)
  with observed_pairs_subset [OF ks] have "ks \<subseteq> snd ` set (mw_rows w)" by (rule order_trans)
  with assms(1) Some p have "my_incremental_inv (c\<lparr>mi_window := Some (w\<lparr>mw_remaining_keys := ks\<rparr>)\<rparr>)"
    by (simp add: my_incremental_inv_def)
  with assms Some ks show ?thesis by (simp add: observe_rows_def split: if_splits)
qed

text \<open>The rows that a window sends: those whose keys are left, in order, with rising serial numbers.\<close>

definition left_rows :: "my_window \<Rightarrow> (row \<times> my_key) list" where
  "left_rows w = filter (\<lambda>(r, k). k \<in> mw_remaining_keys w) (mw_rows w)"

definition window_row_record :: "my_window \<Rightarrow> source_record \<Rightarrow> row \<times> my_key \<Rightarrow> bool" where
  "window_row_record w r rk \<longleftrightarrow>
     (\<exists>e. r = record_data e \<and> ev_operation e = Read \<and> ev_before e = None \<and> ev_after e = Some (fst rk)
          \<and> ev_schema e = mts_event_schema (mw_schema w) \<and> sm_snapshot (ev_source e))"

lemma send_window_Ok:
  "send_window env io clock base w rows (c, sent) = (Ok (), (c', sent')) \<Longrightarrow>
   \<exists>rs n. sent' = sent @ rs \<and> c' = c\<lparr>mi_event_serial := n\<rparr>
     \<and> list_all2 (window_row_record w) rs (filter (\<lambda>(r, k). k \<in> mw_remaining_keys w) rows)"
proof (induction rows arbitrary: c sent)
  case Nil
  then show ?case by (intro exI [of _ "[]"] exI [of _ "mi_event_serial c"]) simp
next
  case (Cons rk rows)
  obtain r k where rk: "rk = (r, k)" by (cases rk)
  show ?case
  proof (cases "k \<in> mw_remaining_keys w")
    case False
    with Cons show ?thesis by (simp add: rk)
  next
    case True
    let ?n = "sat_add (mi_event_serial c) 1"
    from Cons.prems True obtain pos where pos: "incremental_position base ?n = Ok pos"
      "send_window env io clock base w rows (c\<lparr>mi_event_serial := ?n\<rparr>,
          sent @ [record_data (window_event env (clock (length sent)) w pos ?n r)]) = (Ok (), (c', sent'))"
      by (auto simp: rk Let_def sbind_def my_send_def split: sum.splits if_splits)
    from Cons.IH [OF pos(2)] obtain rs n where
      "sent' = (sent @ [record_data (window_event env (clock (length sent)) w pos ?n r)]) @ rs"
      "c' = c\<lparr>mi_event_serial := n\<rparr>"
      "list_all2 (window_row_record w) rs (filter (\<lambda>(r, k). k \<in> mw_remaining_keys w) rows)" by auto
    moreover have "window_row_record w (record_data (window_event env now w pos m r)) rk" for now m
      unfolding window_row_record_def by (intro exI conjI, rule refl) (simp_all add: window_event_def rk)
    ultimately show ?thesis using True
      by (intro exI [of _ "record_data (window_event env (clock (length sent)) w pos ?n r) # rs"] exI [of _ n])
        (simp add: rk)
  qed
qed

lemma finish_window_Ok:
  assumes "finish_window env cfg io clock schemas base (c, sent) = (Ok position, (c', sent'))"
  obtains w p n m rs where "mi_window c = Some w" "mi_progress c = Some p"
    "c' = mark_checkpointed ((advance_incremental cfg w p (c\<lparr>mi_window := None, mi_event_serial := n\<rparr>))\<lparr>mi_event_serial := m\<rparr>)"
    "sent' = sent @ rs @ [window_checkpoint schemas position c']"
    "list_all2 (window_row_record w) rs (left_rows w)"
proof -
  from assms obtain w p where wp: "mi_window c = Some w" "mi_progress c = Some p"
    by (auto simp: finish_window_def Let_def split: option.splits)
  from assms wp obtain c1 sent1 where s1:
    "send_window env io clock base w (mw_rows w) (c\<lparr>mi_window := None\<rparr>, sent) = (Ok (), (c1, sent1))"
    by (auto simp: finish_window_def Let_def sbind_Ok_iff)
  from send_window_Ok [OF this] obtain rs n where rs: "sent1 = sent @ rs"
    "c1 = c\<lparr>mi_window := None, mi_event_serial := n\<rparr>" "list_all2 (window_row_record w) rs (left_rows w)"
    by (auto simp: left_rows_def)
  let ?c2 = "advance_incremental cfg w p c1"
  let ?c3 = "?c2\<lparr>mi_event_serial := sat_add (mi_event_serial ?c2) 1\<rparr>"
  have "position = position" by simp
  from assms wp s1 have "c' = mark_checkpointed ?c3" "sent' = sent1 @ [window_checkpoint schemas position ?c3]"
    by (auto simp: finish_window_def Let_def sbind_def my_send_def split: sum.splits if_splits)
  moreover have "window_checkpoint schemas position ?c3 = window_checkpoint schemas position (mark_checkpointed ?c3)"
    by (simp add: window_checkpoint_def mark_checkpointed_def)
  ultimately show ?thesis using rs wp that by simp
qed

lemma advance_incremental_inv:
  assumes "my_incremental_inv c" "mi_progress c = Some p" "mi_window c = None"
  shows "my_incremental_inv (mark_checkpointed ((advance_incremental cfg w p (c\<lparr>mi_event_serial := n\<rparr>))\<lparr>mi_event_serial := m\<rparr>))"
proof (cases "length (yp_data_collections (next_progress cfg w p)) \<le> yp_current_collection (next_progress cfg w p)")
  case True
  have "distinct (mi_completed c)" "length (mi_completed c) \<le> MAX_MY_COMPLETED_SIGNAL_IDS"
    using assms(1) by (simp_all add: my_incremental_inv_def)
  from remembered [OF this, of "yp_signal_id (next_progress cfg w p)" c] assms(3) True show ?thesis
    by (simp add: advance_incremental_def mark_checkpointed_def my_incremental_inv_def my_remember_completed_def Let_def)
next
  case False
  moreover have "yp_signal_id (next_progress cfg w p) = yp_signal_id p" by (simp add: next_progress_def Let_def)
  ultimately show ?thesis using assms
    by (simp add: advance_incremental_def mark_checkpointed_def my_incremental_inv_def Let_def)
qed

lemma finish_window_inv:
  assumes "my_incremental_inv c"
    "finish_window env cfg io clock schemas base (c, sent) = (Ok position, (c', sent'))"
  shows "my_incremental_inv c'"
proof -
  obtain w p n m where f: "mi_progress c = Some p"
    "c' = mark_checkpointed ((advance_incremental cfg w p (c\<lparr>mi_window := None, mi_event_serial := n\<rparr>))\<lparr>mi_event_serial := m\<rparr>)"
    using finish_window_Ok [OF assms(2)] by metis
  have "my_incremental_inv (c\<lparr>mi_window := None\<rparr>)"
    using assms(1) f(1) by (simp add: my_incremental_inv_def)
  from advance_incremental_inv [OF this, where cfg = cfg and w = w and n = n and m = m] f show ?thesis by simp
qed

lemma controller_step_inv: "my_controller_step env cfg io c c' \<Longrightarrow> my_incremental_inv c \<Longrightarrow> my_incremental_inv c'"
proof (induction rule: my_controller_step.induct)
  case (step_checkpoint c)
  then show ?case by (auto simp: mark_checkpointed_def my_incremental_inv_def split: option.splits)
next
  case (step_reconnect c)
  then show ?case by (auto simp: discard_window_def my_incremental_inv_def split: option.splits)
qed (auto intro: my_handle_signal_inv start_next_chunk_inv observe_rows_inv finish_window_inv)

text \<open>
  C40. The controller of incremental snapshots of MySQL keeps its state together, whatever signals, chunks,
  rows of the stream, finished windows, checkpoints and reconnections come in whatever order: while a snapshot
  runs there is a collection to read, a window belongs to it and holds only keys of its chunk, and the
  running signal is not among the completed ones, which are distinct and bounded.
\<close>

theorem my_controller_invariant:
  assumes "pred_option (\<lambda>p. yp_current_collection p < length (yp_data_collections p)
      \<and> yp_signal_id p \<notin> set completed) progress"
    and "distinct completed" "length completed \<le> MAX_MY_COMPLETED_SIGNAL_IDS"
    and "my_controller_reach env cfg io (my_incremental_new progress completed) c"
  shows "my_incremental_inv c"
  using assms(4)
proof (induction rule: my_controller_reach.induct)
  case reach_start
  with assms(1-3) show ?case by (cases progress) (auto simp: my_incremental_inv_def my_incremental_new_def)
qed (rule controller_step_inv)

text \<open>
  A stop signal for some collections leaves the others pending: what is still to be read, from the
  current collection on, is what was to be read before without the stopped collections, in the same order;
  a current collection that stays is continued at its last key, and the snapshot ends when nothing is left.
\<close>

theorem my_stop_keeps_pending:
  assumes "mi_progress c = Some p" "colls \<noteq> []" "yp_current_collection p < length (yp_data_collections p)"
    and "my_collection_patterns env ''snapshot control'' colls = Ok ps"
    and "my_handle_signal env cfg schemas (MyStop i colls) c = (Ok (), c')"
  shows "let pending = drop (yp_current_collection p) (yp_data_collections p);
             left = filter (\<lambda>coll. \<not> collection_matches_any coll ps) pending
         in (left = [] \<longrightarrow> mi_progress c' = None \<and> yp_signal_id p \<in> set (mi_completed c'))
          \<and> (left \<noteq> [] \<longrightarrow> (\<exists>p'. mi_progress c' = Some p'
               \<and> drop (yp_current_collection p') (yp_data_collections p') = left
               \<and> yp_signal_id p' = yp_signal_id p
               \<and> (\<not> collection_matches_any (hd pending) ps \<longrightarrow> yp_last_key p' = yp_last_key p)))"
proof -
  let ?m = "\<lambda>coll. collection_matches_any coll ps"
  let ?p = "stop_collections ?m p"
  let ?pending = "drop (yp_current_collection p) (yp_data_collections p)"
  let ?left = "filter (\<lambda>coll. \<not> ?m coll) ?pending"
  have pending: "drop (yp_current_collection ?p) (yp_data_collections ?p) = ?left"
    by (rule stop_collections_pending)
  have gone: "?left = [] \<longleftrightarrow> length (yp_data_collections ?p) \<le> yp_current_collection ?p"
    unfolding pending [symmetric] by simp
  have hd: "hd ?pending = yp_data_collections p ! yp_current_collection p"
    using assms(3) by (simp add: hd_drop_conv_nth)
  have keep: "\<not> ?m (hd ?pending) \<Longrightarrow> yp_last_key ?p = yp_last_key p"
    by (simp add: hd stop_collections_def Let_def)
  have run: "my_stop_snapshot env colls c = (Ok (), c')" using assms(5) by (simp add: my_handle_signal_def)
  show ?thesis
  proof (cases "length (yp_data_collections ?p) = length (yp_data_collections p)")
    case True
    have "yp_data_collections ?p = filter (\<lambda>coll. \<not> ?m coll) (yp_data_collections p)"
      by (simp add: stop_collections_def Let_def)
    with True have "\<forall>coll\<in>set (yp_data_collections p). \<not> ?m coll"
      by (metis length_filter_less less_irrefl)
    then have "?left = ?pending" by (auto simp: filter_id_conv dest: in_set_dropD)
    moreover have "?pending \<noteq> []" using assms(3) by simp
    moreover have "c' = c" using run assms(1,2,4) True by (simp add: my_stop_snapshot_def Let_def)
    ultimately show ?thesis using assms(1) by (simp add: Let_def)
  next
    case False
    show ?thesis
    proof (cases "?left = []")
      case True
      with run assms(1,2,4) False gone show ?thesis
        by (auto simp: my_stop_snapshot_def Let_def remember_completed_simps discard_window_def)
    next
      case left: False
      with run assms(1,2,4) False gone have "mi_progress c' = Some ?p"
        by (simp add: my_stop_snapshot_def Let_def) auto
      with left pending keep show ?thesis by (simp add: Let_def stop_collections_id)
    qed
  qed
qed

section \<open>What a window delivers\<close>

definition image_keys :: "event_schema \<Rightarrow> rows_event \<Rightarrow> my_key set" where
  "image_keys schema rows =
     {k. \<exists>b a r. Inr (b, a) \<in> set (re_pairs rows) \<and> (b = Some r \<or> a = Some r)
         \<and> mysql_key_from_binlog_row r schema = Ok (Some k)}"

lemma observed_images_Ok:
  "observed_images schema rs ks = (Ok (), ks') \<Longrightarrow>
   ks' = ks - {k. \<exists>r. Some r \<in> set rs \<and> mysql_key_from_binlog_row r schema = Ok (Some k)}"
proof (induction schema rs ks arbitrary: ks' rule: observed_images.induct)
  case (3 schema r rs ks)
  show ?case
  proof (cases "mysql_key_from_binlog_row r schema")
    case (Inl e)
    with 3(3) show ?thesis by simp
  next
    case (Inr k)
    show ?thesis
    proof (cases k)
      case None
      with 3(1) [OF Inr None] 3(3) Inr show ?thesis by auto
    next
      case (Some l)
      with 3(2) [OF Inr Some] 3(3) Inr show ?thesis by auto
    qed
  qed
qed auto

lemma observed_pairs_Ok:
  "observed_pairs schema ps ks = (Ok (), ks') \<Longrightarrow>
   ks' = ks - {k. \<exists>b a r. Inr (b, a) \<in> set ps \<and> (b = Some r \<or> a = Some r)
                   \<and> mysql_key_from_binlog_row r schema = Ok (Some k)}"
proof (induction schema ps arbitrary: ks ks' rule: observed_pairs.induct)
  case (3 schema before after ps)
  from 3(2) obtain us where us: "observed_images schema [before, after] ks = (Ok (), us)"
    "observed_pairs schema ps us = (Ok (), ks')" by (auto simp: sbind_Ok_iff)
  from observed_images_Ok [OF us(1)] 3(1) [OF us(2)] show ?case by auto
qed auto

text \<open>The rows of a table in the stream, with the cursors of their events.\<close>

abbreviation observe_all ::
  "table_key \<Rightarrow> event_schema \<Rightarrow> (binlog_cursor \<times> rows_event) list \<Rightarrow> (my_incremental, unit) stateful" where
  "observe_all key schema es \<equiv> sfor es (\<lambda>(cursor, rows). observe_rows key cursor rows schema)"

definition touched_keys :: "event_schema \<Rightarrow> my_window \<Rightarrow> (binlog_cursor \<times> rows_event) list \<Rightarrow> my_key set" where
  "touched_keys schema w es =
     {k. \<exists>(cursor, rows)\<in>set es. cursor_key (mw_low w) < cursor_key cursor
         \<and> cursor_key cursor \<le> cursor_key (mw_high w) \<and> k \<in> image_keys schema rows}"

lemma observe_rows_Ok:
  assumes "mi_window c = Some w" "mw_collection w = fst key @ ''.'' @ snd key"
    and "observe_rows key cursor rows schema c = (Ok (), c')"
  shows "c' = c\<lparr>mi_window := Some (w\<lparr>mw_remaining_keys := mw_remaining_keys w - touched_keys schema w [(cursor, rows)]\<rparr>)\<rparr>"
proof (cases "cursor_key cursor \<le> cursor_key (mw_low w) \<or> cursor_key (mw_high w) < cursor_key cursor")
  case True
  then have "touched_keys schema w [(cursor, rows)] = {}" by (auto simp: touched_keys_def)
  with True assms show ?thesis by (auto simp: observe_rows_def)
next
  case False
  then have "touched_keys schema w [(cursor, rows)] = image_keys schema rows" by (auto simp: touched_keys_def)
  with False assms show ?thesis
    by (auto simp: observe_rows_def image_keys_def dest!: observed_pairs_Ok split: prod.splits)
qed

lemma touched_keys_Cons: "touched_keys schema w (e # es) = touched_keys schema w [e] \<union> touched_keys schema w es"
  by (auto simp: touched_keys_def)

lemma observe_all_Ok:
  "mi_window c = Some w \<Longrightarrow> mw_collection w = fst key @ ''.'' @ snd key \<Longrightarrow> observe_all key schema es c = (Ok (), c') \<Longrightarrow>
   c' = c\<lparr>mi_window := Some (w\<lparr>mw_remaining_keys := mw_remaining_keys w - touched_keys schema w es\<rparr>)\<rparr>"
proof (induction es arbitrary: c w)
  case Nil
  then show ?case by (simp add: touched_keys_def)
next
  case (Cons e es)
  obtain cursor rows where e: "e = (cursor, rows)" by (cases e)
  from Cons.prems(3) obtain c1 where c1: "observe_rows key cursor rows schema c = (Ok (), c1)"
    "observe_all key schema es c1 = (Ok (), c')" by (auto simp: e sbind_Ok_iff)
  let ?w = "w\<lparr>mw_remaining_keys := mw_remaining_keys w - touched_keys schema w [e]\<rparr>"
  have w: "c1 = c\<lparr>mi_window := Some ?w\<rparr>" using observe_rows_Ok [OF Cons.prems(1,2) c1(1)] by (simp add: e)
  have "touched_keys schema ?w es = touched_keys schema w es" by (simp add: touched_keys_def)
  moreover have "mw_remaining_keys w - touched_keys schema w [e] - touched_keys schema w es
      = mw_remaining_keys w - touched_keys schema w (e # es)"
    unfolding touched_keys_Cons [of _ _ e es] by blast
  ultimately show ?case using Cons.IH [of c1 ?w] c1(2) w Cons.prems(2) by simp
qed

lemma list_all2_left_rows:
  assumes "list_all2 (window_row_record w) rs (left_rows w)" "r \<in> set rs"
  shows "\<exists>row k. (row, k) \<in> set (mw_rows w) \<and> k \<in> mw_remaining_keys w \<and> window_row_record w r (row, k)"
proof -
  from assms obtain i where i: "i < length rs" "r = rs ! i" by (auto simp: in_set_conv_nth)
  with assms(1) have "window_row_record w r (left_rows w ! i)" "left_rows w ! i \<in> set (left_rows w)"
    by (auto simp: list_all2_conv_all_nth)
  then show ?thesis by (cases "left_rows w ! i") (auto simp: left_rows_def)
qed


section \<open>A sample snapshot\<close>

text \<open>A connection that answers one statement after the other.\<close>

definition sample_io :: "(unit, (string + my_value list list) list) my_io" where
  "sample_io =
     \<lparr>io_connect = (\<lambda>w. (Ok (), w)), io_query = (\<lambda>_ _ _ w. (hd w, tl w)), io_disconnect = (\<lambda>_ w. (Inr (), w)),
      io_string = (\<lambda>v. case v of MvBytes bs \<Rightarrow> text_of bs | _ \<Rightarrow> []),
      io_u64 = (\<lambda>v. case v of MvUInt u \<Rightarrow> u | _ \<Rightarrow> 0), io_receiver = (\<lambda>_. True), io_parse = Inl,
      io_print = (\<lambda>_. []), io_utf8_error = (\<lambda>_. [])\<rparr>"

definition sample_status :: "u64 \<Rightarrow> string + my_value list list" where
  "sample_status pos = Inr [[MvBytes [98], MvUInt pos, MvNull, MvNull, MvBytes []]]"

definition sample_answers :: "(string + my_value list list) list" where
  "sample_answers = [sample_status 100, Inr [[MvInt 3]], Inr [[MvInt 1], [MvInt 2]], sample_status 200]"

definition sample_my_progress :: my_progress where
  "sample_my_progress =
     \<lparr>yp_signal_id = ''s1'', yp_data_collections = [''shop.orders''], yp_additional_conditions = [],
      yp_current_collection = 0, yp_offset = 0, yp_last_key = None, yp_maximum_key = None, yp_chunk_sequence = 1,
      yp_paused = False\<rparr>"

definition sample_cursor :: "u64 \<Rightarrow> binlog_cursor" where
  "sample_cursor pos = \<lparr>cu_filename = ''b'', cu_position = pos\<rparr>"

definition sample_window :: my_window where
  "sample_window =
     \<lparr>mw_collection = ''shop.orders'', mw_schema = sample_my_table ''orders'', mw_low = sample_cursor 100,
      mw_high = sample_cursor 200,
      mw_rows = [([(''id'', DvInt32 1)], [KvInt 1]), ([(''id'', DvInt32 2)], [KvInt 2])],
      mw_remaining_keys = {[KvInt 1], [KvInt 2]}, mw_maximum_key = Some [KvInt 3], mw_last_key = Some [KvInt 2],
      mw_row_count = 2\<rparr>"

lemma sample_char: "char_of (98 :: nat) = CHR ''b''"
  by code_simp

lemma sample_base_type: "trim ''int'' = ''int''"
  by code_simp

lemma sample_coordinates:
  "current_binlog_coordinates sample_io c server (sample_status pos # w)
     = (Ok \<lparr>bl_filename = ''b'', bl_position = pos, bl_gtid_set = None, bl_gtid_set_is_complete = True,
            bl_source_server_id = server\<rparr>, w)"
  by (simp add: current_binlog_coordinates_def sample_io_def sample_status_def executed_gtid_set_def sbind_def
      non_empty_def text_of_def sample_char)

lemma sample_window_row:
  "window_row sample_my_env (sample_my_table ''orders'') ([MvInt 1], [KvInt 1]) = Ok ([(''id'', DvInt32 1)], [KvInt 1])"
  "window_row sample_my_env (sample_my_table ''orders'') ([MvInt 2], [KvInt 2]) = Ok ([(''id'', DvInt32 2)], [KvInt 2])"
  by (simp_all add: window_row_def convert_snapshot_row_def sample_my_table_def sample_my_env_def my_transform_row_def
      transform_row_def transform_row_tables_def transform_value_tables_def my_base_type_def is_tinyint1_def sample_base_type
      matching_rule_def im_collect_def row_update_def to_ascii_lowercase_def)

lemma sample_key_columns: "key_columns (sample_my_table ''orders'') = [''`id`'']" "key_indices (sample_my_table ''orders'') = [0]"
  by (simp_all add: key_columns_def key_indices_def sample_my_table_def my_quote_identifier_def)

lemma sample_start:
  "start_next_chunk sample_my_env sample_all_tables sample_io 1 (mst_schemas sample_my_stream)
     (my_incremental_new (Some sample_my_progress) [], sample_answers)
   = (Ok (), ((my_incremental_new (Some sample_my_progress) [])\<lparr>mi_window := Some sample_window\<rparr>, []))"
proof -
  have target: "schema_for_collection (mst_schemas sample_my_stream) ''shop.orders'' = Some (sample_my_table ''orders'')"
    by (simp add: schema_for_collection_def sample_my_stream_def my_collection_name_def sample_my_table_def)
  have bounds: "chunk_bounds [''`id`''] None None [KvInt 3] = Ok ([key_comparison [''`id`''] ''<=''], [MvInt 3])"
    by (simp add: chunk_bounds_def validate_key_width_def)
  have none: "chunk_condition sample_my_env t sample_my_progress = None" for t
    by (simp add: chunk_condition_def sample_my_progress_def)
  have io: "io_connect sample_io w = (Ok (), w)" "my_disconnect sample_io c w = (Ok (), w)"
    "my_query sample_io c q ps (Inr rows # w) = (Ok rows, w)" for w c q ps rows
    by (simp_all add: sample_io_def my_disconnect_def my_query_def)
  have "read_incremental_chunk sample_my_env sample_all_tables sample_io 1 (sample_my_table ''orders'')
      sample_my_progress sample_answers
    = (Ok \<lparr>mc_rows = [([MvInt 1], [KvInt 1]), ([MvInt 2], [KvInt 2])], mc_maximum_key = Some [KvInt 3],
           mc_low = sample_cursor 100, mc_high = sample_cursor 200\<rparr>, [])"
    by (simp add: read_incremental_chunk_def sample_answers_def sample_coordinates sample_key_columns io
        chunk_maximum_key_def chunk_rows_def sample_my_progress_def none [unfolded sample_my_progress_def] bounds
        sbind_def mysql_key_from_row_def cursor_of_def sample_cursor_def)
  then show ?thesis
    by (simp add: start_next_chunk_def my_incremental_new_def target sample_my_progress_def open_window_def
        sample_window_row sample_window_def Let_def numeral_2_eq_2)
qed

theorem my_controller_invariant_witness:
  "my_incremental_inv ((my_incremental_new (Some sample_my_progress) [])\<lparr>mi_window := Some sample_window\<rparr>)"
proof -
  have progress: "pred_option (\<lambda>p. yp_current_collection p < length (yp_data_collections p)
      \<and> yp_signal_id p \<notin> set []) (Some sample_my_progress)" by (simp add: sample_my_progress_def)
  have reach: "my_controller_reach sample_my_env sample_all_tables sample_io (my_incremental_new (Some sample_my_progress) [])
      ((my_incremental_new (Some sample_my_progress) [])\<lparr>mi_window := Some sample_window\<rparr>)"
    by (rule reach_step [OF reach_start step_chunk]) (rule sample_start)
  show ?thesis by (rule my_controller_invariant [OF progress _ _ reach]) simp_all
qed

theorem my_stop_keeps_pending_witness:
  "mi_progress (snd (my_handle_signal sample_my_env sample_all_tables [] (MyStop ''x'' [''shop.orders''])
      (my_incremental_new (Some (sample_my_progress\<lparr>yp_data_collections := [''shop.audit'', ''shop.orders'']\<rparr>)) [])))
    = Some (sample_my_progress\<lparr>yp_data_collections := [''shop.audit'']\<rparr>)"
proof -
  let ?p = "sample_my_progress\<lparr>yp_data_collections := [''shop.audit'', ''shop.orders'']\<rparr>"
  let ?c = "my_incremental_new (Some ?p) []"
  let ?ps = "[\<lambda>t. anchored t = anchored ''shop.orders'']"
  have ps: "my_collection_patterns sample_my_env ''snapshot control'' [''shop.orders''] = Ok ?ps"
    by (simp add: my_collection_patterns_def sample_my_env_def)
  have stopped: "stop_collections (\<lambda>coll. collection_matches_any coll ?ps) ?p
      = sample_my_progress\<lparr>yp_data_collections := [''shop.audit'']\<rparr>"
    by (simp add: stop_collections_def collection_matches_any_def anchored_def sample_my_progress_def)
  have selectors: "yp_current_collection sample_my_progress = 0" "yp_signal_id sample_my_progress = ''s1''"
    by (simp_all add: sample_my_progress_def)
  have run: "my_handle_signal sample_my_env sample_all_tables [] (MyStop ''x'' [''shop.orders'']) ?c
    = (Ok (), ?c\<lparr>mi_progress := Some (sample_my_progress\<lparr>yp_data_collections := [''shop.audit'']\<rparr>), mi_window := None,
         mi_state_dirty := True\<rparr>)"
    by (simp add: my_handle_signal_def my_stop_snapshot_def my_incremental_new_def discard_window_def Let_def ps stopped
        selectors)
  have "mi_progress ?c = Some ?p" "[''shop.orders''] \<noteq> []" "yp_current_collection ?p < length (yp_data_collections ?p)"
    by (simp_all add: my_incremental_new_def sample_my_progress_def)
  from my_stop_keeps_pending [OF this ps run] run show ?thesis by simp
qed


end
