(* ===== verification/Spec2Isabelle.thy ===== *)
theory Spec2Isabelle
  imports Runtime_Lifecycle Pg_Run Json_Conformance Bridge_Delivery My_Snapshot
begin

text \<open>
  Rustium is a change-data-capture runtime: a source connector reads row changes from a database,
  the runtime encodes them, writes them to a sink and, when the sink has made them durable, saves a
  checkpoint and acknowledges the position to the source. This library models the parts of it that
  carry that promise, and proves what they owe to each other. All paths below are under
  \<^verbatim>\<open>src/crates\<close>.

  The parts and their theories.

  \<^item> \<^verbatim>\<open>Rustium_Prelude\<close>, \<^verbatim>\<open>Rust_Text\<close>, \<^verbatim>\<open>Serde_Json\<close>: the machine integers, the error and result
    types, state passing (\<^verbatim>\<open>sbind\<close>, \<^verbatim>\<open>slift\<close>, \<^verbatim>\<open>sfor\<close>), ordered association maps, the text functions of
    the Rust library on byte strings, and what derived serialisers do with the fields of a struct.
  \<^item> \<^verbatim>\<open>Core_Event\<close> (\<^verbatim>\<open>rustium-core/src/event.rs\<close>): values, the six source positions and their order, the
    identity of events, records. The derived order of positions is a strict partial order, and the
    JSON document of a position determines it.
  \<^item> \<^verbatim>\<open>Checkpoint_Store\<close> (\<^verbatim>\<open>rustium-core/src/traits.rs\<close>, \<^verbatim>\<open>rustium-state/src/lib.rs\<close>): checkpoints, their
    document, and the SQLite store with a fault at every call of the database. The contract of a
    store is a locale; SQLite is an interpretation, and refines a map from names to checkpoints.
  \<^item> \<^verbatim>\<open>Core_Signal\<close> (\<^verbatim>\<open>rustium-core/src/signal.rs\<close>): the bounded channel of signals and their
    acknowledgements, as a step relation.
  \<^item> \<^verbatim>\<open>Core_Runtime\<close>, \<^verbatim>\<open>Runtime_Delivery\<close>, \<^verbatim>\<open>Runtime_Lifecycle\<close> (\<^verbatim>\<open>rustium-core/src/runtime.rs\<close>): the
    pending batch, the delivery with its retries, the select loop, start-up and shutdown. The
    delivery guarantee (what is acknowledged is checkpointed, what is checkpointed is written) holds
    at every moment of every run; a run returns when it is cancelled or the source ends; the next run
    starts from the record the last one saved.
  \<^item> \<^verbatim>\<open>Column_Transform\<close> (\<^verbatim>\<open>rustium-column-transform\<close>, the rules of \<^verbatim>\<open>rustium-config/src/lib.rs\<close>): which
    rule applies to a column, masking, hashing and truncation.
  \<^item> \<^verbatim>\<open>Connector_State\<close> (\<^verbatim>\<open>schema_history.rs\<close> of PostgreSQL and MySQL, \<^verbatim>\<open>state.rs\<close> of SQL Server): the
    state documents, their codecs and the round trip through a checkpoint.
  \<^item> \<^verbatim>\<open>Pg_Schema\<close>, \<^verbatim>\<open>Pg_Values\<close> (\<^verbatim>\<open>rustium-postgresql/src/source.rs\<close>): catalog and relation schemas and the
    conversion of every PostgreSQL text value, with the parsers of arrays, hstore, intervals, money
    and vectors.
  \<^item> \<^verbatim>\<open>Pg_Snapshot\<close>, \<^verbatim>\<open>Pg_Window\<close> (\<^verbatim>\<open>rustium-postgresql/src/incremental_snapshot.rs\<close>): the controller of
    incremental snapshots, its invariant, and the reconciliation of a chunk with the stream.
  \<^item> \<^verbatim>\<open>Pg_Stream\<close> (\<^verbatim>\<open>StreamingState\<close> of \<^verbatim>\<open>source.rs\<close>): the conversion of each replication message into a
    record. A replay after a crash emits exactly what the crash cut off.
  \<^item> \<^verbatim>\<open>Pg_Server\<close> (\<^verbatim>\<open>validate_source\<close>, \<^verbatim>\<open>resolve_resume_slot\<close>, \<^verbatim>\<open>ensure_publication\<close>,
    \<^verbatim>\<open>apply_replica_identity\<close>, \<^verbatim>\<open>lock_snapshot_tables\<close> and others): what the connector asks of the
    server before it streams, statement by statement.
  \<^item> \<^verbatim>\<open>Pg_Source\<close> (\<^verbatim>\<open>run_snapshot\<close>, \<^verbatim>\<open>snapshot_table\<close>, the retry budget, \<^verbatim>\<open>SlotXminTracker\<close>): the initial
    snapshot with its paging loop.
  \<^item> \<^verbatim>\<open>Pg_Run\<close> (\<^verbatim>\<open>run\<close> of \<^verbatim>\<open>source.rs\<close>, \<^verbatim>\<open>file_signal.rs\<close>): the start of a run and each arm of its select loop
    as one step on the composed state of stream, controller and output.
  \<^item> \<^verbatim>\<open>Json_Format\<close>, \<^verbatim>\<open>Json_Conformance\<close> (\<^verbatim>\<open>rustium-format-json/src/lib.rs\<close>): the native document, the Debezium
    envelope with the source block of every connector, tombstones, and the JSON schemas of keys and
    payloads. Every payload and key conforms to the schema attached to it.
  \<^item> \<^verbatim>\<open>Debezium_Bridge\<close>, \<^verbatim>\<open>Bridge_Delivery\<close> (\<^verbatim>\<open>rustium-debezium/src/source.rs\<close>): the reading of Debezium
    documents, the processing of HTTP requests and Kafka messages with the wait for the acknowledgement of
    the runtime. What is answered with success, or committed to Kafka, has been acknowledged.
  \<^item> \<^verbatim>\<open>My_Values\<close>, \<^verbatim>\<open>My_Ddl\<close> (\<^verbatim>\<open>rustium-mysql/src/source.rs\<close> and \<^verbatim>\<open>schema_history.rs\<close>): the conversion of MySQL
    values with enumerations, sets and partial JSON updates, and the replay of schema changes on the
    schemas, whose result survives the round trip through the checkpoint.
  \<^item> \<^verbatim>\<open>My_Stream\<close> (\<^verbatim>\<open>StreamingState\<close> of \<^verbatim>\<open>rustium-mysql/src/source.rs\<close>): positions, transactions and the
    conversion of each event of the binary log. Reading the log again from the file of a checkpoint gives
    exactly the records behind the checkpoint, if every statement after it is read with its table maps;
    two further theorems show what happens to statements that change several tables.
  \<^item> \<^verbatim>\<open>My_Snapshot\<close> (\<^verbatim>\<open>MySqlIncrementalSnapshot\<close>): signals, chunks read between two coordinates of the binary log,
    and the window in which rows of the stream displace rows of the chunk, with its invariant and the
    consistency of the rows that are emitted.

  State. A component's state is a record with the fields of the struct; an operation is a function
  that returns its result with the new state, and an error is a value (\<^verbatim>\<open>Err\<close>, with the error type of
  \<^verbatim>\<open>rustium-core/src/error.rs\<close>) beside the state reached until then. A select loop is a function over the
  list of the events it takes, in any order, so that every interleaving is a list. Where two tasks run
  beside each other (the signal channel) the interleaving is an inductive step relation. Logging is
  left out everywhere.

  What is not under \<^verbatim>\<open>src\<close> is a parameter, a field of an environment record: the database connection (a
  function from a statement and a world to an answer or an error text), the replication stream (a list
  of messages), the regular expressions (a function from a pattern to a test, or none), the digests,
  the JSON parser and printer, the decimal parser, the SQL tokenizer and parser (which hand over tokens
  and syntax trees), the cache of table maps of the MySQL client, the acknowledgements a bridge waits for,
  the clock and the cancellation of waits (functions of a step counter). Hypotheses about them are stated
  in the theorems that use them, each with a witness on concrete functions; those that matter are that a
  snapshot transaction answers the same query from the same rows, that the messages of a stream come in
  the order of their positions, and that a chunk of an incremental snapshot was read at one moment
  between its two coordinates.

  Bounds and loops. Machine integers are words, and additions wrap or saturate where the code's do.
  The retry loops of the runtime take the number of remaining tries as their measure, and a negative
  setting, which retries for ever, is an option-valued partial function; the paging loop of a table
  and the loop that closes read-only windows at a commit are option-valued partial functions too, and
  the paging loop is proved to return. The parser of array texts takes twice the length of the text
  as fuel: every call consumes a character or descends into one. The bridge unwraps at most four
  levels of schema and payload envelopes, as the code does. The removal of a slot tries 30 times,
  as the code does.

  What the theorems found is listed with the manifest: among it, that the guard against moving
  backwards forgets the position after each delivery, that a restart skips the rows of a transaction that
  overlaps an earlier committed one, that a MySQL run resumed inside a statement over several tables
  cannot continue, and that a batch behind the bridge that timed out is refused for good.

  Not modelled: opening connections (URLs, TLS, initial statements) and timers; the reading of
  structs from JSON arrays, which \<^verbatim>\<open>serde\<close> also accepts; the configuration file, its defaults and most of
  its checks, and the import of Debezium properties; of MySQL the select loop, the initial snapshot with
  the discovery of tables, the validation of the server and the signal file; the sources of SQL Server,
  Oracle and MongoDB, whose positions (and, for SQL Server, state documents) are modelled; Avro and
  Protobuf; sinks, the Kafka signal consumer, the HTTP server and the command line, which only pass data
  between a library and the parts above.
\<close>

end
